(* ===== verification/Prelude.thy ===== *)
theory Prelude
  imports Main "HOL-Library.Sublist" "HOL-Library.State_Monad" "HOL-Library.Monad_Syntax"
begin

text \<open>
  Shared vocabulary of the development.
  \<^item> \<open>result\<close>: the \<open>Result<T, E>\<close> of packages/shared/src/result.ts, \<open>Inl\<close> for
    \<open>err\<close> and \<open>Inr\<close> for \<open>ok\<close>.
  \<^item> epoch seconds are unbounded integers (the code keeps them in JavaScript numbers far below
    the 2^53 limit), strings are character lists.
  \<^item> JavaScript string operations the source uses: \<open>startsWith\<close> is \<open>prefix\<close>,
    \<open>endsWith\<close> is \<open>suffix\<close>, \<open>includes\<close> is \<open>sublist\<close> of
    HOL-Library.Sublist; \<open>indexOf\<close>, \<open>split\<close> and \<open>join\<close> are defined here.
  \<^item> the collections of rewrite rules that the component theories extend.
\<close>

named_theorems kv_views \<open>what a store operation does to the live view of the store\<close>
named_theorems run_simps \<open>unfolding of state-passing operations\<close>

type_synonym seconds = int
type_synonym ('a, 'e) result = "'e + 'a"

definition is_ok :: "('a, 'e) result \<Rightarrow> bool" where
  "is_ok r = (case r of Inl _ \<Rightarrow> False | Inr _ \<Rightarrow> True)"

lemma is_ok_simps [simp]: "is_ok (Inr v)" "\<not> is_ok (Inl e)"
  by (simp_all add: is_ok_def)

lemma is_ok_iff: "is_ok r \<longleftrightarrow> (\<exists>v. r = Inr v)"
  by (cases r) (simp_all add: is_ok_def)

section \<open>Strings\<close>

fun index_of :: "string \<Rightarrow> string \<Rightarrow> nat option" where
  "index_of p s =
     (if prefix p s then Some 0
      else case s of [] \<Rightarrow> None | _ # cs \<Rightarrow> map_option Suc (index_of p cs))"

declare index_of.simps [simp del]

lemma index_of_Some_split:
  "index_of p s = Some i \<Longrightarrow> s = take i s @ p @ drop (i + length p) s \<and> i + length p \<le> length s"
proof (induction p s arbitrary: i rule: index_of.induct)
  case (1 p s)
  show ?case
  proof (cases "prefix p s")
    case True
    then show ?thesis using "1.prems" by (auto simp: index_of.simps [of p s] prefix_def)
  next
    case False
    then obtain c cs j where s: "s = c # cs" and j: "index_of p cs = Some j" "i = Suc j"
      using "1.prems" by (auto simp: index_of.simps [of p s] split: list.splits)
    have "cs = take j cs @ p @ drop (j + length p) cs \<and> j + length p \<le> length cs"
      using "1.IH" [OF False s j(1)] .
    then show ?thesis using s j(2) by auto
  qed
qed

lemma index_of_skip:
  "x \<notin> set s \<Longrightarrow> index_of (x # p) (s @ (x # p) @ t) = Some (length s)"
proof (induction s)
  case Nil
  then show ?case by (simp add: index_of.simps)
next
  case (Cons c cs)
  then show ?case by (auto simp: index_of.simps [of "x # p" "c # cs @ x # p @ t"])
qed

lemma index_of_None_iff: "index_of p s = None \<longleftrightarrow> \<not> sublist p s"
proof (induction s)
  case Nil
  then show ?case by (simp add: index_of.simps)
next
  case (Cons c cs)
  then show ?case by (simp add: index_of.simps [of p "c # cs"] sublist_Cons_right)
qed

text \<open>\<open>s.split(c)\<close> for a one-character separator, and \<open>xs.join(c)\<close>.\<close>

fun split_on :: "char \<Rightarrow> string \<Rightarrow> string list" where
  "split_on c [] = [[]]"
| "split_on c (x # xs) =
     (if x = c then [] # split_on c xs
      else case split_on c xs of [] \<Rightarrow> [[x]] | w # ws \<Rightarrow> (x # w) # ws)"

fun join_with :: "string \<Rightarrow> string list \<Rightarrow> string" where
  "join_with sep [] = []"
| "join_with sep [w] = w"
| "join_with sep (w # ws) = w @ sep @ join_with sep ws"

lemma split_on_nonempty [simp]: "split_on c s \<noteq> []"
  by (induction s) (auto split: list.splits)

lemma split_on_no_sep: "c \<notin> set w \<Longrightarrow> split_on c w = [w]"
  by (induction w) auto

lemma split_on_append:
  "c \<notin> set w \<Longrightarrow> split_on c (w @ c # s) = w # split_on c s"
  by (induction w) auto

lemma split_on_join:
  "ws \<noteq> [] \<Longrightarrow> (\<And>w. w \<in> set ws \<Longrightarrow> c \<notin> set w) \<Longrightarrow> split_on c (join_with [c] ws) = ws"
proof (induction ws rule: induct_list012)
  case (3 w v ws)
  have ih: "split_on c (join_with [c] (v # ws)) = v # ws"
    using "3.prems"(2) by (intro "3.IH"(2)) auto
  have "c \<notin> set w" using "3.prems"(2) by simp
  then have "split_on c (w @ c # join_with [c] (v # ws)) = w # split_on c (join_with [c] (v # ws))"
    by (rule split_on_append)
  then show ?case using ih by simp
qed (auto simp: split_on_no_sep)

lemma split_on_set: "w \<in> set (split_on c s) \<Longrightarrow> c \<notin> set w"
proof (induction s arbitrary: w)
  case (Cons x xs)
  then show ?case by (cases "split_on c xs") (auto split: if_splits)
qed simp

definition char_between :: "char \<Rightarrow> char \<Rightarrow> char \<Rightarrow> bool" where
  "char_between lo hi c = (of_char lo \<le> (of_char c :: nat) \<and> (of_char c :: nat) \<le> of_char hi)"

abbreviation is_digit :: "char \<Rightarrow> bool" where "is_digit \<equiv> char_between CHR ''0'' CHR ''9''"
abbreviation is_lower :: "char \<Rightarrow> bool" where "is_lower \<equiv> char_between CHR ''a'' CHR ''z''"
abbreviation is_upper :: "char \<Rightarrow> bool" where "is_upper \<equiv> char_between CHR ''A'' CHR ''Z''"

text \<open>\<open>toLowerCase\<close> and \<open>toUpperCase\<close> on the ASCII letters; other characters are kept.\<close>

definition lower_char :: "char \<Rightarrow> char" where
  "lower_char c = (if is_upper c then char_of ((of_char c :: nat) + 32) else c)"

definition upper_char :: "char \<Rightarrow> char" where
  "upper_char c = (if is_lower c then char_of ((of_char c :: nat) - 32) else c)"

definition to_lower :: "string \<Rightarrow> string" where "to_lower = map lower_char"
definition to_upper :: "string \<Rightarrow> string" where "to_upper = map upper_char"

lemma length_to_lower [simp]: "length (to_lower s) = length s"
  by (simp add: to_lower_def)

section \<open>Lists and options\<close>

lemma find_Some_iff': "List.find P xs = Some x \<Longrightarrow> x \<in> set xs \<and> P x"
  by (induction xs) (auto split: if_splits)

lemma find_None_iff': "List.find P xs = None \<longleftrightarrow> (\<forall>x\<in>set xs. \<not> P x)"
  by (induction xs) auto

section \<open>State-passing operations\<close>

text \<open>
  Operations over a component's state are values of the \<open>state\<close> type of
  HOL-Library.State_Monad. \<open>reads\<close>, \<open>modifies\<close> and \<open>mapM_unit\<close> are the three shapes
  the use cases need besides \<open>bind\<close> and \<open>return\<close>.
\<close>

definition reads :: "('s \<Rightarrow> 'a) \<Rightarrow> ('s, 'a) state" where
  "reads f = State (\<lambda>s. (f s, s))"

definition modifies :: "('s \<Rightarrow> 's) \<Rightarrow> ('s, unit) state" where
  "modifies f = State (\<lambda>s. ((), f s))"

lemma run_reads [simp, run_simps]: "run_state (reads f) s = (f s, s)"
  by (simp add: reads_def)

lemma run_modifies [simp, run_simps]: "run_state (modifies f) s = ((), f s)"
  by (simp add: modifies_def)

fun mapM_unit :: "('a \<Rightarrow> ('s, 'b) state) \<Rightarrow> 'a list \<Rightarrow> ('s, unit) state" where
  "mapM_unit f [] = State_Monad.return ()"
| "mapM_unit f (x # xs) = do { _ \<leftarrow> f x; mapM_unit f xs }"

text \<open>\<open>Promise.all(xs.map(f))\<close>, the calls made in list order.\<close>

fun gather :: "('a \<Rightarrow> ('s, 'b) state) \<Rightarrow> 'a list \<Rightarrow> ('s, 'b list) state" where
  "gather f [] = State_Monad.return []"
| "gather f (x # xs) = do { y \<leftarrow> f x; ys \<leftarrow> gather f xs; State_Monad.return (y # ys) }"

text \<open>A step that keeps \<open>P\<close> keeps it over a whole list of calls.\<close>

lemma mapM_invariant:
  assumes "\<And>x s. x \<in> set xs \<Longrightarrow> P s \<Longrightarrow> P (snd (run_state (f x) s))" and "P s"
  shows "P (snd (run_state (mapM_unit f xs) s))"
  using assms
proof (induction xs arbitrary: s)
  case (Cons x xs)
  have "P (snd (run_state (f x) s))" using Cons.prems by simp
  then have "P (snd (run_state (mapM_unit f xs) (snd (run_state (f x) s))))"
    using Cons.IH Cons.prems(1) by simp
  then show ?case by (simp add: case_prod_beta)
qed simp

text \<open>
  The frame of an operation: every observation it does not touch is unchanged. \<open>keeps obs m\<close>
  is closed under the monad, so a use case inherits the frame of its calls.
\<close>

definition keeps :: "('s \<Rightarrow> 'o) \<Rightarrow> ('s, 'a) state \<Rightarrow> bool" where
  "keeps obs m = (\<forall>s. obs (snd (run_state m s)) = obs s)"

lemma keepsD: "keeps obs m \<Longrightarrow> run_state m s = (a, s') \<Longrightarrow> obs s' = obs s"
  by (metis keeps_def snd_conv)

lemma keeps_run: "keeps obs m \<Longrightarrow> obs (snd (run_state m s)) = obs s"
  by (simp add: keeps_def)

lemma keeps_fst: "keeps (\<lambda>s. (f s, g s)) m \<Longrightarrow> keeps f m"
  and keeps_snd: "keeps (\<lambda>s. (f s, g s)) m \<Longrightarrow> keeps g m"
  by (simp_all add: keeps_def)

lemma keeps_map: "keeps obs m \<Longrightarrow> keeps (\<lambda>s. g (obs s)) m"
  by (simp add: keeps_def)

lemma keeps_return [intro, simp]: "keeps obs (State_Monad.return a)"
  by (simp add: keeps_def)

lemma keeps_reads [intro, simp]: "keeps obs (reads f)"
  by (simp add: keeps_def)

lemma keeps_modifies: "(\<And>s. obs (f s) = obs s) \<Longrightarrow> keeps obs (modifies f)"
  by (simp add: keeps_def)

lemma keeps_bind [intro]:
  "keeps obs m \<Longrightarrow> (\<And>a. keeps obs (f a)) \<Longrightarrow> keeps obs (State_Monad.bind m f)"
  by (auto simp: keeps_def case_prod_beta)

lemma keeps_gather [intro]: "(\<And>x. keeps obs (f x)) \<Longrightarrow> keeps obs (gather f xs)"
  by (induction xs) auto

text \<open>Calls whose results are read off something they keep return what they would on the first state.\<close>

lemma gather_const:
  assumes "\<And>x s. fst (run_state (f x) s) = g x (obs s)" "\<And>x. keeps obs (f x)"
  shows "fst (run_state (gather f xs) s) = map (\<lambda>x. g x (obs s)) xs"
proof (induction xs arbitrary: s)
  case (Cons x xs)
  have "obs (snd (run_state (f x) s)) = obs s" using assms(2) by (simp add: keeps_def)
  then show ?case using Cons assms(1) by (simp add: case_prod_beta)
qed simp

lemma keeps_mapM [intro]: "(\<And>x. keeps obs (f x)) \<Longrightarrow> keeps obs (mapM_unit f xs)"
  by (induction xs) auto

end
