(* ===== verification/KvStore.thy ===== *)
theory KvStore
  imports Prelude
begin

text \<open>
  packages/shared/src/kv-store.ts: the in-memory key-value, set and counter stores with a time
  to live, which every session, code, refresh token, CSRF token and lock of the system sits in.
  The stores are modelled as written: lazy deletion on read, expiry at \<open>expiresAt <= now\<close>,
  and the sweep on every 256th write. The clock is the argument \<open>now\<close>.
  The locale \<open>ttl_store\<close> is the contract of the \<open>KeyValueStore\<close> interface, stated over
  the live view of a store; it is interpreted on the memory store below, and everything the use
  cases need (one-shot consumption, exclusive locks, expiry) is proved once inside it.
\<close>

section \<open>Entries and the sweep\<close>

record 'v entry =
  ent_value :: 'v
  expires_at :: seconds

definition SWEEP_EVERY :: nat where "SWEEP_EVERY = 256"

definition sweep :: "(string \<rightharpoonup> 'v entry) \<Rightarrow> seconds \<Rightarrow> (string \<rightharpoonup> 'v entry)" where
  "sweep m now = (\<lambda>k. case m k of None \<Rightarrow> None
     | Some e \<Rightarrow> if expires_at e \<le> now then None else Some e)"

section \<open>MemoryKeyValueStore\<close>

record 'v kv =
  entries :: "string \<rightharpoonup> 'v entry"
  writes :: nat

definition kv_empty :: "'v kv" where
  "kv_empty = \<lparr>entries = Map.empty, writes = 0\<rparr>"

definition kv_live :: "seconds \<Rightarrow> string \<Rightarrow> 'v kv \<Rightarrow> 'v entry option \<times> 'v kv" where
  "kv_live now k m =
     (case entries m k of
        None \<Rightarrow> (None, m)
      | Some e \<Rightarrow>
          if expires_at e \<le> now then (None, m\<lparr>entries := (entries m)(k := None)\<rparr>)
          else (Some e, m))"

definition kv_write :: "seconds \<Rightarrow> string \<Rightarrow> 'v entry \<Rightarrow> 'v kv \<Rightarrow> 'v kv" where
  "kv_write now k e m =
     (let m1 = m\<lparr>entries := (entries m)(k \<mapsto> e), writes := writes m + 1\<rparr>
      in if writes m1 mod SWEEP_EVERY = 0 then m1\<lparr>entries := sweep (entries m1) now\<rparr> else m1)"

definition kv_get :: "seconds \<Rightarrow> string \<Rightarrow> 'v kv \<Rightarrow> 'v option \<times> 'v kv" where
  "kv_get now k m = (let (e, m1) = kv_live now k m in (map_option ent_value e, m1))"

definition kv_set :: "seconds \<Rightarrow> string \<Rightarrow> 'v \<Rightarrow> seconds \<Rightarrow> 'v kv \<Rightarrow> 'v kv" where
  "kv_set now k v ttl m = kv_write now k \<lparr>ent_value = v, expires_at = now + ttl\<rparr> m"

definition kv_update :: "seconds \<Rightarrow> string \<Rightarrow> 'v \<Rightarrow> 'v kv \<Rightarrow> bool \<times> 'v kv" where
  "kv_update now k v m =
     (case kv_live now k m of
        (None, m1) \<Rightarrow> (False, m1)
      | (Some e, m1) \<Rightarrow>
          (True, m1\<lparr>entries := (entries m1)(k \<mapsto> \<lparr>ent_value = v, expires_at = expires_at e\<rparr>)\<rparr>))"

definition kv_delete :: "string \<Rightarrow> 'v kv \<Rightarrow> 'v kv" where
  "kv_delete k m = m\<lparr>entries := (entries m)(k := None)\<rparr>"

definition kv_get_and_delete :: "seconds \<Rightarrow> string \<Rightarrow> 'v kv \<Rightarrow> 'v option \<times> 'v kv" where
  "kv_get_and_delete now k m =
     (let (e, m1) = kv_live now k m
      in (map_option ent_value e, m1\<lparr>entries := (entries m1)(k := None)\<rparr>))"

definition kv_set_if_absent ::
  "seconds \<Rightarrow> string \<Rightarrow> 'v \<Rightarrow> seconds \<Rightarrow> 'v kv \<Rightarrow> bool \<times> 'v kv" where
  "kv_set_if_absent now k v ttl m =
     (case kv_live now k m of
        (Some _, m1) \<Rightarrow> (False, m1)
      | (None, m1) \<Rightarrow> (True, kv_write now k \<lparr>ent_value = v, expires_at = now + ttl\<rparr> m1))"

section \<open>The contract of the KeyValueStore interface\<close>

text \<open>
  \<open>view t m\<close> maps each key that is live at time \<open>t\<close> to its value and its expiry. The laws
  say what each operation at time \<open>t\<close> does to the view at every later time \<open>t'\<close>: reading
  changes nothing, writing changes one key, an entry is live exactly while \<open>t' < expiry\<close>.
\<close>

locale ttl_store =
  fixes view :: "seconds \<Rightarrow> 's \<Rightarrow> string \<Rightarrow> ('v \<times> seconds) option"
    and get :: "seconds \<Rightarrow> string \<Rightarrow> 's \<Rightarrow> 'v option \<times> 's"
    and set_key :: "seconds \<Rightarrow> string \<Rightarrow> 'v \<Rightarrow> seconds \<Rightarrow> 's \<Rightarrow> 's"
    and upd :: "seconds \<Rightarrow> string \<Rightarrow> 'v \<Rightarrow> 's \<Rightarrow> bool \<times> 's"
    and del :: "string \<Rightarrow> 's \<Rightarrow> 's"
    and take_key :: "seconds \<Rightarrow> string \<Rightarrow> 's \<Rightarrow> 'v option \<times> 's"
    and set_absent :: "seconds \<Rightarrow> string \<Rightarrow> 'v \<Rightarrow> seconds \<Rightarrow> 's \<Rightarrow> bool \<times> 's"
  assumes view_ages: "t \<le> t' \<Longrightarrow> view t' m k =
      (case view t m k of None \<Rightarrow> None | Some (v, e) \<Rightarrow> if t' < e then Some (v, e) else None)"
    and get_result: "fst (get t k m) = map_option fst (view t m k)"
    and get_view: "t \<le> t' \<Longrightarrow> view t' (snd (get t k m)) = view t' m"
    and set_view: "t \<le> t' \<Longrightarrow> view t' (set_key t k v ttl m) =
      (view t' m)(k := if t' < t + ttl then Some (v, t + ttl) else None)"
    and upd_result: "fst (upd t k v m) = (view t m k \<noteq> None)"
    and upd_view: "t \<le> t' \<Longrightarrow> view t' (snd (upd t k v m)) =
      (view t' m)(k := map_option (\<lambda>(_, e). (v, e)) (view t' m k))"
    and del_view: "view t' (del k m) = (view t' m)(k := None)"
    and take_result: "fst (take_key t k m) = map_option fst (view t m k)"
    and take_view: "t \<le> t' \<Longrightarrow> view t' (snd (take_key t k m)) = (view t' m)(k := None)"
    and absent_result: "fst (set_absent t k v ttl m) = (view t m k = None)"
    and absent_view: "t \<le> t' \<Longrightarrow> view t' (snd (set_absent t k v ttl m)) =
      (if view t m k = None
       then (view t' m)(k := if t' < t + ttl then Some (v, t + ttl) else None) else view t' m)"
begin

lemmas views = get_view set_view upd_view del_view take_view absent_view
lemmas results = get_result upd_result take_result absent_result

lemma dead_stays_dead: "view t m k = None \<Longrightarrow> t \<le> t' \<Longrightarrow> view t' m k = None"
  using view_ages [of t t' m k] by simp

lemma live_bound: "view t m k = Some (v, e) \<Longrightarrow> t < e"
  using view_ages [of t t m k] by (auto split: if_splits)

lemma get_after_set:
  assumes "t \<le> t'"
  shows "fst (get t' k (set_key t k v ttl m)) = (if t' < t + ttl then Some v else None)"
  using assms by (simp add: results views)

lemma take_once:
  assumes "t \<le> t'"
  shows "fst (take_key t' k (snd (take_key t k m))) = None"
  using assms by (simp add: results views)

lemma update_keeps_expiry:
  assumes "view t m k = Some (v, e)" "t \<le> t'"
  shows "view t' (snd (upd t k w m)) k = (if t' < e then Some (w, e) else None)"
  using assms view_ages [of t t' m k] by (simp add: views)

text \<open>A lock written with \<open>setIfAbsent\<close> excludes every other writer until it expires.\<close>

lemma lock_excludes:
  assumes "fst (set_absent t k v ttl m)" "t \<le> t'" "t' < t + ttl"
  shows "\<not> fst (set_absent t' k w ttl' (snd (set_absent t k v ttl m)))"
  using assms by (simp add: results views)

lemma lock_released:
  assumes "t \<le> t'"
  shows "fst (set_absent t' k w ttl' (del k (snd (set_absent t k v ttl m))))"
  using assms by (simp add: results views)

lemma lock_expires:
  assumes "fst (set_absent t k v ttl m)" "t + ttl \<le> t'" "0 \<le> ttl"
  shows "fst (set_absent t' k w ttl' (snd (set_absent t k v ttl m)))"
  using assms by (simp add: results views)

end

section \<open>The memory store satisfies the contract\<close>

definition kv_view :: "seconds \<Rightarrow> 'v kv \<Rightarrow> string \<Rightarrow> ('v \<times> seconds) option" where
  "kv_view t m k =
     (case entries m k of None \<Rightarrow> None
      | Some e \<Rightarrow> if expires_at e \<le> t then None else Some (ent_value e, expires_at e))"

lemmas kv_op_defs = kv_live_def kv_write_def kv_get_def kv_set_def kv_update_def kv_delete_def
  kv_get_and_delete_def kv_set_if_absent_def

lemma kv_view_sweep: "t \<le> t' \<Longrightarrow>
    kv_view t' (m\<lparr>entries := sweep f t\<rparr>) = kv_view t' (m\<lparr>entries := f\<rparr>)"
  by (auto simp: kv_view_def sweep_def fun_eq_iff split: option.splits)

lemma kv_view_write:
  assumes "t \<le> t'"
  shows "kv_view t' (kv_write t k e m) =
    (kv_view t' m)(k := if t' < expires_at e then Some (ent_value e, expires_at e) else None)"
  using assms
  by (auto simp: kv_write_def Let_def kv_view_sweep) (auto simp: kv_view_def fun_eq_iff)

lemma kv_view_live:
  assumes "t \<le> t'"
  shows "kv_view t' (snd (kv_live t k m)) = kv_view t' m"
  using assms by (auto simp: kv_live_def kv_view_def fun_eq_iff split: option.splits)

lemma kv_live_result: "fst (kv_live t k m) =
    (case kv_view t m k of None \<Rightarrow> None | Some (v, e) \<Rightarrow> Some \<lparr>ent_value = v, expires_at = e\<rparr>)"
  by (auto simp: kv_live_def kv_view_def split: option.splits)

interpretation mem: ttl_store kv_view kv_get kv_set kv_update kv_delete kv_get_and_delete
  kv_set_if_absent
proof
  fix t t' :: seconds and m :: "'v kv" and k
  assume "t \<le> t'"
  then show "kv_view t' m k =
      (case kv_view t m k of None \<Rightarrow> None | Some (v, e) \<Rightarrow> if t' < e then Some (v, e) else None)"
    by (auto simp: kv_view_def split: option.splits)
next
  fix t t' :: seconds and m :: "'v kv" and k and v and ttl
  assume "t \<le> t'"
  then show "kv_view t' (kv_set t k v ttl m) =
      (kv_view t' m)(k := if t' < t + ttl then Some (v, t + ttl) else None)"
    by (simp add: kv_set_def kv_view_write)
next
  fix t t' :: seconds and m :: "'v kv" and k and v and ttl
  assume le: "t \<le> t'"
  show "kv_view t' (snd (kv_set_if_absent t k v ttl m)) =
      (if kv_view t m k = None
       then (kv_view t' m)(k := if t' < t + ttl then Some (v, t + ttl) else None)
       else kv_view t' m)"
    using kv_live_result [of t k m] kv_view_live [OF le, of k m]
    by (auto simp: kv_set_if_absent_def kv_view_write le split: prod.splits option.splits)
next
  fix t t' :: seconds and m :: "'v kv" and k and v
  assume le: "t \<le> t'"
  show "kv_view t' (snd (kv_update t k v m)) =
      (kv_view t' m)(k := map_option (\<lambda>(_, e). (v, e)) (kv_view t' m k))"
    using le by (auto simp: kv_update_def kv_live_def kv_view_def fun_eq_iff split: option.splits)
qed (auto simp: kv_op_defs kv_view_def fun_eq_iff split: option.splits)

text \<open>What a read returns, as the value of the live view.\<close>

definition kv_value :: "seconds \<Rightarrow> 'v kv \<Rightarrow> string \<Rightarrow> 'v option" where
  "kv_value t m k = map_option fst (kv_view t m k)"

lemma kv_get_pair: "kv_get t k m = (kv_value t m k, snd (kv_get t k m))"
  by (simp add: kv_value_def mem.get_result [symmetric])

lemma kv_take_pair:
  "kv_get_and_delete t k m = (kv_value t m k, snd (kv_get_and_delete t k m))"
  by (simp add: kv_value_def mem.take_result [symmetric])

lemma kv_update_pair: "kv_update t k v m = (kv_value t m k \<noteq> None, snd (kv_update t k v m))"
  by (simp add: prod_eq_iff kv_value_def mem.upd_result)

lemma kv_absent_pair:
  "kv_set_if_absent t k v ttl m = (kv_value t m k = None, snd (kv_set_if_absent t k v ttl m))"
  by (simp add: prod_eq_iff kv_value_def mem.absent_result)

lemma kv_value_get [simp]: "kv_value t (snd (kv_get t k m)) = kv_value t m"
  by (simp add: kv_value_def fun_eq_iff mem.get_view)

lemma kv_value_set [simp]:
  "kv_value t (kv_set t k v ttl m) = (kv_value t m)(k := if 0 < ttl then Some v else None)"
  by (auto simp: kv_value_def fun_eq_iff mem.set_view)

lemma kv_value_take [simp]:
  "kv_value t (snd (kv_get_and_delete t k m)) = (kv_value t m)(k := None)"
  by (auto simp: kv_value_def fun_eq_iff mem.take_view)

lemma kv_value_delete [simp]: "kv_value t (kv_delete k m) = (kv_value t m)(k := None)"
  by (auto simp: kv_value_def fun_eq_iff mem.del_view)

lemma kv_value_update [simp]:
  "kv_value t (snd (kv_update t k v m)) =
     (if kv_value t m k = None then kv_value t m else (kv_value t m)(k := Some v))"
  by (auto simp: kv_value_def fun_eq_iff mem.upd_view split: option.splits)

lemma kv_value_absent [simp]:
  "kv_value t (snd (kv_set_if_absent t k v ttl m)) =
     (if kv_value t m k = None then (kv_value t m)(k := if 0 < ttl then Some v else None)
      else kv_value t m)"
  by (auto simp: kv_value_def fun_eq_iff mem.absent_view)

text \<open>As time passes an entry may only disappear.\<close>

lemma kv_value_ages: "t \<le> t' \<Longrightarrow> kv_value t' m k = None \<or> kv_value t' m k = kv_value t m k"
  using mem.view_ages [of t t' m k] by (auto simp: kv_value_def split: option.splits if_splits)

lemma kv_value_empty [simp]: "kv_value t kv_empty k = None"
  by (simp add: kv_value_def kv_view_def kv_empty_def)

section \<open>MemorySetStore\<close>

text \<open>
  A JavaScript \<open>Set\<close> keeps its members in insertion order and each member once: a list
  to which a new member is appended.
\<close>

record set_store =
  sets :: "string \<rightharpoonup> string list entry"
  set_writes :: nat

definition ss_empty :: set_store where
  "ss_empty = \<lparr>sets = Map.empty, set_writes = 0\<rparr>"

definition ss_live :: "seconds \<Rightarrow> string \<Rightarrow> set_store \<Rightarrow> string list option \<times> set_store" where
  "ss_live now k m =
     (case sets m k of
        None \<Rightarrow> (None, m)
      | Some e \<Rightarrow>
          if expires_at e \<le> now then (None, m\<lparr>sets := (sets m)(k := None)\<rparr>)
          else (Some (ent_value e), m))"

definition js_set_add :: "string \<Rightarrow> string list \<Rightarrow> string list" where
  "js_set_add x xs = (if x \<in> set xs then xs else xs @ [x])"

definition ss_add :: "seconds \<Rightarrow> string \<Rightarrow> string \<Rightarrow> seconds \<Rightarrow> set_store \<Rightarrow> set_store" where
  "ss_add now k x ttl m =
     (let (old, m1) = ss_live now k m;
          members = js_set_add x (case old of None \<Rightarrow> [] | Some xs \<Rightarrow> xs);
          m2 = m1\<lparr>sets := (sets m1)(k \<mapsto> \<lparr>ent_value = members, expires_at = now + ttl\<rparr>),
                  set_writes := set_writes m1 + 1\<rparr>
      in if set_writes m2 mod SWEEP_EVERY = 0 then m2\<lparr>sets := sweep (sets m2) now\<rparr> else m2)"

definition ss_remove :: "seconds \<Rightarrow> string \<Rightarrow> string \<Rightarrow> set_store \<Rightarrow> set_store" where
  "ss_remove now k x m =
     (let (_, m1) = ss_live now k m
      in case sets m1 k of None \<Rightarrow> m1
         | Some e \<Rightarrow> m1\<lparr>sets := (sets m1)(k \<mapsto> e\<lparr>ent_value := remove1 x (ent_value e)\<rparr>)\<rparr>)"

definition ss_members :: "seconds \<Rightarrow> string \<Rightarrow> set_store \<Rightarrow> string list \<times> set_store" where
  "ss_members now k m =
     (let (xs, m1) = ss_live now k m in (case xs of None \<Rightarrow> [] | Some ys \<Rightarrow> ys, m1))"

definition ss_delete :: "string \<Rightarrow> set_store \<Rightarrow> set_store" where
  "ss_delete k m = m\<lparr>sets := (sets m)(k := None)\<rparr>"

locale member_sets =
  fixes elems :: "seconds \<Rightarrow> 's \<Rightarrow> string \<Rightarrow> string list"
    and add :: "seconds \<Rightarrow> string \<Rightarrow> string \<Rightarrow> seconds \<Rightarrow> 's \<Rightarrow> 's"
    and rem :: "seconds \<Rightarrow> string \<Rightarrow> string \<Rightarrow> 's \<Rightarrow> 's"
    and mems :: "seconds \<Rightarrow> string \<Rightarrow> 's \<Rightarrow> string list \<times> 's"
    and drop_key :: "string \<Rightarrow> 's \<Rightarrow> 's"
  assumes mems_result: "fst (mems t k m) = elems t m k"
    and mems_elems: "t \<le> t' \<Longrightarrow> elems t' (snd (mems t k m)) = elems t' m"
    and add_elems: "t \<le> t' \<Longrightarrow> elems t' (add t k x ttl m) =
      (elems t' m)(k := if t' < t + ttl then js_set_add x (elems t m k) else [])"
    and rem_elems: "t \<le> t' \<Longrightarrow> elems t' (rem t k x m) = (elems t' m)(k := remove1 x (elems t' m k))"
    and drop_elems: "elems t' (drop_key k m) = (elems t' m)(k := [])"
begin

lemmas elems_simps = mems_elems add_elems rem_elems drop_elems

text \<open>Adding never loses a member: concurrent additions of different members both stay.\<close>

lemma add_keeps:
  assumes "y \<in> set (elems t m k)" "0 < ttl"
  shows "y \<in> set (elems t (add t k x ttl m) k)"
  using assms by (simp add: elems_simps js_set_add_def)

lemma adds_commute:
  assumes "0 < ttl"
  shows "set (elems t (add t k x ttl (add t k y ttl m)) k) =
    set (elems t (add t k y ttl (add t k x ttl m)) k)"
  using assms by (auto simp: elems_simps js_set_add_def)

end

definition ss_elems :: "seconds \<Rightarrow> set_store \<Rightarrow> string \<Rightarrow> string list" where
  "ss_elems t m k =
     (case sets m k of None \<Rightarrow> [] | Some e \<Rightarrow> if expires_at e \<le> t then [] else ent_value e)"

lemma ss_elems_sweep: "t \<le> t' \<Longrightarrow>
    ss_elems t' (m\<lparr>sets := sweep f t\<rparr>) = ss_elems t' (m\<lparr>sets := f\<rparr>)"
  by (auto simp: ss_elems_def sweep_def fun_eq_iff split: option.splits)

interpretation mem_set: member_sets ss_elems ss_add ss_remove ss_members ss_delete
proof
  fix t t' :: seconds and m k x ttl
  assume "t \<le> t'"
  then show "ss_elems t' (ss_add t k x ttl m) =
      (ss_elems t' m)(k := if t' < t + ttl then js_set_add x (ss_elems t m k) else [])"
    by (auto simp: ss_add_def Let_def ss_elems_sweep ss_live_def split: option.splits)
       (auto simp: ss_elems_def fun_eq_iff)
next
  fix t t' :: seconds and m k x
  assume "t \<le> t'"
  then show "ss_elems t' (ss_remove t k x m) = (ss_elems t' m)(k := remove1 x (ss_elems t' m k))"
    by (auto simp: ss_remove_def ss_live_def ss_elems_def fun_eq_iff split: option.splits)
qed (auto simp: ss_members_def ss_live_def ss_delete_def ss_elems_def fun_eq_iff
       split: option.splits)

lemma ss_elems_empty [simp]: "ss_elems t ss_empty k = []"
  by (simp add: ss_elems_def ss_empty_def)

section \<open>MemoryCounterStore\<close>

record counter_store =
  counters :: "string \<rightharpoonup> nat entry"
  counter_writes :: nat

definition counter_empty :: counter_store where
  "counter_empty = \<lparr>counters = Map.empty, counter_writes = 0\<rparr>"

definition counter_increment ::
  "seconds \<Rightarrow> string \<Rightarrow> seconds \<Rightarrow> counter_store \<Rightarrow> nat \<times> counter_store" where
  "counter_increment now k ttl m =
     (let fresh =
        (let m1 = m\<lparr>counters := (counters m)(k \<mapsto> \<lparr>ent_value = 1, expires_at = now + ttl\<rparr>),
                    counter_writes := counter_writes m + 1\<rparr>
         in (1, if counter_writes m1 mod SWEEP_EVERY = 0
                then m1\<lparr>counters := sweep (counters m1) now\<rparr> else m1))
      in case counters m k of
           None \<Rightarrow> fresh
         | Some e \<Rightarrow>
             if expires_at e \<le> now then fresh
             else (ent_value e + 1,
                   m\<lparr>counters := (counters m)(k \<mapsto> e\<lparr>ent_value := ent_value e + 1\<rparr>)\<rparr>))"

locale window_counter =
  fixes count :: "seconds \<Rightarrow> 's \<Rightarrow> string \<Rightarrow> (nat \<times> seconds) option"
    and incr :: "seconds \<Rightarrow> string \<Rightarrow> seconds \<Rightarrow> 's \<Rightarrow> nat \<times> 's"
  assumes incr_result: "fst (incr t k ttl m) = (case count t m k of None \<Rightarrow> 1 | Some (n, _) \<Rightarrow> n + 1)"
    and incr_count: "t \<le> t' \<Longrightarrow> count t' (snd (incr t k ttl m)) = (count t' m)(k :=
      (case count t m k of
         None \<Rightarrow> if t' < t + ttl then Some (1, t + ttl) else None
       | Some (n, e) \<Rightarrow> if t' < e then Some (n + 1, e) else None))"
    and count_bound: "count t m k = Some (n, e) \<Longrightarrow> t < e"
    and count_ages: "t \<le> t' \<Longrightarrow> count t' m k =
      (case count t m k of None \<Rightarrow> None | Some (n, e) \<Rightarrow> if t' < e then Some (n, e) else None)"

definition counter_view :: "seconds \<Rightarrow> counter_store \<Rightarrow> string \<Rightarrow> (nat \<times> seconds) option" where
  "counter_view t m k =
     (case counters m k of None \<Rightarrow> None
      | Some e \<Rightarrow> if expires_at e \<le> t then None else Some (ent_value e, expires_at e))"

lemma counter_view_sweep: "t \<le> t' \<Longrightarrow>
    counter_view t' (m\<lparr>counters := sweep f t\<rparr>) = counter_view t' (m\<lparr>counters := f\<rparr>)"
  by (auto simp: counter_view_def sweep_def fun_eq_iff split: option.splits)

interpretation mem_counter: window_counter counter_view counter_increment
proof
  fix t t' :: seconds and m k ttl
  assume "t \<le> t'"
  then show "counter_view t' (snd (counter_increment t k ttl m)) = (counter_view t' m)(k :=
      (case counter_view t m k of
         None \<Rightarrow> if t' < t + ttl then Some (1, t + ttl) else None
       | Some (n, e) \<Rightarrow> if t' < e then Some (n + 1, e) else None))"
    by (auto simp: counter_increment_def Let_def counter_view_sweep split: option.splits)
       (auto simp: counter_view_def fun_eq_iff)
qed (auto simp: counter_increment_def Let_def counter_view_def split: option.splits if_splits)

end
