(* ===== verification/Bytes.thy ===== *)
theory Bytes
  imports Prelude "HOL-Library.Word"
begin

text \<open>
  Byte buffers of the Node runtime as far as the sources use them: \<open>Buffer.from(s)\<close> and
  \<open>toString\<close> on ASCII text, and the base64url encoding with the decoder's leniency
  (both alphabets are read, other characters are skipped, reading ends at the padding character).
  The main result is the round trip of the encoding; encryption.ts, secret-hash.ts and jwt.ts
  rest on it.
\<close>

type_synonym bytes = "8 word list"

definition bytes_of_string :: "string \<Rightarrow> bytes" where
  "bytes_of_string = map (\<lambda>c. word_of_nat (of_char c))"

definition string_of_bytes :: "bytes \<Rightarrow> string" where
  "string_of_bytes = map (\<lambda>b. char_of (unat b))"

lemma string_of_bytes_of_string [simp]: "string_of_bytes (bytes_of_string s) = s"
proof -
  have "char_of (unat (word_of_nat (of_char c) :: 8 word)) = (c :: char)" for c
    using nat_of_char_less_256 [of c] by (simp add: unat_of_nat take_bit_nat_eq_self)
  then show ?thesis by (simp add: string_of_bytes_def bytes_of_string_def comp_def del: unat_of_nat)
qed

lemma length_bytes_of_string [simp]: "length (bytes_of_string s) = length s"
  by (simp add: bytes_of_string_def)

lemma bytes_of_string_inj: "bytes_of_string s = bytes_of_string t \<longleftrightarrow> s = t"
  by (metis string_of_bytes_of_string)

section \<open>base64url\<close>

definition B64URL :: string where
  "B64URL = ''ABCDEFGHIJKLMNOPQRSTUVWXYZabcdefghijklmnopqrstuvwxyz0123456789-_''"

definition b64_char :: "nat \<Rightarrow> char" where "b64_char n = B64URL ! n"

definition b64_value :: "char \<Rightarrow> nat option" where
  "b64_value c =
     (if is_upper c then Some (of_char c - 65)
      else if is_lower c then Some (of_char c - 71)
      else if is_digit c then Some (of_char c + 4)
      else if c = CHR ''-'' \<or> c = CHR ''+'' then Some 62
      else if c = CHR ''_'' \<or> c = CHR ''/'' then Some 63 else None)"

fun b64_sextets :: "nat list \<Rightarrow> nat list" where
  "b64_sextets [] = []"
| "b64_sextets [a] = [a div 4, (a mod 4) * 16]"
| "b64_sextets [a, b] = [a div 4, (a mod 4) * 16 + b div 16, (b mod 16) * 4]"
| "b64_sextets (a # b # c # r) =
     [a div 4, (a mod 4) * 16 + b div 16, (b mod 16) * 4 + c div 64, c mod 64] @ b64_sextets r"

fun b64_octets :: "nat list \<Rightarrow> nat list" where
  "b64_octets [] = []"
| "b64_octets [_] = []"
| "b64_octets [p, q] = [p * 4 + q div 16]"
| "b64_octets [p, q, r] = [p * 4 + q div 16, (q mod 16) * 16 + r div 4]"
| "b64_octets (p # q # r # s # t) =
     [p * 4 + q div 16, (q mod 16) * 16 + r div 4, (r mod 4) * 64 + s] @ b64_octets t"

definition b64url_encode :: "bytes \<Rightarrow> string" where
  "b64url_encode bs = map b64_char (b64_sextets (map unat bs))"

definition b64url_decode :: "string \<Rightarrow> bytes" where
  "b64url_decode s =
     map word_of_nat (b64_octets (List.map_filter b64_value (takeWhile (\<lambda>c. c \<noteq> CHR ''='') s)))"

lemma digit_split: "y < m \<Longrightarrow> (x * m + y) div m = x" "y < m \<Longrightarrow> (x * m + y) mod m = y"
  for x y m :: nat
  by simp_all

lemma octet_high: "b < 256 \<Longrightarrow> b div 16 < 16" "b < 256 \<Longrightarrow> b div 64 < 4" for b :: nat
  by (simp_all add: less_mult_imp_div_less)

lemma sextet_bound: "b < 256 \<Longrightarrow> (a mod 4) * 16 + b div 16 < 64"
    "b < 256 \<Longrightarrow> (a mod 16) * 4 + b div 64 < 64" for a b :: nat
proof -
  have "a mod 4 < 4" "a mod 16 < 16" by simp_all
  then show "b < 256 \<Longrightarrow> (a mod 4) * 16 + b div 16 < 64"
    "b < 256 \<Longrightarrow> (a mod 16) * 4 + b div 64 < 64"
    using octet_high [of b] by linarith+
qed

lemma b64_octets_sextets: "list_all (\<lambda>n. n < 256) ns \<Longrightarrow> b64_octets (b64_sextets ns) = ns"
proof (induction ns rule: b64_sextets.induct)
  case (3 a b)
  then have "b div 16 < 16" by (simp add: octet_high)
  then show ?case by (simp only: b64_sextets.simps b64_octets.simps digit_split) simp
next
  case (4 a b c r)
  then have "b div 16 < 16" "c div 64 < 4" by (simp_all add: octet_high)
  then show ?case
    using 4 by (simp only: b64_sextets.simps b64_octets.simps digit_split append.simps) simp
qed simp_all

lemma b64_sextets_bound: "list_all (\<lambda>n. n < 256) ns \<Longrightarrow> list_all (\<lambda>n. n < 64) (b64_sextets ns)"
  by (induction ns rule: b64_sextets.induct)
     (auto simp: sextet_bound intro: less_mult_imp_div_less)

lemma b64_table: "map b64_value B64URL = map Some [0..<64]"
  by code_simp

lemma b64_length: "length B64URL = 64"
  by (simp add: B64URL_def)

lemma b64_value_char: "n < 64 \<Longrightarrow> b64_value (b64_char n) = Some n"
  using arg_cong [OF b64_table, of "\<lambda>xs. xs ! n"] b64_length by (simp add: b64_char_def)

lemma b64_char_in: "n < 64 \<Longrightarrow> b64_char n \<in> set B64URL"
  using b64_length by (simp add: b64_char_def)

lemma bytes_bound: "list_all (\<lambda>n. n < 256) (map unat (bs :: bytes))"
proof -
  have "unat (b :: 8 word) < 256" for b using unsigned_less [where 'a = nat, of b] by simp
  then show ?thesis by (simp add: list_all_iff)
qed

lemma b64url_encode_chars: "set (b64url_encode bs) \<subseteq> set B64URL"
  using b64_sextets_bound [OF bytes_bound, of bs] b64_char_in
  by (auto simp: b64url_encode_def list_all_iff)

lemma b64url_no_dot: "CHR ''.'' \<notin> set (b64url_encode bs)"
  and b64url_no_dollar: "CHR ''$'' \<notin> set (b64url_encode bs)"
  and b64url_no_pad: "CHR ''='' \<notin> set (b64url_encode bs)"
  using b64url_encode_chars [of bs] by (auto simp: B64URL_def)

lemma map_filter_table:
  "list_all (\<lambda>n. n < 64) ns \<Longrightarrow> List.map_filter b64_value (map b64_char ns) = ns"
  by (induction ns) (auto simp: b64_value_char List.map_filter_simps)

text \<open>Decoding inverts encoding, so the encoding is injective.\<close>

lemma b64url_roundtrip [simp]: "b64url_decode (b64url_encode bs) = bs"
proof -
  have "takeWhile (\<lambda>c. c \<noteq> CHR ''='') (b64url_encode bs) = b64url_encode bs"
    using b64url_no_pad [of bs] by (auto simp: takeWhile_eq_all_conv)
  then have "b64url_decode (b64url_encode bs) = map word_of_nat (b64_octets
      (List.map_filter b64_value (map b64_char (b64_sextets (map unat bs)))))"
    by (simp only: b64url_decode_def) (simp only: b64url_encode_def)
  also have "\<dots> = map word_of_nat (map unat bs)"
    by (simp only: map_filter_table [OF b64_sextets_bound [OF bytes_bound]]
        b64_octets_sextets [OF bytes_bound])
  finally show ?thesis by (simp add: comp_def)
qed

lemma b64url_inj: "b64url_encode a = b64url_encode b \<longleftrightarrow> a = b"
  by (metis b64url_roundtrip)

section \<open>decodeURIComponent\<close>

text \<open>
  Percent decoding over UTF-8 text: an escape sequence must spell a well-formed UTF-8 character,
  otherwise \<open>decodeURIComponent\<close> throws, here \<open>None\<close>.
\<close>

definition hex_value :: "char \<Rightarrow> nat option" where
  "hex_value c =
     (if is_digit c then Some (of_char c - 48)
      else if char_between CHR ''A'' CHR ''F'' c then Some (of_char c - 55)
      else if char_between CHR ''a'' CHR ''f'' c then Some (of_char c - 87) else None)"

fun take_escape :: "string \<Rightarrow> (nat \<times> string) option" where
  "take_escape (c # a # b # cs) =
     (if c \<noteq> CHR ''%'' then None
      else case (hex_value a, hex_value b) of
             (Some x, Some y) \<Rightarrow> Some (16 * x + y, cs)
           | _ \<Rightarrow> None)"
| "take_escape _ = None"

fun take_escapes :: "nat \<Rightarrow> string \<Rightarrow> (nat list \<times> string) option" where
  "take_escapes 0 s = Some ([], s)"
| "take_escapes (Suc n) s =
     (case take_escape s of None \<Rightarrow> None
      | Some (b, r) \<Rightarrow> map_option (\<lambda>(bs, q). (b # bs, q)) (take_escapes n r))"

definition utf8_tail :: "nat \<Rightarrow> nat option" where
  "utf8_tail b =
     (if b < 128 then Some 0 else if 194 \<le> b \<and> b < 224 then Some 1
      else if 224 \<le> b \<and> b < 240 then Some 2 else if 240 \<le> b \<and> b < 245 then Some 3 else None)"

definition utf8_ok :: "nat \<Rightarrow> nat list \<Rightarrow> bool" where
  "utf8_ok b bs =
     (list_all (\<lambda>x. 128 \<le> x \<and> x < 192) bs \<and>
      (case bs of [] \<Rightarrow> True
       | x # _ \<Rightarrow> (b = 224 \<longrightarrow> 160 \<le> x) \<and> (b = 237 \<longrightarrow> x < 160) \<and> (b = 240 \<longrightarrow> 144 \<le> x) \<and>
                (b = 244 \<longrightarrow> x < 144)))"

lemma take_escape_shorter: "take_escape s = Some (b, r) \<Longrightarrow> length r < length s"
  by (induction s rule: take_escape.induct) (auto split: option.splits if_splits)

lemma take_escapes_shorter: "take_escapes n s = Some (bs, r) \<Longrightarrow> length r \<le> length s"
  by (induction n s arbitrary: bs r rule: take_escapes.induct)
     (fastforce split: option.splits dest: take_escape_shorter)+

function decode_uri :: "string \<Rightarrow> string option" where
  "decode_uri s =
     (case s of [] \<Rightarrow> Some []
      | c # cs \<Rightarrow>
          if c \<noteq> CHR ''%'' then map_option (Cons c) (decode_uri cs)
          else (case take_escape s of None \<Rightarrow> None
                | Some (b, r) \<Rightarrow>
                    (case Option.bind (utf8_tail b) (\<lambda>n. take_escapes n r) of None \<Rightarrow> None
                     | Some (bs, q) \<Rightarrow>
                         if utf8_ok b bs
                         then map_option (append (map char_of (b # bs))) (decode_uri q) else None)))"
  by auto
termination
  by (relation "measure length")
     (auto simp: bind_eq_Some_conv dest!: take_escape_shorter take_escapes_shorter)

declare decode_uri.simps [simp del]

lemma decode_uri_plain: "CHR ''%'' \<notin> set s \<Longrightarrow> decode_uri s = Some s"
  by (induction s) (subst decode_uri.simps, auto)+

section \<open>encodeURIComponent and form encoding\<close>

definition hex_digit :: "nat \<Rightarrow> char" where "hex_digit n = ''0123456789ABCDEF'' ! n"

definition percent_byte :: "char \<Rightarrow> string" where
  "percent_byte c = [CHR ''%'', hex_digit (of_char c div 16), hex_digit (of_char c mod 16)]"

definition uri_unreserved :: "char \<Rightarrow> bool" where
  "uri_unreserved c = (is_upper c \<or> is_lower c \<or> is_digit c \<or> c \<in> set ''-_.!~*()'' \<or> c = char_of (39 :: nat))"

definition encode_uri :: "string \<Rightarrow> string" where
  "encode_uri s = concat (map (\<lambda>c. if uri_unreserved c then [c] else percent_byte c) s)"

definition form_unreserved :: "char \<Rightarrow> bool" where
  "form_unreserved c = (is_upper c \<or> is_lower c \<or> is_digit c \<or> c \<in> set ''*-._'')"

definition form_encode :: "string \<Rightarrow> string" where
  "form_encode s = concat (map (\<lambda>c. if form_unreserved c then [c]
     else if c = CHR '' '' then ''+'' else percent_byte c) s)"

definition url_search_params :: "(string \<times> string) list \<Rightarrow> string" where
  "url_search_params ps = join_with ''&'' (map (\<lambda>(k, v). form_encode k @ ''='' @ form_encode v) ps)"

end
