(* ===== verification/SharedText.thy ===== *)
theory SharedText
  imports KvStore Bytes
begin

text \<open>
  The string protocols of packages/shared/src: redirect_uri templates (redirect-template.ts),
  the return_to filter (return-to.ts), bearer challenges (oidc-protocol.ts), session expiry
  (session-expiry.ts), cookie names and attributes (cookie.ts), PKCE verifiers (random.ts), secret
  hashes (secret-hash.ts), log redaction (logger.ts) and the fixed-window rate limit
  (rate-limit.ts). Hashes are the parameter \<open>sha256b64\<close>, the base64url text of SHA-256.
\<close>

section \<open>redirect-template.ts\<close>

text \<open>\<open>TENANT_SLUG_PATTERN\<close>: one alphanumeric, or two with at most 61 of \<open>[a-z0-9-]\<close> between.\<close>

definition slug_alnum :: "char \<Rightarrow> bool" where
  "slug_alnum c = (is_lower c \<or> is_digit c)"

definition valid_slug :: "string \<Rightarrow> bool" where
  "valid_slug s =
     (case s of [] \<Rightarrow> False
      | c # cs \<Rightarrow> slug_alnum c \<and>
          (cs = [] \<or>
           (length (butlast cs) \<le> 61 \<and>
            list_all (\<lambda>d. slug_alnum d \<or> d = CHR ''-'') (butlast cs) \<and> slug_alnum (last cs))))"

definition PLACEHOLDER :: string where "PLACEHOLDER = ''{tenant}''"

text \<open>
  \<open>String.prototype.replace(pattern, replacement)\<close> with a string pattern: the first
  occurrence is replaced, and dollar sequences of the replacement are expanded.
\<close>

fun expand_dollars :: "string \<Rightarrow> string \<Rightarrow> string \<Rightarrow> string \<Rightarrow> string" where
  "expand_dollars before matched after [] = []"
| "expand_dollars before matched after [c] = [c]"
| "expand_dollars before matched after (c # d # cs) =
     (if c \<noteq> CHR ''$'' then c # expand_dollars before matched after (d # cs)
      else if d = CHR ''$'' then CHR ''$'' # expand_dollars before matched after cs
      else if d = CHR ''&'' then matched @ expand_dollars before matched after cs
      else if d = char_of (96 :: nat) then before @ expand_dollars before matched after cs
      else if d = char_of (39 :: nat) then after @ expand_dollars before matched after cs
      else c # expand_dollars before matched after (d # cs))"

definition js_replace :: "string \<Rightarrow> string \<Rightarrow> string \<Rightarrow> string" where
  "js_replace s pat rep =
     (case index_of pat s of None \<Rightarrow> s
      | Some i \<Rightarrow>
          (let before = take i s; after = drop (i + length pat) s
           in before @ expand_dollars before pat after rep @ after))"

definition expandRedirectUriTemplate :: "string \<Rightarrow> string \<Rightarrow> string" where
  "expandRedirectUriTemplate template slug = js_replace template PLACEHOLDER slug"

definition matchRedirectUriTemplate :: "string \<Rightarrow> string \<Rightarrow> string option" where
  "matchRedirectUriTemplate template uri =
     (case index_of PLACEHOLDER template of
        None \<Rightarrow> None
      | Some i \<Rightarrow>
          (let pre = take i template; suf = drop (i + length PLACEHOLDER) template
           in if length uri \<le> length pre + length suf then None
              else if \<not> prefix pre uri \<or> \<not> suffix suf uri then None
              else (let slug = drop (length pre) (take (length uri - length suf) uri)
                    in if valid_slug slug then Some slug else None)))"

lemma valid_slug_nonempty: "valid_slug s \<Longrightarrow> s \<noteq> []"
  by (auto simp: valid_slug_def)

lemma valid_slug_chars: "valid_slug s \<Longrightarrow> list_all (\<lambda>d. slug_alnum d \<or> d = CHR ''-'') s"
proof (cases s)
  case (Cons c cs)
  assume "valid_slug s"
  then show ?thesis
    by (cases cs rule: rev_cases) (auto simp: valid_slug_def Cons)
qed (simp add: valid_slug_def)

lemma expand_dollars_none: "CHR ''$'' \<notin> set r \<Longrightarrow> expand_dollars b m a r = r"
  by (induction b m a r rule: expand_dollars.induct) auto

lemma valid_slug_no_dollar: "valid_slug s \<Longrightarrow> CHR ''$'' \<notin> set s"
  using valid_slug_chars [of s]
  by (auto simp: list_all_iff slug_alnum_def char_between_def)

lemma valid_slug_length: "valid_slug s \<Longrightarrow> length s \<le> 63"
  by (auto simp: valid_slug_def split: list.splits)

lemma expand_valid:
  assumes "index_of PLACEHOLDER t = Some i" "valid_slug s"
  shows "expandRedirectUriTemplate t s = take i t @ s @ drop (i + length PLACEHOLDER) t"
  using assms valid_slug_no_dollar [of s]
  by (simp add: expandRedirectUriTemplate_def js_replace_def expand_dollars_none Let_def)

text \<open>The length, prefix and suffix tests find the one middle part there is.\<close>

lemma between_iff:
  fixes u :: "'a list"
  assumes "s \<noteq> []"
  shows "(length pre + length suf < length u \<and> prefix pre u \<and> suffix suf u \<and>
      s = drop (length pre) (take (length u - length suf) u)) \<longleftrightarrow> u = pre @ s @ suf" (is "?l \<longleftrightarrow> ?r")
proof
  assume l: ?l
  then obtain q where q: "u = q @ suf" by (auto simp: suffix_def)
  obtain r where r: "u = pre @ r" using l by (auto simp: prefix_def)
  have "length pre \<le> length q" using l q by simp
  then obtain m where "q = pre @ m"
    using q r by (metis append_eq_append_conv_if append_take_drop_id)
  then show ?r using l q by simp
next
  assume ?r
  then show ?l using assms by (auto simp: suffix_def)
qed

lemma match_unfold:
  assumes "index_of PLACEHOLDER t = Some i"
  shows "matchRedirectUriTemplate t u = Some s \<longleftrightarrow>
    valid_slug s \<and> u = take i t @ s @ drop (i + length PLACEHOLDER) t"
proof (cases "valid_slug s")
  case True
  then show ?thesis
    using between_iff [OF valid_slug_nonempty [OF True],
      of "take i t" "drop (i + length PLACEHOLDER) t" u]
    by (auto simp: matchRedirectUriTemplate_def assms Let_def not_le split: if_splits)
qed (auto simp: matchRedirectUriTemplate_def assms Let_def split: if_splits)

lemma match_iff_expand:
  "matchRedirectUriTemplate t u = Some s \<longleftrightarrow>
     sublist PLACEHOLDER t \<and> valid_slug s \<and> u = expandRedirectUriTemplate t s"
proof (cases "index_of PLACEHOLDER t")
  case None
  then show ?thesis using index_of_None_iff [of PLACEHOLDER t] by (simp add: matchRedirectUriTemplate_def)
next
  case (Some i)
  then have "sublist PLACEHOLDER t" by (metis index_of_None_iff option.distinct(1))
  then show ?thesis using match_unfold [OF Some] expand_valid [OF Some] by metis
qed

text \<open>\<open>serviceOrigin\<close>; \<open>url_origin\<close> stands for \<open>new URL(u).origin\<close>.\<close>

definition serviceOrigin :: "(string \<Rightarrow> string) \<Rightarrow> string \<Rightarrow> string \<Rightarrow> string" where
  "serviceOrigin url_origin template slug = url_origin (expandRedirectUriTemplate template slug)"

section \<open>return-to.ts\<close>

definition DEFAULT_RETURN_TO :: string where "DEFAULT_RETURN_TO = ''/''"

definition control_character :: "char \<Rightarrow> bool" where
  "control_character c = ((of_char c :: nat) \<le> 31 \<or> (of_char c :: nat) = 127)"

definition sanitizeReturnTo :: "string option \<Rightarrow> string" where
  "sanitizeReturnTo value =
     (case value of None \<Rightarrow> DEFAULT_RETURN_TO
      | Some v \<Rightarrow>
          if v = [] then DEFAULT_RETURN_TO
          else if \<not> prefix ''/'' v then DEFAULT_RETURN_TO
          else if prefix ''//'' v then DEFAULT_RETURN_TO
          else if char_of (92 :: nat) \<in> set v then DEFAULT_RETURN_TO
          else if list_ex control_character v then DEFAULT_RETURN_TO
          else v)"

section \<open>oidc-protocol.ts\<close>

datatype access_denied_reason =
  User_disabled | Tenant_suspended | Not_contracted | No_membership | Membership_inactive

definition ACCESS_DENIED_REASONS :: "(string \<times> access_denied_reason) list" where
  "ACCESS_DENIED_REASONS =
     [(''user_disabled'', User_disabled), (''tenant_suspended'', Tenant_suspended),
      (''not_contracted'', Not_contracted), (''no_membership'', No_membership),
      (''membership_inactive'', Membership_inactive)]"

definition isAccessDeniedReason :: "string \<Rightarrow> bool" where
  "isAccessDeniedReason v = (v \<in> set (map fst ACCESS_DENIED_REASONS))"

definition reason_text :: "access_denied_reason \<Rightarrow> string" where
  "reason_text r = (case r of User_disabled \<Rightarrow> ''user_disabled'' | Tenant_suspended \<Rightarrow> ''tenant_suspended''
     | Not_contracted \<Rightarrow> ''not_contracted'' | No_membership \<Rightarrow> ''no_membership''
     | Membership_inactive \<Rightarrow> ''membership_inactive'')"

definition TOKEN_EXPIRED_DESCRIPTION :: string where "TOKEN_EXPIRED_DESCRIPTION = ''expired''"

definition dquote :: string where "dquote = [char_of (34 :: nat)]"

definition bearerChallenge :: "string \<Rightarrow> string option \<Rightarrow> string" where
  "bearerChallenge err description =
     (case description of
        None \<Rightarrow> ''Bearer error='' @ dquote @ err @ dquote
      | Some d \<Rightarrow> ''Bearer error='' @ dquote @ err @ dquote @ '', error_description='' @ dquote @ d @ dquote)"

definition readBearerToken :: "string option \<Rightarrow> string option" where
  "readBearerToken header =
     (case header of None \<Rightarrow> None
      | Some h \<Rightarrow>
          if \<not> prefix ''Bearer '' h then None
          else (let token = drop (length ''Bearer '') h in if token = [] then None else Some token))"

definition isExpiredTokenChallenge :: "string option \<Rightarrow> bool" where
  "isExpiredTokenChallenge header =
     (case header of None \<Rightarrow> False
      | Some h \<Rightarrow> sublist (''error_description='' @ dquote @ TOKEN_EXPIRED_DESCRIPTION @ dquote) h)"

lemma readBearerToken_iff:
  "readBearerToken (Some h) = Some t \<longleftrightarrow> t \<noteq> [] \<and> h = ''Bearer '' @ t"
  by (auto simp: readBearerToken_def Let_def prefix_def)

lemma expired_challenge_recognised:
  "isExpiredTokenChallenge (Some (bearerChallenge err (Some TOKEN_EXPIRED_DESCRIPTION)))"
  proof -
  let ?h = "''Bearer error='' @ dquote @ err @ dquote @ '', ''"
  have "bearerChallenge err (Some TOKEN_EXPIRED_DESCRIPTION) =
      ?h @ (''error_description='' @ dquote @ TOKEN_EXPIRED_DESCRIPTION @ dquote)"
    by (simp add: bearerChallenge_def)
  then show ?thesis
    using sublist_appendI [of _ ?h "[]"] by (simp add: isExpiredTokenChallenge_def del: append.simps)
qed

lemma reason_text_known: "(reason_text r, r) \<in> set ACCESS_DENIED_REASONS"
  by (cases r) (simp_all add: reason_text_def ACCESS_DENIED_REASONS_def)

section \<open>session-expiry.ts\<close>

record expiring_session =
  created_at :: seconds
  last_seen_at :: seconds

record session_expiry_policy =
  idle_seconds :: seconds
  absolute_seconds :: seconds

definition TOUCH_INTERVAL_SECONDS :: seconds where "TOUCH_INTERVAL_SECONDS = 60"

definition remainingTtl ::
  "session_expiry_policy \<Rightarrow> 'a expiring_session_scheme \<Rightarrow> seconds \<Rightarrow> seconds" where
  "remainingTtl p s now = created_at s + absolute_seconds p - now"

definition isExpired :: "session_expiry_policy \<Rightarrow> 'a expiring_session_scheme \<Rightarrow> seconds \<Rightarrow> bool" where
  "isExpired p s now = (last_seen_at s + idle_seconds p \<le> now \<or> remainingTtl p s now \<le> 0)"

definition shouldTouch :: "'a expiring_session_scheme \<Rightarrow> seconds \<Rightarrow> bool" where
  "shouldTouch s now = (now - last_seen_at s \<ge> TOUCH_INTERVAL_SECONDS)"

text \<open>Expiry is monotone in time, and touching a session never moves its absolute limit.\<close>

lemma isExpired_mono: "isExpired p s t \<Longrightarrow> t \<le> t' \<Longrightarrow> isExpired p s t'"
  by (auto simp: isExpired_def remainingTtl_def)

lemma touch_absolute: "isExpired p (s\<lparr>last_seen_at := t\<rparr>) (created_at s + absolute_seconds p)"
  by (simp add: isExpired_def remainingTtl_def)

section \<open>cookie.ts\<close>

datatype cookie_scope = Host_scope | Path_scope

record cookie_attributes =
  cookie_path :: string
  cookie_http_only :: bool
  cookie_secure :: bool
  cookie_max_age :: "seconds option"

definition cookieName :: "string \<Rightarrow> cookie_scope \<Rightarrow> bool \<Rightarrow> string" where
  "cookieName base sc secure =
     (if \<not> secure then base
      else case sc of Host_scope \<Rightarrow> ''__Host-'' @ base | Path_scope \<Rightarrow> ''__Secure-'' @ base)"

definition sessionCookieAttributes :: "bool \<Rightarrow> cookie_attributes" where
  "sessionCookieAttributes secure =
     \<lparr>cookie_path = ''/'', cookie_http_only = True, cookie_secure = secure, cookie_max_age = None\<rparr>"

definition shortLivedCookieAttributes :: "bool \<Rightarrow> string \<Rightarrow> seconds \<Rightarrow> cookie_attributes" where
  "shortLivedCookieAttributes secure path max_age =
     \<lparr>cookie_path = path, cookie_http_only = True, cookie_secure = secure,
      cookie_max_age = Some max_age\<rparr>"

text \<open>
  Distinct base names stay distinct within a scope, so a host's session cookie is never read
  as another cookie.
\<close>

lemma cookieName_inj: "cookieName a sc secure = cookieName b sc secure \<longleftrightarrow> a = b"
  by (cases sc) (simp_all add: cookieName_def)

section \<open>random.ts and secret-hash.ts\<close>

definition CODE_VERIFIER_MIN :: nat where "CODE_VERIFIER_MIN = 43"
definition CODE_VERIFIER_MAX :: nat where "CODE_VERIFIER_MAX = 128"

definition code_verifier_char :: "char \<Rightarrow> bool" where
  "code_verifier_char c = (is_upper c \<or> is_lower c \<or> is_digit c \<or> c \<in> set ''-._~'')"

definition isValidCodeVerifier :: "string \<Rightarrow> bool" where
  "isValidCodeVerifier v =
     (CODE_VERIFIER_MIN \<le> length v \<and> length v \<le> CODE_VERIFIER_MAX \<and>
      v \<noteq> [] \<and> list_all code_verifier_char v)"

definition randomToken :: "bytes \<Rightarrow> string" where
  "randomToken raw = b64url_encode raw"

definition generateCodeVerifier :: "bytes \<Rightarrow> string" where
  "generateCodeVerifier raw = b64url_encode raw"

definition computeCodeChallenge :: "(bytes \<Rightarrow> bytes) \<Rightarrow> string \<Rightarrow> string" where
  "computeCodeChallenge sha256 v = b64url_encode (sha256 (bytes_of_string v))"

definition timingSafeEqualString :: "string \<Rightarrow> string \<Rightarrow> bool" where
  "timingSafeEqualString a b =
     (length (bytes_of_string a) = length (bytes_of_string b) \<and> bytes_of_string a = bytes_of_string b)"

lemma timingSafeEqualString_iff [simp]: "timingSafeEqualString a b \<longleftrightarrow> a = b"
  by (auto simp: timingSafeEqualString_def bytes_of_string_inj)

definition ALGORITHM :: string where "ALGORITHM = ''sha256''"

definition hashSecret :: "(bytes \<Rightarrow> bytes) \<Rightarrow> string \<Rightarrow> string" where
  "hashSecret sha256 secret = ALGORITHM @ ''$'' @ b64url_encode (sha256 (bytes_of_string secret))"

definition verifySecret :: "(bytes \<Rightarrow> bytes) \<Rightarrow> string \<Rightarrow> string \<Rightarrow> bool" where
  "verifySecret sha256 secret stored =
     (case split_on (CHR ''$'') stored of
        [algorithm, hash_part] \<Rightarrow>
          algorithm = ALGORITHM \<and>
          (let expected = b64url_decode hash_part; actual = sha256 (bytes_of_string secret)
           in length actual = length expected \<and> actual = expected)
      | _ \<Rightarrow> False)"

definition verifySecretAgainstAny :: "(bytes \<Rightarrow> bytes) \<Rightarrow> string \<Rightarrow> string list \<Rightarrow> bool" where
  "verifySecretAgainstAny sha256 secret stored = list_ex (verifySecret sha256 secret) stored"

definition keyDigest :: "(bytes \<Rightarrow> bytes) \<Rightarrow> string \<Rightarrow> string" where
  "keyDigest sha256 secret = b64url_encode (sha256 (bytes_of_string secret))"

lemma b64url_encode_length:
  "length (b64url_encode bs) = (4 * length bs + 2) div 3"
proof -
  have "length (b64_sextets ns) = (4 * length ns + 2) div 3" for ns
    by (induction ns rule: b64_sextets.induct) auto
  then show ?thesis by (simp add: b64url_encode_def)
qed

text \<open>A verifier made of 32 random bytes has 43 characters of the allowed alphabet.\<close>

lemma generated_verifier_valid:
  assumes "length raw = 32"
  shows "isValidCodeVerifier (generateCodeVerifier raw)"
proof -
  have "list_all code_verifier_char B64URL" by code_simp
  then have "list_all code_verifier_char (b64url_encode raw)"
    using b64url_encode_chars [of raw] by (auto simp: list_all_iff)
  moreover have "length (b64url_encode raw) = 43"
    using assms by (simp add: b64url_encode_length)
  ultimately show ?thesis
    by (auto simp: isValidCodeVerifier_def generateCodeVerifier_def CODE_VERIFIER_MIN_def
        CODE_VERIFIER_MAX_def)
qed

lemma verifySecret_hashSecret:
  "verifySecret h s (hashSecret h t) \<longleftrightarrow> h (bytes_of_string s) = h (bytes_of_string t)"
proof -
  have "split_on (CHR ''$'') (hashSecret h t) = [ALGORITHM, b64url_encode (h (bytes_of_string t))]"
    using split_on_append [of "CHR ''$''" ALGORITHM] split_on_no_sep [OF b64url_no_dollar]
    by (simp add: hashSecret_def ALGORITHM_def)
  then show ?thesis by (auto simp: verifySecret_def Let_def)
qed

lemma keyDigest_eq_iff:
  "keyDigest h s = keyDigest h t \<longleftrightarrow> h (bytes_of_string s) = h (bytes_of_string t)"
  by (simp add: keyDigest_def b64url_inj)

section \<open>logger.ts\<close>

definition REDACTED_KEYS :: "string list" where
  "REDACTED_KEYS =
     [''password'', ''code'', ''token'', ''access_token'', ''accesstoken'', ''id_token'', ''idtoken'',
      ''refresh_token'', ''refreshtoken'', ''client_secret'', ''clientsecret'', ''cookie'',
      ''authorization'', ''code_verifier'', ''session_id'', ''sessionid'']"

definition REDACTED :: string where "REDACTED = ''[REDACTED]''"

definition redact :: "(string \<times> string) list \<Rightarrow> (string \<times> string) list" where
  "redact fs =
     map (\<lambda>(key, value). (key, if to_lower key \<in> set REDACTED_KEYS then REDACTED else value)) fs"

text \<open>What the logger writes does not depend on the values of secret fields.\<close>

lemma redact_hides:
  assumes "map fst f = map fst g"
    and "\<And>i. i < length f \<Longrightarrow> to_lower (fst (f ! i)) \<notin> set REDACTED_KEYS \<Longrightarrow> f ! i = g ! i"
  shows "redact f = redact g"
proof (rule nth_equalityI)
  show "length (redact f) = length (redact g)"
    using arg_cong [OF assms(1), of length] by (simp add: redact_def)
next
  fix i assume i: "i < length (redact f)"
  have len: "length f = length g" using arg_cong [OF assms(1), of length] by simp
  have "fst (f ! i) = fst (g ! i)"
    using i len arg_cong [OF assms(1), of "\<lambda>xs. xs ! i"] by (simp add: redact_def)
  then show "redact f ! i = redact g ! i"
    using assms(2) [of i] i len by (auto simp: redact_def prod_eq_iff split: prod.splits)
qed

section \<open>rate-limit.ts\<close>

text \<open>JavaScript whitespace of one byte, and \<open>trim\<close>.\<close>

definition js_space :: "char \<Rightarrow> bool" where
  "js_space c = ((of_char c :: nat) \<in> {9, 10, 11, 12, 13, 32, 160})"

definition js_trim :: "string \<Rightarrow> string" where
  "js_trim s = rev (dropWhile js_space (rev (dropWhile js_space s)))"

definition clientIp :: "string option \<Rightarrow> string option \<Rightarrow> string" where
  "clientIp forwarded_for remote =
     (let forwarded = map_option (\<lambda>h. js_trim (hd (split_on (CHR '','') h))) forwarded_for
      in case forwarded of
           Some ip \<Rightarrow> if ip \<noteq> [] then ip else (case remote of None \<Rightarrow> ''unknown'' | Some a \<Rightarrow> a)
         | None \<Rightarrow> (case remote of None \<Rightarrow> ''unknown'' | Some a \<Rightarrow> a))"

fun digits :: "nat \<Rightarrow> string" where
  "digits n = (if n < 10 then [char_of (48 + n)]
               else digits (n div 10) @ [char_of (48 + n mod 10)])"

declare digits.simps [simp del]

definition rate_key :: "string \<Rightarrow> string \<Rightarrow> nat \<Rightarrow> string" where
  "rate_key name subject window = name @ '':'' @ subject @ '':'' @ digits window"

text \<open>
  The middleware, up to the call of \<open>next\<close>: \<open>True\<close> lets the request pass, \<open>False\<close> is
  the 429. The wall clock is in milliseconds, the counter store's clock is its whole seconds.
\<close>

definition rateLimit ::
  "string \<Rightarrow> nat \<Rightarrow> nat \<Rightarrow> nat \<Rightarrow> string \<Rightarrow> counter_store \<Rightarrow> bool \<times> counter_store" where
  "rateLimit name limit window_seconds now_ms subject m =
     (let window = now_ms div (1000 * window_seconds);
          (count, m1) = counter_increment (int (now_ms div 1000)) (rate_key name subject window)
            (int window_seconds) m
      in (\<not> (count > limit), m1))"

lemma digits_last: "digits n = (if n < 10 then [] else digits (n div 10)) @ [char_of (48 + n mod 10)]"
  by (subst digits.simps) simp

lemma digits_nonempty [simp]: "digits n \<noteq> []"
  by (subst digits_last) simp

lemma of_digit_char: "d < 10 \<Longrightarrow> of_char (char_of (48 + d) :: char) = 48 + d" for d :: nat
  by (simp add: of_char_of)

lemma digit_char_inj:
  "a < 10 \<Longrightarrow> b < 10 \<Longrightarrow> (char_of (48 + a) :: char) = char_of (48 + b) \<Longrightarrow> a = b" for a b :: nat
  using of_digit_char [of a] of_digit_char [of b] by simp

lemma digits_inj: "digits n = digits m \<Longrightarrow> n = m"
proof (induction n arbitrary: m rule: less_induct)
  case (less n)
  have both: "(if n < 10 then [] else digits (n div 10)) = (if m < 10 then [] else digits (m div 10)) \<and>
      (char_of (48 + n mod 10) :: char) = char_of (48 + m mod 10)"
    using less.prems by (simp only: digits_last [of n] digits_last [of m] append1_eq_conv)
  have low: "n mod 10 = m mod 10"
    by (rule digit_char_inj) (simp_all only: both mod_less_divisor zero_less_numeral)
  note high = conjunct1 [OF both]
  have "n div 10 = m div 10"
  proof (cases "n < 10")
    case True
    then have "m < 10" using high digits_nonempty [of "m div 10"] by (metis (full_types))
    then show ?thesis using True by simp
  next
    case False
    then have "digits (n div 10) = digits (m div 10)" using high by (auto split: if_splits)
    then show ?thesis using False by (intro less.IH) auto
  qed
  then show ?case using low by (metis mult_div_mod_eq)
qed

lemma digits_chars: "c \<in> set (digits n) \<Longrightarrow> is_digit c"
proof (induction n rule: digits.induct)
  case (1 n)
  have "is_digit (char_of (48 + d))" if "d < 10" for d :: nat
    using that by (simp add: char_between_def of_char_of)
  then show ?case using 1 digits.simps [of n] by (auto split: if_splits)
qed

lemma digits_no_colon: "CHR '':'' \<notin> set (digits n)"
  using digits_chars [of "CHR '':''" n] by (auto simp: char_between_def)

text \<open>Distinct subjects or windows use distinct counters.\<close>

lemma rate_key_inj: "rate_key name s w = rate_key name s' w' \<longleftrightarrow> s = s' \<and> w = w'"
proof
  assume eq: "rate_key name s w = rate_key name s' w'"
  have "takeWhile (\<lambda>c. c \<noteq> CHR '':'') (rev (rate_key name s w)) = rev (digits w)" for s w
    using digits_no_colon [of w] by (simp add: rate_key_def takeWhile_append takeWhile_tail)
  then have "digits w = digits w'" using eq by (metis rev_rev_ident)
  then show "s = s' \<and> w = w'" using eq digits_inj by (auto simp: rate_key_def)
qed simp

fun window_passes ::
  "string \<Rightarrow> nat \<Rightarrow> nat \<Rightarrow> string \<Rightarrow> nat \<Rightarrow> (nat \<times> string) list \<Rightarrow> counter_store \<Rightarrow> nat" where
  "window_passes name limit ws subject window [] m = 0"
| "window_passes name limit ws subject window ((ms, s) # hits) m =
     (let (ok, m1) = rateLimit name limit ws ms s m
      in (if ok \<and> s = subject \<and> ms div (1000 * ws) = window then 1 else 0) +
         window_passes name limit ws subject window hits m1)"

text \<open>
  How many requests a window has counted, and that its counter, once live, outlives the window
  (it was created inside the window with a life of \<open>window_seconds\<close>).
\<close>

definition window_used :: "string \<Rightarrow> string \<Rightarrow> nat \<Rightarrow> seconds \<Rightarrow> counter_store \<Rightarrow> nat" where
  "window_used name s w t m =
     (case counter_view t m (rate_key name s w) of None \<Rightarrow> 0 | Some (n, _) \<Rightarrow> n)"

definition window_sound :: "nat \<Rightarrow> string \<Rightarrow> string \<Rightarrow> nat \<Rightarrow> seconds \<Rightarrow> counter_store \<Rightarrow> bool" where
  "window_sound ws name s w t m =
     (case counter_view t m (rate_key name s w) of None \<Rightarrow> True
      | Some (_, e) \<Rightarrow> int ((w + 1) * ws) \<le> e)"

lemma window_end: "0 < ws \<Longrightarrow> (ms div (1000 * ws)) * ws \<le> ms div 1000 \<and>
    ms div 1000 < (ms div (1000 * ws) + 1) * ws"
  for ms ws :: nat
proof -
  assume "0 < ws"
  have "ms div (1000 * ws) = ms div 1000 div ws" by (simp add: div_mult2_eq)
  moreover have "ms div 1000 div ws * ws \<le> ms div 1000" by simp
  moreover have "ms div 1000 < (ms div 1000 div ws + 1) * ws"
    using dividend_less_div_times [OF \<open>0 < ws\<close>, of "ms div 1000"] by (simp add: algebra_simps)
  ultimately show ?thesis by simp
qed

lemma window_ages:
  assumes "window_sound ws name s w t m" "t \<le> t'" "t' < int ((w + 1) * ws)"
  shows "counter_view t' m (rate_key name s w) = counter_view t m (rate_key name s w)"
  using assms mem_counter.count_ages [OF assms(2), of m "rate_key name s w"]
  by (auto simp: window_sound_def split: option.splits)

lemma window_step:
  fixes limit :: nat and s' :: string
  assumes "0 < ws" "window_sound ws name s w (int (ms div 1000)) m"
    and "ms div 1000 < (w + 1) * ws"
  defines "m1 \<equiv> snd (rateLimit name limit ws ms s' m)"
    and "hit \<equiv> s' = s \<and> ms div (1000 * ws) = w"
  shows "window_sound ws name s w (int (ms div 1000)) m1"
    and "window_used name s w (int (ms div 1000)) m1 =
      window_used name s w (int (ms div 1000)) m + (if hit then 1 else 0)"
    and "hit \<Longrightarrow> fst (rateLimit name limit ws ms s' m) \<longleftrightarrow>
      window_used name s w (int (ms div 1000)) m < limit"
proof -
  have m1: "m1 = snd (counter_increment (int (ms div 1000))
      (rate_key name s' (ms div (1000 * ws))) (int ws) m)"
    by (simp add: m1_def rateLimit_def Let_def case_prod_beta)
  have bound: "counter_view t m k = Some (n, e) \<Longrightarrow> t < e" for t k n e
    by (rule mem_counter.count_bound)
  have "hit \<Longrightarrow> int ((w + 1) * ws) \<le> int (ms div 1000) + int ws"
    using window_end [OF assms(1), of ms] by (auto simp: hit_def simp flip: of_nat_add)
  then show "window_sound ws name s w (int (ms div 1000)) m1"
    using assms(1,2) rate_key_inj [of name s w s' "ms div (1000 * ws)"]
    by (auto simp: window_sound_def m1 mem_counter.incr_count hit_def split: option.splits)
  show "window_used name s w (int (ms div 1000)) m1 =
      window_used name s w (int (ms div 1000)) m + (if hit then 1 else 0)"
    using assms(1) bound rate_key_inj [of name s w s' "ms div (1000 * ws)"]
    by (auto simp: window_used_def m1 mem_counter.incr_count hit_def split: option.splits)
  show "hit \<Longrightarrow> fst (rateLimit name limit ws ms s' m) \<longleftrightarrow>
      window_used name s w (int (ms div 1000)) m < limit"
    by (auto simp: rateLimit_def Let_def case_prod_beta mem_counter.incr_result hit_def
        window_used_def split: option.splits)
qed

lemma window_over:
  assumes "0 < ws" "\<forall>h\<in>set hits. (w + 1) * ws \<le> fst h div 1000"
  shows "window_passes name limit ws s w hits m = 0"
  using assms(2)
proof (induction hits arbitrary: m)
  case (Cons h hits)
  obtain ms s' where h: "h = (ms, s')" by fastforce
  have "ms div (1000 * ws) \<noteq> w"
    using window_end [OF assms(1), of ms] Cons.prems h by auto
  then show ?case using Cons by (simp add: h case_prod_beta)
qed simp

lemma window_passes_bound:
  assumes "0 < ws"
    and "sorted (t0 # map (\<lambda>h. fst h div 1000) hits)"
    and "window_sound ws name s w (int t0) m"
  shows "window_passes name limit ws s w hits m \<le> limit - window_used name s w (int t0) m"
  using assms(2,3)
proof (induction hits arbitrary: m t0)
  case (Cons h hits)
  obtain ms s' where h: "h = (ms, s')" by fastforce
  let ?t = "ms div 1000"
  let ?m1 = "snd (rateLimit name limit ws ms s' m)"
  have t0: "t0 \<le> ?t" and srt: "sorted (?t # map (\<lambda>h. fst h div 1000) hits)"
    using Cons.prems(1) h by auto
  show ?case
  proof (cases "?t < (w + 1) * ws")
    case False
    then have "\<forall>h\<in>set (h # hits). (w + 1) * ws \<le> fst h div 1000"
      using srt h by fastforce
    then show ?thesis using window_over [OF assms(1)] by simp
  next
    case True
    have same: "counter_view (int ?t) m (rate_key name s w) =
        counter_view (int t0) m (rate_key name s w)"
      using True t0 by (intro window_ages [OF Cons.prems(2)]) (simp_all flip: of_nat_mult)
    have snd: "window_sound ws name s w (int ?t) m"
      using Cons.prems(2) by (simp add: window_sound_def same)
    note step = window_step [OF assms(1) snd True, where limit = limit and s' = s']
    have "window_passes name limit ws s w hits ?m1 \<le> limit - window_used name s w (int ?t) ?m1"
      by (rule Cons.IH [OF srt step(1)])
    moreover have "window_used name s w (int ?t) m = window_used name s w (int t0) m"
      by (simp add: window_used_def same)
    ultimately show ?thesis
      using step(2,3) by (auto simp: h case_prod_beta split: if_splits)
  qed
qed simp

section \<open>Properties\<close>

text \<open>
  A redirect_uri matches a template with tenant slug \<open>s\<close> exactly when the template has the
  placeholder, \<open>s\<close> is a valid slug, and the uri is the template expanded with \<open>s\<close>.
\<close>

theorem redirect_uri_match_iff:
  "matchRedirectUriTemplate template uri = Some s \<longleftrightarrow>
     sublist PLACEHOLDER template \<and> valid_slug s \<and> uri = expandRedirectUriTemplate template s"
  by (rule match_iff_expand)

text \<open>
  The return_to filter always yields a path on the same host: it starts with one slash, has no
  backslash and no control character; a value that already is such a path is kept as it is.
\<close>

theorem return_to_stays_local:
  "prefix ''/'' (sanitizeReturnTo v) \<and> \<not> prefix ''//'' (sanitizeReturnTo v) \<and>
   char_of (92 :: nat) \<notin> set (sanitizeReturnTo v) \<and>
   list_all (\<lambda>c. \<not> control_character c) (sanitizeReturnTo v) \<and>
   sanitizeReturnTo (Some (sanitizeReturnTo v)) = sanitizeReturnTo v"
proof -
  have d: "prefix ''/'' DEFAULT_RETURN_TO" "\<not> prefix ''//'' DEFAULT_RETURN_TO"
    "(char_of (92 :: nat) :: char) \<notin> set DEFAULT_RETURN_TO"
    "list_all (\<lambda>c. \<not> control_character c) DEFAULT_RETURN_TO" "DEFAULT_RETURN_TO \<noteq> []"
    by (code_simp+)
  have safe: "prefix ''/'' w \<Longrightarrow> \<not> prefix ''//'' w \<Longrightarrow> char_of (92 :: nat) \<notin> set w \<Longrightarrow>
      list_all (\<lambda>c. \<not> control_character c) w \<Longrightarrow> sanitizeReturnTo (Some w) = w" for w
    by (auto simp: sanitizeReturnTo_def list_all_iff list_ex_iff)
  have "prefix ''/'' (sanitizeReturnTo v) \<and> \<not> prefix ''//'' (sanitizeReturnTo v) \<and>
      char_of (92 :: nat) \<notin> set (sanitizeReturnTo v) \<and>
      list_all (\<lambda>c. \<not> control_character c) (sanitizeReturnTo v)"
    using d by (auto simp: sanitizeReturnTo_def list_all_iff list_ex_iff split: option.splits)
  then show ?thesis using safe by blast
qed

text \<open>
  Whatever the requests of all subjects, at nondecreasing times, the limiter lets at most
  \<open>limit\<close> requests of one subject through in one window, starting from a store in which that
  window has no counter.
\<close>

theorem rate_limit_bounds_window:
  assumes "0 < window_seconds" "sorted (t0 # map (\<lambda>h. fst h div 1000) hits)"
    and "counter_view (int t0) m (rate_key name subject window) = None"
  shows "window_passes name limit window_seconds subject window hits m \<le> limit"
proof -
  have "window_sound window_seconds name subject window (int t0) m"
    using assms(3) by (simp add: window_sound_def)
  from window_passes_bound [OF assms(1,2) this, of limit] show ?thesis by simp
qed

theorem rate_limit_bounds_window_witness:
  "window_passes ''login'' 1 60 ''ip'' 0 [(1000, ''ip''), (2000, ''ip''), (2500, ''ip2'')] counter_empty \<le> 1"
  by (rule rate_limit_bounds_window [where ?t0.0 = 0])
     (simp_all add: counter_view_def counter_empty_def)

end
