(* ===== verification/Crypto.thy ===== *)
theory Crypto
  imports SharedText
begin

text \<open>
  packages/shared/src/encryption.ts (the stored form of Cognito tokens), jwt.ts and jwks.ts (token
  verification with the key cache). AES-GCM, RSA signatures and HTTP are parameters: \<open>gcm_enc\<close>
  and \<open>gcm_dec\<close>, the \<open>jose\<close> record, and the answers of the JWKS endpoint.
\<close>

section \<open>encryption.ts\<close>

definition IV_BYTES :: nat where "IV_BYTES = 12"
definition KEY_BYTES :: nat where "KEY_BYTES = 32"
definition FORMAT_VERSION :: string where "FORMAT_VERSION = ''v1''"

record encryption_key =
  key_id :: string
  key_bytes :: bytes

datatype decrypt_error = Malformed | Unknown_key string | Auth_failed

datatype key_error = Invalid_key_length

definition parseEncryptionKey :: "string \<Rightarrow> string \<Rightarrow> (encryption_key, key_error) result" where
  "parseEncryptionKey kid base64_key =
     (let key = b64url_decode base64_key
      in if length key \<noteq> KEY_BYTES then Inl Invalid_key_length
         else Inr \<lparr>key_id = kid, key_bytes = key\<rparr>)"

definition encrypt ::
  "(bytes \<Rightarrow> bytes \<Rightarrow> bytes \<Rightarrow> bytes \<times> bytes) \<Rightarrow> bytes \<Rightarrow> string \<Rightarrow> encryption_key \<Rightarrow> string" where
  "encrypt gcm_enc iv plaintext key =
     (let (ciphertext, tag) = gcm_enc (key_bytes key) iv (bytes_of_string plaintext)
      in join_with ''.'' [FORMAT_VERSION, key_id key, b64url_encode iv, b64url_encode ciphertext,
           b64url_encode tag])"

definition decrypt ::
  "(bytes \<Rightarrow> bytes \<Rightarrow> bytes \<Rightarrow> bytes \<Rightarrow> bytes option) \<Rightarrow> string \<Rightarrow> encryption_key list \<Rightarrow>
   (string, decrypt_error) result" where
  "decrypt gcm_dec payload keys =
     (case split_on (CHR ''.'') payload of
        [version, kid, iv_part, ciphertext_part, tag_part] \<Rightarrow>
          if version \<noteq> FORMAT_VERSION then Inl Malformed
          else (case List.find (\<lambda>k. key_id k = kid) keys of
                  None \<Rightarrow> Inl (Unknown_key kid)
                | Some key \<Rightarrow>
                    (case gcm_dec (key_bytes key) (b64url_decode iv_part)
                        (b64url_decode ciphertext_part) (b64url_decode tag_part) of
                       None \<Rightarrow> Inl Auth_failed
                     | Some plaintext \<Rightarrow> Inr (string_of_bytes plaintext)))
      | _ \<Rightarrow> Inl Malformed)"

text \<open>What the code relies on of AES-256-GCM: decryption with the same key and IV inverts encryption.\<close>

definition gcm_inverts ::
  "(bytes \<Rightarrow> bytes \<Rightarrow> bytes \<Rightarrow> bytes \<times> bytes) \<Rightarrow>
   (bytes \<Rightarrow> bytes \<Rightarrow> bytes \<Rightarrow> bytes \<Rightarrow> bytes option) \<Rightarrow> bool" where
  "gcm_inverts enc dec = (\<forall>k iv p. dec k iv (fst (enc k iv p)) (snd (enc k iv p)) = Some p)"

lemma encrypt_parts:
  assumes "CHR ''.'' \<notin> set (key_id key)"
  shows "split_on (CHR ''.'') (encrypt enc iv p key) =
    [FORMAT_VERSION, key_id key, b64url_encode iv,
     b64url_encode (fst (enc (key_bytes key) iv (bytes_of_string p))),
     b64url_encode (snd (enc (key_bytes key) iv (bytes_of_string p)))]"
proof -
  have "CHR ''.'' \<notin> set FORMAT_VERSION" by (simp add: FORMAT_VERSION_def)
  then show ?thesis
    using assms b64url_no_dot
    by (simp add: encrypt_def Let_def case_prod_beta del: join_with.simps)
       (rule split_on_join; auto)
qed

text \<open>Every accepted payload names one of the configured keys and passed that key's authentication.\<close>

lemma decrypt_ok_iff:
  "decrypt dec payload keys = Inr p \<longleftrightarrow>
     (\<exists>kid iv ct tag key b. split_on (CHR ''.'') payload = [FORMAT_VERSION, kid, iv, ct, tag] \<and>
        List.find (\<lambda>k. key_id k = kid) keys = Some key \<and>
        dec (key_bytes key) (b64url_decode iv) (b64url_decode ct) (b64url_decode tag) = Some b \<and>
        p = string_of_bytes b)"
  by (auto simp: decrypt_def split: list.splits option.splits if_splits)

section \<open>JSON values and JWT payloads\<close>

datatype json = JNull | JBool bool | JNum int | JStr string | JArr "json list"
  | JObj "(string \<times> json) list"

definition json_field :: "string \<Rightarrow> json \<Rightarrow> json option" where
  "json_field k j = (case j of JObj fs \<Rightarrow> map_of fs k | _ \<Rightarrow> None)"

definition json_string :: "json option \<Rightarrow> string option" where
  "json_string j = (case j of Some (JStr s) \<Rightarrow> Some s | _ \<Rightarrow> None)"

fun json_strings :: "json list \<Rightarrow> string list option" where
  "json_strings [] = Some []"
| "json_strings (JStr s # r) = map_option (\<lambda>ss. s # ss) (json_strings r)"
| "json_strings (_ # r) = None"

record sign_options =
  so_issuer :: string
  so_audience :: "string list"
  so_subject :: string
  so_issued_at :: seconds
  so_expires_at :: seconds
  so_claims :: "(string \<times> json) list"

text \<open>
  \<open>signJwt\<close> sets the protected header (algorithm and key id) and the registered claims over
  the caller's claims. \<open>rs256\<close> stands for the RS256 signature of a header and a payload.
\<close>

definition SIGNING_ALGORITHM :: string where "SIGNING_ALGORITHM = ''RS256''"

record jwt_header =
  hd_alg :: string
  hd_kid :: string

definition aud_json :: "string list \<Rightarrow> json" where
  "aud_json as = (case as of [a] \<Rightarrow> JStr a | _ \<Rightarrow> JArr (map JStr as))"

definition jwt_claims :: "sign_options \<Rightarrow> (string \<times> json) list" where
  "jwt_claims o' =
     [(''iss'', JStr (so_issuer o')), (''aud'', aud_json (so_audience o')),
      (''sub'', JStr (so_subject o')), (''iat'', JNum (so_issued_at o')),
      (''exp'', JNum (so_expires_at o'))] @ so_claims o'"

definition signJwt :: "(jwt_header \<Rightarrow> json \<Rightarrow> string) \<Rightarrow> string \<Rightarrow> sign_options \<Rightarrow> string" where
  "signJwt rs256 kid o' =
     rs256 \<lparr>hd_alg = SIGNING_ALGORITHM, hd_kid = kid\<rparr> (JObj (jwt_claims o'))"

lemma jwt_claims_registered [simp]:
  "json_field ''iss'' (JObj (jwt_claims o')) = Some (JStr (so_issuer o'))"
  "json_field ''sub'' (JObj (jwt_claims o')) = Some (JStr (so_subject o'))"
  "json_field ''aud'' (JObj (jwt_claims o')) = Some (aud_json (so_audience o'))"
  "json_field ''exp'' (JObj (jwt_claims o')) = Some (JNum (so_expires_at o'))"
  by (simp_all add: json_field_def jwt_claims_def)

section \<open>Properties\<close>

text \<open>
  What is encrypted with a key is read back with any key ring whose first key of that id is the
  same key, whatever keys surround it, so rotation keeps old ciphertexts readable.
\<close>

theorem encryption_roundtrip:
  assumes "gcm_inverts gcm_enc gcm_dec" "CHR ''.'' \<notin> set (key_id key)"
    and "List.find (\<lambda>k. key_id k = key_id key) keys = Some key"
  shows "decrypt gcm_dec (encrypt gcm_enc iv plaintext key) keys = Inr plaintext"
  using assms(1,3)
  by (simp add: decrypt_def encrypt_parts [OF assms(2)] gcm_inverts_def)

theorem encryption_roundtrip_witness:
  "decrypt (\<lambda>k iv c t. Some c)
     (encrypt (\<lambda>k iv p. (p, [])) [1] ''pw'' \<lparr>key_id = ''k2'', key_bytes = []\<rparr>)
     [\<lparr>key_id = ''k1'', key_bytes = [7]\<rparr>, \<lparr>key_id = ''k2'', key_bytes = []\<rparr>] = Inr ''pw''"
  by (rule encryption_roundtrip) (simp_all add: gcm_inverts_def)

end
