(* ===== verification/Jwks.thy ===== *)
theory Jwks
  imports Crypto
begin

text \<open>
  packages/shared/src/jwks.ts and the verification half of jwt.ts: \<open>RemoteJwksSource\<close>, the cache of
  the issuer's public keys, as a state machine driven by calls of \<open>get\<close> and completions of
  the fetch it starts; \<open>verifyJwt\<close>; \<open>verifyJwtWithSource\<close>, which asks for a refresh only
  when the token names a key the cache does not hold.
\<close>

section \<open>Key sets and verification\<close>

record jwk =
  jwk_kid :: "string option"
  jwk_material :: string

type_synonym jwks = "jwk list"

record jwks_error = jwks_reason :: string

datatype verify_error = Expired | Invalid_token string | Jwks_unavailable string

record verify_options =
  vo_issuer :: string
  vo_audience :: "string option"
  vo_now :: seconds
  vo_tolerance :: seconds

definition DEFAULT_CLOCK_TOLERANCE_SECONDS :: seconds where "DEFAULT_CLOCK_TOLERANCE_SECONDS = 30"

text \<open>
  What jose provides: the key id of a token's protected header, and \<open>jwtVerify\<close> with the
  algorithm pinned to RS256.
\<close>

datatype jose_outcome = Jose_ok json | Jose_expired | Jose_error string

record jose =
  jose_kid :: "string \<Rightarrow> string option"
  jose_verify :: "string \<Rightarrow> jwks \<Rightarrow> string \<Rightarrow> verify_options \<Rightarrow> jose_outcome"

definition verifyJwt ::
  "'z jose_scheme \<Rightarrow> string \<Rightarrow> jwks \<Rightarrow> verify_options \<Rightarrow> (json, verify_error) result" where
  "verifyJwt j token keys opts =
     (case jose_verify j token keys SIGNING_ALGORITHM opts of
        Jose_ok payload \<Rightarrow> Inr payload
      | Jose_expired \<Rightarrow> Inl Expired
      | Jose_error reason \<Rightarrow> Inl (Invalid_token reason))"

definition readJwtKid :: "'z jose_scheme \<Rightarrow> string \<Rightarrow> string option" where
  "readJwtKid j token = jose_kid j token"

definition hasKid :: "jwks \<Rightarrow> string \<Rightarrow> bool" where
  "hasKid keys kid = list_ex (\<lambda>k. jwk_kid k = Some kid) keys"

section \<open>RemoteJwksSource\<close>

definition REFRESH_MIN_INTERVAL_SECONDS :: seconds where "REFRESH_MIN_INTERVAL_SECONDS = 60"
definition CACHE_TTL_SECONDS :: seconds where "CACHE_TTL_SECONDS = 600"

record jwks_source =
  cached :: "jwks option"
  attempted_at :: seconds
  forced_at :: seconds
  inflight :: bool

definition jwks_source_new :: jwks_source where
  "jwks_source_new = \<lparr>cached = None, attempted_at = 0, forced_at = 0, inflight = False\<rparr>"

text \<open>
  A call of \<open>get\<close> answers from the cache, starts a fetch, or joins the one in flight.
  \<open>refresh\<close> records the time of the attempt when it starts.
\<close>

datatype jwks_step = Serve jwks | Fetch | Join

definition fetch_or_join :: "seconds \<Rightarrow> jwks_source \<Rightarrow> jwks_step \<times> jwks_source" where
  "fetch_or_join now s =
     (if inflight s then (Join, s) else (Fetch, s\<lparr>attempted_at := now, inflight := True\<rparr>))"

definition jwks_get :: "seconds \<Rightarrow> bool \<Rightarrow> jwks_source \<Rightarrow> jwks_step \<times> jwks_source" where
  "jwks_get now force s =
     (if force then
        (case cached s of
           Some c \<Rightarrow>
             if now - forced_at s < REFRESH_MIN_INTERVAL_SECONDS then (Serve c, s)
             else fetch_or_join now (s\<lparr>forced_at := now\<rparr>)
         | None \<Rightarrow> fetch_or_join now (s\<lparr>forced_at := now\<rparr>))
      else
        (case cached s of
           Some c \<Rightarrow>
             if now - attempted_at s < CACHE_TTL_SECONDS then (Serve c, s)
             else if now - attempted_at s < REFRESH_MIN_INTERVAL_SECONDS then (Serve c, s)
             else fetch_or_join now s
         | None \<Rightarrow> fetch_or_join now s))"

text \<open>
  The outcome of the fetch: the URL could not be resolved, the request threw, the answer had an
  error status, its body is not a key set, or it is one.
\<close>

datatype jwks_response =
  Url_error string | Fetch_threw string | Bad_status string | Bad_body | Key_set jwks

definition jwks_fallback :: "string \<Rightarrow> jwks_source \<Rightarrow> (jwks, jwks_error) result" where
  "jwks_fallback reason s =
     (case cached s of Some c \<Rightarrow> Inr c | None \<Rightarrow> Inl \<lparr>jwks_reason = reason\<rparr>)"

definition jwks_done ::
  "jwks_response \<Rightarrow> jwks_source \<Rightarrow> (jwks, jwks_error) result \<times> jwks_source" where
  "jwks_done r s =
     (let s1 = s\<lparr>inflight := False\<rparr>
      in case r of
           Url_error reason \<Rightarrow> (jwks_fallback reason s, s1)
         | Fetch_threw reason \<Rightarrow> (jwks_fallback reason s, s1)
         | Bad_status st \<Rightarrow> (jwks_fallback (''status '' @ st) s, s1)
         | Bad_body \<Rightarrow> (jwks_fallback ''malformed jwks'' s, s1)
         | Key_set ks \<Rightarrow> (Inr ks, s1\<lparr>cached := Some ks\<rparr>))"

text \<open>One caller's view of \<open>get\<close>: the call, and the answer when the fetch completes.\<close>

definition jwks_source_get ::
  "seconds \<Rightarrow> jwks_response \<Rightarrow> bool \<Rightarrow> (jwks_source, (jwks, jwks_error) result) state" where
  "jwks_source_get now response force = State (\<lambda>s.
     (case jwks_get now force s of
        (Serve c, s1) \<Rightarrow> (Inr c, s1)
      | (_, s1) \<Rightarrow> jwks_done response s1))"

definition static_source_get :: "jwks \<Rightarrow> bool \<Rightarrow> ('s, (jwks, jwks_error) result) state" where
  "static_source_get keys force = State_Monad.return (Inr keys)"

section \<open>verifyJwtWithSource\<close>

definition verifyJwtWithSource ::
  "'z jose_scheme \<Rightarrow> (bool \<Rightarrow> ('s, (jwks, jwks_error) result) state) \<Rightarrow> string \<Rightarrow> verify_options \<Rightarrow>
   ('s, (json, verify_error) result) state" where
  "verifyJwtWithSource j source_get token opts =
     (case readJwtKid j token of
        None \<Rightarrow> State_Monad.return (Inl (Invalid_token ''kid missing''))
      | Some kid \<Rightarrow> do {
          c \<leftarrow> source_get False;
          case c of
            Inl e \<Rightarrow> State_Monad.return (Inl (Jwks_unavailable (jwks_reason e)))
          | Inr keys \<Rightarrow> do {
              found \<leftarrow> (if hasKid keys kid then State_Monad.return c else source_get True);
              case found of
                Inl e \<Rightarrow> State_Monad.return (Inl (Jwks_unavailable (jwks_reason e)))
              | Inr ks \<Rightarrow> State_Monad.return (verifyJwt j token ks opts)
            }
        })"

section \<open>Throttling of forced refreshes\<close>

datatype jwks_event = Get bool | Done jwks_response

definition jwks_event_step :: "seconds \<times> jwks_event \<Rightarrow> jwks_source \<Rightarrow> jwks_source" where
  "jwks_event_step e s =
     (case e of (t, Get force) \<Rightarrow> snd (jwks_get t force s) | (t, Done r) \<Rightarrow> snd (jwks_done r s))"

fun jwks_run :: "(seconds \<times> jwks_event) list \<Rightarrow> jwks_source \<Rightarrow> jwks_source" where
  "jwks_run [] s = s"
| "jwks_run (e # es) s = jwks_run es (jwks_event_step e s)"

text \<open>The times at which a forced call was let through to the network.\<close>

fun forced_fetches :: "(seconds \<times> jwks_event) list \<Rightarrow> jwks_source \<Rightarrow> seconds list" where
  "forced_fetches [] s = []"
| "forced_fetches ((t, e) # es) s =
     (case e of
        Get True \<Rightarrow> (case fst (jwks_get t True s) of Serve _ \<Rightarrow> [] | _ \<Rightarrow> [t])
      | _ \<Rightarrow> []) @ forced_fetches es (jwks_event_step (t, e) s)"

lemmas jwks_defs = jwks_get_def fetch_or_join_def jwks_done_def jwks_event_step_def

lemma jwks_cached_kept: "cached s \<noteq> None \<Longrightarrow> cached (jwks_event_step e s) \<noteq> None"
  by (cases e) (auto simp: jwks_defs Let_def split: jwks_event.splits jwks_response.splits
      option.splits)

lemma jwks_forced_at:
  assumes "cached s \<noteq> None"
  shows "forced_at (jwks_event_step (t, e) s) =
    (if e = Get True \<and> forced_at s + REFRESH_MIN_INTERVAL_SECONDS \<le> t then t else forced_at s)"
  using assms
  by (auto simp: jwks_defs Let_def split: jwks_event.splits jwks_response.splits option.splits
      if_splits)

lemma jwks_forced_serve:
  assumes "cached s \<noteq> None"
  shows "(case fst (jwks_get t True s) of Serve _ \<Rightarrow> False | _ \<Rightarrow> True) \<longleftrightarrow>
    forced_at s + REFRESH_MIN_INTERVAL_SECONDS \<le> t"
  using assms by (auto simp: jwks_get_def fetch_or_join_def split: if_splits)

definition spaced :: "seconds \<Rightarrow> seconds list \<Rightarrow> bool" where
  "spaced d ts = sorted_wrt (\<lambda>a b. a + d \<le> b) ts"

lemma forced_fetches_spaced_from:
  assumes "cached s \<noteq> None"
  shows "spaced REFRESH_MIN_INTERVAL_SECONDS (forced_at s # forced_fetches es s)"
  using assms
proof (induction es arbitrary: s)
  case Nil
  then show ?case by (simp add: spaced_def)
next
  case (Cons e es)
  obtain t ev where e: "e = (t, ev)" by fastforce
  let ?s1 = "jwks_event_step (t, ev) s"
  have ih: "spaced REFRESH_MIN_INTERVAL_SECONDS (forced_at ?s1 # forced_fetches es ?s1)"
    using Cons.IH [OF jwks_cached_kept [OF Cons.prems]] .
  have d: "0 \<le> REFRESH_MIN_INTERVAL_SECONDS" by (simp add: REFRESH_MIN_INTERVAL_SECONDS_def)
  show ?case
    using ih jwks_forced_at [OF Cons.prems, of t ev] jwks_forced_serve [OF Cons.prems, of t] d
    by (cases "ev = Get True")
       (fastforce simp: e spaced_def split: jwks_step.splits jwks_event.splits bool.splits
         if_splits)+
qed

lemma jwks_source_get_state [simp]:
  "run_state (jwks_source_get now r force) s =
     (case jwks_get now force s of
        (Serve c, s1) \<Rightarrow> (Inr c, s1) | (_, s1) \<Rightarrow> jwks_done r s1)"
  by (simp add: jwks_source_get_def)

section \<open>Properties\<close>

text \<open>
  Once the source holds a key set, forced refreshes that reach the network are at least 60
  seconds apart, whatever tokens arrive and however the fetches between them end.
\<close>

theorem forced_refresh_throttled:
  assumes "cached s \<noteq> None"
  shows "spaced REFRESH_MIN_INTERVAL_SECONDS (forced_fetches events s)"
  using forced_fetches_spaced_from [OF assms, of events] by (simp add: spaced_def)

theorem forced_refresh_throttled_witness:
  "spaced REFRESH_MIN_INTERVAL_SECONDS
     (forced_fetches [(100, Get True), (130, Get True), (170, Get True)]
        (jwks_source_new\<lparr>cached := Some []\<rparr>))"
  by (rule forced_refresh_throttled) simp

text \<open>
  A caller never loses the key set: once one was fetched, every later call answers with a key
  set, even when each refresh fails.
\<close>

theorem jwks_source_keeps_answering:
  assumes "cached s \<noteq> None"
  shows "is_ok (fst (run_state (jwks_source_get t response force) s)) \<and>
    cached (snd (run_state (jwks_source_get t response force) s)) \<noteq> None"
  using assms
  by (auto simp: jwks_get_def fetch_or_join_def jwks_done_def jwks_fallback_def Let_def
      split: jwks_response.splits)

theorem jwks_source_keeps_answering_witness:
  "is_ok (fst (run_state (jwks_source_get 9999 Bad_body True) (jwks_source_new\<lparr>cached := Some []\<rparr>)))"
  using jwks_source_keeps_answering [of "jwks_source_new\<lparr>cached := Some []\<rparr>"] by simp

end
