(* ===== verification/Identity.thy ===== *)
theory Identity
  imports Crypto
begin

text \<open>
  apps/auth-api/src/domain and the in-memory repositories of apps/auth-api/src/infrastructure:
  the identity database (users, tenants, services, contracts, memberships, MFA methods), the
  session records with the services they entered, and the audit events.
  Tables are lists in insertion order, a JavaScript \<open>Map\<close> keyed by id is a list with one
  row per id that is replaced in place.
\<close>

section \<open>domain/policy.ts\<close>

definition SSO_SESSION_IDLE_SECONDS :: seconds where "SSO_SESSION_IDLE_SECONDS = 2 * 60 * 60"
definition SSO_SESSION_ABSOLUTE_SECONDS :: seconds where "SSO_SESSION_ABSOLUTE_SECONDS = 12 * 60 * 60"
definition AUTHORIZATION_REQUEST_TTL_SECONDS :: seconds where
  "AUTHORIZATION_REQUEST_TTL_SECONDS = 30 * 60"
definition AUTHORIZATION_CODE_TTL_SECONDS :: seconds where "AUTHORIZATION_CODE_TTL_SECONDS = 60"
definition CONSUMED_CODE_RETENTION_SECONDS :: seconds where
  "CONSUMED_CODE_RETENTION_SECONDS = 10 * 60"
definition ID_TOKEN_TTL_SECONDS :: seconds where "ID_TOKEN_TTL_SECONDS = 5 * 60"
definition ACCESS_TOKEN_TTL_SECONDS :: seconds where "ACCESS_TOKEN_TTL_SECONDS = 15 * 60"
definition REFRESH_TOKEN_TTL_SECONDS :: seconds where "REFRESH_TOKEN_TTL_SECONDS = 12 * 60 * 60"
definition CSRF_TOKEN_TTL_SECONDS :: seconds where "CSRF_TOKEN_TTL_SECONDS = 30 * 60"
definition SUPPORTED_SCOPES :: "string list" where
  "SUPPORTED_SCOPES = [''openid'', ''profile'', ''email'']"
definition MFA_PENDING_TTL_SECONDS :: seconds where "MFA_PENDING_TTL_SECONDS = 5 * 60"
definition MFA_MAX_ATTEMPTS :: nat where "MFA_MAX_ATTEMPTS = 5"
definition TOTP_SETUP_TTL_SECONDS :: seconds where "TOTP_SETUP_TTL_SECONDS = 3 * 60"
definition MFA_ISSUER_NAME :: string where "MFA_ISSUER_NAME = ''Sandbox''"
definition LOGOUT_TOKEN_TTL_SECONDS :: seconds where "LOGOUT_TOKEN_TTL_SECONDS = 2 * 60"

lemmas ttl_defs = SSO_SESSION_IDLE_SECONDS_def SSO_SESSION_ABSOLUTE_SECONDS_def
  AUTHORIZATION_REQUEST_TTL_SECONDS_def AUTHORIZATION_CODE_TTL_SECONDS_def
  CONSUMED_CODE_RETENTION_SECONDS_def REFRESH_TOKEN_TTL_SECONDS_def CSRF_TOKEN_TTL_SECONDS_def
  MFA_PENDING_TTL_SECONDS_def TOTP_SETUP_TTL_SECONDS_def

lemma ttl_positive [simp]:
  "0 < SSO_SESSION_ABSOLUTE_SECONDS" "0 < AUTHORIZATION_REQUEST_TTL_SECONDS"
  "0 < AUTHORIZATION_CODE_TTL_SECONDS" "0 < CONSUMED_CODE_RETENTION_SECONDS"
  "0 < REFRESH_TOKEN_TTL_SECONDS" "0 < CSRF_TOKEN_TTL_SECONDS" "0 < MFA_PENDING_TTL_SECONDS"
  by (simp_all add: ttl_defs)

section \<open>domain/identity.ts\<close>

datatype active_status = Active | Disabled
datatype suspend_status = In_force | Suspended
datatype mfa_method = Totp

record user =
  user_id :: string
  cognito_sub :: "string option"
  user_email :: string
  user_name :: "string option"
  user_status :: active_status

record tenant =
  tenant_id :: string
  tenant_slug :: string
  tenant_name :: string
  tenant_status :: suspend_status

record oidc_client =
  oc_id :: string
  oc_client_id :: string
  oc_name :: string
  oc_audience :: string
  oc_redirect_template :: string
  oc_secret_hashes :: "string list"
  oc_allowed_scopes :: "string list"
  oc_status :: active_status
  oc_backchannel_uri :: "string option"

record contract_row =
  ct_tenant :: string
  ct_client :: string
  ct_status :: suspend_status

record membership_row =
  mb_tenant :: string
  mb_client :: string
  mb_user :: string
  mb_status :: active_status

record new_user =
  nu_id :: string
  nu_cognito_sub :: "string option"
  nu_email :: string
  nu_name :: "string option"

record portal_service =
  ps_client_id :: string
  ps_name :: string
  ps_origin :: string

record portal_entry =
  pe_tenant :: tenant
  pe_services :: "portal_service list"

section \<open>MemoryIdentityRepository\<close>

record identity_db =
  id_clients :: "oidc_client list"
  id_tenants :: "tenant list"
  id_users :: "user list"
  id_contracts :: "contract_row list"
  id_memberships :: "membership_row list"
  id_mfa :: "string \<rightharpoonup> (mfa_method \<times> seconds) list"

definition findClient :: "identity_db \<Rightarrow> string \<Rightarrow> oidc_client option" where
  "findClient db cid = List.find (\<lambda>c. oc_client_id c = cid) (id_clients db)"

definition findClientById :: "identity_db \<Rightarrow> string \<Rightarrow> oidc_client option" where
  "findClientById db i = List.find (\<lambda>c. oc_id c = i) (id_clients db)"

definition findTenantsByIds :: "identity_db \<Rightarrow> string list \<Rightarrow> tenant list" where
  "findTenantsByIds db is = filter (\<lambda>t. tenant_id t \<in> set is) (id_tenants db)"

definition listMfaMethods :: "identity_db \<Rightarrow> string \<Rightarrow> (mfa_method \<times> seconds) list" where
  "listMfaMethods db uid = (case id_mfa db uid of None \<Rightarrow> [] | Some ms \<Rightarrow> ms)"

definition recordMfaMethod :: "string \<Rightarrow> mfa_method \<Rightarrow> seconds \<Rightarrow> identity_db \<Rightarrow> identity_db" where
  "recordMfaMethod uid m at db =
     (let existing = (case id_mfa db uid of None \<Rightarrow> [] | Some ms \<Rightarrow> ms)
      in if list_ex (\<lambda>e. fst e = m) existing then db
         else db\<lparr>id_mfa := (id_mfa db)(uid \<mapsto> existing @ [(m, at)])\<rparr>)"

definition findUserByCognitoSub :: "identity_db \<Rightarrow> string \<Rightarrow> user option" where
  "findUserByCognitoSub db sub = List.find (\<lambda>u. cognito_sub u = Some sub) (id_users db)"

definition findUserByEmail :: "identity_db \<Rightarrow> string \<Rightarrow> user option" where
  "findUserByEmail db email =
     List.find (\<lambda>u. to_lower (user_email u) = to_lower email) (id_users db)"

definition findUserById :: "identity_db \<Rightarrow> string \<Rightarrow> user option" where
  "findUserById db i = List.find (\<lambda>u. user_id u = i) (id_users db)"

text \<open>\<open>Map.set\<close>: the row with the same id is replaced in place, a new one is appended.\<close>

fun put_user :: "user \<Rightarrow> user list \<Rightarrow> user list" where
  "put_user u [] = [u]"
| "put_user u (v # vs) = (if user_id v = user_id u then u # vs else v # put_user u vs)"

definition createUser :: "new_user \<Rightarrow> identity_db \<Rightarrow> user \<times> identity_db" where
  "createUser n db =
     (let u = \<lparr>user_id = nu_id n, cognito_sub = nu_cognito_sub n, user_email = nu_email n,
               user_name = nu_name n, user_status = Active\<rparr>
      in (u, db\<lparr>id_users := put_user u (id_users db)\<rparr>))"

definition linkCognitoSub :: "string \<Rightarrow> string \<Rightarrow> identity_db \<Rightarrow> user option \<times> identity_db" where
  "linkCognitoSub uid sub db =
     (case findUserById db uid of
        None \<Rightarrow> (None, db)
      | Some u \<Rightarrow>
          (let linked = u\<lparr>cognito_sub := Some sub\<rparr>
           in (Some linked, db\<lparr>id_users := put_user linked (id_users db)\<rparr>)))"

definition findTenantById :: "identity_db \<Rightarrow> string \<Rightarrow> tenant option" where
  "findTenantById db i = List.find (\<lambda>t. tenant_id t = i) (id_tenants db)"

definition findTenantBySlug :: "identity_db \<Rightarrow> string \<Rightarrow> tenant option" where
  "findTenantBySlug db s = List.find (\<lambda>t. tenant_slug t = s) (id_tenants db)"

definition findContract :: "identity_db \<Rightarrow> string \<Rightarrow> string \<Rightarrow> suspend_status option" where
  "findContract db tid cid =
     map_option ct_status (List.find (\<lambda>c. ct_tenant c = tid \<and> ct_client c = cid) (id_contracts db))"

definition same_membership :: "string \<Rightarrow> string \<Rightarrow> string \<Rightarrow> membership_row \<Rightarrow> bool" where
  "same_membership tid cid uid m = (mb_tenant m = tid \<and> mb_client m = cid \<and> mb_user m = uid)"

definition findServiceMembership ::
  "identity_db \<Rightarrow> string \<Rightarrow> string \<Rightarrow> string \<Rightarrow> active_status option" where
  "findServiceMembership db tid cid uid =
     map_option mb_status (List.find (same_membership tid cid uid) (id_memberships db))"

definition upsertServiceMembership ::
  "string \<Rightarrow> string \<Rightarrow> string \<Rightarrow> identity_db \<Rightarrow> identity_db" where
  "upsertServiceMembership tid cid uid db =
     db\<lparr>id_memberships := filter (\<lambda>m. \<not> same_membership tid cid uid m) (id_memberships db) @
          [\<lparr>mb_tenant = tid, mb_client = cid, mb_user = uid, mb_status = Active\<rparr>]\<rparr>"

definition removeServiceMembership ::
  "string \<Rightarrow> string \<Rightarrow> string \<Rightarrow> identity_db \<Rightarrow> identity_db" where
  "removeServiceMembership tid cid uid db =
     db\<lparr>id_memberships := filter (\<lambda>m. \<not> same_membership tid cid uid m) (id_memberships db)\<rparr>"

definition listServiceMembers ::
  "identity_db \<Rightarrow> string \<Rightarrow> string \<Rightarrow> (user \<times> active_status) list" where
  "listServiceMembers db tid cid =
     concat (map (\<lambda>m. case findUserById db (mb_user m) of None \<Rightarrow> [] | Some u \<Rightarrow> [(u, mb_status m)])
       (filter (\<lambda>m. mb_tenant m = tid \<and> mb_client m = cid) (id_memberships db)))"

definition portal_services ::
  "(string \<Rightarrow> string) \<Rightarrow> identity_db \<Rightarrow> string \<Rightarrow> tenant \<Rightarrow> portal_service list" where
  "portal_services url_origin db uid t =
     concat (map (\<lambda>m. case findContract db (tenant_id t) (mb_client m) of
           Some In_force \<Rightarrow>
             (case findClientById db (mb_client m) of
                Some c \<Rightarrow>
                  if oc_status c \<noteq> Active then []
                  else [\<lparr>ps_client_id = oc_client_id c, ps_name = oc_name c,
                         ps_origin = serviceOrigin url_origin (oc_redirect_template c) (tenant_slug t)\<rparr>]
              | None \<Rightarrow> [])
         | _ \<Rightarrow> [])
       (filter (\<lambda>m. mb_user m = uid \<and> mb_tenant m = tenant_id t \<and> mb_status m = Active)
         (id_memberships db)))"

definition listPortalEntries :: "(string \<Rightarrow> string) \<Rightarrow> identity_db \<Rightarrow> string \<Rightarrow> portal_entry list" where
  "listPortalEntries url_origin db uid =
     concat (map (\<lambda>t.
         if tenant_status t \<noteq> In_force then []
         else (let services = portal_services url_origin db uid t
               in if services = [] then [] else [\<lparr>pe_tenant = t, pe_services = services\<rparr>]))
       (id_tenants db))"

section \<open>What the repository promises about assignments\<close>

text \<open>
  The port's contract for assignments: an upsert makes exactly one assignment active, a removal
  deletes exactly one, and no other assignment of any tenant, service or user changes.
\<close>

locale assignments =
  fixes lookup :: "'db \<Rightarrow> string \<Rightarrow> string \<Rightarrow> string \<Rightarrow> active_status option"
    and assign :: "string \<Rightarrow> string \<Rightarrow> string \<Rightarrow> 'db \<Rightarrow> 'db"
    and unassign :: "string \<Rightarrow> string \<Rightarrow> string \<Rightarrow> 'db \<Rightarrow> 'db"
  assumes lookup_assign: "lookup (assign t c u db) t' c' u' =
      (if t' = t \<and> c' = c \<and> u' = u then Some Active else lookup db t' c' u')"
    and lookup_unassign: "lookup (unassign t c u db) t' c' u' =
      (if t' = t \<and> c' = c \<and> u' = u then None else lookup db t' c' u')"
begin

lemma assign_idempotent: "lookup (assign t c u (assign t c u db)) = lookup (assign t c u db)"
  by (simp add: fun_eq_iff lookup_assign)

lemma unassign_after_assign:
  "lookup db t c u = None \<Longrightarrow> lookup (unassign t c u (assign t c u db)) = lookup db"
  by (auto simp: fun_eq_iff lookup_assign lookup_unassign)

end

lemma find_same_other:
  assumes "\<not> (t' = t \<and> c' = c \<and> u' = u)"
  shows "List.find (same_membership t' c' u') (filter (\<lambda>m. \<not> same_membership t c u m) ms) =
    List.find (same_membership t' c' u') ms"
  using assms by (induction ms) (auto simp: same_membership_def)

lemma find_append: "List.find P (xs @ ys) =
    (case List.find P xs of None \<Rightarrow> List.find P ys | Some x \<Rightarrow> Some x)"
  by (induction xs) auto

lemma find_same_gone:
  "List.find (same_membership t c u) (filter (\<lambda>m. \<not> same_membership t c u m) ms) = None"
  by (simp add: find_None_iff')

interpretation mem_assign: assignments findServiceMembership upsertServiceMembership
  removeServiceMembership
proof
  fix t c u db t' c' u'
  show "findServiceMembership (upsertServiceMembership t c u db) t' c' u' =
      (if t' = t \<and> c' = c \<and> u' = u then Some Active else findServiceMembership db t' c' u')"
    using find_same_other [of t' t c' c u' u "id_memberships db"] find_same_gone [of t c u]
    by (auto simp: findServiceMembership_def upsertServiceMembership_def find_append
        same_membership_def split: option.splits)
  show "findServiceMembership (removeServiceMembership t c u db) t' c' u' =
      (if t' = t \<and> c' = c \<and> u' = u then None else findServiceMembership db t' c' u')"
    using find_same_other [of t' t c' c u' u "id_memberships db"] find_same_gone [of t c u]
    by (auto simp: findServiceMembership_def removeServiceMembership_def)
qed

text \<open>The user table: one row per id, looked up by id.\<close>

definition users_distinct :: "identity_db \<Rightarrow> bool" where
  "users_distinct db = distinct (map user_id (id_users db))"

lemma find_put_user: "List.find (\<lambda>v. user_id v = i) (put_user u us) =
    (if i = user_id u then Some u else List.find (\<lambda>v. user_id v = i) us)"
  by (induction us) auto

lemma put_user_ids: "set (map user_id (put_user u us)) = insert (user_id u) (set (map user_id us))"
  by (induction us) auto

lemma put_user_distinct: "distinct (map user_id us) \<Longrightarrow> distinct (map user_id (put_user u us))"
  by (induction us) (use put_user_ids in auto)

lemma findUserById_put:
  "findUserById (db\<lparr>id_users := put_user u (id_users db)\<rparr>) i =
     (if i = user_id u then Some u else findUserById db i)"
  by (simp add: findUserById_def find_put_user)

lemma put_user_set: "v \<in> set (put_user u us) \<Longrightarrow> v = u \<or> v \<in> set us"
  by (induction us) (auto split: if_splits)

section \<open>domain/session.ts and MemorySessionRepository\<close>

record request_environment =
  env_ip :: string
  env_user_agent :: string

datatype revoke_reason = Global_logout | User_revoked

record auth_session_record =
  as_id :: string
  as_user :: string
  as_ip :: string
  as_user_agent :: string
  as_created_at :: seconds
  as_last_seen_at :: seconds
  as_revoked_at :: "seconds option"
  as_revoke_reason :: "revoke_reason option"

record session_client_entry =
  sc_session :: string
  sc_client :: string
  sc_tenant :: string
  sc_first_seen_at :: seconds
  sc_last_seen_at :: seconds

type_synonym session_with_clients = "auth_session_record \<times> session_client_entry list"

record session_db =
  sd_sessions :: "auth_session_record list"
  sd_clients :: "session_client_entry list"

definition environmentChanged :: "request_environment \<Rightarrow> request_environment \<Rightarrow> bool" where
  "environmentChanged recorded current =
     (env_ip recorded \<noteq> env_ip current \<or> env_user_agent recorded \<noteq> env_user_agent current)"

fun put_session :: "auth_session_record \<Rightarrow> auth_session_record list \<Rightarrow> auth_session_record list" where
  "put_session s [] = [s]"
| "put_session s (v # vs) = (if as_id v = as_id s then s # vs else v # put_session s vs)"

definition find_session :: "session_db \<Rightarrow> string \<Rightarrow> auth_session_record option" where
  "find_session db sid = List.find (\<lambda>s. as_id s = sid) (sd_sessions db)"

definition sd_create ::
  "string \<Rightarrow> string \<Rightarrow> request_environment \<Rightarrow> seconds \<Rightarrow> seconds \<Rightarrow> session_db \<Rightarrow> session_db" where
  "sd_create sid uid e created seen db =
     db\<lparr>sd_sessions := put_session
       \<lparr>as_id = sid, as_user = uid, as_ip = env_ip e, as_user_agent = env_user_agent e,
        as_created_at = created, as_last_seen_at = seen, as_revoked_at = None,
        as_revoke_reason = None\<rparr> (sd_sessions db)\<rparr>"

definition sd_touch ::
  "string \<Rightarrow> request_environment \<Rightarrow> seconds \<Rightarrow> session_db \<Rightarrow> request_environment option \<times> session_db" where
  "sd_touch sid e at db =
     (case find_session db sid of
        None \<Rightarrow> (None, db)
      | Some x \<Rightarrow>
          (Some \<lparr>env_ip = as_ip x, env_user_agent = as_user_agent x\<rparr>,
           db\<lparr>sd_sessions := put_session
             (x\<lparr>as_ip := env_ip e, as_user_agent := env_user_agent e, as_last_seen_at := at\<rparr>)
             (sd_sessions db)\<rparr>))"

definition same_client :: "string \<Rightarrow> string \<Rightarrow> string \<Rightarrow> session_client_entry \<Rightarrow> bool" where
  "same_client sid cid tid c = (sc_session c = sid \<and> sc_client c = cid \<and> sc_tenant c = tid)"

fun touch_client ::
  "string \<Rightarrow> string \<Rightarrow> string \<Rightarrow> seconds \<Rightarrow> session_client_entry list \<Rightarrow> session_client_entry list" where
  "touch_client sid cid tid at [] =
     [\<lparr>sc_session = sid, sc_client = cid, sc_tenant = tid, sc_first_seen_at = at,
       sc_last_seen_at = at\<rparr>]"
| "touch_client sid cid tid at (c # cs) =
     (if same_client sid cid tid c then c\<lparr>sc_last_seen_at := at\<rparr> # cs
      else c # touch_client sid cid tid at cs)"

definition sd_record_client :: "string \<Rightarrow> string \<Rightarrow> string \<Rightarrow> seconds \<Rightarrow> session_db \<Rightarrow> session_db" where
  "sd_record_client sid cid tid at db =
     db\<lparr>sd_clients := touch_client sid cid tid at (sd_clients db)\<rparr>"

definition sd_mark_revoked :: "string \<Rightarrow> revoke_reason \<Rightarrow> seconds \<Rightarrow> session_db \<Rightarrow> session_db" where
  "sd_mark_revoked sid reason at db =
     (case find_session db sid of
        None \<Rightarrow> db
      | Some x \<Rightarrow>
          if as_revoked_at x \<noteq> None then db
          else db\<lparr>sd_sessions := put_session
                 (x\<lparr>as_revoked_at := Some at, as_revoke_reason := Some reason\<rparr>) (sd_sessions db)\<rparr>)"

definition session_active :: "seconds \<Rightarrow> auth_session_record \<Rightarrow> bool" where
  "session_active now s =
     (as_revoked_at s = None \<and> as_last_seen_at s + SSO_SESSION_IDLE_SECONDS > now \<and>
      as_created_at s + SSO_SESSION_ABSOLUTE_SECONDS > now)"

definition with_clients :: "session_db \<Rightarrow> auth_session_record \<Rightarrow> session_with_clients" where
  "with_clients db s = (s, filter (\<lambda>c. sc_session c = as_id s) (sd_clients db))"

definition sd_list_active :: "seconds \<Rightarrow> string \<Rightarrow> session_db \<Rightarrow> session_with_clients list" where
  "sd_list_active now uid db =
     map (with_clients db)
       (sort_key (\<lambda>s. - as_last_seen_at s)
         (filter (\<lambda>s. as_user s = uid \<and> session_active now s) (sd_sessions db)))"

definition sd_find_with_clients :: "string \<Rightarrow> session_db \<Rightarrow> session_with_clients option" where
  "sd_find_with_clients sid db = map_option (with_clients db) (find_session db sid)"

lemma find_put_session: "List.find (\<lambda>v. as_id v = i) (put_session s ss) =
    (if i = as_id s then Some s else List.find (\<lambda>v. as_id v = i) ss)"
  by (induction ss) auto

lemma find_session_id: "find_session db sid = Some x \<Longrightarrow> as_id x = sid"
  unfolding find_session_def by (drule find_Some_iff') simp

lemma find_session_put [simp]:
  "find_session (db\<lparr>sd_sessions := put_session s (sd_sessions db)\<rparr>) i =
     (if i = as_id s then Some s else find_session db i)"
  by (simp add: find_session_def find_put_session)

text \<open>A revoked record stays revoked with its first reason, and the record of no other sid changes.\<close>

lemma sd_mark_revoked_find:
  "find_session (sd_mark_revoked sid reason at db) i =
     (if i = sid then map_option (\<lambda>x. if as_revoked_at x \<noteq> None then x
        else x\<lparr>as_revoked_at := Some at, as_revoke_reason := Some reason\<rparr>) (find_session db sid)
      else find_session db i)"
  using find_session_id [of db sid]
  by (auto simp: sd_mark_revoked_def split: option.splits)

lemma put_session_set:
  "x \<in> set (put_session s ss) \<Longrightarrow> x = s \<or> (x \<in> set ss)"
  by (induction ss) (auto split: if_splits)

section \<open>domain/audit.ts\<close>

datatype audit_kind =
  Login_succeeded | Login_failed | Environment_changed | Audit_global_logout | Session_revoked
| Refresh_token_reused | Refresh_token_client_mismatch | Authorization_code_reused
| Service_member_invited | Service_member_revoked | Mfa_enrolled | Mfa_challenge_failed
| Mfa_setup_expired

definition SECURITY_SIGNAL_KINDS :: "audit_kind set" where
  "SECURITY_SIGNAL_KINDS = {Environment_changed, Refresh_token_reused,
     Refresh_token_client_mismatch, Authorization_code_reused, Mfa_challenge_failed}"

record audit_event =
  ae_id :: string
  ae_occurred_at :: seconds
  ae_kind :: audit_kind
  ae_user :: "string option"
  ae_session :: "string option"
  ae_tenant :: "string option"
  ae_client :: "string option"
  ae_ip :: "string option"
  ae_user_agent :: "string option"
  ae_detail :: "(string \<times> json) list"

end
