(* ===== verification/AuthState.thy ===== *)
theory AuthState
  imports Crypto Identity
begin

text \<open>
  The state of the authorization server and the primitive operations of its use cases:
  apps/auth-api/src/application/ports (the volatile stores, the Cognito port), deps.ts,
  store-keys.ts, audit.ts, cognito-tokens.ts and csrf.ts.
  A use case is a state-passing operation over \<open>auth_state\<close>; \<open>auth_env\<close> holds what the
  code takes from outside: the issuer and keys, randomness (the \<open>n\<close>-th draw of the run), hashes,
  AES-GCM, RS256, the Cognito adapter, JSON text and the answers of the services that are notified
  of a logout. A \<open>Promise.all\<close> is the sequence of its members in list order, and the clock is
  constant within one operation; interleavings of operations are sequences of steps.
\<close>

section \<open>ports/stores.ts\<close>

record sso_session = expiring_session +
  ss_id :: string
  ss_sid :: string
  ss_user :: string
  ss_sealed_tokens :: string
  ss_auth_time :: seconds

record authorization_request =
  ar_client :: string
  ar_tenant :: string
  ar_redirect_uri :: string
  ar_scope :: string
  ar_state :: string
  ar_nonce :: string
  ar_code_challenge :: string

record code_grant =
  cg_client :: string
  cg_redirect_uri :: string
  cg_scope :: string
  cg_nonce :: string
  cg_code_challenge :: string
  cg_user :: string
  cg_tenant :: string
  cg_sid :: string
  cg_session :: string
  cg_auth_time :: seconds

datatype authorization_code = Unused code_grant | Used string

datatype refresh_status = RT_active | RT_rotated | RT_revoked

record new_refresh_token =
  rt_client :: string
  rt_user :: string
  rt_tenant :: string
  rt_sid :: string
  rt_session :: string
  rt_scope :: string
  rt_auth_time :: seconds

record refresh_token = new_refresh_token +
  rt_family :: string
  rt_status :: refresh_status

record totp_challenge =
  tc_username :: string
  tc_cognito_session :: string
  tc_rid :: string
  tc_attempts :: nat

record totp_setup =
  ts_sub :: string
  ts_email :: string
  ts_name :: "string option"
  ts_encrypted_tokens :: string
  ts_rid :: string
  ts_encrypted_secret :: "string option"
  ts_secret_issued_at :: "seconds option"

datatype mfa_pending = Totp_challenge totp_challenge | Totp_setup totp_setup

section \<open>ports/cognito.ts\<close>

record credentials =
  cr_username :: string
  cr_password :: string

record cognito_tokens =
  ck_access :: string
  ck_id :: string
  ck_refresh :: string
  ck_expires_at :: seconds

record cognito_authenticated =
  ca_sub :: string
  ca_email :: string
  ca_name :: "string option"
  ca_tokens :: cognito_tokens

datatype cognito_outcome =
  Authenticated cognito_authenticated | Totp_required string string

datatype cognito_auth_error =
  Invalid_credentials | User_not_confirmed | Password_reset_required | Challenge_required string
| Auth_unavailable string

datatype cognito_mfa_error = Code_mismatch | Session_expired | Mfa_unavailable string

section \<open>deps.ts\<close>

record 'c auth_env =
  issuer :: string
  random_bytes :: "nat \<Rightarrow> nat \<Rightarrow> bytes"
  ulids :: "nat \<Rightarrow> string"
  sha256 :: "bytes \<Rightarrow> bytes"
  gcm_enc :: "bytes \<Rightarrow> bytes \<Rightarrow> bytes \<Rightarrow> bytes \<times> bytes"
  gcm_dec :: "bytes \<Rightarrow> bytes \<Rightarrow> bytes \<Rightarrow> bytes \<Rightarrow> bytes option"
  rs256 :: "jwt_header \<Rightarrow> json \<Rightarrow> string"
  signing_kid :: string
  current_key :: encryption_key
  old_keys :: "encryption_key list"
  json_text :: "json \<Rightarrow> string"
  json_parse :: "string \<Rightarrow> json option"
  url_origin :: "string \<Rightarrow> string"
  notify :: "string \<Rightarrow> string \<Rightarrow> bool option"
  cg_authenticate :: "credentials \<Rightarrow> 'c \<Rightarrow> (cognito_outcome, cognito_auth_error) result \<times> 'c"
  cg_respond :: "string \<Rightarrow> string \<Rightarrow> string \<Rightarrow> 'c \<Rightarrow>
    (cognito_authenticated, cognito_mfa_error) result \<times> 'c"
  cg_associate :: "string \<Rightarrow> 'c \<Rightarrow> (string, cognito_mfa_error) result \<times> 'c"
  cg_verify :: "string \<Rightarrow> string \<Rightarrow> 'c \<Rightarrow> (unit, cognito_mfa_error) result \<times> 'c"
  cg_enable :: "string \<Rightarrow> 'c \<Rightarrow> (unit, cognito_mfa_error) result \<times> 'c"
  cg_revoke :: "string \<Rightarrow> 'c \<Rightarrow> bool \<times> 'c"

record 'c auth_state =
  now :: seconds
  sso_sessions :: "sso_session kv"
  sid_index :: "string kv"
  authz_requests :: "authorization_request kv"
  authz_codes :: "authorization_code kv"
  refresh_tokens :: "refresh_token kv"
  refresh_families :: set_store
  csrf_tokens :: "string kv"
  mfa_store :: "mfa_pending kv"
  sid_families :: set_store
  identity :: identity_db
  sessions :: session_db
  audit_log :: "audit_event list"
  cognito :: 'c
  draws :: nat
  ulid_draws :: nat
  notified :: "(string \<times> string) list"

type_synonym ('c, 'a) auth_m = "('c auth_state, 'a) state"

section \<open>Randomness, keys and the stores\<close>

definition randomToken_n :: "('c, 'z) auth_env_scheme \<Rightarrow> nat \<Rightarrow> ('c, string) auth_m" where
  "randomToken_n env bytes =
     State (\<lambda>s. (randomToken (random_bytes env (draws s) bytes), s\<lparr>draws := draws s + 1\<rparr>))"

definition TOKEN_BYTES :: nat where "TOKEN_BYTES = 32"

definition random_token :: "('c, 'z) auth_env_scheme \<Rightarrow> ('c, string) auth_m" where
  "random_token env = randomToken_n env TOKEN_BYTES"

definition ulid :: "('c, 'z) auth_env_scheme \<Rightarrow> ('c, string) auth_m" where
  "ulid env = State (\<lambda>s. (ulids env (ulid_draws s), s\<lparr>ulid_draws := ulid_draws s + 1\<rparr>))"

definition keyOf :: "('c, 'z) auth_env_scheme \<Rightarrow> string \<Rightarrow> string" where
  "keyOf env secret = keyDigest (sha256 env) secret"

text \<open>A store operation of the running clock, on the store that the selector and updater name.\<close>

definition on_store ::
  "('c auth_state \<Rightarrow> 'm) \<Rightarrow> (('m \<Rightarrow> 'm) \<Rightarrow> 'c auth_state \<Rightarrow> 'c auth_state) \<Rightarrow>
   (seconds \<Rightarrow> 'm \<Rightarrow> 'a \<times> 'm) \<Rightarrow> ('c, 'a) auth_m" where
  "on_store sel upd f =
     State (\<lambda>s. let (a, m) = f (now s) (sel s) in (a, upd (\<lambda>_. m) s))"

definition silent :: "(seconds \<Rightarrow> 'm \<Rightarrow> 'm) \<Rightarrow> seconds \<Rightarrow> 'm \<Rightarrow> unit \<times> 'm" where
  "silent f t m = ((), f t m)"

lemma run_on_store [run_simps]:
  "run_state (on_store sel upd f) s =
     (fst (f (now s) (sel s)), upd (\<lambda>_. snd (f (now s) (sel s))) s)"
  by (simp add: on_store_def case_prod_beta)

lemma silent_simps [simp]: "fst (silent f t m) = ()" "snd (silent f t m) = f t m"
  by (simp_all add: silent_def)

abbreviation "sso_store \<equiv> on_store sso_sessions sso_sessions_update"
abbreviation "sid_store \<equiv> on_store sid_index sid_index_update"
abbreviation "request_store \<equiv> on_store authz_requests authz_requests_update"
abbreviation "code_store \<equiv> on_store authz_codes authz_codes_update"
abbreviation "rt_store \<equiv> on_store refresh_tokens refresh_tokens_update"
abbreviation "family_store \<equiv> on_store refresh_families refresh_families_update"
abbreviation "csrf_store \<equiv> on_store csrf_tokens csrf_tokens_update"
abbreviation "pending_store \<equiv> on_store mfa_store mfa_store_update"
abbreviation "sid_family_store \<equiv> on_store sid_families sid_families_update"

abbreviation "get_key k \<equiv> (\<lambda>t. kv_get t k)"
abbreviation "take_key k \<equiv> (\<lambda>t. kv_get_and_delete t k)"
abbreviation "set_key k v ttl \<equiv> silent (\<lambda>t. kv_set t k v ttl)"
abbreviation "update_key k v \<equiv> (\<lambda>t. kv_update t k v)"
abbreviation "delete_key k \<equiv> silent (\<lambda>_. kv_delete k)"
abbreviation "add_member k x ttl \<equiv> silent (\<lambda>t. ss_add t k x ttl)"
abbreviation "get_members k \<equiv> (\<lambda>t. ss_members t k)"
abbreviation "delete_set k \<equiv> silent (\<lambda>_. ss_delete k)"

lemma kv_fst [simp]:
  "fst (kv_get t k m) = kv_value t m k"
  "fst (kv_get_and_delete t k m) = kv_value t m k"
  "fst (kv_update t k v m) \<longleftrightarrow> kv_value t m k \<noteq> None"
  by (subst kv_get_pair kv_take_pair kv_update_pair, simp)+

lemma run_random [run_simps]:
  "run_state (randomToken_n env n) s =
     (randomToken (random_bytes env (draws s) n), s\<lparr>draws := draws s + 1\<rparr>)"
  by (simp add: randomToken_n_def)

lemma run_ulid [run_simps]:
  "run_state (ulid env) s = (ulids env (ulid_draws s), s\<lparr>ulid_draws := ulid_draws s + 1\<rparr>)"
  by (simp add: ulid_def)

section \<open>audit.ts\<close>

record new_audit =
  na_kind :: audit_kind
  na_user :: "string option"
  na_session :: "string option"
  na_tenant :: "string option"
  na_client :: "string option"
  na_ip :: "string option"
  na_user_agent :: "string option"
  na_detail :: "(string \<times> json) list"

definition audit_of :: "audit_kind \<Rightarrow> (string \<times> json) list \<Rightarrow> new_audit" where
  "audit_of kind detail =
     \<lparr>na_kind = kind, na_user = None, na_session = None, na_tenant = None, na_client = None,
      na_ip = None, na_user_agent = None, na_detail = detail\<rparr>"

definition in_environment :: "request_environment \<Rightarrow> new_audit \<Rightarrow> new_audit" where
  "in_environment e a = a\<lparr>na_ip := Some (env_ip e), na_user_agent := Some (env_user_agent e)\<rparr>"

definition recordAudit :: "('c, 'z) auth_env_scheme \<Rightarrow> new_audit \<Rightarrow> ('c, unit) auth_m" where
  "recordAudit env a = do {
     i \<leftarrow> ulid env;
     modifies (\<lambda>s. s\<lparr>audit_log := audit_log s @
       [\<lparr>ae_id = i, ae_occurred_at = now s, ae_kind = na_kind a, ae_user = na_user a,
         ae_session = na_session a, ae_tenant = na_tenant a, ae_client = na_client a,
         ae_ip = na_ip a, ae_user_agent = na_user_agent a, ae_detail = na_detail a\<rparr>]\<rparr>)
   }"

section \<open>cognito-tokens.ts\<close>

definition tokens_to_json :: "cognito_tokens \<Rightarrow> json" where
  "tokens_to_json t = JObj [(''accessToken'', JStr (ck_access t)), (''idToken'', JStr (ck_id t)),
     (''refreshToken'', JStr (ck_refresh t)), (''expiresAt'', JNum (ck_expires_at t))]"

definition cognito_tokens_schema :: "json \<Rightarrow> cognito_tokens option" where
  "cognito_tokens_schema j =
     (case (json_field ''accessToken'' j, json_field ''idToken'' j, json_field ''refreshToken'' j,
            json_field ''expiresAt'' j) of
        (Some (JStr a), Some (JStr i), Some (JStr r), Some (JNum e)) \<Rightarrow>
          Some \<lparr>ck_access = a, ck_id = i, ck_refresh = r, ck_expires_at = e\<rparr>
      | _ \<Rightarrow> None)"

definition seal :: "('c, 'z) auth_env_scheme \<Rightarrow> string \<Rightarrow> ('c, string) auth_m" where
  "seal env plaintext =
     State (\<lambda>s. (encrypt (gcm_enc env) (random_bytes env (draws s) IV_BYTES) plaintext (current_key env),
                 s\<lparr>draws := draws s + 1\<rparr>))"

definition unseal :: "('c, 'z) auth_env_scheme \<Rightarrow> string \<Rightarrow> (string, decrypt_error) result" where
  "unseal env sealed = decrypt (gcm_dec env) sealed (current_key env # old_keys env)"

definition sealCognitoTokens ::
  "('c, 'z) auth_env_scheme \<Rightarrow> cognito_tokens \<Rightarrow> ('c, string) auth_m" where
  "sealCognitoTokens env tokens = seal env (json_text env (tokens_to_json tokens))"

text \<open>A plaintext that is not JSON cannot come from \<open>sealCognitoTokens\<close>; it reads as undecodable.\<close>

definition unsealCognitoTokens ::
  "('c, 'z) auth_env_scheme \<Rightarrow> string \<Rightarrow> cognito_tokens option" where
  "unsealCognitoTokens env sealed =
     (case unseal env sealed of Inl _ \<Rightarrow> None
      | Inr text \<Rightarrow> Option.bind (json_parse env text) cognito_tokens_schema)"

definition sealSecret :: "('c, 'z) auth_env_scheme \<Rightarrow> string \<Rightarrow> ('c, string) auth_m" where
  "sealSecret env secret = seal env secret"

definition unsealSecret :: "('c, 'z) auth_env_scheme \<Rightarrow> string \<Rightarrow> string option" where
  "unsealSecret env sealed = (case unseal env sealed of Inl _ \<Rightarrow> None | Inr t \<Rightarrow> Some t)"

lemma run_seal [run_simps]:
  "run_state (seal env p) s =
     (encrypt (gcm_enc env) (random_bytes env (draws s) IV_BYTES) p (current_key env),
      s\<lparr>draws := draws s + 1\<rparr>)"
  by (simp add: seal_def)

lemma tokens_json_roundtrip: "cognito_tokens_schema (tokens_to_json t) = Some t"
  by (cases t) (simp add: cognito_tokens_schema_def tokens_to_json_def json_field_def)

section \<open>csrf.ts\<close>

record issued_csrf =
  csrf_cookie :: string
  csrf_form :: string

definition issueCsrfToken :: "('c, 'z) auth_env_scheme \<Rightarrow> ('c, issued_csrf) auth_m" where
  "issueCsrfToken env = do {
     cookie \<leftarrow> random_token env;
     form \<leftarrow> random_token env;
     _ \<leftarrow> csrf_store (set_key (keyOf env cookie) form CSRF_TOKEN_TTL_SECONDS);
     State_Monad.return \<lparr>csrf_cookie = cookie, csrf_form = form\<rparr>
   }"

definition verifyCsrfToken ::
  "('c, 'z) auth_env_scheme \<Rightarrow> string option \<Rightarrow> string option \<Rightarrow> ('c, bool) auth_m" where
  "verifyCsrfToken env cookie form =
     (case (cookie, form) of
        (Some c, Some f) \<Rightarrow> do {
          stored \<leftarrow> csrf_store (get_key (keyOf env c));
          State_Monad.return (case stored of None \<Rightarrow> False | Some v \<Rightarrow> timingSafeEqualString v f)
        }
      | _ \<Rightarrow> State_Monad.return False)"

end
