(* ===== verification/Fixture.thy ===== *)
theory Fixture
  imports AuthState
begin

text \<open>
  A small concrete installation, in the shape of apps/auth-api/src/test-support.ts: one tenant, one
  service, one assigned user, a live SSO session. The witnesses of the authorization server's
  properties evaluate the model on it. Its hash is the identity, its cipher returns the plaintext,
  and draw \<open>n\<close> of its randomness is a byte string that spells \<open>n\<close>.
\<close>

definition fx_user :: user where
  "fx_user = \<lparr>user_id = ''u1'', cognito_sub = Some ''sub1'', user_email = ''a@acme.jp'',
     user_name = Some ''A'', user_status = Active\<rparr>"

definition fx_tenant :: tenant where
  "fx_tenant = \<lparr>tenant_id = ''t1'', tenant_slug = ''acme'', tenant_name = ''Acme'',
     tenant_status = In_force\<rparr>"

definition fx_client :: oidc_client where
  "fx_client = \<lparr>oc_id = ''c1'', oc_client_id = ''crm'', oc_name = ''CRM'', oc_audience = ''crm-api'',
     oc_redirect_template = ''https://{tenant}.crm.jp/cb'', oc_secret_hashes = [],
     oc_allowed_scopes = [''openid'', ''email''], oc_status = Active,
     oc_backchannel_uri = Some ''https://crm.jp/bc''\<rparr>"

definition fx_db :: identity_db where
  "fx_db = \<lparr>id_clients = [fx_client], id_tenants = [fx_tenant], id_users = [fx_user],
     id_contracts = [\<lparr>ct_tenant = ''t1'', ct_client = ''c1'', ct_status = In_force\<rparr>],
     id_memberships = [\<lparr>mb_tenant = ''t1'', mb_client = ''c1'', mb_user = ''u1'', mb_status = Active\<rparr>],
     id_mfa = Map.empty\<rparr>"

definition fx_session :: sso_session where
  "fx_session = \<lparr>created_at = 1000, last_seen_at = 1000, ss_id = ''k1'', ss_sid = ''s1'',
     ss_user = ''u1'', ss_sealed_tokens = ''x'', ss_auth_time = 1000\<rparr>"

definition fx_sessions :: session_db where
  "fx_sessions = \<lparr>sd_sessions = [\<lparr>as_id = ''s1'', as_user = ''u1'', as_ip = ''1.1.1.1'',
     as_user_agent = ''ua'', as_created_at = 1000, as_last_seen_at = 1000, as_revoked_at = None,
     as_revoke_reason = None\<rparr>],
     sd_clients = [\<lparr>sc_session = ''s1'', sc_client = ''c1'', sc_tenant = ''t1'', sc_first_seen_at = 1000,
       sc_last_seen_at = 1000\<rparr>]\<rparr>"

definition fx_kv :: "string \<Rightarrow> 'v \<Rightarrow> 'v kv" where
  "fx_kv k v = \<lparr>entries = [k \<mapsto> \<lparr>ent_value = v, expires_at = 5000\<rparr>], writes = 1\<rparr>"

definition fx_state :: "unit auth_state" where
  "fx_state = \<lparr>now = 1010, sso_sessions = fx_kv ''k1'' fx_session, sid_index = fx_kv ''s1'' ''k1'',
     authz_requests = kv_empty, authz_codes = kv_empty, refresh_tokens = kv_empty,
     refresh_families = ss_empty, csrf_tokens = kv_empty, mfa_store = kv_empty,
     sid_families = ss_empty, identity = fx_db, sessions = fx_sessions, audit_log = [],
     cognito = (), draws = 0, ulid_draws = 0, notified = []\<rparr>"

definition fx_env :: "unit auth_env" where
  "fx_env = \<lparr>issuer = ''https://auth.jp'', random_bytes = (\<lambda>n k. bytes_of_string (digits n)),
     ulids = digits, sha256 = (\<lambda>b. b), gcm_enc = (\<lambda>k iv p. (p, [])),
     gcm_dec = (\<lambda>k iv c t. Some c), rs256 = (\<lambda>h j. ''jwt''), signing_kid = ''kid1'',
     current_key = \<lparr>key_id = ''e1'', key_bytes = []\<rparr>, old_keys = [], json_text = (\<lambda>j. ''{}''),
     json_parse = (\<lambda>t. None), url_origin = (\<lambda>u. u), notify = (\<lambda>uri tok. Some True),
     cg_authenticate = (\<lambda>c s. (Inl Invalid_credentials, s)),
     cg_respond = (\<lambda>u se c s. (Inl Session_expired, s)),
     cg_associate = (\<lambda>t s. (Inl Session_expired, s)),
     cg_verify = (\<lambda>t c s. (Inl Session_expired, s)),
     cg_enable = (\<lambda>t s. (Inl Session_expired, s)), cg_revoke = (\<lambda>t s. (True, s))\<rparr>"

lemmas fx_defs = fx_user_def fx_tenant_def fx_client_def fx_db_def fx_session_def fx_sessions_def
  fx_kv_def fx_state_def fx_env_def

end
