(* ===== verification/Session.thy ===== *)
theory Session
  imports Fixture
begin

text \<open>
  apps/auth-api/src/application/usecases/sso-session.ts and sessions.ts: the SSO session of a
  browser, kept under the digest of its cookie with an idle and an absolute limit, and its record
  in the identity database. \<open>sso_live\<close> is what the rest of the server means by a live session.
\<close>

section \<open>sso-session.ts\<close>

definition expiry :: session_expiry_policy where
  "expiry = \<lparr>idle_seconds = SSO_SESSION_IDLE_SECONDS, absolute_seconds = SSO_SESSION_ABSOLUTE_SECONDS\<rparr>"

record created_sso_session =
  cs_session :: sso_session
  cs_cookie :: string

definition destroySsoSession :: "sso_session \<Rightarrow> ('c, unit) auth_m" where
  "destroySsoSession session = do {
     _ \<leftarrow> sso_store (delete_key (ss_id session));
     sid_store (delete_key (ss_sid session))
   }"

definition loadSsoSessionByKey :: "string \<Rightarrow> ('c, sso_session option) auth_m" where
  "loadSsoSessionByKey key = do {
     session \<leftarrow> sso_store (get_key key);
     t \<leftarrow> reads now;
     case session of
       None \<Rightarrow> State_Monad.return None
     | Some s \<Rightarrow>
         if isExpired expiry s t
         then do { _ \<leftarrow> destroySsoSession s; State_Monad.return None }
         else State_Monad.return (Some s)
   }"

definition loadSsoSession ::
  "('c, 'z) auth_env_scheme \<Rightarrow> string option \<Rightarrow> ('c, sso_session option) auth_m" where
  "loadSsoSession env cookie =
     (case cookie of None \<Rightarrow> State_Monad.return None
      | Some v \<Rightarrow> if v = [] then State_Monad.return None else loadSsoSessionByKey (keyOf env v))"

definition findSsoSessionBySid :: "string \<Rightarrow> ('c, sso_session option) auth_m" where
  "findSsoSessionBySid sid = do {
     key \<leftarrow> sid_store (get_key sid);
     case key of None \<Rightarrow> State_Monad.return None | Some k \<Rightarrow> loadSsoSessionByKey k
   }"

definition createSsoSession ::
  "('c, 'z) auth_env_scheme \<Rightarrow> user \<Rightarrow> cognito_authenticated \<Rightarrow> request_environment \<Rightarrow>
   ('c, created_sso_session) auth_m" where
  "createSsoSession env u authenticated e = do {
     t \<leftarrow> reads now;
     cookie \<leftarrow> random_token env;
     sid \<leftarrow> random_token env;
     sealed \<leftarrow> sealCognitoTokens env (ca_tokens authenticated);
     let session = \<lparr>created_at = t, last_seen_at = t, ss_id = keyOf env cookie, ss_sid = sid,
                    ss_user = user_id u, ss_sealed_tokens = sealed, ss_auth_time = t\<rparr>;
     _ \<leftarrow> sso_store (set_key (ss_id session) session SSO_SESSION_ABSOLUTE_SECONDS);
     _ \<leftarrow> sid_store (set_key sid (ss_id session) SSO_SESSION_ABSOLUTE_SECONDS);
     _ \<leftarrow> modifies (sessions_update (sd_create sid (user_id u) e t t));
     State_Monad.return \<lparr>cs_session = session, cs_cookie = cookie\<rparr>
   }"

definition env_json :: "request_environment \<Rightarrow> json" where
  "env_json e = JObj [(''ip'', JStr (env_ip e)), (''userAgent'', JStr (env_user_agent e))]"

definition touch_record :: "string \<Rightarrow> request_environment \<Rightarrow> seconds \<Rightarrow>
    ('c, request_environment option) auth_m" where
  "touch_record sid e t = State (\<lambda>s.
     let (previous, db) = sd_touch sid e t (sessions s) in (previous, s\<lparr>sessions := db\<rparr>))"

definition touchSsoSession ::
  "('c, 'z) auth_env_scheme \<Rightarrow> sso_session \<Rightarrow> oidc_client \<Rightarrow> string \<Rightarrow> request_environment \<Rightarrow>
   ('c, sso_session) auth_m" where
  "touchSsoSession env session client tid e = do {
     t \<leftarrow> reads now;
     let updated = session\<lparr>last_seen_at := t\<rparr>;
     previous \<leftarrow> touch_record (ss_sid session) e t;
     _ \<leftarrow> sso_store (set_key (ss_id updated) updated (remainingTtl expiry updated t));
     _ \<leftarrow> modifies (sessions_update (sd_record_client (ss_sid session) (oc_id client) tid t));
     _ \<leftarrow> (case previous of
             Some p \<Rightarrow>
               if environmentChanged p e then
                 recordAudit env (in_environment e
                   ((audit_of Environment_changed
                       [(''previous'', env_json p), (''current'', env_json e)])
                    \<lparr>na_user := Some (ss_user session), na_session := Some (ss_sid session),
                     na_tenant := Some tid, na_client := Some (oc_client_id client)\<rparr>))
               else State_Monad.return ()
           | None \<Rightarrow> State_Monad.return ());
     State_Monad.return updated
   }"

section \<open>sessions.ts\<close>

type_synonym session_with_services =
  "session_with_clients \<times> (oidc_client \<times> tenant) list"

text \<open>\<open>new Map(xs.map(x => [x.id, x])).get(i)\<close>: the last row with the id.\<close>

definition last_with :: "('a \<Rightarrow> string) \<Rightarrow> 'a list \<Rightarrow> string \<Rightarrow> 'a option" where
  "last_with key xs i = List.find (\<lambda>x. key x = i) (rev xs)"

definition listUserSessions :: "string \<Rightarrow> ('c, session_with_services list) auth_m" where
  "listUserSessions uid = reads (\<lambda>s.
     let records = sd_list_active (now s) uid (sessions s);
         entries = concat (map snd records);
         clients = id_clients (identity s);
         tenants = findTenantsByIds (identity s) (map sc_tenant entries)
     in map (\<lambda>r. (r, concat (map (\<lambda>entry.
            case (last_with oc_id clients (sc_client entry),
                  last_with tenant_id tenants (sc_tenant entry)) of
              (Some c, Some t) \<Rightarrow> [(c, t)]
            | _ \<Rightarrow> []) (snd r)))) records)"

section \<open>Running the operations\<close>

text \<open>
  The session that is live under a store key at the state's clock: stored, not expired by the
  store, and within both limits.
\<close>

definition sso_live :: "'c auth_state \<Rightarrow> string \<Rightarrow> sso_session option" where
  "sso_live s key =
     (case kv_value (now s) (sso_sessions s) key of
        Some x \<Rightarrow> if isExpired expiry x (now s) then None else Some x
      | None \<Rightarrow> None)"

lemma load_result [simp]: "fst (run_state (loadSsoSessionByKey key) s) = sso_live s key"
  by (auto simp: loadSsoSessionByKey_def sso_live_def destroySsoSession_def run_simps case_prod_beta
      split: option.splits)

text \<open>Loading only prunes the two session stores.\<close>

definition beyond_sso :: "'c auth_state \<Rightarrow> 'c auth_state" where
  "beyond_sso s = s\<lparr>sso_sessions := kv_empty, sid_index := kv_empty\<rparr>"

lemma keeps_now_store:
  assumes "\<And>m s. obs (upd (\<lambda>_. m) s) = obs s"
  shows "keeps obs (on_store sel upd f)"
  using assms by (simp add: keeps_def run_on_store)

lemma keeps_load: "keeps beyond_sso (loadSsoSessionByKey key)"
  unfolding loadSsoSessionByKey_def destroySsoSession_def
  by (intro keeps_bind keeps_now_store keeps_reads)
     (auto simp: beyond_sso_def split: option.split intro!: keeps_bind keeps_now_store)

lemma load_frame:
  "beyond_sso (snd (run_state (loadSsoSessionByKey key) s)) = beyond_sso s"
  using keeps_load unfolding keeps_def by blast

lemma beyond_sso_fields:
  assumes "beyond_sso s' = beyond_sso s"
  shows "now s' = now s" "authz_requests s' = authz_requests s" "authz_codes s' = authz_codes s"
    "refresh_tokens s' = refresh_tokens s" "refresh_families s' = refresh_families s"
    "csrf_tokens s' = csrf_tokens s" "mfa_store s' = mfa_store s"
    "sid_families s' = sid_families s" "identity s' = identity s" "sessions s' = sessions s"
    "audit_log s' = audit_log s" "cognito s' = cognito s" "draws s' = draws s"
    "ulid_draws s' = ulid_draws s" "notified s' = notified s"
  using arg_cong [OF assms, of now]
    arg_cong [OF assms, of authz_requests]
    arg_cong [OF assms, of authz_codes]
    arg_cong [OF assms, of refresh_tokens]
    arg_cong [OF assms, of refresh_families]
    arg_cong [OF assms, of csrf_tokens]
    arg_cong [OF assms, of mfa_store]
    arg_cong [OF assms, of sid_families]
    arg_cong [OF assms, of identity]
    arg_cong [OF assms, of sessions]
    arg_cong [OF assms, of audit_log]
    arg_cong [OF assms, of cognito]
    arg_cong [OF assms, of draws]
    arg_cong [OF assms, of ulid_draws]
    arg_cong [OF assms, of notified]
  by (simp_all add: beyond_sso_def)

lemma fx_live: "sso_live fx_state ''k1'' = Some fx_session"
  by code_simp

section \<open>What a session operation leaves alone\<close>

text \<open>Touching writes the session, its record and possibly an audit event, nothing else.\<close>

definition beyond_touch :: "'c auth_state \<Rightarrow> 'c auth_state" where
  "beyond_touch s = s\<lparr>sso_sessions := kv_empty, sessions := \<lparr>sd_sessions = [], sd_clients = []\<rparr>,
     audit_log := [], ulid_draws := 0\<rparr>"

lemma keeps_audit:
  assumes "\<And>f s. obs (ulid_draws_update f s) = obs s" "\<And>f s. obs (audit_log_update f s) = obs s"
  shows "keeps obs (recordAudit env a)"
  using assms by (simp add: keeps_def recordAudit_def run_simps)

lemma keeps_random: "(\<And>f s. obs (draws_update f s) = obs s) \<Longrightarrow> keeps obs (randomToken_n env n)"
  by (simp add: keeps_def run_random)

lemma keeps_seal: "(\<And>f s. obs (draws_update f s) = obs s) \<Longrightarrow> keeps obs (seal env p)"
  by (simp add: keeps_def run_seal)

lemma keeps_touch: "keeps beyond_touch (touchSsoSession env session client tid e)"
  unfolding touchSsoSession_def Let_def
  by (intro keeps_bind keeps_reads keeps_now_store keeps_modifies keeps_return)
     (auto simp: beyond_touch_def keeps_def touch_record_def case_prod_beta recordAudit_def run_simps
       split: option.split)

lemma touch_fields:
  assumes "beyond_touch s' = beyond_touch s"
  shows "now s' = now s" "authz_codes s' = authz_codes s" "identity s' = identity s"
    "refresh_tokens s' = refresh_tokens s" "sid_index s' = sid_index s"
    "refresh_families s' = refresh_families s" "sid_families s' = sid_families s"
  using arg_cong [OF assms, of now] arg_cong [OF assms, of authz_codes]
    arg_cong [OF assms, of identity] arg_cong [OF assms, of refresh_tokens]
    arg_cong [OF assms, of sid_index] arg_cong [OF assms, of refresh_families]
    arg_cong [OF assms, of sid_families]
  by (simp_all add: beyond_touch_def)

lemma touch_frame: "beyond_touch (snd (run_state (touchSsoSession env session client tid e) s)) =
    beyond_touch s"
  using keeps_touch unfolding keeps_def by blast

text \<open>The touched session keeps its absolute limit, and only its own key changes.\<close>

lemma touch_sessions:
  "sso_sessions (snd (run_state (touchSsoSession env session client tid e) s)) =
     kv_set (now s) (ss_id session) (session\<lparr>last_seen_at := now s\<rparr>)
       (remainingTtl expiry session (now s)) (sso_sessions s)"
  by (auto simp: touchSsoSession_def touch_record_def case_prod_beta recordAudit_def run_simps Let_def
      remainingTtl_def split: option.split)

lemma expired_touch: "\<not> isExpired expiry session t \<Longrightarrow>
    \<not> isExpired expiry (session\<lparr>last_seen_at := t\<rparr>) t \<and> 0 < remainingTtl expiry session t"
  by (simp add: isExpired_def remainingTtl_def expiry_def ttl_defs)

lemma touch_live:
  assumes "sso_live s key = Some session" "ss_id session = key"
  shows "sso_live (snd (run_state (touchSsoSession env session client tid e) s)) k =
    (if k = key then Some (session\<lparr>last_seen_at := now s\<rparr>) else sso_live s k)"
proof -
  have "\<not> isExpired expiry session (now s)"
    using assms(1) by (auto simp: sso_live_def split: option.splits if_splits)
  then show ?thesis
    using assms(2) expired_touch [of session "now s"]
      touch_fields(1) [OF touch_frame, of env session client tid e s]
    by (simp add: sso_live_def touch_sessions split: option.split)
qed

end
