(* ===== verification/Authorize.thy ===== *)
theory Authorize
  imports Session
begin

text \<open>
  The authorization endpoint's use cases: authorization-request.ts (validation, with the rule that
  nothing is redirected before client and redirect_uri are settled), authorize.ts (access check and
  code issue) and pending-authorization.ts (the request kept while the user logs in), all of
  apps/auth-api/src/application/usecases.
\<close>

section \<open>authorization-request.ts\<close>

record validated_request =
  vr_client :: oidc_client
  vr_redirect_uri :: string
  vr_tenant :: tenant
  vr_scope :: string
  vr_state :: string
  vr_nonce :: string
  vr_code_challenge :: string

datatype fatal_kind = Invalid_client | Invalid_redirect_uri
datatype redirect_kind = Invalid_request | Unsupported_response_type | Invalid_scope

datatype authorization_request_error =
  Not_redirectable fatal_kind
| Redirectable redirect_kind string "string option" string

type_synonym raw_params = "string \<Rightarrow> string option"

definition PKCE_METHOD :: string where "PKCE_METHOD = ''S256''"

text \<open>\<open>CODE_CHALLENGE_PATTERN\<close>: exactly 43 base64url characters.\<close>

definition valid_code_challenge :: "string \<Rightarrow> bool" where
  "valid_code_challenge c =
     (length c = 43 \<and>
      list_all (\<lambda>d. is_upper d \<or> is_lower d \<or> is_digit d \<or> d = CHR ''_'' \<or> d = CHR ''-'') c)"

definition nonempty_param :: "string option \<Rightarrow> string option" where
  "nonempty_param p = (case p of None \<Rightarrow> None | Some v \<Rightarrow> if v = [] then None else Some v)"

definition validateAuthorizationRequest ::
  "identity_db \<Rightarrow> raw_params \<Rightarrow> (validated_request, authorization_request_error) result" where
  "validateAuthorizationRequest db params =
     (case nonempty_param (params ''client_id'') of
        None \<Rightarrow> Inl (Not_redirectable Invalid_client)
      | Some cid \<Rightarrow>
     (case findClient db cid of
        None \<Rightarrow> Inl (Not_redirectable Invalid_client)
      | Some client \<Rightarrow>
        if oc_status client \<noteq> Active then Inl (Not_redirectable Invalid_client) else
     (case params ''redirect_uri'' of
        None \<Rightarrow> Inl (Not_redirectable Invalid_redirect_uri)
      | Some uri \<Rightarrow>
     (case Option.bind (matchRedirectUriTemplate (oc_redirect_template client) uri)
             (findTenantBySlug db) of
        None \<Rightarrow> Inl (Not_redirectable Invalid_redirect_uri)
      | Some tenant \<Rightarrow>
        (let st = params ''state''; bad = (\<lambda>k d. Inl (Redirectable k uri st d)) in
        if params ''response_type'' \<noteq> Some ''code''
        then bad Unsupported_response_type ''response_type must be code'' else
     (case nonempty_param st of
        None \<Rightarrow> bad Invalid_request ''state is required''
      | Some stv \<Rightarrow>
     (case nonempty_param (params ''nonce'') of
        None \<Rightarrow> bad Invalid_request ''nonce is required''
      | Some nonce \<Rightarrow>
        if params ''code_challenge_method'' \<noteq> Some PKCE_METHOD
        then bad Invalid_request ''code_challenge_method must be S256'' else
     (case params ''code_challenge'' of
        None \<Rightarrow> bad Invalid_request ''code_challenge is invalid''
      | Some challenge \<Rightarrow>
        if \<not> valid_code_challenge challenge
        then bad Invalid_request ''code_challenge is invalid'' else
        (let requested = filter (\<lambda>x. x \<noteq> [])
               (split_on (CHR '' '') (case params ''scope'' of None \<Rightarrow> [] | Some x \<Rightarrow> x)) in
        if ''openid'' \<notin> set requested
        then bad Invalid_scope ''scope must include openid'' else
     (case List.find (\<lambda>x. x \<notin> set SUPPORTED_SCOPES \<or> x \<notin> set (oc_allowed_scopes client)) requested of
        Some x \<Rightarrow> bad Invalid_scope (''scope '' @ x @ '' is not allowed'')
      | None \<Rightarrow>
          Inr \<lparr>vr_client = client, vr_redirect_uri = uri, vr_tenant = tenant,
               vr_scope = join_with '' '' requested, vr_state = stv, vr_nonce = nonce,
               vr_code_challenge = challenge\<rparr>))))))))))"

section \<open>authorize.ts\<close>

text \<open>\<open>AccessCheckError\<close> is its reason.\<close>

definition checkTenantAccess ::
  "identity_db \<Rightarrow> oidc_client \<Rightarrow> tenant \<Rightarrow> string \<Rightarrow> (user, access_denied_reason) result" where
  "checkTenantAccess db client t uid =
     (case findUserById db uid of
        None \<Rightarrow> Inl User_disabled
      | Some u \<Rightarrow>
          if user_status u \<noteq> Active then Inl User_disabled
          else if tenant_status t \<noteq> In_force then Inl Tenant_suspended
          else if findContract db (tenant_id t) (oc_id client) \<noteq> Some In_force then Inl Not_contracted
          else (case findServiceMembership db (tenant_id t) (oc_id client) uid of
                  None \<Rightarrow> Inl No_membership
                | Some st \<Rightarrow> if st \<noteq> Active then Inl Membership_inactive else Inr u))"

definition authorizeWithSession ::
  "('c, 'z) auth_env_scheme \<Rightarrow> validated_request \<Rightarrow> sso_session \<Rightarrow> request_environment \<Rightarrow>
   ('c, (string, access_denied_reason) result) auth_m" where
  "authorizeWithSession env request session e = do {
     db \<leftarrow> reads identity;
     case checkTenantAccess db (vr_client request) (vr_tenant request) (ss_user session) of
       Inl reason \<Rightarrow> State_Monad.return (Inl reason)
     | Inr _ \<Rightarrow> do {
         code \<leftarrow> random_token env;
         _ \<leftarrow> code_store (set_key (keyOf env code)
           (Unused \<lparr>cg_client = oc_client_id (vr_client request),
                    cg_redirect_uri = vr_redirect_uri request, cg_scope = vr_scope request,
                    cg_nonce = vr_nonce request, cg_code_challenge = vr_code_challenge request,
                    cg_user = ss_user session, cg_tenant = tenant_id (vr_tenant request),
                    cg_sid = ss_sid session, cg_session = ss_id session,
                    cg_auth_time = ss_auth_time session\<rparr>)
           AUTHORIZATION_CODE_TTL_SECONDS);
         _ \<leftarrow> touchSsoSession env session (vr_client request) (tenant_id (vr_tenant request)) e;
         State_Monad.return (Inr code)
       }
   }"

section \<open>pending-authorization.ts\<close>

definition storePendingAuthorization ::
  "('c, 'z) auth_env_scheme \<Rightarrow> validated_request \<Rightarrow> ('c, string) auth_m" where
  "storePendingAuthorization env request = do {
     rid \<leftarrow> random_token env;
     _ \<leftarrow> request_store (set_key (keyOf env rid)
       \<lparr>ar_client = oc_client_id (vr_client request), ar_tenant = tenant_id (vr_tenant request),
        ar_redirect_uri = vr_redirect_uri request, ar_scope = vr_scope request,
        ar_state = vr_state request, ar_nonce = vr_nonce request,
        ar_code_challenge = vr_code_challenge request\<rparr>
       AUTHORIZATION_REQUEST_TTL_SECONDS);
     State_Monad.return rid
   }"

definition loadPendingAuthorization ::
  "('c, 'z) auth_env_scheme \<Rightarrow> string \<Rightarrow> ('c, authorization_request option) auth_m" where
  "loadPendingAuthorization env rid = request_store (get_key (keyOf env rid))"

definition consumePendingAuthorization ::
  "('c, 'z) auth_env_scheme \<Rightarrow> string \<Rightarrow> ('c, authorization_request option) auth_m" where
  "consumePendingAuthorization env rid = request_store (take_key (keyOf env rid))"

datatype resume_error = Access_denied access_denied_reason | Resume_invalid_request

definition resumePendingAuthorization ::
  "('c, 'z) auth_env_scheme \<Rightarrow> authorization_request \<Rightarrow> sso_session \<Rightarrow> request_environment \<Rightarrow>
   ('c, (string, resume_error) result) auth_m" where
  "resumePendingAuthorization env pending session e = do {
     db \<leftarrow> reads identity;
     case (findClient db (ar_client pending), findTenantById db (ar_tenant pending)) of
       (Some client, Some t) \<Rightarrow>
         if oc_status client \<noteq> Active then State_Monad.return (Inl Resume_invalid_request)
         else do {
           r \<leftarrow> authorizeWithSession env
             \<lparr>vr_client = client, vr_redirect_uri = ar_redirect_uri pending, vr_tenant = t,
              vr_scope = ar_scope pending, vr_state = ar_state pending, vr_nonce = ar_nonce pending,
              vr_code_challenge = ar_code_challenge pending\<rparr> session e;
           State_Monad.return (case r of Inl reason \<Rightarrow> Inl (Access_denied reason) | Inr c \<Rightarrow> Inr c)
         }
     | _ \<Rightarrow> State_Monad.return (Inl Resume_invalid_request)
   }"

section \<open>What validation and the access check establish\<close>

lemma nonempty_param_Some [simp]: "nonempty_param p = Some v \<longleftrightarrow> p = Some v \<and> v \<noteq> []"
  by (auto simp: nonempty_param_def split: option.splits)

lemma access_ok_iff:
  "checkTenantAccess db client t uid = Inr u \<longleftrightarrow>
     findUserById db uid = Some u \<and> user_status u = Active \<and> tenant_status t = In_force \<and>
     findContract db (tenant_id t) (oc_id client) = Some In_force \<and>
     findServiceMembership db (tenant_id t) (oc_id client) uid = Some Active"
  by (auto simp: checkTenantAccess_def split: option.splits if_splits)

section \<open>Properties\<close>

definition fx_params :: raw_params where
  "fx_params = [''client_id'' \<mapsto> ''crm'', ''redirect_uri'' \<mapsto> ''https://acme.crm.jp/cb'',
     ''response_type'' \<mapsto> ''code'', ''state'' \<mapsto> ''st'', ''nonce'' \<mapsto> ''no'',
     ''code_challenge_method'' \<mapsto> ''S256'',
     ''code_challenge'' \<mapsto> ''0123456789012345678901234567890123456789012'',
     ''scope'' \<mapsto> ''openid email'']"

lemma fx_valid:
  "validateAuthorizationRequest fx_db fx_params = Inr
     \<lparr>vr_client = fx_client, vr_redirect_uri = ''https://acme.crm.jp/cb'', vr_tenant = fx_tenant,
      vr_scope = ''openid email'', vr_state = ''st'', vr_nonce = ''no'',
      vr_code_challenge = ''0123456789012345678901234567890123456789012''\<rparr>"
  by code_simp


lemma validated_scopes:
  assumes "List.find (\<lambda>x. x \<notin> set SUPPORTED_SCOPES \<or> x \<notin> set allowed) req = None"
    and "req = filter (\<lambda>x. x \<noteq> []) (split_on (CHR '' '') sc)" and "''openid'' \<in> set req"
  shows "split_on (CHR '' '') (join_with '' '' req) = req \<and> set req \<subseteq> set SUPPORTED_SCOPES \<inter> set allowed"
proof -
  have "split_on (CHR '' '') (join_with '' '' req) = req"
  proof (rule split_on_join)
    show "req \<noteq> []" using assms(3) by auto
    show "\<And>w. w \<in> set req \<Longrightarrow> CHR '' '' \<notin> set w" using assms(2) by (auto dest: split_on_set)
  qed
  moreover have "set req \<subseteq> set SUPPORTED_SCOPES \<inter> set allowed"
    using assms(1) by (auto simp: find_None_iff')
  ultimately show ?thesis by blast
qed

text \<open>What every outcome other than a refusal without redirect has gone through.\<close>

lemma past_client_stage:
  assumes "validateAuthorizationRequest db params = r" "\<And>k. r \<noteq> Inl (Not_redirectable k)"
  obtains client uri t where "client \<in> set (id_clients db)" "oc_status client = Active"
    "params ''client_id'' = Some (oc_client_id client)" "t \<in> set (id_tenants db)"
    "params ''redirect_uri'' = Some uri" "valid_slug (tenant_slug t)"
    "uri = expandRedirectUriTemplate (oc_redirect_template client) (tenant_slug t)"
    "(\<exists>k st d. r = Inl (Redirectable k uri st d)) \<or>
     (\<exists>v. r = Inr v \<and> vr_client v = client \<and> vr_redirect_uri v = uri \<and> vr_tenant v = t)"
proof -
  obtain cid where cid: "params ''client_id'' = Some cid" "cid \<noteq> []"
    using assms by (cases "nonempty_param (params ''client_id'')")
      (auto simp: validateAuthorizationRequest_def)
  obtain client where client: "findClient db cid = Some client" "oc_status client = Active"
    using assms cid by (cases "findClient db cid")
      (auto simp: validateAuthorizationRequest_def nonempty_param_def split: if_splits)
  obtain uri where uri: "params ''redirect_uri'' = Some uri"
    using assms cid client by (cases "params ''redirect_uri''")
      (auto simp: validateAuthorizationRequest_def nonempty_param_def)
  obtain slug t where t: "matchRedirectUriTemplate (oc_redirect_template client) uri = Some slug"
    "findTenantBySlug db slug = Some t"
    using assms cid client uri
    by (cases "Option.bind (matchRedirectUriTemplate (oc_redirect_template client) uri)
          (findTenantBySlug db)")
      (auto simp: validateAuthorizationRequest_def nonempty_param_def bind_eq_Some_conv)
  have "(\<exists>k st d. r = Inl (Redirectable k uri st d)) \<or>
     (\<exists>v. r = Inr v \<and> vr_client v = client \<and> vr_redirect_uri v = uri \<and> vr_tenant v = t)"
    unfolding assms(1) [symmetric] validateAuthorizationRequest_def
    by (simp add: cid client uri t Let_def nonempty_param_def split: option.split)
  moreover have "client \<in> set (id_clients db)" "oc_client_id client = cid"
    using client(1) find_Some_iff' [of _ _ client] by (auto simp: findClient_def)
  moreover have "t \<in> set (id_tenants db)" "tenant_slug t = slug"
    using t(2) find_Some_iff' [of _ _ t] by (auto simp: findTenantBySlug_def)
  ultimately show thesis using that client cid uri t(1) by (auto simp: match_iff_expand)
qed

lemma validated_params:
  assumes "validateAuthorizationRequest db params = Inr v"
  shows "valid_code_challenge (vr_code_challenge v) \<and> vr_state v \<noteq> [] \<and> vr_nonce v \<noteq> [] \<and>
    (\<exists>sc req. req = filter (\<lambda>x. x \<noteq> []) (split_on (CHR '' '') sc) \<and> ''openid'' \<in> set req \<and>
      vr_scope v = join_with '' '' req \<and>
      List.find (\<lambda>x. x \<notin> set SUPPORTED_SCOPES \<or> x \<notin> set (oc_allowed_scopes (vr_client v))) req = None)"
  using assms
  by (auto simp: validateAuthorizationRequest_def Let_def split: option.splits if_splits)



text \<open>
  A validation error is reported by redirect only to a uri that is the template of a registered,
  active client expanded with the slug of a registered tenant; every other error stays on the server.
\<close>

theorem redirect_only_when_registered:
  assumes "validateAuthorizationRequest db params = Inl (Redirectable k uri st d)"
  shows "\<exists>client t. client \<in> set (id_clients db) \<and> oc_status client = Active \<and>
    params ''client_id'' = Some (oc_client_id client) \<and> t \<in> set (id_tenants db) \<and>
    params ''redirect_uri'' = Some uri \<and>
    uri = expandRedirectUriTemplate (oc_redirect_template client) (tenant_slug t) \<and>
    valid_slug (tenant_slug t)"
proof (rule past_client_stage [OF assms])
  fix client uri' t
  assume "client \<in> set (id_clients db)" "oc_status client = Active"
    "params ''client_id'' = Some (oc_client_id client)" "t \<in> set (id_tenants db)"
    "params ''redirect_uri'' = Some uri'" "valid_slug (tenant_slug t)"
    "uri' = expandRedirectUriTemplate (oc_redirect_template client) (tenant_slug t)"
    and "(\<exists>k' st' d'. Inl (Redirectable k uri st d) = Inl (Redirectable k' uri' st' d')) \<or>
      (\<exists>v. Inl (Redirectable k uri st d) = Inr v \<and> vr_client v = client \<and>
        vr_redirect_uri v = uri' \<and> vr_tenant v = t)"
  then show ?thesis by auto
qed simp

lemma fx_bad_state: "validateAuthorizationRequest fx_db (fx_params(''state'' := None)) =
    Inl (Redirectable Invalid_request ''https://acme.crm.jp/cb'' None ''state is required'')"
  by code_simp

theorem redirect_only_when_registered_witness:
  "\<exists>client t. client \<in> set (id_clients fx_db) \<and> t \<in> set (id_tenants fx_db) \<and>
     ''https://acme.crm.jp/cb'' =
       expandRedirectUriTemplate (oc_redirect_template client) (tenant_slug t)"
  using redirect_only_when_registered [OF fx_bad_state] by blast


end
