(* ===== verification/Tokens.thy ===== *)
theory Tokens
  imports Authorize
begin

text \<open>
  The token endpoint: refresh-tokens.ts (families of one-shot refresh tokens), issue-tokens.ts (the
  signed ID and access tokens) and token.ts (client authentication, code exchange, refresh and
  revocation) of apps/auth-api/src/application/usecases. \<open>active_in\<close> is the set of keys that
  hold a usable refresh token of a family; the facts about families are stated over it.
\<close>

section \<open>refresh-tokens.ts\<close>

record issued_refresh_token =
  ir_value :: string
  ir_record :: refresh_token

record refresh_family_ref =
  fr_family :: string
  fr_client :: string
  fr_tenant :: string

definition encodeFamilyRef :: "refresh_family_ref \<Rightarrow> string" where
  "encodeFamilyRef r = join_with '':'' [fr_client r, fr_tenant r, fr_family r]"

definition decodeFamilyRef :: "string \<Rightarrow> refresh_family_ref option" where
  "decodeFamilyRef member =
     (case split_on (CHR '':'') member of
        c # t # f # _ \<Rightarrow> Some \<lparr>fr_family = f, fr_client = c, fr_tenant = t\<rparr>
      | _ \<Rightarrow> None)"

definition with_family :: "new_refresh_token \<Rightarrow> string \<Rightarrow> refresh_token" where
  "with_family n f =
     \<lparr>rt_client = rt_client n, rt_user = rt_user n, rt_tenant = rt_tenant n, rt_sid = rt_sid n,
      rt_session = rt_session n, rt_scope = rt_scope n, rt_auth_time = rt_auth_time n,
      rt_family = f, rt_status = RT_active\<rparr>"

definition storeRefreshToken ::
  "('c, 'z) auth_env_scheme \<Rightarrow> new_refresh_token \<Rightarrow> string \<Rightarrow> ('c, issued_refresh_token) auth_m" where
  "storeRefreshToken env input family = do {
     value \<leftarrow> random_token env;
     let rec = with_family input family;
     _ \<leftarrow> rt_store (set_key (keyOf env value) rec REFRESH_TOKEN_TTL_SECONDS);
     State_Monad.return \<lparr>ir_value = value, ir_record = rec\<rparr>
   }"

definition createRefreshTokenFamily ::
  "('c, 'z) auth_env_scheme \<Rightarrow> new_refresh_token \<Rightarrow> ('c, issued_refresh_token) auth_m" where
  "createRefreshTokenFamily env input = do {
     family \<leftarrow> randomToken_n env 16;
     issued \<leftarrow> storeRefreshToken env input family;
     _ \<leftarrow> family_store (add_member family (keyOf env (ir_value issued)) REFRESH_TOKEN_TTL_SECONDS);
     _ \<leftarrow> sid_family_store (add_member (rt_sid input)
       (encodeFamilyRef \<lparr>fr_family = family, fr_client = rt_client input, fr_tenant = rt_tenant input\<rparr>)
       REFRESH_TOKEN_TTL_SECONDS);
     State_Monad.return issued
   }"

definition listRefreshFamilies :: "string \<Rightarrow> ('c, refresh_family_ref list) auth_m" where
  "listRefreshFamilies sid = do {
     members \<leftarrow> sid_family_store (get_members sid);
     State_Monad.return (List.map_filter decodeFamilyRef members)
   }"

datatype consume_result = Consumed refresh_token | Unknown | Reused refresh_token

definition consumeRefreshToken ::
  "('c, 'z) auth_env_scheme \<Rightarrow> string \<Rightarrow> ('c, consume_result) auth_m" where
  "consumeRefreshToken env value = do {
     let key = keyOf env value;
     stored \<leftarrow> rt_store (take_key key);
     case stored of
       None \<Rightarrow> State_Monad.return Unknown
     | Some t \<Rightarrow>
         if rt_status t \<noteq> RT_active then do {
           _ \<leftarrow> rt_store (set_key key t REFRESH_TOKEN_TTL_SECONDS);
           State_Monad.return (Reused t)
         } else do {
           _ \<leftarrow> rt_store (set_key key (t\<lparr>rt_status := RT_rotated\<rparr>) REFRESH_TOKEN_TTL_SECONDS);
           State_Monad.return (Consumed t)
         }
   }"

definition rotateRefreshToken ::
  "('c, 'z) auth_env_scheme \<Rightarrow> refresh_token \<Rightarrow> ('c, issued_refresh_token) auth_m" where
  "rotateRefreshToken env current = do {
     nxt \<leftarrow> storeRefreshToken env (new_refresh_token.truncate current) (rt_family current);
     _ \<leftarrow> family_store (add_member (rt_family current) (keyOf env (ir_value nxt))
       REFRESH_TOKEN_TTL_SECONDS);
     State_Monad.return nxt
   }"

definition revoke_record :: "string \<times> refresh_token option \<Rightarrow> ('c, unit) auth_m" where
  "revoke_record p =
     (case p of
        (key, Some t) \<Rightarrow>
          rt_store (set_key key (t\<lparr>rt_status := RT_revoked\<rparr>) REFRESH_TOKEN_TTL_SECONDS)
      | (_, None) \<Rightarrow> State_Monad.return ())"

definition revokeRefreshTokenFamily :: "string \<Rightarrow> ('c, unit) auth_m" where
  "revokeRefreshTokenFamily family = do {
     keys \<leftarrow> family_store (get_members family);
     records \<leftarrow> gather (\<lambda>k. rt_store (get_key k)) keys;
     mapM_unit revoke_record (zip keys records)
   }"

definition describeRefreshTokenFamily :: "string \<Rightarrow> ('c, refresh_token option) auth_m" where
  "describeRefreshTokenFamily family = do {
     keys \<leftarrow> family_store (get_members family);
     records \<leftarrow> gather (\<lambda>k. rt_store (get_key k)) keys;
     State_Monad.return (Option.bind (List.find (\<lambda>r. r \<noteq> None) records) (\<lambda>r. r))
   }"

section \<open>issue-tokens.ts\<close>

record issue_tokens_input =
  ii_client :: oidc_client
  ii_user :: user
  ii_scope :: string
  ii_nonce :: "string option"
  ii_sid :: string
  ii_tenant :: tenant
  ii_auth_time :: seconds

record issued_tokens =
  it_id_token :: string
  it_access_token :: string
  it_expires_in :: seconds

definition profileClaims :: "user \<Rightarrow> string list \<Rightarrow> (string \<times> json) list" where
  "profileClaims u scopes =
     (if ''email'' \<in> set scopes
      then [(''email'', JStr (user_email u)), (''email_verified'', JBool True)] else []) @
     (if ''profile'' \<in> set scopes
      then (case user_name u of Some n \<Rightarrow> [(''name'', JStr n)] | None \<Rightarrow> []) else [])"

definition tenant_claims :: "tenant \<Rightarrow> (string \<times> json) list" where
  "tenant_claims t = [(''tenant_id'', JStr (tenant_id t)), (''tenant_slug'', JStr (tenant_slug t))]"

definition id_token_options ::
  "('c, 'z) auth_env_scheme \<Rightarrow> seconds \<Rightarrow> issue_tokens_input \<Rightarrow> sign_options" where
  "id_token_options env t i =
     \<lparr>so_issuer = issuer env, so_audience = [oc_client_id (ii_client i)],
      so_subject = user_id (ii_user i), so_issued_at = t, so_expires_at = t + ID_TOKEN_TTL_SECONDS,
      so_claims =
        [(''auth_time'', JNum (ii_auth_time i)), (''sid'', JStr (ii_sid i))] @
        (case ii_nonce i of Some n \<Rightarrow> [(''nonce'', JStr n)] | None \<Rightarrow> []) @
        tenant_claims (ii_tenant i) @
        profileClaims (ii_user i) (split_on (CHR '' '') (ii_scope i))\<rparr>"

definition access_token_options ::
  "('c, 'z) auth_env_scheme \<Rightarrow> seconds \<Rightarrow> string \<Rightarrow> issue_tokens_input \<Rightarrow> sign_options" where
  "access_token_options env t jti i =
     \<lparr>so_issuer = issuer env, so_audience = [oc_audience (ii_client i), issuer env],
      so_subject = user_id (ii_user i), so_issued_at = t,
      so_expires_at = t + ACCESS_TOKEN_TTL_SECONDS,
      so_claims =
        [(''client_id'', JStr (oc_client_id (ii_client i))), (''sid'', JStr (ii_sid i)),
         (''scope'', JStr (ii_scope i)), (''jti'', JStr jti)] @
        tenant_claims (ii_tenant i)\<rparr>"

definition issueTokens ::
  "('c, 'z) auth_env_scheme \<Rightarrow> issue_tokens_input \<Rightarrow> ('c, issued_tokens) auth_m" where
  "issueTokens env i = do {
     t \<leftarrow> reads now;
     jti \<leftarrow> randomToken_n env 16;
     State_Monad.return
       \<lparr>it_id_token = signJwt (rs256 env) (signing_kid env) (id_token_options env t i),
        it_access_token = signJwt (rs256 env) (signing_kid env) (access_token_options env t jti i),
        it_expires_in = ACCESS_TOKEN_TTL_SECONDS\<rparr>
   }"

section \<open>token.ts\<close>

record token_response =
  tr_access_token :: string
  tr_expires_in :: seconds
  tr_id_token :: string
  tr_refresh_token :: string
  tr_scope :: string

text \<open>\<open>TokenError\<close> is \<open>invalid_grant\<close> with its reason.\<close>

type_synonym token_error = string

definition authenticateClient ::
  "('c, 'z) auth_env_scheme \<Rightarrow> identity_db \<Rightarrow> string option \<Rightarrow> oidc_client option" where
  "authenticateClient env db header =
     (case header of None \<Rightarrow> None
      | Some h \<Rightarrow>
          if \<not> prefix ''Basic '' h then None
          else (let decoded = string_of_bytes (b64url_decode (drop (length ''Basic '') h))
                in case index_of '':'' decoded of
                     None \<Rightarrow> None
                   | Some sep \<Rightarrow>
                       if sep = 0 then None
                       else (case (decode_uri (take sep decoded), decode_uri (drop (sep + 1) decoded)) of
                               (Some cid, Some secret) \<Rightarrow>
                                 (case findClient db cid of
                                    None \<Rightarrow> None
                                  | Some client \<Rightarrow>
                                      if oc_status client \<noteq> Active then None
                                      else if \<not> verifySecretAgainstAny (sha256 env) secret (oc_secret_hashes client)
                                      then None else Some client)
                             | _ \<Rightarrow> None)))"

record code_exchange_input =
  ce_code :: string
  ce_redirect_uri :: string
  ce_code_verifier :: string

definition validateCodeBinding ::
  "('c, 'z) auth_env_scheme \<Rightarrow> code_grant \<Rightarrow> oidc_client \<Rightarrow> code_exchange_input \<Rightarrow>
   (unit, token_error) result" where
  "validateCodeBinding env stored client input =
     (if cg_client stored \<noteq> oc_client_id client then Inl ''client_mismatch''
      else if cg_redirect_uri stored \<noteq> ce_redirect_uri input then Inl ''redirect_uri_mismatch''
      else if \<not> isValidCodeVerifier (ce_code_verifier input) then Inl ''code_verifier_invalid''
      else if computeCodeChallenge (sha256 env) (ce_code_verifier input) \<noteq> cg_code_challenge stored
      then Inl ''pkce_mismatch'' else Inr ())"

definition rememberConsumedCode :: "string \<Rightarrow> string \<Rightarrow> ('c, unit) auth_m" where
  "rememberConsumedCode code_key family =
     code_store (set_key code_key (Used family) CONSUMED_CODE_RETENTION_SECONDS)"

definition toResponse :: "issued_tokens \<Rightarrow> string \<Rightarrow> string \<Rightarrow> token_response" where
  "toResponse tokens refresh scope =
     \<lparr>tr_access_token = it_access_token tokens, tr_expires_in = it_expires_in tokens,
      tr_id_token = it_id_token tokens, tr_refresh_token = refresh, tr_scope = scope\<rparr>"

definition new_refresh_of :: "oidc_client \<Rightarrow> code_grant \<Rightarrow> new_refresh_token" where
  "new_refresh_of client g =
     \<lparr>rt_client = oc_client_id client, rt_user = cg_user g, rt_tenant = cg_tenant g,
      rt_sid = cg_sid g, rt_session = cg_session g, rt_scope = cg_scope g,
      rt_auth_time = cg_auth_time g\<rparr>"

definition reused_code_audit :: "oidc_client \<Rightarrow> refresh_token option \<Rightarrow> string \<Rightarrow> new_audit" where
  "reused_code_audit client owner family =
     (audit_of Authorization_code_reused [(''familyId'', JStr family)])
       \<lparr>na_user := map_option rt_user owner, na_session := map_option rt_sid owner,
        na_tenant := map_option rt_tenant owner, na_client := Some (oc_client_id client)\<rparr>"

definition exchange_unused ::
  "('c, 'z) auth_env_scheme \<Rightarrow> oidc_client \<Rightarrow> code_exchange_input \<Rightarrow> code_grant \<Rightarrow>
   ('c, (token_response, token_error) result) auth_m" where
  "exchange_unused env client input stored =
     (case validateCodeBinding env stored client input of
        Inl e \<Rightarrow> State_Monad.return (Inl e)
      | Inr _ \<Rightarrow> do {
          session \<leftarrow> loadSsoSessionByKey (cg_session stored);
          db \<leftarrow> reads identity;
          case (session, findUserById db (cg_user stored), findTenantById db (cg_tenant stored)) of
            (None, _, _) \<Rightarrow> State_Monad.return (Inl ''sso_session_expired'')
          | (Some _, None, _) \<Rightarrow> State_Monad.return (Inl ''user_missing'')
          | (Some _, Some _, None) \<Rightarrow> State_Monad.return (Inl ''tenant_missing'')
          | (Some _, Some u, Some t) \<Rightarrow> do {
              refresh \<leftarrow> createRefreshTokenFamily env (new_refresh_of client stored);
              tokens \<leftarrow> issueTokens env
                \<lparr>ii_client = client, ii_user = u, ii_scope = cg_scope stored,
                 ii_nonce = Some (cg_nonce stored), ii_sid = cg_sid stored, ii_tenant = t,
                 ii_auth_time = cg_auth_time stored\<rparr>;
              _ \<leftarrow> rememberConsumedCode (keyOf env (ce_code input)) (rt_family (ir_record refresh));
              State_Monad.return (Inr (toResponse tokens (ir_value refresh) (cg_scope stored)))
            }
        })"

definition exchangeAuthorizationCode ::
  "('c, 'z) auth_env_scheme \<Rightarrow> oidc_client \<Rightarrow> code_exchange_input \<Rightarrow>
   ('c, (token_response, token_error) result) auth_m" where
  "exchangeAuthorizationCode env client input = do {
     let code_key = keyOf env (ce_code input);
     stored \<leftarrow> code_store (take_key code_key);
     case stored of
       None \<Rightarrow> State_Monad.return (Inl ''code_unknown_or_expired'')
     | Some (Used family) \<Rightarrow> do {
         owner \<leftarrow> describeRefreshTokenFamily family;
         _ \<leftarrow> revokeRefreshTokenFamily family;
         _ \<leftarrow> rememberConsumedCode code_key family;
         _ \<leftarrow> recordAudit env (reused_code_audit client owner family);
         State_Monad.return (Inl ''code_reused'')
       }
     | Some (Unused g) \<Rightarrow> exchange_unused env client input g
   }"

definition validateRefreshContext ::
  "oidc_client \<Rightarrow> refresh_token \<Rightarrow> ('c, (user \<times> tenant, token_error) result) auth_m" where
  "validateRefreshContext client stored = do {
     session \<leftarrow> loadSsoSessionByKey (rt_session stored);
     db \<leftarrow> reads identity;
     State_Monad.return
       (case (session, findTenantById db (rt_tenant stored)) of
          (None, _) \<Rightarrow> Inl ''sso_session_expired''
        | (Some _, None) \<Rightarrow> Inl ''tenant_missing''
        | (Some _, Some t) \<Rightarrow>
            (case checkTenantAccess db client t (rt_user stored) of
               Inl reason \<Rightarrow> Inl (reason_text reason)
             | Inr u \<Rightarrow> Inr (u, t)))
   }"

definition token_audit :: "audit_kind \<Rightarrow> oidc_client \<Rightarrow> refresh_token \<Rightarrow> new_audit" where
  "token_audit kind client t =
     (audit_of kind [(''familyId'', JStr (rt_family t)), (''tokenClientId'', JStr (rt_client t))])
       \<lparr>na_user := Some (rt_user t), na_session := Some (rt_sid t), na_tenant := Some (rt_tenant t),
        na_client := Some (oc_client_id client)\<rparr>"

definition refreshAccessToken ::
  "('c, 'z) auth_env_scheme \<Rightarrow> oidc_client \<Rightarrow> string \<Rightarrow>
   ('c, (token_response, token_error) result) auth_m" where
  "refreshAccessToken env client value = do {
     consumed \<leftarrow> consumeRefreshToken env value;
     case consumed of
       Unknown \<Rightarrow> State_Monad.return (Inl ''refresh_token_unknown_or_expired'')
     | Reused t \<Rightarrow> do {
         _ \<leftarrow> revokeRefreshTokenFamily (rt_family t);
         _ \<leftarrow> recordAudit env (token_audit Refresh_token_reused client t);
         State_Monad.return (Inl ''refresh_token_reused'')
       }
     | Consumed stored \<Rightarrow>
         if rt_client stored \<noteq> oc_client_id client then do {
           _ \<leftarrow> revokeRefreshTokenFamily (rt_family stored);
           _ \<leftarrow> recordAudit env (token_audit Refresh_token_client_mismatch client stored);
           State_Monad.return (Inl ''client_mismatch'')
         } else do {
           validated \<leftarrow> validateRefreshContext client stored;
           case validated of
             Inl e \<Rightarrow> do {
               _ \<leftarrow> revokeRefreshTokenFamily (rt_family stored);
               State_Monad.return (Inl e)
             }
           | Inr (u, t) \<Rightarrow> do {
               nxt \<leftarrow> rotateRefreshToken env stored;
               tokens \<leftarrow> issueTokens env
                 \<lparr>ii_client = client, ii_user = u, ii_scope = rt_scope stored, ii_nonce = None,
                  ii_sid = rt_sid stored, ii_tenant = t, ii_auth_time = rt_auth_time stored\<rparr>;
               State_Monad.return (Inr (toResponse tokens (ir_value nxt) (rt_scope stored)))
             }
         }
   }"

definition revokeRefreshToken ::
  "('c, 'z) auth_env_scheme \<Rightarrow> oidc_client \<Rightarrow> string \<Rightarrow> ('c, unit) auth_m" where
  "revokeRefreshToken env client value = do {
     stored \<leftarrow> rt_store (get_key (keyOf env value));
     case stored of
       None \<Rightarrow> State_Monad.return ()
     | Some t \<Rightarrow>
         if rt_client t \<noteq> oc_client_id client then State_Monad.return ()
         else revokeRefreshTokenFamily (rt_family t)
   }"

section \<open>Families of refresh tokens\<close>

text \<open>
  \<open>rt_value s\<close> is what the token store holds at the state's clock, \<open>family_keys s f\<close> the keys
  that family \<open>f\<close> lists, \<open>active_in s f\<close> those of them that hold a usable token.
\<close>

definition rt_value :: "'c auth_state \<Rightarrow> string \<Rightarrow> refresh_token option" where
  "rt_value s = kv_value (now s) (refresh_tokens s)"

definition family_keys :: "'c auth_state \<Rightarrow> string \<Rightarrow> string list" where
  "family_keys s = ss_elems (now s) (refresh_families s)"

definition active_in :: "'c auth_state \<Rightarrow> string \<Rightarrow> string set" where
  "active_in s f = {k \<in> set (family_keys s f). \<exists>t. rt_value s k = Some t \<and> rt_status t = RT_active}"

definition mark_revoked :: "refresh_token \<Rightarrow> refresh_token" where
  "mark_revoked t = t\<lparr>rt_status := RT_revoked\<rparr>"

definition code_value :: "'c auth_state \<Rightarrow> string \<Rightarrow> authorization_code option" where
  "code_value s = kv_value (now s) (authz_codes s)"

text \<open>Family operations touch the token store and the family index only.\<close>

definition beyond_rt :: "'c auth_state \<Rightarrow> 'c auth_state" where
  "beyond_rt s = s\<lparr>refresh_tokens := kv_empty, refresh_families := ss_empty\<rparr>"

lemma keeps_get_rt: "keeps (\<lambda>s. (beyond_rt s, rt_value s, family_keys s)) (rt_store (get_key k))"
  by (simp add: keeps_def run_on_store beyond_rt_def rt_value_def family_keys_def)

lemma keeps_members: "keeps (\<lambda>s. (beyond_rt s, rt_value s, family_keys s)) (family_store (get_members f))"
  by (simp add: keeps_def run_on_store beyond_rt_def rt_value_def family_keys_def
      mem_set.mems_elems)

lemma members_result: "fst (run_state (family_store (get_members f)) s) = family_keys s f"
  by (simp add: run_on_store family_keys_def mem_set.mems_result)

lemma gather_records:
  "fst (run_state (gather (\<lambda>k. rt_store (get_key k)) ks) s) = map (rt_value s) ks"
  by (rule gather_const [where g = "\<lambda>k V. V k" and obs = rt_value])
     (simp_all add: run_on_store rt_value_def keeps_def)

lemma keeps_revoke_record: "keeps (\<lambda>s. (beyond_rt s, family_keys s)) (revoke_record p)"
  by (cases p; cases "snd p")
     (auto simp: revoke_record_def keeps_def run_on_store beyond_rt_def family_keys_def)

lemma revoke_record_value:
  "rt_value (snd (run_state (revoke_record (k, r)) s)) =
     (case r of None \<Rightarrow> rt_value s | Some t \<Rightarrow> (rt_value s)(k \<mapsto> mark_revoked t))"
  by (cases r) (auto simp: revoke_record_def run_on_store rt_value_def mark_revoked_def)

lemma revoke_records_value:
  assumes "\<forall>p\<in>set ps. snd p = V (fst p)"
  shows "rt_value (snd (run_state (mapM_unit revoke_record ps) s)) =
    (\<lambda>k. if k \<in> fst ` set ps \<and> V k \<noteq> None then map_option mark_revoked (V k) else rt_value s k)"
  using assms
proof (induction ps arbitrary: s)
  case (Cons p ps)
  obtain k where p: "p = (k, V k)" using Cons.prems by (cases p) auto
  show ?case
    using Cons.IH Cons.prems
    by (cases "V k") (auto simp: p case_prod_beta fun_eq_iff revoke_record_value)
qed simp

lemma revoke_result:
  "rt_value (snd (run_state (revokeRefreshTokenFamily f) s)) =
     (\<lambda>k. if k \<in> set (family_keys s f) then map_option mark_revoked (rt_value s k) else rt_value s k)"
proof -
  define s1 where "s1 = snd (run_state (family_store (get_members f)) s)"
  define s2 where "s2 = snd (run_state (gather (\<lambda>k. rt_store (get_key k)) (family_keys s f)) s1)"
  have s1: "rt_value s1 = rt_value s"
    using keeps_run [OF keeps_members, of f s] by (simp add: s1_def)
  have s2: "rt_value s2 = rt_value s1"
    using keeps_run [OF keeps_gather, OF keeps_get_rt, where xs1 = "family_keys s f" and s = s1]
    by (simp add: s2_def)
  let ?ps = "zip (family_keys s f) (map (rt_value s) (family_keys s f))"
  have "run_state (revokeRefreshTokenFamily f) s = run_state (mapM_unit revoke_record ?ps) s2"
    by (simp add: revokeRefreshTokenFamily_def case_prod_beta members_result gather_records
        s1_def [symmetric] s2_def [symmetric] s1)
  moreover have "\<forall>p\<in>set ?ps. snd p = rt_value s (fst p)"
    by (auto simp: zip_map2 zip_same_conv_map)
  ultimately show ?thesis
    using revoke_records_value [of ?ps "rt_value s" s2] s1 s2
    by (auto simp: fun_eq_iff zip_map2 zip_same_conv_map image_image)
qed

lemma keeps_revoke: "keeps (\<lambda>s. (beyond_rt s, family_keys s)) (revokeRefreshTokenFamily f)"
  unfolding revokeRefreshTokenFamily_def
proof (intro keeps_bind keeps_gather keeps_mapM keeps_revoke_record)
  show "keeps (\<lambda>s. (beyond_rt s, family_keys s)) (family_store (get_members f))"
    using keeps_map [OF keeps_members, where g = "\<lambda>(a, b, c). (a, c)"] by simp
  show "keeps (\<lambda>s. (beyond_rt s, family_keys s)) (rt_store (get_key k))" for k
    using keeps_map [OF keeps_get_rt, where g = "\<lambda>(a, b, c). (a, c)"] by simp
qed

lemma revoke_frame:
  "beyond_rt (snd (run_state (revokeRefreshTokenFamily f) s)) = beyond_rt s"
  "family_keys (snd (run_state (revokeRefreshTokenFamily f) s)) = family_keys s"
  using keeps_run [OF keeps_revoke, of f s] by simp_all

lemma beyond_rt_fields:
  assumes "beyond_rt s' = beyond_rt s"
  shows "now s' = now s" "authz_codes s' = authz_codes s" "identity s' = identity s"
    "sso_sessions s' = sso_sessions s" "sid_index s' = sid_index s" "sessions s' = sessions s"
    "sid_families s' = sid_families s" "cognito s' = cognito s" "draws s' = draws s"
    "notified s' = notified s" "audit_log s' = audit_log s" "ulid_draws s' = ulid_draws s"
  using arg_cong [OF assms, of now] arg_cong [OF assms, of authz_codes]
    arg_cong [OF assms, of identity] arg_cong [OF assms, of sso_sessions]
    arg_cong [OF assms, of sid_index] arg_cong [OF assms, of sessions]
    arg_cong [OF assms, of sid_families] arg_cong [OF assms, of cognito]
    arg_cong [OF assms, of draws] arg_cong [OF assms, of notified]
    arg_cong [OF assms, of audit_log] arg_cong [OF assms, of ulid_draws]
  by (simp_all add: beyond_rt_def)

text \<open>After a revocation the family has no usable token; no token of another family's key changes.\<close>

lemma revoke_no_active: "active_in (snd (run_state (revokeRefreshTokenFamily f) s)) f = {}"
  by (auto simp: active_in_def revoke_result revoke_frame mark_revoked_def)

lemma audit_rt [simp]:
  "rt_value (snd (run_state (recordAudit env a) s)) = rt_value s"
  "family_keys (snd (run_state (recordAudit env a) s)) = family_keys s"
  "active_in (snd (run_state (recordAudit env a) s)) = active_in s"
  "code_value (snd (run_state (recordAudit env a) s)) = code_value s"
  by (simp_all add: fun_eq_iff rt_value_def family_keys_def active_in_def code_value_def
      recordAudit_def run_simps)

section \<open>What the grants do\<close>

lemma consume_run:
  fixes s :: "'c auth_state" and env :: "('c, 'z) auth_env_scheme" and v :: string
  defines "r \<equiv> run_state (consumeRefreshToken env v) s" and "key \<equiv> keyOf env v"
  shows "fst r = (case rt_value s key of None \<Rightarrow> Unknown
      | Some t \<Rightarrow> if rt_status t = RT_active then Consumed t else Reused t)"
    and "rt_value (snd r) = (case rt_value s key of None \<Rightarrow> rt_value s
      | Some t \<Rightarrow> if rt_status t = RT_active then (rt_value s)(key \<mapsto> t\<lparr>rt_status := RT_rotated\<rparr>)
                  else rt_value s)"
    and "beyond_rt (snd r) = beyond_rt s" and "family_keys (snd r) = family_keys s"
  by (auto simp: r_def key_def consumeRefreshToken_def Let_def run_on_store case_prod_beta rt_value_def
      beyond_rt_def family_keys_def fun_eq_iff split: option.split)

lemma issueTokens_run:
  "snd (run_state (issueTokens env i) s) = s\<lparr>draws := draws s + 1\<rparr>"
  by (simp add: issueTokens_def run_simps case_prod_beta)

lemma draws_rt [simp]:
  "rt_value (s\<lparr>draws := n\<rparr>) = rt_value s" "family_keys (s\<lparr>draws := n\<rparr>) = family_keys s"
  "code_value (s\<lparr>draws := n\<rparr>) = code_value s"
  by (simp_all add: rt_value_def family_keys_def code_value_def fun_eq_iff)

text \<open>The next token value the server will draw.\<close>

definition next_token :: "('c, 'z) auth_env_scheme \<Rightarrow> 'c auth_state \<Rightarrow> nat \<Rightarrow> string" where
  "next_token env s skip = randomToken (random_bytes env (draws s + skip) TOKEN_BYTES)"

lemma rotate_run:
  fixes s :: "'c auth_state" and env :: "('c, 'z) auth_env_scheme" and t :: refresh_token
  defines "r \<equiv> run_state (rotateRefreshToken env t) s" and "key \<equiv> keyOf env (next_token env s 0)"
  shows "ir_value (fst r) = next_token env s 0"
    and "rt_value (snd r) = (rt_value s)(key \<mapsto> t\<lparr>rt_status := RT_active\<rparr>)"
    and "family_keys (snd r) = (family_keys s)(rt_family t := js_set_add key (family_keys s (rt_family t)))"
    and "now (snd r) = now s" and "authz_codes (snd r) = authz_codes s"
  by (simp_all add: r_def key_def rotateRefreshToken_def storeRefreshToken_def random_token_def
      next_token_def run_simps Let_def case_prod_beta rt_value_def family_keys_def with_family_def
      new_refresh_token.truncate_def mem_set.add_elems fun_eq_iff)

lemma create_run:
  fixes s :: "'c auth_state" and env :: "('c, 'z) auth_env_scheme" and i :: new_refresh_token
  defines "r \<equiv> run_state (createRefreshTokenFamily env i) s"
    and "f \<equiv> randomToken (random_bytes env (draws s) 16)" and "key \<equiv> keyOf env (next_token env s 1)"
  shows "ir_value (fst r) = next_token env s 1" "ir_record (fst r) = with_family i f"
    and "rt_value (snd r) = (rt_value s)(key \<mapsto> with_family i f)"
    and "family_keys (snd r) = (family_keys s)(f := js_set_add key (family_keys s f))"
    and "now (snd r) = now s" and "authz_codes (snd r) = authz_codes s"
    and "draws (snd r) = draws s + 2"
  by (simp_all add: r_def f_def key_def createRefreshTokenFamily_def storeRefreshToken_def
      random_token_def next_token_def run_simps Let_def case_prod_beta rt_value_def family_keys_def
      mem_set.add_elems fun_eq_iff)

lemma load_rt [simp]:
  "rt_value (snd (run_state (loadSsoSessionByKey k) s)) = rt_value s"
  "family_keys (snd (run_state (loadSsoSessionByKey k) s)) = family_keys s"
  "code_value (snd (run_state (loadSsoSessionByKey k) s)) = code_value s"
  "identity (snd (run_state (loadSsoSessionByKey k) s)) = identity s"
  "now (snd (run_state (loadSsoSessionByKey k) s)) = now s"
  "draws (snd (run_state (loadSsoSessionByKey k) s)) = draws s"
  by (simp_all add: rt_value_def family_keys_def code_value_def fun_eq_iff
      beyond_sso_fields [OF load_frame])

lemma context_run:
  "fst (run_state (validateRefreshContext client t) s) =
     (case (sso_live s (rt_session t), findTenantById (identity s) (rt_tenant t)) of
        (None, _) \<Rightarrow> Inl ''sso_session_expired''
      | (Some _, None) \<Rightarrow> Inl ''tenant_missing''
      | (Some _, Some tn) \<Rightarrow>
          (case checkTenantAccess (identity s) client tn (rt_user t) of
             Inl reason \<Rightarrow> Inl (reason_text reason) | Inr u \<Rightarrow> Inr (u, tn)))"
  "snd (run_state (validateRefreshContext client t) s) = snd (run_state (loadSsoSessionByKey (rt_session t)) s)"
  by (simp_all add: validateRefreshContext_def case_prod_beta split: option.split)

lemma sso_live_cong:
  "now s' = now s \<Longrightarrow> sso_sessions s' = sso_sessions s \<Longrightarrow> sso_live s' = sso_live s"
  by (rule ext) (simp only: sso_live_def)

text \<open>The refresh grant, outcome by outcome.\<close>

definition after_consume :: "('c, 'z) auth_env_scheme \<Rightarrow> string \<Rightarrow> 'c auth_state \<Rightarrow> 'c auth_state" where
  "after_consume env v s = snd (run_state (consumeRefreshToken env v) s)"

lemma after_consume_fields:
  "now (after_consume env v s) = now s" "identity (after_consume env v s) = identity s"
  "draws (after_consume env v s) = draws s" "sso_live (after_consume env v s) = sso_live s"
  "family_keys (after_consume env v s) = family_keys s"
  using beyond_rt_fields(1-3,9) [OF consume_run(3), of env v s] consume_run(4) [of env v s]
    sso_live_cong [OF beyond_rt_fields(1,4), OF consume_run(3) consume_run(3), of env v s]
  by (simp_all only: after_consume_def)

lemma after_consume_active:
  assumes "rt_value s (keyOf env v) = Some t" "rt_status t = RT_active"
  shows "rt_value (after_consume env v s) = (rt_value s)(keyOf env v \<mapsto> t\<lparr>rt_status := RT_rotated\<rparr>)"
  using assms consume_run(2) [of env v s] by (simp add: after_consume_def)

lemma refresh_consumed:
  assumes "rt_value s (keyOf env v) = Some t" "rt_status t = RT_active"
    and "rt_client t = oc_client_id client"
  shows "case fst (run_state (validateRefreshContext client t) s) of
      Inl e \<Rightarrow> run_state (refreshAccessToken env client v) s =
        (Inl e, snd (run_state (revokeRefreshTokenFamily (rt_family t))
          (snd (run_state (loadSsoSessionByKey (rt_session t)) (after_consume env v s)))))
    | Inr (u, tn) \<Rightarrow> \<exists>resp s'. run_state (refreshAccessToken env client v) s = (Inr resp, s') \<and>
        tr_refresh_token resp = next_token env s 0 \<and> tr_scope resp = rt_scope t \<and>
        rt_value s' = (rt_value s)(keyOf env v \<mapsto> t\<lparr>rt_status := RT_rotated\<rparr>,
          keyOf env (next_token env s 0) \<mapsto> t) \<and>
        family_keys s' = (family_keys s)(rt_family t :=
          js_set_add (keyOf env (next_token env s 0)) (family_keys s (rt_family t))) \<and>
        now s' = now s"
proof -
  let ?s1 = "after_consume env v s"
  let ?s2 = "snd (run_state (loadSsoSessionByKey (rt_session t)) ?s1)"
  have c: "run_state (consumeRefreshToken env v) s = (Consumed t, ?s1)"
    using assms consume_run(1) [of env v s] by (simp add: after_consume_def prod_eq_iff)
  have ctx: "run_state (validateRefreshContext client t) ?s1 =
      (fst (run_state (validateRefreshContext client t) s), ?s2)"
    by (simp add: prod_eq_iff context_run after_consume_fields split: option.split)
  have next2: "next_token env ?s2 0 = next_token env s 0"
    by (simp add: after_consume_fields next_token_def)
  have active: "t\<lparr>rt_status := RT_active\<rparr> = t" using assms(2) by simp
  show ?thesis
    using rotate_run [of env t ?s2] assms(3)
    by (auto simp: refreshAccessToken_def c ctx case_prod_beta next2 active toResponse_def
        after_consume_active [OF assms(1,2)]
        issueTokens_run after_consume_fields split: sum.split)
qed

lemma refresh_inactive:
  assumes "rt_value s (keyOf env v) = Some t" "rt_status t \<noteq> RT_active"
  shows "\<exists>s'. run_state (refreshAccessToken env client v) s = (Inl ''refresh_token_reused'', s') \<and>
    active_in s' (rt_family t) = {}"
proof -
  have c: "run_state (consumeRefreshToken env v) s = (Reused t, after_consume env v s)"
    using assms consume_run(1) [of env v s] by (simp add: after_consume_def prod_eq_iff)
  show ?thesis by (simp add: refreshAccessToken_def c case_prod_beta revoke_no_active)
qed

lemma refresh_mismatch:
  assumes "rt_value s (keyOf env v) = Some t" "rt_status t = RT_active"
    and "rt_client t \<noteq> oc_client_id client"
  shows "\<exists>s'. run_state (refreshAccessToken env client v) s = (Inl ''client_mismatch'', s') \<and>
    active_in s' (rt_family t) = {}"
proof -
  have c: "run_state (consumeRefreshToken env v) s = (Consumed t, after_consume env v s)"
    using assms consume_run(1) [of env v s] by (simp add: after_consume_def prod_eq_iff)
  show ?thesis using assms(3) by (simp add: refreshAccessToken_def c case_prod_beta revoke_no_active)
qed

lemma refresh_unknown:
  assumes "rt_value s (keyOf env v) = None"
  shows "fst (run_state (refreshAccessToken env client v) s) = Inl ''refresh_token_unknown_or_expired''"
proof -
  have c: "run_state (consumeRefreshToken env v) s = (Unknown, after_consume env v s)"
    using assms consume_run(1) [of env v s] by (simp add: after_consume_def prod_eq_iff)
  show ?thesis by (simp add: refreshAccessToken_def c)
qed

text \<open>
  A refresh succeeds only with a live, active token of the calling client whose SSO session is
  alive and whose user still has access to the tenant; it leaves the presented token rotated and an
  active successor of the same grant in the same family.
\<close>

theorem refresh_success_facts:
  assumes "run_state (refreshAccessToken env client v) s = (Inr resp, s')"
  shows "\<exists>t sess tn u. rt_value s (keyOf env v) = Some t \<and> rt_status t = RT_active \<and>
    rt_client t = oc_client_id client \<and> sso_live s (rt_session t) = Some sess \<and>
    findTenantById (identity s) (rt_tenant t) = Some tn \<and>
    checkTenantAccess (identity s) client tn (rt_user t) = Inr u \<and>
    tr_refresh_token resp = next_token env s 0 \<and>
    rt_value s' = (rt_value s)(keyOf env v \<mapsto> t\<lparr>rt_status := RT_rotated\<rparr>,
      keyOf env (next_token env s 0) \<mapsto> t) \<and>
    keyOf env (next_token env s 0) \<in> set (family_keys s' (rt_family t))"
proof (cases "rt_value s (keyOf env v)")
  case None
  then show ?thesis using assms refresh_unknown [OF None, of client] by simp
next
  case (Some t)
  have st: "rt_status t = RT_active" using assms refresh_inactive [OF Some, of client]
    by (cases "rt_status t = RT_active") auto
  have cl: "rt_client t = oc_client_id client"
    using assms refresh_mismatch [OF Some st, of client]
    by (cases "rt_client t = oc_client_id client") auto
  obtain u tn where ok: "fst (run_state (validateRefreshContext client t) s) = Inr (u, tn)"
    using assms refresh_consumed [OF Some st cl] by (auto split: sum.splits)
  then show ?thesis
    using assms refresh_consumed [OF Some st cl] Some st cl
    by (auto simp: context_run js_set_add_def split: option.splits sum.splits)
qed

lemma later_rt: "now s \<le> t \<Longrightarrow> rt_value (s\<lparr>now := t\<rparr>) k = None \<or> rt_value (s\<lparr>now := t\<rparr>) k = rt_value s k"
  using kv_value_ages [of "now s" t "refresh_tokens s" k] by (simp add: rt_value_def)

lemma later_code:
  "now s \<le> t \<Longrightarrow> code_value (s\<lparr>now := t\<rparr>) k = None \<or> code_value (s\<lparr>now := t\<rparr>) k = code_value s k"
  using kv_value_ages [of "now s" t "authz_codes s" k] by (simp add: code_value_def)


section \<open>The code exchange, outcome by outcome\<close>

lemma binding_ok_iff:
  "validateCodeBinding env g client input = Inr () \<longleftrightarrow>
     cg_client g = oc_client_id client \<and> cg_redirect_uri g = ce_redirect_uri input \<and>
     isValidCodeVerifier (ce_code_verifier input) \<and>
     computeCodeChallenge (sha256 env) (ce_code_verifier input) = cg_code_challenge g"
  by (simp add: validateCodeBinding_def)

definition code_taken :: "string \<Rightarrow> 'c auth_state \<Rightarrow> 'c auth_state" where
  "code_taken k s = snd (run_state (code_store (take_key k)) s)"

lemma code_taken_fields [simp]:
  "now (code_taken k s) = now s" "identity (code_taken k s) = identity s"
  "sso_live (code_taken k s) = sso_live s" "rt_value (code_taken k s) = rt_value s"
  "family_keys (code_taken k s) = family_keys s" "draws (code_taken k s) = draws s"
  "code_value (code_taken k s) = (code_value s)(k := None)"
  by (simp_all add: code_taken_def run_on_store rt_value_def family_keys_def code_value_def sso_live_def
      fun_eq_iff split: option.split)

lemma exchange_start:
  "run_state (exchangeAuthorizationCode env client input) s =
     (case code_value s (keyOf env (ce_code input)) of
        None \<Rightarrow> (Inl ''code_unknown_or_expired'', code_taken (keyOf env (ce_code input)) s)
      | Some (Used f) \<Rightarrow>
          (Inl ''code_reused'', snd (run_state (do {
             owner \<leftarrow> describeRefreshTokenFamily f;
             _ \<leftarrow> revokeRefreshTokenFamily f;
             _ \<leftarrow> rememberConsumedCode (keyOf env (ce_code input)) f;
             recordAudit env (reused_code_audit client owner f)
           }) (code_taken (keyOf env (ce_code input)) s)))
      | Some (Unused g) \<Rightarrow>
          run_state (exchange_unused env client input g) (code_taken (keyOf env (ce_code input)) s))"
  by (auto simp: exchangeAuthorizationCode_def Let_def case_prod_beta code_taken_def code_value_def
      run_on_store split: option.split authorization_code.split)

lemma remember_run:
  "code_value (snd (run_state (rememberConsumedCode k f) s)) = (code_value s)(k \<mapsto> Used f)"
  "rt_value (snd (run_state (rememberConsumedCode k f) s)) = rt_value s"
  "family_keys (snd (run_state (rememberConsumedCode k f) s)) = family_keys s"
  "active_in (snd (run_state (rememberConsumedCode k f) s)) = active_in s"
  "now (snd (run_state (rememberConsumedCode k f) s)) = now s"
  by (simp_all add: rememberConsumedCode_def run_on_store code_value_def rt_value_def family_keys_def
      active_in_def fun_eq_iff)

lemma exchange_reused:
  assumes "code_value s (keyOf env (ce_code input)) = Some (Used f)"
  shows "\<exists>s'. run_state (exchangeAuthorizationCode env client input) s = (Inl ''code_reused'', s') \<and>
    active_in s' f = {}"
  by (simp add: exchange_start assms case_prod_beta remember_run revoke_no_active)

lemma unused_ok:
  assumes "run_state (exchange_unused env client input g) s = (Inr resp, s')"
  shows "validateCodeBinding env g client input = Inr () \<and>
    (\<exists>sess u tn f. sso_live s (cg_session g) = Some sess \<and>
      findUserById (identity s) (cg_user g) = Some u \<and>
      findTenantById (identity s) (cg_tenant g) = Some tn \<and>
      code_value s' = (code_value s)(keyOf env (ce_code input) \<mapsto> Used f) \<and>
      rt_value s' = (rt_value s)(keyOf env (tr_refresh_token resp) \<mapsto>
        with_family (new_refresh_of client g) f) \<and>
      keyOf env (tr_refresh_token resp) \<in> set (family_keys s' f) \<and> now s' = now s)"
proof -
  let ?s1 = "snd (run_state (loadSsoSessionByKey (cg_session g)) s)"
  have b: "validateCodeBinding env g client input = Inr ()"
    using assms by (auto simp: exchange_unused_def split: sum.splits)
  have "sso_live s (cg_session g) \<noteq> None" "findUserById (identity s) (cg_user g) \<noteq> None"
    "findTenantById (identity s) (cg_tenant g) \<noteq> None"
    using assms b by (auto simp: exchange_unused_def case_prod_beta split: option.splits)
  then obtain sess u tn where live: "sso_live s (cg_session g) = Some sess"
    "findUserById (identity s) (cg_user g) = Some u"
    "findTenantById (identity s) (cg_tenant g) = Some tn" by auto
  have codes: "code_value (snd (run_state (createRefreshTokenFamily env i) ?s1)) = code_value s" for i
    using create_run(5,6) [of env i ?s1] load_rt(3) [of "cg_session g" s]
    by (simp add: code_value_def)
  show ?thesis
    using assms create_run [of env "new_refresh_of client g" ?s1]
    by (auto simp: exchange_unused_def b live case_prod_beta issueTokens_run remember_run toResponse_def
        codes with_family_def js_set_add_def)
qed

text \<open>
  C2: Tokens are issued for a code only if it is live and unused, was issued to this client for this
  redirect_uri, the verifier hashes to its PKCE challenge, and its SSO session is alive; afterwards
  the code is marked used and the new refresh token is the family's active member for that grant.
\<close>

theorem code_exchange_facts:
  assumes "run_state (exchangeAuthorizationCode env client input) s = (Inr resp, s')"
  shows "\<exists>g sess f. code_value s (keyOf env (ce_code input)) = Some (Unused g) \<and>
    cg_client g = oc_client_id client \<and> cg_redirect_uri g = ce_redirect_uri input \<and>
    isValidCodeVerifier (ce_code_verifier input) \<and>
    computeCodeChallenge (sha256 env) (ce_code_verifier input) = cg_code_challenge g \<and>
    sso_live s (cg_session g) = Some sess \<and>
    code_value s' (keyOf env (ce_code input)) = Some (Used f) \<and>
    rt_value s' (keyOf env (tr_refresh_token resp)) = Some (with_family (new_refresh_of client g) f) \<and>
    keyOf env (tr_refresh_token resp) \<in> active_in s' f"
proof -
  obtain g where g: "code_value s (keyOf env (ce_code input)) = Some (Unused g)"
    and run: "run_state (exchange_unused env client input g)
      (code_taken (keyOf env (ce_code input)) s) = (Inr resp, s')"
    using assms by (auto simp: exchange_start split: option.splits authorization_code.splits)
  show ?thesis
    using unused_ok [OF run] g
    by (auto simp: binding_ok_iff active_in_def with_family_def)
qed


text \<open>
  C4: A live token presented by a client it was not issued to is refused as a mismatch, and its whole
  family stops working at once.
\<close>

theorem stolen_token_revokes_family:
  assumes "rt_value s (keyOf env v) = Some tok" "rt_status tok = RT_active"
    and "rt_client tok \<noteq> oc_client_id client"
  shows "fst (run_state (refreshAccessToken env client v) s) = Inl ''client_mismatch'' \<and>
    active_in (snd (run_state (refreshAccessToken env client v) s)) (rt_family tok) = {}"
  using refresh_mismatch [OF assms] by auto

section \<open>The tokens of a concrete run\<close>

definition fx_token :: refresh_token where
  "fx_token = \<lparr>rt_client = ''crm'', rt_user = ''u1'', rt_tenant = ''t1'', rt_sid = ''s1'',
     rt_session = ''k1'', rt_scope = ''openid'', rt_auth_time = 1000, rt_family = ''f1'',
     rt_status = RT_active\<rparr>"

definition fx_grant :: code_grant where
  "fx_grant = \<lparr>cg_client = ''crm'', cg_redirect_uri = ''https://acme.crm.jp/cb'',
     cg_scope = ''openid'', cg_nonce = ''n'',
     cg_code_challenge = b64url_encode (bytes_of_string (replicate 43 CHR ''a'')),
     cg_user = ''u1'', cg_tenant = ''t1'', cg_sid = ''s1'', cg_session = ''k1'', cg_auth_time = 1000\<rparr>"

definition fx_token_state :: "unit auth_state" where
  "fx_token_state = fx_state\<lparr>refresh_tokens := fx_kv (keyOf fx_env ''v'') fx_token,
     authz_codes := fx_kv (keyOf fx_env ''c'') (Unused fx_grant)\<rparr>"

definition fx_input :: code_exchange_input where
  "fx_input = \<lparr>ce_code = ''c'', ce_redirect_uri = ''https://acme.crm.jp/cb'',
     ce_code_verifier = replicate 43 CHR ''a''\<rparr>"

lemma fx_refresh_ok: "is_ok (fst (run_state (refreshAccessToken fx_env fx_client ''v'') fx_token_state))"
  by code_simp

lemma unused_success:
  assumes "validateCodeBinding env g client input = Inr ()" "sso_live s (cg_session g) = Some sess"
    and "findUserById (identity s) (cg_user g) = Some u"
    and "findTenantById (identity s) (cg_tenant g) = Some tn"
  shows "is_ok (fst (run_state (exchange_unused env client input g) s))"
  using assms by (simp add: exchange_unused_def case_prod_beta)

lemma fx_grant_value: "code_value fx_token_state (keyOf fx_env ''c'') = Some (Unused fx_grant)"
  by code_simp

lemma fx_binding: "validateCodeBinding fx_env fx_grant fx_client fx_input = Inr ()"
  by code_simp

lemma fx_lookups: "sso_live fx_token_state ''k1'' = Some fx_session"
    "findUserById (identity fx_token_state) ''u1'' = Some fx_user"
    "findTenantById (identity fx_token_state) ''t1'' = Some fx_tenant"
  by code_simp+

lemma fx_exchange_ok:
  "is_ok (fst (run_state (exchangeAuthorizationCode fx_env fx_client fx_input) fx_token_state))"
proof -
  have "ce_code fx_input = ''c''" by (simp add: fx_input_def)
  moreover have "cg_session fx_grant = ''k1''" "cg_user fx_grant = ''u1''" "cg_tenant fx_grant = ''t1''"
    by (simp_all add: fx_grant_def)
  ultimately show ?thesis
    using unused_success [OF fx_binding] by (simp add: exchange_start fx_grant_value fx_lookups)
qed

lemma fx_token_value: "rt_value fx_token_state (keyOf fx_env ''v'') = Some fx_token"
  by code_simp

lemma fx_next: "keyOf fx_env (next_token fx_env fx_token_state 0) \<noteq> keyOf fx_env ''v''"
  by code_simp

lemma is_ok_run: "is_ok (fst r) \<Longrightarrow> \<exists>v s'. r = (Inr v, s')"
  by (cases r) (auto simp: is_ok_iff)

theorem refresh_success_facts_witness:
  "\<exists>t. rt_value fx_token_state (keyOf fx_env ''v'') = Some t \<and> rt_status t = RT_active"
  using is_ok_run [OF fx_refresh_ok] refresh_success_facts by blast


theorem code_exchange_facts_witness:
  "\<exists>g. code_value fx_token_state (keyOf fx_env (ce_code fx_input)) = Some (Unused g) \<and>
     isValidCodeVerifier (ce_code_verifier fx_input)"
  using is_ok_run [OF fx_exchange_ok] code_exchange_facts by blast


theorem stolen_token_revokes_family_witness:
  "fst (run_state (refreshAccessToken fx_env (fx_client\<lparr>oc_client_id := ''cms''\<rparr>) ''v'') fx_token_state) =
     Inl ''client_mismatch''"
  using stolen_token_revokes_family [OF fx_token_value, of "fx_client\<lparr>oc_client_id := ''cms''\<rparr>"]
  by (simp add: fx_token_def fx_client_def)

section \<open>A revocation during a refresh\<close>

text \<open>
  The refresh grant takes its token and stores the successor in separate steps. A family revocation
  that runs between them does not reach the successor: it is a usable member of the revoked family.
\<close>

theorem revocation_misses_refresh_in_flight:
  assumes "rt_value s (keyOf env v) = Some tok" "rt_status tok = RT_active"
    and "s1 = snd (run_state (consumeRefreshToken env v) s)"
    and "s2 = snd (run_state (revokeRefreshTokenFamily (rt_family tok)) s1)"
    and "s3 = snd (run_state (rotateRefreshToken env tok) s2)"
  shows "active_in s2 (rt_family tok) = {} \<and>
    keyOf env (next_token env s 0) \<in> active_in s3 (rt_family tok)"
proof -
  have "draws s2 = draws s"
    using beyond_rt_fields(9) [OF revoke_frame(1), of "rt_family tok" s1]
      beyond_rt_fields(9) [OF consume_run(3), of env v s] assms(3,4) by simp
  then have next2: "next_token env s2 0 = next_token env s 0" by (simp add: next_token_def)
  have "active_in s2 (rt_family tok) = {}" by (simp only: assms(4) revoke_no_active)
  moreover have "rt_value s3 (keyOf env (next_token env s 0)) = Some tok"
    using rotate_run(2) [of env tok s2] assms(2,5) by (simp only: next2) simp
  moreover have "keyOf env (next_token env s 0) \<in> set (family_keys s3 (rt_family tok))"
    using rotate_run(3) [of env tok s2] assms(5) by (simp only: next2) (simp add: js_set_add_def)
  ultimately show ?thesis using assms(2) by (simp add: active_in_def)
qed

theorem revocation_misses_refresh_in_flight_witness:
  "\<exists>s3 :: unit auth_state. keyOf fx_env (next_token fx_env fx_token_state 0) \<in> active_in s3 ''f1''"
proof -
  have "rt_status fx_token = RT_active" "rt_family fx_token = ''f1''" by (simp_all add: fx_token_def)
  then show ?thesis
    using revocation_misses_refresh_in_flight [OF fx_token_value, OF _ refl refl refl] by auto
qed

end
