(* ===== verification/Totp.thy ===== *)
theory Totp
  imports SharedText
begin

unbundle bit_operations_syntax

text \<open>
  packages/shared/src/totp.ts: base32 over a 32-bit accumulator (JavaScript shifts), the RFC 6238
  code of a secret at a time, and its verification within one step either way. HMAC-SHA1 is the
  parameter \<open>hmac\<close>. The main result is that base32 decoding inverts encoding, proved over
  the bit sequence that both loops shift through.
\<close>

section \<open>base32\<close>

definition ALPHABET :: string where "ALPHABET = ''ABCDEFGHIJKLMNOPQRSTUVWXYZ234567''"
definition TOTP_STEP_SECONDS :: nat where "TOTP_STEP_SECONDS = 30"
definition TOTP_DIGITS :: nat where "TOTP_DIGITS = 6"

definition b32_char :: "32 word \<Rightarrow> char" where "b32_char w = ALPHABET ! unat (w AND 31)"

fun b32_drain :: "32 word \<Rightarrow> nat \<Rightarrow> string \<times> nat" where
  "b32_drain value bits =
     (if bits \<ge> 5
      then (let (cs, r) = b32_drain value (bits - 5)
            in (b32_char (drop_bit (bits - 5) value) # cs, r))
      else ([], bits))"

declare b32_drain.simps [simp del]

fun b32_encode_loop :: "bytes \<Rightarrow> nat \<Rightarrow> 32 word \<Rightarrow> string" where
  "b32_encode_loop [] bits value =
     (if bits > 0 then [b32_char (push_bit (5 - bits) value)] else [])"
| "b32_encode_loop (b # bs) bits value =
     (let value' = push_bit 8 value OR ucast b;
          (cs, r) = b32_drain value' (bits + 8)
      in cs @ b32_encode_loop bs r value')"

definition base32Encode :: "bytes \<Rightarrow> string" where
  "base32Encode bs = b32_encode_loop bs 0 0"

fun index_in :: "char \<Rightarrow> string \<Rightarrow> nat option" where
  "index_in c [] = None"
| "index_in c (d # ds) = (if c = d then Some 0 else map_option Suc (index_in c ds))"

fun b32_decode_loop :: "string \<Rightarrow> nat \<Rightarrow> 32 word \<Rightarrow> bytes option" where
  "b32_decode_loop [] bits value = Some []"
| "b32_decode_loop (c # cs) bits value =
     (case index_in c ALPHABET of
        None \<Rightarrow> None
      | Some index \<Rightarrow>
          (let value' = push_bit 5 value OR word_of_nat index; bits' = bits + 5
           in if bits' \<ge> 8
              then map_option (Cons (ucast (drop_bit (bits' - 8) value' AND 255)))
                     (b32_decode_loop cs (bits' - 8) value')
              else b32_decode_loop cs bits' value'))"

definition base32_clean :: "string \<Rightarrow> string" where
  "base32_clean text =
     filter (\<lambda>c. \<not> js_space c) (rev (dropWhile (\<lambda>c. c = CHR ''='') (rev (to_upper text))))"

text \<open>\<open>None\<close> is the exception on a character outside the alphabet.\<close>

definition base32Decode :: "string \<Rightarrow> bytes option" where
  "base32Decode text = b32_decode_loop (base32_clean text) 0 0"

section \<open>TOTP\<close>

definition generateTotpSecret :: "bytes \<Rightarrow> string" where
  "generateTotpSecret raw = base32Encode raw"

definition counter_bytes :: "nat \<Rightarrow> bytes" where
  "counter_bytes n = map (\<lambda>i. word_of_nat (n div 256 ^ i)) (rev [0..<8])"

definition byte_at :: "bytes \<Rightarrow> nat \<Rightarrow> 32 word" where
  "byte_at bs i = (if i < length bs then ucast (bs ! i) else 0)"

definition pad_start :: "nat \<Rightarrow> string \<Rightarrow> string" where
  "pad_start n s = replicate (n - length s) CHR ''0'' @ s"

definition generateTotp :: "(bytes \<Rightarrow> bytes \<Rightarrow> bytes) \<Rightarrow> string \<Rightarrow> nat \<Rightarrow> string option" where
  "generateTotp hmac secret now_seconds =
     (case base32Decode secret of
        None \<Rightarrow> None
      | Some key \<Rightarrow>
          (let digest = hmac key (counter_bytes (now_seconds div TOTP_STEP_SECONDS));
               offset = unat ((if digest = [] then 0 else byte_at digest (length digest - 1)) AND 15);
               binary = push_bit 24 (byte_at digest offset AND 127) OR
                        push_bit 16 (byte_at digest (offset + 1) AND 255) OR
                        push_bit 8 (byte_at digest (offset + 2) AND 255) OR
                        (byte_at digest (offset + 3) AND 255)
           in Some (pad_start TOTP_DIGITS (digits (unat binary mod 10 ^ TOTP_DIGITS)))))"

definition six_digits :: "string \<Rightarrow> bool" where
  "six_digits code = (length code = 6 \<and> list_all is_digit code)"

text \<open>
  The loop over the offsets \<open>-1, 0, 1\<close> with its early return; \<open>None\<close> when the secret does
  not decode. The clock is at least one step after the epoch.
\<close>

fun verify_at :: "(bytes \<Rightarrow> bytes \<Rightarrow> bytes) \<Rightarrow> string \<Rightarrow> string \<Rightarrow> nat list \<Rightarrow> bool option" where
  "verify_at hmac secret code [] = Some False"
| "verify_at hmac secret code (t # ts) =
     (case generateTotp hmac secret t of
        None \<Rightarrow> None
      | Some expected \<Rightarrow> if expected = code then Some True else verify_at hmac secret code ts)"

definition verifyTotp :: "(bytes \<Rightarrow> bytes \<Rightarrow> bytes) \<Rightarrow> string \<Rightarrow> string \<Rightarrow> nat \<Rightarrow> bool option" where
  "verifyTotp hmac secret code now_seconds =
     (if \<not> six_digits code then Some False
      else verify_at hmac secret code
        [now_seconds - TOTP_STEP_SECONDS, now_seconds, now_seconds + TOTP_STEP_SECONDS])"

definition otpauthUri :: "string \<Rightarrow> string \<Rightarrow> string \<Rightarrow> string" where
  "otpauthUri issuer_name account secret =
     ''otpauth://totp/'' @ encode_uri (issuer_name @ '':'' @ account) @ ''?'' @
     url_search_params [(''secret'', secret), (''issuer'', issuer_name), (''algorithm'', ''SHA1''),
       (''digits'', digits TOTP_DIGITS), (''period'', digits TOTP_STEP_SECONDS)]"

section \<open>The bit sequence behind both loops\<close>

definition low :: "nat \<Rightarrow> 'a::len word \<Rightarrow> bool list" where
  "low n w = map (bit w) (rev [0..<n])"

lemma length_low [simp]: "length (low n w) = n"
  by (simp add: low_def)

lemma low_nth: "i < n \<Longrightarrow> low n w ! i = bit w (n - 1 - i)"
  by (simp add: low_def rev_nth)

lemma low_shift_in:
  fixes v b :: "32 word"
  assumes "\<And>j. k \<le> j \<Longrightarrow> \<not> bit b j" "n + k \<le> 32"
  shows "low (n + k) (push_bit k v OR b) = low n v @ low k b"
proof (rule nth_equalityI)
  fix i assume i: "i < length (low (n + k) (push_bit k v OR b))"
  show "low (n + k) (push_bit k v OR b) ! i = (low n v @ low k b) ! i"
  proof (cases "i < n")
    case True
    then have "k \<le> n + k - Suc i" "n + k - Suc i - k = n - Suc i" "n + k - Suc i < 32"
      using assms(2) by auto
    then show ?thesis
      using True assms by (simp add: low_nth nth_append bit_or_iff bit_push_bit_iff)
  next
    case False
    then have "n + k - Suc i < k" "k - Suc (i - n) = n + k - Suc i" using i by auto
    then show ?thesis
      using False i assms(2) by (simp add: low_nth nth_append bit_or_iff bit_push_bit_iff)
  qed
qed simp

lemma low_take: "k \<le> n \<Longrightarrow> take k (low n w) = low k (drop_bit (n - k) w)"
  by (rule nth_equalityI) (auto simp: low_nth bit_drop_bit_eq add.commute)

lemma low_drop: "k \<le> n \<Longrightarrow> drop k (low n w) = low (n - k) w"
  by (rule nth_equalityI) (auto simp: low_nth)

lemma low_mask:
  fixes w :: "32 word"
  assumes "k \<le> 32"
  shows "low k (w AND mask k) = low k w"
  using assms by (intro nth_equalityI) (auto simp: low_nth bit_and_iff bit_mask_iff)

lemma low_ucast:
  fixes b :: "8 word"
  shows "low 8 (ucast b :: 32 word) = low 8 b"
  by (rule nth_equalityI) (auto simp: low_nth bit_ucast_iff)

lemma low_ucast_down:
  fixes w :: "32 word"
  shows "low 8 (ucast w :: 8 word) = low 8 w"
  by (rule nth_equalityI) (auto simp: low_nth bit_ucast_iff)

lemma low_inj: "low LENGTH('a) v = low LENGTH('a) w \<longleftrightarrow> v = w" for v w :: "'a::len word"
proof
  assume eq: "low LENGTH('a) v = low LENGTH('a) w"
  show "v = w"
  proof (rule bit_word_eqI)
    fix n assume n: "n < LENGTH('a)"
    then show "bit v n = bit w n"
      using arg_cong [OF eq, of "\<lambda>xs. xs ! (LENGTH('a) - 1 - n)"] by (simp add: low_nth)
  qed
qed simp

lemma low_pad:
  fixes w :: "32 word"
  assumes "n + k \<le> 32"
  shows "low (n + k) (push_bit k w) = low n w @ replicate k False"
proof -
  have "low k (0 :: 32 word) = replicate k False"
    by (rule nth_equalityI) (simp_all add: low_nth)
  then show ?thesis using low_shift_in [of k 0 n w] assms by simp
qed
section \<open>The round trip\<close>

lemma alphabet_table:
  "map (\<lambda>c. index_in c ALPHABET) ALPHABET = map Some [0..<32]"
  "list_all (\<lambda>c. upper_char c = c \<and> c \<noteq> CHR ''='' \<and> \<not> js_space c) ALPHABET"
  by code_simp+

lemma alphabet_length: "length ALPHABET = 32"
  by (simp add: ALPHABET_def)

definition quintet :: "char \<Rightarrow> bool list" where
  "quintet c = low 5 (word_of_nat (case index_in c ALPHABET of None \<Rightarrow> 0 | Some i \<Rightarrow> i) :: 32 word)"

definition cbits :: "string \<Rightarrow> bool list" where "cbits cs = concat (map quintet cs)"

lemma cbits_simps [simp]: "cbits [] = []" "cbits (c # cs) = quintet c @ cbits cs"
    "cbits (cs @ ds) = cbits cs @ cbits ds"
  by (simp_all add: cbits_def)

lemma and31: "unat (w AND 31 :: 32 word) < 32"
proof -
  have "w AND 31 = take_bit 5 w" by (simp add: take_bit_eq_mask mask_eq_exp_minus_1)
  then show ?thesis by (simp add: unsigned_take_bit_eq take_bit_nat_less_exp [of 5, simplified])
qed

lemma index_b32: "index_in (b32_char w) ALPHABET = Some (unat (w AND 31))"
  using arg_cong [OF alphabet_table(1), of "\<lambda>xs. xs ! unat (w AND 31)"] and31 [of w] alphabet_length
  by (simp add: b32_char_def)

lemma b32_char_in: "b32_char w \<in> set ALPHABET"
  using and31 [of w] alphabet_length by (simp add: b32_char_def)

lemma quintet_b32: "quintet (b32_char w) = low 5 w"
proof -
  have "w AND 31 = w AND mask 5" by (simp add: mask_eq_exp_minus_1)
  then show ?thesis using low_mask [of 5 w] by (simp add: quintet_def index_b32)
qed

lemma drain_bits:
  "b32_drain v n = (cs, r) \<Longrightarrow>
     cbits cs @ low r v = low n v \<and> r < 5 \<and> set cs \<subseteq> set ALPHABET"
proof (induction v n arbitrary: cs r rule: b32_drain.induct)
  case (1 v n)
  show ?case
  proof (cases "5 \<le> n")
    case False
    then show ?thesis using "1.prems" by (simp add: b32_drain.simps [of v n])
  next
    case True
    obtain ds q where d: "b32_drain v (n - 5) = (ds, q)" by fastforce
    then have cs: "cs = b32_char (drop_bit (n - 5) v) # ds" "r = q"
      using "1.prems" True by (simp_all add: b32_drain.simps [of v n])
    have "low n v = low 5 (drop_bit (n - 5) v) @ low (n - 5) v"
      using low_take [OF True, of v] low_drop [OF True, of v] by (metis append_take_drop_id)
    then show ?thesis using "1.IH" [OF True d] cs b32_char_in by (simp add: quintet_b32)
  qed
qed

lemma bit_ucast_byte: "8 \<le> j \<Longrightarrow> \<not> bit (ucast (b :: 8 word) :: 32 word) j"
  using bit_imp_le_length [of b j] by (auto simp: bit_ucast_iff)

lemma encode_bits:
  "n < 5 \<Longrightarrow> set (b32_encode_loop bs n v) \<subseteq> set ALPHABET \<and>
     (\<exists>pad < 5. cbits (b32_encode_loop bs n v) =
        low n v @ concat (map (low 8) bs) @ replicate pad False)"
proof (induction bs arbitrary: n v)
  case Nil
  show ?case
  proof (cases "n = 0")
    case True
    then show ?thesis by (auto simp: low_def)
  next
    case False
    then show ?thesis
      using Nil low_pad [of n "5 - n" v] b32_char_in by (auto simp: quintet_b32 intro: exI [of _ "5 - n"])
  qed
next
  case (Cons b bs)
  let ?v = "push_bit 8 v OR ucast b :: 32 word"
  obtain cs r where d: "b32_drain ?v (n + 8) = (cs, r)" by fastforce
  have "low (n + 8) ?v = low n v @ low 8 b"
    using low_shift_in [of 8 "ucast b" n v] bit_ucast_byte Cons.prems by (simp add: low_ucast)
  then show ?case
    using drain_bits [OF d] Cons.IH [of r ?v] by (auto simp: d)
qed

lemma index_bound: "index_in c s = Some i \<Longrightarrow> i < length s"
  by (induction s arbitrary: i) (auto split: if_splits)

lemma index_known: "c \<in> set s \<Longrightarrow> \<exists>i. index_in c s = Some i"
  by (induction s) auto

lemma bit_small: "i < 32 \<Longrightarrow> 5 \<le> j \<Longrightarrow> \<not> bit (word_of_nat i :: 32 word) j"
proof -
  assume "i < 32" "5 \<le> j"
  then have "i < 2 ^ j"
    using power_increasing [of 5 j "2 :: nat"] by simp
  then have "\<not> bit i j" by (simp add: bit_iff_odd)
  then show ?thesis by (simp add: bit_of_nat_iff)
qed

lemma decode_bits:
  "n < 8 \<Longrightarrow> set cs \<subseteq> set ALPHABET \<Longrightarrow>
     \<exists>bs rest. b32_decode_loop cs n v = Some bs \<and> length rest < 8 \<and>
       low n v @ cbits cs = concat (map (low 8) bs) @ rest"
proof (induction cs arbitrary: n v)
  case Nil
  then show ?case by auto
next
  case (Cons c cs)
  obtain i where i: "index_in c ALPHABET = Some i" using Cons.prems(2) index_known by fastforce
  let ?v = "push_bit 5 v OR word_of_nat i :: 32 word"
  have "i < 32" using index_bound [OF i] by (simp add: alphabet_length)
  then have v: "low (n + 5) ?v = low n v @ quintet c"
    using low_shift_in [of 5 "word_of_nat i" n v] bit_small [of i] Cons.prems(1)
    by (simp add: quintet_def i)
  show ?case
  proof (cases "8 \<le> n + 5")
    case False
    then show ?thesis using Cons.IH [of "n + 5" ?v] Cons.prems v by (simp add: i)
  next
    case True
    let ?b = "ucast (drop_bit (n + 5 - 8) ?v AND 255) :: 8 word"
    have "drop_bit (n + 5 - 8) ?v AND 255 = drop_bit (n + 5 - 8) ?v AND mask 8"
      by (simp add: mask_eq_exp_minus_1)
    then have "low 8 ?b = take 8 (low (n + 5) ?v)"
      using low_take [OF True, of ?v] low_mask [of 8 "drop_bit (n + 5 - 8) ?v"]
      by (simp only: low_ucast_down)
    then have split: "low (n + 5) ?v = low 8 ?b @ low (n + 5 - 8) ?v"
      using low_drop [OF True, of ?v] by (metis append_take_drop_id)
    obtain bs rest where dec: "b32_decode_loop cs (n + 5 - 8) ?v = Some bs" "length rest < 8"
      "low (n + 5 - 8) ?v @ cbits cs = concat (map (low 8) bs) @ rest"
    proof -
      have "n + 5 - 8 < 8" "set cs \<subseteq> set ALPHABET" using Cons.prems by auto
      from Cons.IH [OF this, of ?v] show thesis using that by blast
    qed
    have "low n v @ cbits (c # cs) = low (n + 5) ?v @ cbits cs" by (simp only: v) simp
    also have "\<dots> = low 8 ?b @ concat (map (low 8) bs) @ rest"
      by (simp only: split append.assoc dec(3))
    finally have stream: "low n v @ cbits (c # cs) = concat (map (low 8) (?b # bs)) @ rest" by simp
    have "b32_decode_loop (c # cs) n v = Some (?b # bs)"
      using True dec(1) by (simp only: b32_decode_loop.simps i option.case Let_def if_True) simp
    then show ?thesis using stream dec(2) by blast
  qed
qed

lemma concat_low_inj:
  "length bs = length cs \<Longrightarrow> concat (map (low 8) bs) = concat (map (low 8) cs) \<Longrightarrow> bs = (cs :: bytes)"
proof (induction bs cs rule: list_induct2)
  case (Cons b bs c cs)
  then show ?case using low_inj [of b c] by simp
qed simp

lemma bytes_determined:
  fixes bs cs :: bytes
  assumes "concat (map (low 8) bs) @ p = concat (map (low 8) cs) @ q" "length p < 8" "length q < 8"
  shows "bs = cs"
proof -
  have len: "length (concat (map (low 8) xs)) = 8 * length xs" for xs :: bytes
    by (induction xs) auto
  have l: "length bs = length cs" using arg_cong [OF assms(1), of length] assms(2,3) by (simp add: len)
  then show ?thesis using concat_low_inj [OF l] assms(1) len by (simp add: append_eq_append_conv)
qed

lemma clean_alphabet: "set s \<subseteq> set ALPHABET \<Longrightarrow> base32_clean s = s"
proof -
  assume s: "set s \<subseteq> set ALPHABET"
  have all: "upper_char c = c \<and> c \<noteq> CHR ''='' \<and> \<not> js_space c" if "c \<in> set s" for c
    using alphabet_table(2) s that by (auto simp: list_all_iff)
  then have "to_upper s = s" by (simp add: to_upper_def map_idI)
  moreover have "dropWhile (\<lambda>c. c = CHR ''='') (rev s) = rev s"
    using all by (cases "rev s") (auto simp: rev_eq_Cons_iff)
  ultimately show ?thesis using all by (simp add: base32_clean_def)
qed

text \<open>
  base32 decoding inverts encoding on every byte string, through the 32-bit accumulators whose
  high bits the loops let overflow.
\<close>

theorem base32_roundtrip: "base32Decode (base32Encode bs) = Some bs"
proof -
  obtain pad where enc: "set (base32Encode bs) \<subseteq> set ALPHABET" "pad < 5"
    "cbits (base32Encode bs) = concat (map (low 8) bs) @ replicate pad False"
    using encode_bits [of 0 bs 0] by (auto simp: base32Encode_def low_def)
  obtain cs rest where dec: "b32_decode_loop (base32Encode bs) 0 0 = Some cs" "length rest < 8"
    "cbits (base32Encode bs) = concat (map (low 8) cs) @ rest"
    using decode_bits [OF _ enc(1), of 0 0] by (auto simp: low_def)
  have "bs = cs" using enc dec by (intro bytes_determined [of bs "replicate pad False" cs rest]) auto
  then have "b32_decode_loop (base32Encode bs) 0 0 = Some bs" using dec(1) by (simp only:)
  then show ?thesis by (simp only: base32Decode_def clean_alphabet [OF enc(1)])
qed

text \<open>
  A code is accepted exactly when it is six digits and is the secret's code of the previous,
  the current or the next 30-second step.
\<close>

theorem verify_totp_window:
  assumes "base32Decode secret = Some key"
  shows "verifyTotp hmac secret code t = Some True \<longleftrightarrow>
    six_digits code \<and> Some code \<in> generateTotp hmac secret `
      {t - TOTP_STEP_SECONDS, t, t + TOTP_STEP_SECONDS}"
proof -
  have "\<exists>c. generateTotp hmac secret u = Some c" for u
    using assms by (simp add: generateTotp_def Let_def)
  then obtain g where g: "\<And>u. generateTotp hmac secret u = Some (g u)" by metis
  show ?thesis by (auto simp: verifyTotp_def g)
qed

theorem verify_totp_window_witness:
  "verifyTotp (\<lambda>k m. m) (base32Encode [1, 2]) ''000000'' 60 = Some True \<longleftrightarrow>
     six_digits ''000000'' \<and> Some ''000000'' \<in> generateTotp (\<lambda>k m. m) (base32Encode [1, 2]) `
       {60 - TOTP_STEP_SECONDS, 60, 60 + TOTP_STEP_SECONDS}"
proof -
  have "base32Decode (base32Encode [1, 2]) = Some [1, 2]" by code_simp
  then show ?thesis by (rule verify_totp_window)
qed

end
