(* ===== verification/Login.thy ===== *)
theory Login
  imports Authorize Totp
begin

text \<open>
  Logging in: login.ts and mfa.ts of apps/auth-api/src/application/usecases. A password only creates
  a pending state; the SSO session is created by \<open>finishLogin\<close>, which only the two completion
  operations reach, after Cognito has accepted a code. \<open>same_sessions\<close> is the frame "no SSO
  session was created".
\<close>

section \<open>Calls of the Cognito port\<close>

definition on_cognito :: "('c \<Rightarrow> 'a \<times> 'c) \<Rightarrow> ('c, 'a) auth_m" where
  "on_cognito f = State (\<lambda>s. let (r, c) = f (cognito s) in (r, s\<lparr>cognito := c\<rparr>))"

lemma run_on_cognito [run_simps]:
  "run_state (on_cognito f) s = (fst (f (cognito s)), s\<lparr>cognito := snd (f (cognito s))\<rparr>)"
  by (simp add: on_cognito_def case_prod_beta)

section \<open>login.ts\<close>

record login_success =
  ls_user :: user
  ls_session :: sso_session
  ls_cookie :: string

datatype login_outcome = Login_totp_required string | Login_setup_required string

definition loadPending :: "('c, 'z) auth_env_scheme \<Rightarrow> string \<Rightarrow> ('c, mfa_pending option) auth_m" where
  "loadPending env i = pending_store (get_key (keyOf env i))"

definition savePending :: "('c, 'z) auth_env_scheme \<Rightarrow> string \<Rightarrow> mfa_pending \<Rightarrow> ('c, unit) auth_m" where
  "savePending env i p = pending_store (set_key (keyOf env i) p MFA_PENDING_TTL_SECONDS)"

definition updatePending :: "('c, 'z) auth_env_scheme \<Rightarrow> string \<Rightarrow> mfa_pending \<Rightarrow> ('c, bool) auth_m" where
  "updatePending env i p = pending_store (update_key (keyOf env i) p)"

definition deletePending :: "('c, 'z) auth_env_scheme \<Rightarrow> string \<Rightarrow> ('c, unit) auth_m" where
  "deletePending env i = pending_store (delete_key (keyOf env i))"

definition storePending :: "('c, 'z) auth_env_scheme \<Rightarrow> mfa_pending \<Rightarrow> ('c, string) auth_m" where
  "storePending env p = do {
     i \<leftarrow> random_token env;
     _ \<leftarrow> savePending env i p;
     State_Monad.return i
   }"

definition auth_error_kind :: "cognito_auth_error \<Rightarrow> string" where
  "auth_error_kind e = (case e of Invalid_credentials \<Rightarrow> ''invalid_credentials''
     | User_not_confirmed \<Rightarrow> ''user_not_confirmed'' | Password_reset_required \<Rightarrow> ''password_reset_required''
     | Challenge_required _ \<Rightarrow> ''challenge_required'' | Auth_unavailable _ \<Rightarrow> ''unavailable'')"

definition login ::
  "('c, 'z) auth_env_scheme \<Rightarrow> credentials \<Rightarrow> request_environment \<Rightarrow> string \<Rightarrow>
   ('c, (login_outcome, cognito_auth_error) result) auth_m" where
  "login env cr e rid = do {
     outcome \<leftarrow> on_cognito (cg_authenticate env cr);
     case outcome of
       Inl err \<Rightarrow> do {
         _ \<leftarrow> recordAudit env (in_environment e
           (audit_of Login_failed [(''reason'', JStr (auth_error_kind err))]));
         State_Monad.return (Inl err)
       }
     | Inr (Totp_required session username) \<Rightarrow> do {
         i \<leftarrow> storePending env (Totp_challenge
           \<lparr>tc_username = username, tc_cognito_session = session, tc_rid = rid, tc_attempts = 0\<rparr>);
         State_Monad.return (Inr (Login_totp_required i))
       }
     | Inr (Authenticated a) \<Rightarrow> do {
         sealed \<leftarrow> sealCognitoTokens env (ca_tokens a);
         i \<leftarrow> storePending env (Totp_setup
           \<lparr>ts_sub = ca_sub a, ts_email = ca_email a, ts_name = ca_name a,
            ts_encrypted_tokens = sealed, ts_rid = rid, ts_encrypted_secret = None,
            ts_secret_issued_at = None\<rparr>);
         State_Monad.return (Inr (Login_setup_required i))
       }
   }"

text \<open>
  \<open>linkCognitoSub\<close> throws when the row is gone; it has just been read by its email, so that
  branch is not reached (\<open>link_found\<close> below).
\<close>

definition resolveUser ::
  "('c, 'z) auth_env_scheme \<Rightarrow> string \<Rightarrow> string \<Rightarrow> string option \<Rightarrow> ('c, user) auth_m" where
  "resolveUser env sub email name = do {
     db \<leftarrow> reads identity;
     case findUserByCognitoSub db sub of
       Some u \<Rightarrow> State_Monad.return u
     | None \<Rightarrow>
         (case findUserByEmail db email of
            Some u \<Rightarrow>
              (case cognito_sub u of
                 Some _ \<Rightarrow> State_Monad.return (u\<lparr>user_status := Disabled\<rparr>)
               | None \<Rightarrow> State (\<lambda>s.
                   let (linked, db2) = linkCognitoSub (user_id u) sub (identity s)
                   in (case linked of Some v \<Rightarrow> v | None \<Rightarrow> u, s\<lparr>identity := db2\<rparr>)))
          | None \<Rightarrow> do {
              i \<leftarrow> ulid env;
              State (\<lambda>s.
                let (u, db2) = createUser \<lparr>nu_id = i, nu_cognito_sub = Some sub, nu_email = email,
                                 nu_name = name\<rparr> (identity s)
                in (u, s\<lparr>identity := db2\<rparr>))
            })
   }"

definition finishLogin ::
  "('c, 'z) auth_env_scheme \<Rightarrow> cognito_authenticated \<Rightarrow> request_environment \<Rightarrow> mfa_method \<Rightarrow>
   ('c, login_success option) auth_m" where
  "finishLogin env a e m = do {
     u \<leftarrow> resolveUser env (ca_sub a) (ca_email a) (ca_name a);
     if user_status u \<noteq> Active then do {
       _ \<leftarrow> recordAudit env (in_environment e
         ((audit_of Login_failed [(''reason'', JStr ''user_disabled'')])\<lparr>na_user := Some (user_id u)\<rparr>));
       State_Monad.return None
     } else do {
       _ \<leftarrow> modifies (\<lambda>s. s\<lparr>identity := recordMfaMethod (user_id u) m (now s) (identity s)\<rparr>);
       created \<leftarrow> createSsoSession env u a e;
       _ \<leftarrow> recordAudit env (in_environment e
         ((audit_of Login_succeeded [(''mfa'', JStr ''totp'')])
            \<lparr>na_user := Some (user_id u), na_session := Some (ss_sid (cs_session created))\<rparr>));
       State_Monad.return (Some \<lparr>ls_user = u, ls_session = cs_session created,
         ls_cookie = cs_cookie created\<rparr>)
     }
   }"

section \<open>mfa.ts\<close>

datatype mfa_flow_error =
  Flow_expired | Flow_code_mismatch | Flow_setup_expired | Flow_user_disabled | Flow_unavailable string

record mfa_completed =
  mc_login :: login_success
  mc_rid :: string

record totp_setup_view =
  tv_account :: string
  tv_secret :: string
  tv_uri :: string
  tv_expires_at :: seconds

definition as_challenge :: "mfa_pending option \<Rightarrow> totp_challenge option" where
  "as_challenge p = (case p of Some (Totp_challenge c) \<Rightarrow> Some c | _ \<Rightarrow> None)"

definition as_setup :: "mfa_pending option \<Rightarrow> totp_setup option" where
  "as_setup p = (case p of Some (Totp_setup c) \<Rightarrow> Some c | _ \<Rightarrow> None)"

definition mfa_error :: "cognito_mfa_error \<Rightarrow> mfa_flow_error" where
  "mfa_error e = (case e of Session_expired \<Rightarrow> Flow_expired | Code_mismatch \<Rightarrow> Flow_code_mismatch
     | Mfa_unavailable r \<Rightarrow> Flow_unavailable r)"

definition finish_with ::
  "('c, 'z) auth_env_scheme \<Rightarrow> cognito_authenticated \<Rightarrow> request_environment \<Rightarrow> string \<Rightarrow>
   ('c, (mfa_completed, mfa_flow_error) result) auth_m" where
  "finish_with env a e rid = do {
     done \<leftarrow> finishLogin env a e Totp;
     State_Monad.return (case done of None \<Rightarrow> Inl Flow_user_disabled
       | Some l \<Rightarrow> Inr \<lparr>mc_login = l, mc_rid = rid\<rparr>)
   }"

definition completeTotpChallenge ::
  "('c, 'z) auth_env_scheme \<Rightarrow> string \<Rightarrow> string \<Rightarrow> request_environment \<Rightarrow>
   ('c, (mfa_completed, mfa_flow_error) result) auth_m" where
  "completeTotpChallenge env i code e = do {
     loaded \<leftarrow> loadPending env i;
     case as_challenge loaded of
       None \<Rightarrow> State_Monad.return (Inl Flow_expired)
     | Some p \<Rightarrow> do {
         responded \<leftarrow> on_cognito (cg_respond env (tc_username p) (tc_cognito_session p) code);
         case responded of
           Inl Code_mismatch \<Rightarrow> do {
             let attempts = tc_attempts p + 1;
             _ \<leftarrow> recordAudit env (in_environment e (audit_of Mfa_challenge_failed
               [(''method'', JStr ''totp''), (''attempts'', JNum (int attempts))]));
             if attempts \<ge> MFA_MAX_ATTEMPTS then do {
               _ \<leftarrow> deletePending env i;
               State_Monad.return (Inl Flow_expired)
             } else do {
               _ \<leftarrow> updatePending env i (Totp_challenge (p\<lparr>tc_attempts := attempts\<rparr>));
               State_Monad.return (Inl Flow_code_mismatch)
             }
           }
         | Inl err \<Rightarrow> do {
             _ \<leftarrow> deletePending env i;
             State_Monad.return (Inl (mfa_error err))
           }
         | Inr a \<Rightarrow> do {
             _ \<leftarrow> deletePending env i;
             finish_with env a e (tc_rid p)
           }
       }
   }"

definition toSetup :: "totp_setup \<Rightarrow> string \<Rightarrow> seconds \<Rightarrow> totp_setup_view" where
  "toSetup p secret issued =
     \<lparr>tv_account = ts_email p, tv_secret = secret,
      tv_uri = otpauthUri MFA_ISSUER_NAME (ts_email p) secret,
      tv_expires_at = issued + TOTP_SETUP_TTL_SECONDS\<rparr>"

definition renew_secret ::
  "('c, 'z) auth_env_scheme \<Rightarrow> string \<Rightarrow> totp_setup \<Rightarrow> string option \<Rightarrow> seconds \<Rightarrow>
   ('c, (totp_setup_view, mfa_flow_error) result) auth_m" where
  "renew_secret env i p current t =
     (case unsealCognitoTokens env (ts_encrypted_tokens p) of
        None \<Rightarrow> State_Monad.return (Inl Flow_expired)
      | Some tokens \<Rightarrow> do {
          associated \<leftarrow> on_cognito (cg_associate env (ck_access tokens));
          case associated of
            Inl err \<Rightarrow> State_Monad.return (Inl (mfa_error err))
          | Inr secret \<Rightarrow> do {
              _ \<leftarrow> (if current \<noteq> None
                   then recordAudit env (audit_of Mfa_setup_expired
                     [(''method'', JStr ''totp''), (''renewed'', JBool True)])
                   else State_Monad.return ());
              sealed \<leftarrow> sealSecret env secret;
              _ \<leftarrow> savePending env i (Totp_setup (p\<lparr>ts_encrypted_secret := Some sealed,
                ts_secret_issued_at := Some t\<rparr>));
              State_Monad.return (Inr (toSetup p secret t))
            }
        })"

definition beginTotpSetup ::
  "('c, 'z) auth_env_scheme \<Rightarrow> string \<Rightarrow> bool \<Rightarrow> ('c, (totp_setup_view, mfa_flow_error) result) auth_m" where
  "beginTotpSetup env i renew = do {
     loaded \<leftarrow> loadPending env i;
     t \<leftarrow> reads now;
     case as_setup loaded of
       None \<Rightarrow> State_Monad.return (Inl Flow_expired)
     | Some p \<Rightarrow>
         (let current = Option.bind (ts_encrypted_secret p) (unsealSecret env) in
          case (current, ts_secret_issued_at p) of
            (Some secret, Some issued) \<Rightarrow>
              if issued + TOTP_SETUP_TTL_SECONDS > t \<and> \<not> renew
              then State_Monad.return (Inr (toSetup p secret issued))
              else renew_secret env i p current t
          | _ \<Rightarrow> renew_secret env i p current t)
   }"

definition completeTotpSetup ::
  "('c, 'z) auth_env_scheme \<Rightarrow> string \<Rightarrow> string \<Rightarrow> request_environment \<Rightarrow>
   ('c, (mfa_completed, mfa_flow_error) result) auth_m" where
  "completeTotpSetup env i code e = do {
     loaded \<leftarrow> loadPending env i;
     t \<leftarrow> reads now;
     case as_setup loaded of
       None \<Rightarrow> State_Monad.return (Inl Flow_expired)
     | Some p \<Rightarrow>
         if (case ts_secret_issued_at p of None \<Rightarrow> True | Some x \<Rightarrow> x + TOTP_SETUP_TTL_SECONDS \<le> t)
         then State_Monad.return (Inl Flow_setup_expired)
         else (case unsealCognitoTokens env (ts_encrypted_tokens p) of
           None \<Rightarrow> State_Monad.return (Inl Flow_expired)
         | Some tokens \<Rightarrow> do {
             verified \<leftarrow> on_cognito (cg_verify env (ck_access tokens) code);
             case verified of
               Inl Code_mismatch \<Rightarrow> do {
                 _ \<leftarrow> recordAudit env (in_environment e (audit_of Mfa_challenge_failed
                   [(''method'', JStr ''totp''), (''phase'', JStr ''setup'')]));
                 State_Monad.return (Inl Flow_code_mismatch)
               }
             | Inl err \<Rightarrow> do {
                 _ \<leftarrow> deletePending env i;
                 State_Monad.return (Inl (mfa_error err))
               }
             | Inr _ \<Rightarrow> do {
                 enabled \<leftarrow> on_cognito (cg_enable env (ck_access tokens));
                 _ \<leftarrow> deletePending env i;
                 case enabled of
                   Inl err \<Rightarrow> State_Monad.return (Inl (mfa_error err))
                 | Inr _ \<Rightarrow> do {
                     finished \<leftarrow> finish_with env
                       \<lparr>ca_sub = ts_sub p, ca_email = ts_email p, ca_name = ts_name p,
                        ca_tokens = tokens\<rparr> e (ts_rid p);
                     case finished of
                       Inl err \<Rightarrow> State_Monad.return (Inl err)
                     | Inr m \<Rightarrow> do {
                         _ \<leftarrow> recordAudit env (in_environment e
                           ((audit_of Mfa_enrolled [(''method'', JStr ''totp'')])
                              \<lparr>na_user := Some (user_id (ls_user (mc_login m))),
                               na_session := Some (ss_sid (ls_session (mc_login m)))\<rparr>));
                         State_Monad.return (Inr m)
                       }
                   }
               }
           })
   }"

section \<open>Sessions are created by the completion of MFA only\<close>

definition session_view ::
  "'c auth_state \<Rightarrow> sso_session kv \<times> string kv \<times> session_db" where
  "session_view s = (sso_sessions s, sid_index s, sessions s)"

lemma keeps_cognito: "(\<And>f s. obs (cognito_update f s) = obs s) \<Longrightarrow> keeps obs (on_cognito g)"
  by (simp add: keeps_def run_on_cognito)

lemma session_view_frame:
  "session_view (draws_update f s) = session_view s"
  "session_view (cognito_update g s) = session_view s"
  "session_view (ulid_draws_update f s) = session_view s"
  "session_view (audit_log_update h s) = session_view s"
  "session_view (mfa_store_update k s) = session_view s"
  "session_view (identity_update l s) = session_view s"
  by (simp_all add: session_view_def)

lemma keeps_pending:
  "keeps session_view (loadPending env i)" "keeps session_view (savePending env i p)"
  "keeps session_view (updatePending env i p)" "keeps session_view (deletePending env i)"
  "keeps session_view (storePending env p)"
  by (auto simp: loadPending_def savePending_def updatePending_def deletePending_def storePending_def
      random_token_def session_view_frame intro!: keeps_now_store keeps_bind keeps_random)

lemma keeps_session_basic:
  "keeps session_view (recordAudit env a)" "keeps session_view (on_cognito g)"
  "keeps session_view (seal env p)" "keeps session_view (sealCognitoTokens env t)"
  "keeps session_view (sealSecret env p)"
  by (auto simp: session_view_frame sealCognitoTokens_def sealSecret_def
      intro!: keeps_audit keeps_cognito keeps_seal)

lemma keeps_login: "keeps session_view (login env cr e rid)"
  unfolding login_def
  by (auto intro!: keeps_bind keeps_pending keeps_session_basic
      split: sum.split cognito_outcome.split)

lemma keeps_begin: "keeps session_view (beginTotpSetup env i renew)"
proof -
  have "keeps session_view (renew_secret env i p c t)" for p c t
    unfolding renew_secret_def
    by (auto intro!: keeps_bind keeps_pending keeps_session_basic split: option.split sum.split)
  then show ?thesis
    unfolding beginTotpSetup_def Let_def
    by (auto intro!: keeps_bind keeps_pending split: option.split)
qed

lemma keeps_resolve: "keeps session_view (resolveUser env sub email name)"
  unfolding resolveUser_def
  by (auto intro!: keeps_bind split: option.split)
     (auto simp: keeps_def case_prod_beta session_view_frame run_ulid Let_def)

lemmas session_runs = keeps_run [OF keeps_resolve] keeps_session_basic [THEN keeps_run]
  keeps_pending [THEN keeps_run]

text \<open>
  A correct password never creates a session: the login step, and starting or renewing the
  registration of an authenticator, leave the SSO sessions, the sid index and the session records
  exactly as they were, whatever Cognito answers.
\<close>

theorem password_alone_gives_no_session:
  "session_view (snd (run_state (login env cr e rid) s)) = session_view s \<and>
   session_view (snd (run_state (beginTotpSetup env i renew) s)) = session_view s"
  using keeps_run [OF keeps_login] keeps_run [OF keeps_begin] by blast

text \<open>The pending state that is live under an id.\<close>

definition pending_value :: "('c, 'z) auth_env_scheme \<Rightarrow> 'c auth_state \<Rightarrow> string \<Rightarrow> mfa_pending option" where
  "pending_value env s i = kv_value (now s) (mfa_store s) (keyOf env i)"

lemma load_pending_run:
  "fst (run_state (loadPending env i) s) = pending_value env s i"
  "pending_value env (snd (run_state (loadPending env i) s)) = pending_value env s"
  "cognito (snd (run_state (loadPending env i) s)) = cognito s"
  "now (snd (run_state (loadPending env i) s)) = now s"
  "identity (snd (run_state (loadPending env i) s)) = identity s"
  by (simp_all add: loadPending_def run_on_store pending_value_def fun_eq_iff)

lemma delete_pending_run:
  "pending_value env (snd (run_state (deletePending env i) s)) i = None"
  "identity (snd (run_state (deletePending env i) s)) = identity s"
  "cognito (snd (run_state (deletePending env i) s)) = cognito s"
  by (simp_all add: deletePending_def run_on_store pending_value_def)

lemma finish_refused:
  assumes "user_status (fst (run_state (resolveUser env (ca_sub a) (ca_email a) (ca_name a)) s)) \<noteq> Active"
  shows "fst (run_state (finishLogin env a e m) s) = None \<and>
    session_view (snd (run_state (finishLogin env a e m) s)) = session_view s"
  using assms by (simp add: finishLogin_def case_prod_beta session_runs)

lemma finish_accepted:
  "(\<exists>l. fst (run_state (finishLogin env a e m) s) = Some l) \<longleftrightarrow>
    user_status (fst (run_state (resolveUser env (ca_sub a) (ca_email a) (ca_name a)) s)) = Active"
  "fst (run_state (finishLogin env a e m) s) = Some l \<Longrightarrow>
    user_status (ls_user l) = Active \<and>
    ls_user l = fst (run_state (resolveUser env (ca_sub a) (ca_email a) (ca_name a)) s)"
  by (auto simp: finishLogin_def case_prod_beta split: if_splits)

lemma challenge_run:
  "case run_state (completeTotpChallenge env i code e) s of
     (Inr done, s') \<Rightarrow>
       \<exists>p a. pending_value env s i = Some (Totp_challenge p) \<and>
         fst (cg_respond env (tc_username p) (tc_cognito_session p) code (cognito s)) = Inr a \<and>
         mc_rid done = tc_rid p \<and> user_status (ls_user (mc_login done)) = Active
   | (Inl err, s') \<Rightarrow> session_view s' = session_view s"
proof (cases "as_challenge (pending_value env s i)")
  case None
  then show ?thesis
    by (simp add: completeTotpChallenge_def case_prod_beta load_pending_run session_runs)
next
  case (Some p)
  then have pend: "pending_value env s i = Some (Totp_challenge p)"
    by (auto simp: as_challenge_def split: option.splits mfa_pending.splits)
  let ?s1 = "snd (run_state (loadPending env i) s)"
  let ?r = "cg_respond env (tc_username p) (tc_cognito_session p) code (cognito s)"
  show ?thesis
  proof (cases "fst ?r")
    case (Inl err)
    then show ?thesis
      by (cases err) (simp_all add: completeTotpChallenge_def case_prod_beta load_pending_run Some
          run_on_cognito session_runs session_view_frame Let_def)
  next
    case (Inr a)
    let ?s2 = "snd (run_state (deletePending env i) (?s1\<lparr>cognito := snd ?r\<rparr>))"
    have run: "run_state (completeTotpChallenge env i code e) s =
        run_state (finish_with env a e (tc_rid p)) ?s2"
      by (simp add: completeTotpChallenge_def case_prod_beta load_pending_run Some run_on_cognito Inr)
    have view: "session_view ?s2 = session_view s"
      by (simp add: session_runs session_view_frame)
    show ?thesis
    proof (cases "fst (run_state (finishLogin env a e Totp) ?s2)")
      case None
      then have "user_status (fst (run_state (resolveUser env (ca_sub a) (ca_email a) (ca_name a)) ?s2))
          \<noteq> Active"
        using finish_accepted(1) [of env a e Totp ?s2] by (simp only: option.simps) simp
      from finish_refused [OF this, of e Totp] view
      have "session_view (snd (run_state (finishLogin env a e Totp) ?s2)) = session_view s"
        by (simp only:)
      then show ?thesis using None by (simp add: run finish_with_def case_prod_beta)
    next
      case (Some l)
      have "user_status (ls_user l) = Active"
        using finish_accepted(2) [OF Some] by (rule conjunct1)
      then show ?thesis using pend Inr Some by (simp add: run finish_with_def case_prod_beta)
    qed
  qed
qed

text \<open>
  C15: A challenge yields a session only when a challenge is pending under the presented id and
  Cognito accepted the code for it; in every other case the request is refused and no session
  exists that did not exist before.
\<close>

theorem challenge_needs_accepted_code:
  "case run_state (completeTotpChallenge env i code e) s of
     (Inr done, s') \<Rightarrow>
       \<exists>p a. pending_value env s i = Some (Totp_challenge p) \<and>
         fst (cg_respond env (tc_username p) (tc_cognito_session p) code (cognito s)) = Inr a \<and>
         mc_rid done = tc_rid p \<and> user_status (ls_user (mc_login done)) = Active
   | (Inl err, s') \<Rightarrow> session_view s' = session_view s"
  by (rule challenge_run)

section \<open>The bound on guesses\<close>

definition pending_view :: "'c auth_state \<Rightarrow> seconds \<times> mfa_pending kv" where
  "pending_view s = (now s, mfa_store s)"

lemma pending_view_frame:
  "pending_view (draws_update f s) = pending_view s"
  "pending_view (ulid_draws_update f s) = pending_view s"
  "pending_view (audit_log_update h s) = pending_view s"
  "pending_view (identity_update l s) = pending_view s"
  "pending_view (cognito_update g s) = pending_view s"
  "pending_view (sso_sessions_update a s) = pending_view s"
  "pending_view (sid_index_update b s) = pending_view s"
  "pending_view (sessions_update c s) = pending_view s"
  by (simp_all add: pending_view_def)

lemma keeps_pending_view:
  "keeps pending_view (recordAudit env a)" "keeps pending_view (on_cognito g)"
  "keeps pending_view (sealCognitoTokens env t)" "keeps pending_view (random_token env)"
  "keeps pending_view (resolveUser env sub email name)"
  by (auto simp: pending_view_frame sealCognitoTokens_def random_token_def resolveUser_def
      intro!: keeps_audit keeps_cognito keeps_seal keeps_random keeps_bind split: option.split)
     (auto simp: keeps_def case_prod_beta pending_view_frame run_ulid Let_def)

lemma keeps_pending_create: "keeps pending_view (createSsoSession env u a e)"
  unfolding createSsoSession_def Let_def
  by (auto intro!: keeps_bind keeps_pending_view keeps_now_store keeps_modifies
      simp: pending_view_frame)

lemma keeps_pending_finish: "keeps pending_view (finish_with env a e rid)"
  unfolding finish_with_def finishLogin_def
  by (auto intro!: keeps_bind keeps_pending_view keeps_pending_create keeps_modifies
      simp: pending_view_frame)

lemma pending_value_cong: "pending_view s' = pending_view s \<Longrightarrow> pending_value env s' = pending_value env s"
  by (simp add: pending_view_def pending_value_def fun_eq_iff)

lemma delete_after: "pending_value env (snd (run_state (deletePending env i) s)) i = None"
  by (simp add: deletePending_def run_on_store pending_value_def)

lemma update_after:
  "pending_value env s i = Some q \<Longrightarrow>
     pending_value env (snd (run_state (updatePending env i p) s)) i = Some p"
  by (simp add: updatePending_def run_on_store pending_value_def)

lemmas pending_runs = keeps_pending_view [THEN keeps_run, THEN pending_value_cong]
  keeps_run [OF keeps_pending_finish, THEN pending_value_cong]

lemma as_challenge_simps [simp]:
  "as_challenge None = None" "as_challenge (Some (Totp_challenge p)) = Some p"
  "as_challenge (Some (Totp_setup q)) = None"
  by (simp_all add: as_challenge_def)

text \<open>A pending state after an attempt: gone, not a challenge, or the challenge with one more failure.\<close>

lemma attempt_step:
  assumes s'_def: "s' = snd (run_state (completeTotpChallenge env i code e) s)"
  shows "case pending_value env s i of
      Some (Totp_challenge p) \<Rightarrow> pending_value env s' i = None \<or>
        Suc (tc_attempts p) < MFA_MAX_ATTEMPTS \<and>
        pending_value env s' i = Some (Totp_challenge (p\<lparr>tc_attempts := Suc (tc_attempts p)\<rparr>))
    | _ \<Rightarrow> pending_value env s' i = pending_value env s i"
proof (cases "as_challenge (pending_value env s i)")
  case None
  then show ?thesis
    by (auto simp: s'_def completeTotpChallenge_def case_prod_beta load_pending_run as_challenge_def
        split: option.splits mfa_pending.splits)
next
  case (Some p)
  then have pend: "pending_value env s i = Some (Totp_challenge p)"
    by (auto simp: as_challenge_def split: option.splits mfa_pending.splits)
  let ?r = "fst (cg_respond env (tc_username p) (tc_cognito_session p) code (cognito s))"
  show ?thesis
  proof (cases ?r)
    case (Inl err)
    then show ?thesis
      using pend
      by (cases err) (simp_all add: s'_def completeTotpChallenge_def case_prod_beta load_pending_run
          Some run_on_cognito delete_after update_after pending_runs Let_def
          pending_value_cong [OF pending_view_frame(5)] not_le)
  next
    case (Inr a)
    then show ?thesis
      using pend by (simp add: s'_def completeTotpChallenge_def case_prod_beta load_pending_run Some
          run_on_cognito delete_after pending_runs)
  qed
qed

text \<open>
  Attempts at one pending id, each after the clock has moved on by some seconds; the count is of the
  codes that reach Cognito.
\<close>

fun guesses ::
  "('c, 'z) auth_env_scheme \<Rightarrow> string \<Rightarrow> request_environment \<Rightarrow> (nat \<times> string) list \<Rightarrow>
   'c auth_state \<Rightarrow> nat" where
  "guesses env i e [] s = 0"
| "guesses env i e ((dt, code) # steps) s =
     (let s0 = s\<lparr>now := now s + int dt\<rparr>
      in (if as_challenge (pending_value env s0 i) = None then 0 else 1) +
         guesses env i e steps (snd (run_state (completeTotpChallenge env i code e) s0)))"

definition guesses_left :: "mfa_pending option \<Rightarrow> nat" where
  "guesses_left p = (case as_challenge p of None \<Rightarrow> 0 | Some c \<Rightarrow> max 1 (MFA_MAX_ATTEMPTS - tc_attempts c))"

lemma guesses_left_step:
  "(if as_challenge (pending_value env s i) = None then 0 else 1) +
     guesses_left (pending_value env (snd (run_state (completeTotpChallenge env i code e) s)) i)
   \<le> guesses_left (pending_value env s i)"
  using attempt_step [OF refl, where env = env and s = s and i = i and code = code and e = e]
  by (auto simp: guesses_left_def as_challenge_def split: option.splits mfa_pending.splits)

lemma guesses_left_ages:
  "guesses_left (pending_value env (s\<lparr>now := now s + int dt\<rparr>) i) \<le> guesses_left (pending_value env s i)"
  using kv_value_ages [of "now s" "now s + int dt" "mfa_store s" "keyOf env i"]
  by (auto simp: pending_value_def guesses_left_def as_challenge_def)

lemma guesses_bound: "guesses env i e steps s \<le> guesses_left (pending_value env s i)"
proof (induction steps arbitrary: s)
  case (Cons step steps)
  obtain dt code where step: "step = (dt, code)" by fastforce
  let ?s0 = "s\<lparr>now := now s + int dt\<rparr>"
  show ?case
    using Cons.IH [of "snd (run_state (completeTotpChallenge env i code e) ?s0)"]
      guesses_left_step [of env ?s0 i code e] guesses_left_ages [of env s dt i]
    by (simp add: step Let_def)
qed simp

text \<open>
  C16: Of any sequence of codes tried one after another against one pending login, at any times, at
  most five reach Cognito: the counter of failures survives between attempts and deletes the login
  at the fifth.
\<close>

theorem at_most_five_guesses: "guesses env i e steps s \<le> MFA_MAX_ATTEMPTS"
proof -
  have "guesses_left p \<le> MFA_MAX_ATTEMPTS" for p
    by (auto simp: guesses_left_def MFA_MAX_ATTEMPTS_def split: option.split)
  then show ?thesis using guesses_bound le_trans by blast
qed

section \<open>Which account a login ends in\<close>

lemma find_user_in: "findUserById db i = Some u \<Longrightarrow> u \<in> set (id_users db) \<and> user_id u = i"
  unfolding findUserById_def by (rule find_Some_iff')


lemma find_own_id_list:
  "distinct (map user_id us) \<Longrightarrow> u \<in> set us \<Longrightarrow> List.find (\<lambda>v. user_id v = user_id u) us = Some u"
  by (induction us) (auto simp: image_iff)

text \<open>The account that the completion of a login resolves to.\<close>

lemma resolve_cases:
  assumes "users_distinct (identity s)" and r_def: "r = run_state (resolveUser env sub email name) s"
  shows "(\<exists>u. findUserByCognitoSub (identity s) sub = Some u \<and> r = (u, s)) \<or>
    (\<exists>u x. findUserByCognitoSub (identity s) sub = None \<and> findUserByEmail (identity s) email = Some u \<and>
       cognito_sub u = Some x \<and> r = (u\<lparr>user_status := Disabled\<rparr>, s)) \<or>
    (\<exists>u. findUserByCognitoSub (identity s) sub = None \<and> findUserByEmail (identity s) email = Some u \<and>
       cognito_sub u = None \<and> fst r = u\<lparr>cognito_sub := Some sub\<rparr> \<and>
       identity (snd r) = (identity s)\<lparr>id_users := put_user (u\<lparr>cognito_sub := Some sub\<rparr>) (id_users (identity s))\<rparr>) \<or>
    (\<exists>u. findUserByCognitoSub (identity s) sub = None \<and> findUserByEmail (identity s) email = None \<and>
       user_id u = ulids env (ulid_draws s) \<and> cognito_sub u = Some sub \<and> fst r = u \<and>
       identity (snd r) = (identity s)\<lparr>id_users := put_user u (id_users (identity s))\<rparr>)"
proof (cases "findUserByCognitoSub (identity s) sub")
  case (Some u)
  then show ?thesis by (simp add: r_def resolveUser_def)
next
  case None
  note bysub = None
  show ?thesis
  proof (cases "findUserByEmail (identity s) email")
    case None
    then show ?thesis
      by (simp add: r_def resolveUser_def bysub run_ulid case_prod_beta Let_def createUser_def)
  next
    case (Some u)
    have "u \<in> set (id_users (identity s))"
      using Some find_Some_iff' by (fastforce simp: findUserByEmail_def)
    then have "findUserById (identity s) (user_id u) = Some u"
      using assms(1) find_own_id_list by (simp add: users_distinct_def findUserById_def)
    then show ?thesis
      using Some bysub
      by (cases "cognito_sub u")
         (simp_all add: r_def resolveUser_def linkCognitoSub_def case_prod_beta Let_def)
  qed
qed

text \<open>
  A login never takes over an account: every account that is already bound to a Cognito user
  keeps its row, and the account a login is accepted for is bound to exactly the Cognito user that
  authenticated.
\<close>

theorem login_never_relinks:
  assumes "users_distinct (identity s)"
    and "ulids env (ulid_draws s) \<notin> user_id ` set (id_users (identity s))"
    and "run_state (resolveUser env sub email name) s = (u, s')"
  shows "(user_status u = Active \<longrightarrow> cognito_sub u = Some sub \<and>
      findUserById (identity s') (user_id u) = Some u) \<and>
    (\<forall>v. v \<in> set (id_users (identity s)) \<and> cognito_sub v \<noteq> None \<longrightarrow>
      findUserById (identity s') (user_id v) = Some v) \<and>
    users_distinct (identity s')"
proof -
  have own: "findUserById (identity s) (user_id v) = Some v" if "v \<in> set (id_users (identity s))" for v
    using assms(1) that find_own_id_list by (simp add: users_distinct_def findUserById_def)
  have dist: "users_distinct ((identity s)\<lparr>id_users := put_user w (id_users (identity s))\<rparr>)" for w
    using assms(1) put_user_distinct by (simp add: users_distinct_def)
  have email_in: "w \<in> set (id_users (identity s))" if "findUserByEmail (identity s) email = Some w" for w
    using that find_Some_iff' by (fastforce simp: findUserByEmail_def)
  have sub_in: "w \<in> set (id_users (identity s)) \<and> cognito_sub w = Some sub"
    if "findUserByCognitoSub (identity s) sub = Some w" for w
    using that find_Some_iff' by (fastforce simp: findUserByCognitoSub_def)
  from resolve_cases [OF assms(1) refl, where env = env and sub = sub and email = email and name = name] consider
      (sub) "findUserByCognitoSub (identity s) sub = Some u" "s' = s"
    | (taken) w where "findUserByEmail (identity s) email = Some w" "u = w\<lparr>user_status := Disabled\<rparr>" "s' = s"
    | (link) w where "findUserByEmail (identity s) email = Some w" "cognito_sub w = None"
        "u = w\<lparr>cognito_sub := Some sub\<rparr>"
        "identity s' = (identity s)\<lparr>id_users := put_user u (id_users (identity s))\<rparr>"
    | (create) "user_id u = ulids env (ulid_draws s)" "cognito_sub u = Some sub"
        "identity s' = (identity s)\<lparr>id_users := put_user u (id_users (identity s))\<rparr>"
    using assms(3) by auto
  then show ?thesis
  proof cases
    case sub
    then show ?thesis using sub_in own assms(1) by auto
  next
    case taken
    then show ?thesis using own assms(1) by auto
  next
    case link
    have "user_id v \<noteq> user_id u" if "v \<in> set (id_users (identity s))" "cognito_sub v \<noteq> None" for v
      using link(2,3) own [OF email_in [OF link(1)]] own [OF that(1)] that(2) by auto
    then show ?thesis using link own dist by (auto simp: findUserById_put)
  next
    case create
    have "user_id v \<noteq> user_id u" if "v \<in> set (id_users (identity s))" for v
      using create(1) assms(2) that by force
    then show ?thesis using create own dist by (auto simp: findUserById_put)
  qed
qed

theorem login_never_relinks_witness:
  "\<exists>u s'. run_state (resolveUser fx_env ''sub9'' ''A@ACME.jp'' None) fx_state = (u, s') \<and>
     user_status u = Disabled \<and> findUserById (identity s') ''u1'' = Some fx_user"
proof -
  have hyp: "users_distinct (identity fx_state)"
    "ulids fx_env (ulid_draws fx_state) \<notin> user_id ` set (id_users (identity fx_state))"
    by (simp_all add: fx_defs users_distinct_def digits.simps)
  obtain u s' where r: "run_state (resolveUser fx_env ''sub9'' ''A@ACME.jp'' None) fx_state = (u, s')"
    by fastforce
  have "fst (run_state (resolveUser fx_env ''sub9'' ''A@ACME.jp'' None) fx_state) =
      fx_user\<lparr>user_status := Disabled\<rparr>"
    by code_simp
  then have "user_status u = Disabled" using r by simp
  moreover have "fx_user \<in> set (id_users (identity fx_state))" "cognito_sub fx_user \<noteq> None"
    "user_id fx_user = ''u1''"
    by (simp_all add: fx_defs)
  ultimately show ?thesis using login_never_relinks [OF hyp r] r by metis
qed

end
