(* ===== verification/Logout.thy ===== *)
theory Logout
  imports Tokens
begin

text \<open>
  Ending access: global-logout.ts (revocation of a session by its sid, back-channel notification of
  the services it entered, revocation of one service's access) and service-members.ts (the
  administration of a service's members) of apps/auth-api/src/application/usecases.
  \<open>notified\<close> in the state is the log of the logout tokens posted, as (uri, sid) pairs.
\<close>

section \<open>global-logout.ts\<close>

record backchannel_result =
  bc_client :: string
  bc_ok :: bool

definition logout_token_options ::
  "('c, 'z) auth_env_scheme \<Rightarrow> seconds \<Rightarrow> string \<Rightarrow> string \<Rightarrow> string \<Rightarrow> sign_options" where
  "logout_token_options env t jti cid sid =
     \<lparr>so_issuer = issuer env, so_audience = [cid], so_subject = sid, so_issued_at = t,
      so_expires_at = t + LOGOUT_TOKEN_TTL_SECONDS,
      so_claims = [(''jti'', JStr jti), (''sid'', JStr sid),
        (''events'', JObj [(''http://schemas.openid.net/event/backchannel-logout'', JObj [])])]\<rparr>"

definition issueLogoutToken ::
  "('c, 'z) auth_env_scheme \<Rightarrow> string \<Rightarrow> string \<Rightarrow> ('c, string) auth_m" where
  "issueLogoutToken env cid sid = do {
     t \<leftarrow> reads now;
     jti \<leftarrow> randomToken_n env 16;
     State_Monad.return (signJwt (rs256 env) (signing_kid env) (logout_token_options env t jti cid sid))
   }"

definition notifyClient ::
  "('c, 'z) auth_env_scheme \<Rightarrow> oidc_client \<Rightarrow> string \<Rightarrow> ('c, backchannel_result) auth_m" where
  "notifyClient env client sid =
     (case oc_backchannel_uri client of
        None \<Rightarrow> State_Monad.return \<lparr>bc_client = oc_client_id client, bc_ok = False\<rparr>
      | Some uri \<Rightarrow>
          if oc_status client \<noteq> Active
          then State_Monad.return \<lparr>bc_client = oc_client_id client, bc_ok = False\<rparr>
          else do {
            token \<leftarrow> issueLogoutToken env (oc_client_id client) sid;
            _ \<leftarrow> modifies (\<lambda>s. s\<lparr>notified := notified s @ [(uri, sid)]\<rparr>);
            State_Monad.return \<lparr>bc_client = oc_client_id client,
              bc_ok = (case notify env uri token of None \<Rightarrow> False | Some accepted \<Rightarrow> accepted)\<rparr>
          })"

definition notifyClientById ::
  "('c, 'z) auth_env_scheme \<Rightarrow> string \<Rightarrow> string \<Rightarrow> ('c, backchannel_result) auth_m" where
  "notifyClientById env sid oid = do {
     db \<leftarrow> reads identity;
     case findClientById db oid of
       None \<Rightarrow> State_Monad.return \<lparr>bc_client = oid, bc_ok = False\<rparr>
     | Some client \<Rightarrow> notifyClient env client sid
   }"

definition revokeCognitoTokens :: "('c, 'z) auth_env_scheme \<Rightarrow> sso_session \<Rightarrow> ('c, unit) auth_m" where
  "revokeCognitoTokens env session =
     (case unsealCognitoTokens env (ss_sealed_tokens session) of
        None \<Rightarrow> State_Monad.return ()
      | Some tokens \<Rightarrow> State (\<lambda>s.
          let (_, c) = cg_revoke env (ck_refresh tokens) (cognito s) in ((), s\<lparr>cognito := c\<rparr>)))"

text \<open>\<open>[...new Set(xs)]\<close> keeps the first occurrence of each element.\<close>

fun js_unique :: "string list \<Rightarrow> string list" where
  "js_unique [] = []"
| "js_unique (x # xs) = x # filter (\<lambda>y. y \<noteq> x) (js_unique xs)"

definition revoke_live_session :: "('c, 'z) auth_env_scheme \<Rightarrow> string \<Rightarrow> sso_session \<Rightarrow> ('c, unit) auth_m" where
  "revoke_live_session env sid session = do {
     families \<leftarrow> listRefreshFamilies sid;
     _ \<leftarrow> mapM_unit (\<lambda>r. revokeRefreshTokenFamily (fr_family r)) families;
     _ \<leftarrow> revokeCognitoTokens env session;
     _ \<leftarrow> destroySsoSession session;
     sid_family_store (delete_set sid)
   }"

definition revoke_audit ::
  "string \<Rightarrow> revoke_reason \<Rightarrow> request_environment option \<Rightarrow> sso_session option \<Rightarrow>
   session_with_clients option \<Rightarrow> backchannel_result list \<Rightarrow> new_audit" where
  "revoke_audit sid reason e session recorded notes =
     (audit_of (if reason = Global_logout then Audit_global_logout else Session_revoked)
        [(''reason'', JStr (if reason = Global_logout then ''global_logout'' else ''user_revoked'')),
         (''notified'', JArr (map (\<lambda>n. JStr (bc_client n)) (filter bc_ok notes))),
         (''failed'', JArr (map (\<lambda>n. JStr (bc_client n)) (filter (\<lambda>n. \<not> bc_ok n) notes)))])
       \<lparr>na_user := (case session of Some x \<Rightarrow> Some (ss_user x)
           | None \<Rightarrow> map_option (\<lambda>r. as_user (fst r)) recorded),
        na_session := Some sid, na_ip := map_option env_ip e,
        na_user_agent := map_option env_user_agent e\<rparr>"

definition revokeSessionBySid ::
  "('c, 'z) auth_env_scheme \<Rightarrow> string \<Rightarrow> revoke_reason \<Rightarrow> request_environment option \<Rightarrow>
   ('c, unit) auth_m" where
  "revokeSessionBySid env sid reason e = do {
     session \<leftarrow> findSsoSessionBySid sid;
     recorded \<leftarrow> reads (\<lambda>s. sd_find_with_clients sid (sessions s));
     _ \<leftarrow> (case session of None \<Rightarrow> State_Monad.return () | Some x \<Rightarrow> revoke_live_session env sid x);
     let clients = js_unique (case recorded of None \<Rightarrow> [] | Some r \<Rightarrow> map sc_client (snd r));
     notes \<leftarrow> gather (notifyClientById env sid) clients;
     _ \<leftarrow> modifies (\<lambda>s. s\<lparr>sessions := sd_mark_revoked sid reason (now s) (sessions s)\<rparr>);
     recordAudit env (revoke_audit sid reason e session recorded notes)
   }"

definition globalLogout ::
  "('c, 'z) auth_env_scheme \<Rightarrow> sso_session \<Rightarrow> request_environment \<Rightarrow> ('c, unit) auth_m" where
  "globalLogout env session e = revokeSessionBySid env (ss_sid session) Global_logout (Some e)"

definition entered :: "oidc_client \<Rightarrow> string \<Rightarrow> session_with_clients \<Rightarrow> bool" where
  "entered client tid r = list_ex (\<lambda>c. sc_client c = oc_id client \<and> sc_tenant c = tid) (snd r)"

definition revoke_in_session ::
  "('c, 'z) auth_env_scheme \<Rightarrow> oidc_client \<Rightarrow> string \<Rightarrow> session_with_clients \<Rightarrow> ('c, unit) auth_m" where
  "revoke_in_session env client tid r = do {
     families \<leftarrow> listRefreshFamilies (as_id (fst r));
     _ \<leftarrow> mapM_unit (\<lambda>x. revokeRefreshTokenFamily (fr_family x))
       (filter (\<lambda>x. fr_client x = oc_client_id client \<and> fr_tenant x = tid) families);
     _ \<leftarrow> notifyClient env client (as_id (fst r));
     State_Monad.return ()
   }"

definition revokeClientAccess ::
  "('c, 'z) auth_env_scheme \<Rightarrow> string \<Rightarrow> oidc_client \<Rightarrow> string \<Rightarrow> ('c, string list) auth_m" where
  "revokeClientAccess env uid client tid = do {
     records \<leftarrow> reads (\<lambda>s. sd_list_active (now s) uid (sessions s));
     let affected = filter (entered client tid) records;
     _ \<leftarrow> mapM_unit (revoke_in_session env client tid) affected;
     State_Monad.return (map (\<lambda>r. as_id (fst r)) affected)
   }"

section \<open>service-members.ts\<close>

datatype service_member_error = Member_tenant_not_found | Member_not_contracted | Member_user_not_found

definition resolveContractedTenant ::
  "identity_db \<Rightarrow> oidc_client \<Rightarrow> string \<Rightarrow> (string, service_member_error) result" where
  "resolveContractedTenant db client tid =
     (case findTenantById db tid of
        None \<Rightarrow> Inl Member_tenant_not_found
      | Some t \<Rightarrow>
          if findContract db (tenant_id t) (oc_id client) \<noteq> Some In_force
          then Inl Member_not_contracted else Inr (tenant_id t))"

definition find_or_create :: "('c, 'z) auth_env_scheme \<Rightarrow> string \<Rightarrow> string option \<Rightarrow> ('c, user) auth_m" where
  "find_or_create env email name = do {
     db \<leftarrow> reads identity;
     case findUserByEmail db email of
       Some u \<Rightarrow> State_Monad.return u
     | None \<Rightarrow> do {
         i \<leftarrow> ulid env;
         State (\<lambda>s.
           let (u, db2) = createUser \<lparr>nu_id = i, nu_cognito_sub = None, nu_email = email,
                            nu_name = name\<rparr> (identity s)
           in (u, s\<lparr>identity := db2\<rparr>))
       }
   }"

definition inviteServiceMember ::
  "('c, 'z) auth_env_scheme \<Rightarrow> oidc_client \<Rightarrow> string \<Rightarrow> string \<Rightarrow> string option \<Rightarrow>
   ('c, (user, service_member_error) result) auth_m" where
  "inviteServiceMember env client tid email name = do {
     db \<leftarrow> reads identity;
     case resolveContractedTenant db client tid of
       Inl err \<Rightarrow> State_Monad.return (Inl err)
     | Inr t \<Rightarrow> do {
         u \<leftarrow> find_or_create env email name;
         _ \<leftarrow> modifies (identity_update (upsertServiceMembership t (oc_id client) (user_id u)));
         _ \<leftarrow> recordAudit env
           ((audit_of Service_member_invited [(''linked'', JBool (cognito_sub u \<noteq> None))])
              \<lparr>na_user := Some (user_id u), na_tenant := Some t, na_client := Some (oc_client_id client)\<rparr>);
         State_Monad.return (Inr u)
       }
   }"

definition revokeServiceMember ::
  "('c, 'z) auth_env_scheme \<Rightarrow> oidc_client \<Rightarrow> string \<Rightarrow> string \<Rightarrow>
   ('c, (unit, service_member_error) result) auth_m" where
  "revokeServiceMember env client tid uid = do {
     db \<leftarrow> reads identity;
     case resolveContractedTenant db client tid of
       Inl err \<Rightarrow> State_Monad.return (Inl err)
     | Inr t \<Rightarrow>
         (case findUserById db uid of
            None \<Rightarrow> State_Monad.return (Inl Member_user_not_found)
          | Some u \<Rightarrow> do {
              _ \<leftarrow> modifies (identity_update (removeServiceMembership t (oc_id client) (user_id u)));
              revoked \<leftarrow> revokeClientAccess env (user_id u) client t;
              _ \<leftarrow> recordAudit env
                ((audit_of Service_member_revoked [(''revokedSessions'', JArr (map JStr revoked))])
                   \<lparr>na_user := Some (user_id u), na_tenant := Some t,
                    na_client := Some (oc_client_id client)\<rparr>);
              State_Monad.return (Inr ())
            })
   }"

definition listServiceMembersOf ::
  "identity_db \<Rightarrow> oidc_client \<Rightarrow> string \<Rightarrow> ((user \<times> active_status) list, service_member_error) result" where
  "listServiceMembersOf db client tid =
     (case resolveContractedTenant db client tid of
        Inl err \<Rightarrow> Inl err
      | Inr t \<Rightarrow> Inr (listServiceMembers db t (oc_id client)))"

section \<open>What notification and revocation leave alone\<close>

definition beyond_notify :: "'c auth_state \<Rightarrow> 'c auth_state" where
  "beyond_notify s = s\<lparr>draws := 0, notified := []\<rparr>"

lemma keeps_notify: "keeps beyond_notify (notifyClient env client sid)"
  unfolding notifyClient_def issueLogoutToken_def
  by (auto intro!: keeps_bind keeps_modifies keeps_random simp: beyond_notify_def split: option.split)

lemma keeps_notify_id: "keeps beyond_notify (notifyClientById env sid oid)"
  unfolding notifyClientById_def
  by (auto intro!: keeps_bind keeps_notify split: option.split)

text \<open>The notices a client is due: its logout uri, when it is active and has one.\<close>

definition notice_of :: "identity_db \<Rightarrow> string \<Rightarrow> string \<Rightarrow> (string \<times> string) list" where
  "notice_of db sid oid =
     (case findClientById db oid of
        Some c \<Rightarrow> (case oc_backchannel_uri c of Some uri \<Rightarrow>
            if oc_status c = Active then [(uri, sid)] else [] | None \<Rightarrow> [])
      | None \<Rightarrow> [])"

lemma notify_log:
  "notified (snd (run_state (notifyClientById env sid oid) s)) = notified s @ notice_of (identity s) sid oid"
  by (simp add: notifyClientById_def notifyClient_def issueLogoutToken_def notice_of_def run_simps
      case_prod_beta split: option.split)

lemma beyond_notify_fields:
  assumes "beyond_notify s' = beyond_notify s"
  shows "now s' = now s" "identity s' = identity s" "sso_sessions s' = sso_sessions s"
    "sid_index s' = sid_index s" "refresh_tokens s' = refresh_tokens s"
    "refresh_families s' = refresh_families s" "sid_families s' = sid_families s"
    "sessions s' = sessions s"
  using arg_cong [OF assms, of now] arg_cong [OF assms, of identity]
    arg_cong [OF assms, of sso_sessions] arg_cong [OF assms, of sid_index]
    arg_cong [OF assms, of refresh_tokens] arg_cong [OF assms, of refresh_families]
    arg_cong [OF assms, of sid_families] arg_cong [OF assms, of sessions]
  by (simp_all add: beyond_notify_def)

lemma gather_notices:
  "notified (snd (run_state (gather (notifyClientById env sid) oids) s)) =
     notified s @ concat (map (notice_of (identity s) sid) oids)"
proof (induction oids arbitrary: s)
  case (Cons oid oids)
  show ?case
    by (simp add: Cons.IH case_prod_beta notify_log
        beyond_notify_fields(2) [OF keeps_run [OF keeps_notify_id]])
qed simp

text \<open>Revoking a list of families: none of them keeps a usable token, and no token becomes usable.\<close>

definition revoke_all :: "string list \<Rightarrow> ('c, unit) auth_m" where
  "revoke_all fs = mapM_unit revokeRefreshTokenFamily fs"

lemma revoke_all_refs:
  "mapM_unit (\<lambda>r. revokeRefreshTokenFamily (fr_family r)) rs = revoke_all (map fr_family rs)"
  by (induction rs) (simp_all add: revoke_all_def)

lemma keeps_revoke_all: "keeps (\<lambda>s. (beyond_rt s, family_keys s)) (revoke_all fs)"
  unfolding revoke_all_def by (intro keeps_mapM keeps_revoke)

lemma revoke_all_frame:
  "beyond_rt (snd (run_state (revoke_all fs) s)) = beyond_rt s"
  "family_keys (snd (run_state (revoke_all fs) s)) = family_keys s"
  using keeps_run [OF keeps_revoke_all, of fs s] by simp_all

lemma mark_revoked_twice [simp]: "mark_revoked (mark_revoked t) = mark_revoked t"
  by (simp add: mark_revoked_def)

lemma revoke_all_result:
  "rt_value (snd (run_state (revoke_all fs) s)) =
     (\<lambda>k. if \<exists>f\<in>set fs. k \<in> set (family_keys s f) then map_option mark_revoked (rt_value s k)
          else rt_value s k)"
proof (induction fs arbitrary: s)
  case Nil
  then show ?case by (simp add: revoke_all_def)
next
  case (Cons f fs)
  let ?s1 = "snd (run_state (revokeRefreshTokenFamily f) s)"
  have "snd (run_state (revoke_all (f # fs)) s) = snd (run_state (revoke_all fs) ?s1)"
    by (simp add: revoke_all_def case_prod_beta)
  then show ?case
    by (auto simp: Cons.IH revoke_frame revoke_result fun_eq_iff option.map_comp comp_def)
qed

lemma revoke_all_no_active:
  assumes "f \<in> set fs" shows "active_in (snd (run_state (revoke_all fs) s)) f = {}"
  using assms by (auto simp: active_in_def revoke_all_result revoke_all_frame mark_revoked_def
      split: if_splits)

definition family_refs :: "'c auth_state \<Rightarrow> string \<Rightarrow> refresh_family_ref list" where
  "family_refs s sid = List.map_filter decodeFamilyRef (ss_elems (now s) (sid_families s) sid)"

lemma list_families_run:
  "fst (run_state (listRefreshFamilies sid) s) = family_refs s sid"
  "snd (run_state (listRefreshFamilies sid) s) = s\<lparr>sid_families := snd (ss_members (now s) sid (sid_families s))\<rparr>"
  by (simp_all add: listRefreshFamilies_def run_on_store family_refs_def mem_set.mems_result)

text \<open>What a state offers to a holder of tokens and cookies.\<close>

definition same_access :: "'c auth_state \<Rightarrow> 'c auth_state \<Rightarrow> bool" where
  "same_access s' s = (rt_value s' = rt_value s \<and> family_keys s' = family_keys s \<and>
     sso_live s' = sso_live s \<and> sid_index s' = sid_index s)"

lemma notify_access: "beyond_notify s' = beyond_notify s \<Longrightarrow> same_access s' s"
  using beyond_notify_fields [of s' s] sso_live_cong [of s' s]
  by (simp add: same_access_def rt_value_def family_keys_def fun_eq_iff)

lemma audit_access: "same_access (snd (run_state (recordAudit env a) s)) s"
proof -
  let ?s = "snd (run_state (recordAudit env a) s)"
  have "now ?s = now s" "sso_sessions ?s = sso_sessions s" "sid_index ?s = sid_index s"
    by (simp_all add: recordAudit_def run_simps)
  then show ?thesis using sso_live_cong [of ?s s] by (simp add: same_access_def)
qed

lemma keeps_revoke_cognito:
  assumes "\<And>f s. obs (cognito_update f s) = obs s"
  shows "keeps obs (revokeCognitoTokens env session)"
  using assms unfolding revokeCognitoTokens_def
  by (auto simp: keeps_def case_prod_beta Let_def split: option.split)

lemma destroy_run:
  "snd (run_state (destroySsoSession x) s) =
     s\<lparr>sso_sessions := kv_delete (ss_id x) (sso_sessions s), sid_index := kv_delete (ss_sid x) (sid_index s)\<rparr>"
  by (simp add: destroySsoSession_def run_on_store)

lemma sso_live_delete:
  "sso_sessions s' = kv_delete k (sso_sessions s) \<Longrightarrow> now s' = now s \<Longrightarrow>
     sso_live s' = (sso_live s)(k := None)"
  by (auto simp: sso_live_def fun_eq_iff split: option.split)

lemma revoke_live_run:
  fixes s s' :: "'c auth_state"
  assumes "s' = snd (run_state (revoke_live_session env sid x) s)"
  shows "rt_value s' = rt_value (snd (run_state (revoke_all (map fr_family (family_refs s sid))) s))"
    and "family_keys s' = family_keys s" and "sso_live s' = (sso_live s)(ss_id x := None)"
    and "kv_value (now s') (sid_index s') = (kv_value (now s) (sid_index s))(ss_sid x := None)"
    and "now s' = now s" and "identity s' = identity s" and "notified s' = notified s"
    and "sessions s' = sessions s"
proof -
  let ?fs = "map fr_family (family_refs s sid)"
  let ?s1 = "snd (run_state (listRefreshFamilies sid) s)"
  let ?s2 = "snd (run_state (revoke_all ?fs) ?s1)"
  let ?s3 = "snd (run_state (revokeCognitoTokens env x) ?s2)"
  have run: "s' = ?s3\<lparr>sso_sessions := kv_delete (ss_id x) (sso_sessions ?s3),
      sid_index := kv_delete (ss_sid x) (sid_index ?s3),
      sid_families := ss_delete sid (sid_families ?s3)\<rparr>"
    by (simp add: assms revoke_live_session_def case_prod_beta list_families_run(1) revoke_all_refs
        destroy_run run_on_store)
  have s1: "rt_value ?s1 = rt_value s" "family_keys ?s1 = family_keys s"
    "beyond_rt (?s1\<lparr>sid_families := ss_empty\<rparr>) = beyond_rt (s\<lparr>sid_families := ss_empty\<rparr>)"
    by (simp_all add: list_families_run(2) rt_value_def family_keys_def beyond_rt_def fun_eq_iff)
  note s2 = beyond_rt_fields [OF revoke_all_frame(1), of ?fs ?s1]
  have s3: "f ?s3 = f ?s2" if "\<And>g s. f (cognito_update g s) = f s" for f :: "'c auth_state \<Rightarrow> 'o"
    using keeps_run [OF keeps_revoke_cognito, of f env x ?s2] that by blast
  have rt2: "rt_value ?s2 = rt_value (snd (run_state (revoke_all ?fs) s))"
    by (simp add: revoke_all_result s1 cong: if_cong)
  show "rt_value s' = rt_value (snd (run_state (revoke_all ?fs) s))"
    using rt2 s3 [of rt_value] by (simp add: run rt_value_def)
  show "family_keys s' = family_keys s"
  proof -
    have "family_keys ?s3 = family_keys ?s2" by (rule s3) (simp add: family_keys_def fun_eq_iff)
    then have "family_keys ?s3 = family_keys s" by (simp only: revoke_all_frame(2) s1(2))
    moreover have "family_keys s' = family_keys ?s3" by (simp add: run family_keys_def fun_eq_iff)
    ultimately show ?thesis by (simp only:)
  qed
  have fields: "now ?s3 = now s" "identity ?s3 = identity s" "notified ?s3 = notified s"
    "sessions ?s3 = sessions s" "sso_sessions ?s3 = sso_sessions s" "sid_index ?s3 = sid_index s"
    using s3 [of now] s3 [of identity] s3 [of notified] s3 [of sessions] s3 [of sso_sessions]
      s3 [of sid_index] s2
    by (simp_all add: list_families_run(2))
  then show "now s' = now s" "identity s' = identity s" "notified s' = notified s"
    "sessions s' = sessions s" "kv_value (now s') (sid_index s') = (kv_value (now s) (sid_index s))(ss_sid x := None)"
    by (simp_all add: run)
  show "sso_live s' = (sso_live s)(ss_id x := None)"
    using fields by (intro sso_live_delete) (simp_all add: run)
qed

lemma find_by_sid_run:
  "fst (run_state (findSsoSessionBySid sid) s) =
     Option.bind (kv_value (now s) (sid_index s) sid) (sso_live s)"
  "beyond_sso (snd (run_state (findSsoSessionBySid sid) s)) = beyond_sso s"
proof -
  let ?s1 = "s\<lparr>sid_index := snd (kv_get (now s) sid (sid_index s))\<rparr>"
  have "sso_live ?s1 = sso_live s" by (rule sso_live_cong) simp_all
  then show "fst (run_state (findSsoSessionBySid sid) s) =
     Option.bind (kv_value (now s) (sid_index s) sid) (sso_live s)"
    by (simp add: findSsoSessionBySid_def run_on_store case_prod_beta split: option.split)
  have "beyond_sso ?s1 = beyond_sso s" by (simp add: beyond_sso_def)
  then show "beyond_sso (snd (run_state (findSsoSessionBySid sid) s)) = beyond_sso s"
    by (simp add: findSsoSessionBySid_def run_on_store case_prod_beta load_frame split: option.split)
qed

lemma find_by_sid_found:
  assumes "Option.bind (kv_value (now s) (sid_index s) sid) (sso_live s) = Some x"
  shows "sso_live (snd (run_state (findSsoSessionBySid sid) s)) = sso_live s"
    "kv_value (now s) (sid_index (snd (run_state (findSsoSessionBySid sid) s))) = kv_value (now s) (sid_index s)"
proof -
  obtain k where k: "kv_value (now s) (sid_index s) sid = Some k" "sso_live s k = Some x"
    using assms by (auto simp: bind_eq_Some_conv)
  have raw: "kv_value (now s) (sso_sessions s) k = Some x" "\<not> isExpired expiry x (now s)"
    using k(2) by (auto simp: sso_live_def split: option.splits if_splits)
  then have run: "snd (run_state (findSsoSessionBySid sid) s) =
      s\<lparr>sid_index := snd (kv_get (now s) sid (sid_index s)),
        sso_sessions := snd (kv_get (now s) k (sso_sessions s))\<rparr>"
    by (simp add: findSsoSessionBySid_def loadSsoSessionByKey_def run_on_store case_prod_beta k(1))
  show "sso_live (snd (run_state (findSsoSessionBySid sid) s)) = sso_live s"
    unfolding run by (rule ext) (simp add: sso_live_def split: option.split)
  show "kv_value (now s) (sid_index (snd (run_state (findSsoSessionBySid sid) s))) = kv_value (now s) (sid_index s)"
    unfolding run by simp
qed

section \<open>The whole revocation\<close>

text \<open>\<open>revokeSessionBySid\<close> as the states it goes through.\<close>

lemma revoke_session_run:
  fixes s s' :: "'c auth_state"
  assumes "s' = snd (run_state (revokeSessionBySid env sid reason e) s)"
  defines "s1 \<equiv> snd (run_state (findSsoSessionBySid sid) s)"
  defines "s2 \<equiv> (case fst (run_state (findSsoSessionBySid sid) s) of None \<Rightarrow> s1
      | Some x \<Rightarrow> snd (run_state (revoke_live_session env sid x) s1))"
  shows "rt_value s' = rt_value s2" "family_keys s' = family_keys s2" "sso_live s' = sso_live s2"
    "sid_index s' = sid_index s2" "now s' = now s2"
    "notified s' = notified s2 @ concat (map (notice_of (identity s) sid)
      (js_unique (case sd_find_with_clients sid (sessions s) of None \<Rightarrow> [] | Some r \<Rightarrow> map sc_client (snd r))))"
    "sessions s' = sd_mark_revoked sid reason (now s) (sessions s)"
proof -
  let ?rec = "sd_find_with_clients sid (sessions s)"
  let ?ids = "js_unique (case ?rec of None \<Rightarrow> [] | Some r \<Rightarrow> map sc_client (snd r))"
  let ?s3 = "snd (run_state (gather (notifyClientById env sid) ?ids) s2)"
  let ?s4 = "?s3\<lparr>sessions := sd_mark_revoked sid reason (now ?s3) (sessions ?s3)\<rparr>"
  have s1: "sessions s1 = sessions s" "identity s1 = identity s" "now s1 = now s"
    using beyond_sso_fields [OF find_by_sid_run(2), of sid s] by (simp_all add: s1_def)
  have s2: "sessions s2 = sessions s" "identity s2 = identity s" "now s2 = now s"
    using s1 revoke_live_run(5,6,8) [OF refl, of env sid _ s1]
    by (simp_all add: s2_def split: option.split)
  have "\<exists>a. s' = snd (run_state (recordAudit env a) ?s4)"
    unfolding assms(1) revokeSessionBySid_def
    by (auto simp: case_prod_beta Let_def s1_def [symmetric] s1 s2_def split: option.split)
  then obtain a where s': "s' = snd (run_state (recordAudit env a) ?s4)" ..
  have fin: "same_access s' ?s4" "now s' = now ?s4" "sessions s' = sessions ?s4" "notified s' = notified ?s4"
    unfolding s' by (rule audit_access) (simp_all add: recordAudit_def run_simps)
  have b3: "beyond_notify ?s3 = beyond_notify s2"
    by (rule keeps_run) (intro keeps_gather keeps_notify_id)
  have acc: "same_access ?s3 s2" by (rule notify_access [OF b3])
  have s43: "rt_value ?s4 = rt_value ?s3" "family_keys ?s4 = family_keys ?s3"
    "sso_live ?s4 = sso_live ?s3" "sid_index ?s4 = sid_index ?s3"
    by (simp_all add: rt_value_def family_keys_def sso_live_def fun_eq_iff split: option.split)
  show "rt_value s' = rt_value s2" "family_keys s' = family_keys s2" "sso_live s' = sso_live s2"
    "sid_index s' = sid_index s2"
    using fin(1) acc s43 by (simp_all only: same_access_def)
  show "now s' = now s2" using fin(2) beyond_notify_fields(1) [OF b3] by simp
  show "notified s' = notified s2 @ concat (map (notice_of (identity s) sid) ?ids)"
    using fin(4) by (simp add: gather_notices s2)
  show "sessions s' = sd_mark_revoked sid reason (now s) (sessions s)"
    using fin(3) beyond_notify_fields(1,8) [OF b3] s2 by simp
qed

lemma live_later: "sso_live s k = None \<Longrightarrow> now s \<le> t \<Longrightarrow> sso_live (s\<lparr>now := t\<rparr>) k = None"
  using kv_value_ages [of "now s" t "sso_sessions s" k] isExpired_mono [of expiry _ "now s" t]
  by (fastforce simp: sso_live_def split: option.splits if_splits)

lemma refresh_dead_session:
  assumes "rt_value s (keyOf env v) = Some tok" "sso_live s (rt_session tok) = None"
  shows "\<not> is_ok (fst (run_state (refreshAccessToken env client v) s))"
proof (cases "rt_status tok = RT_active")
  case False
  then show ?thesis using refresh_inactive [OF assms(1), of client] by auto
next
  case True
  show ?thesis
  proof (cases "rt_client tok = oc_client_id client")
    case False
    then show ?thesis using refresh_mismatch [OF assms(1) True, of client] by auto
  next
    case cl: True
    have "fst (run_state (validateRefreshContext client tok) s) = Inl ''sso_session_expired''"
      by (simp add: context_run assms(2))
    then show ?thesis using refresh_consumed [OF assms(1) True cl] by simp
  qed
qed

lemma revoked_live:
  assumes "kv_value (now s) (sid_index s) sid = Some (ss_id x)" "sso_live s (ss_id x) = Some x"
    and "s' = snd (run_state (revokeSessionBySid env sid reason e) s)"
  shows "sso_live s' = (sso_live s)(ss_id x := None)"
    and "kv_value (now s') (sid_index s') = (kv_value (now s) (sid_index s))(ss_sid x := None)"
    and "rt_value s' = rt_value (snd (run_state (revoke_all (map fr_family (family_refs s sid))) s))"
    and "family_keys s' = family_keys s" and "now s' = now s"
proof -
  let ?s1 = "snd (run_state (findSsoSessionBySid sid) s)"
  have bind: "Option.bind (kv_value (now s) (sid_index s) sid) (sso_live s) = Some x"
    using assms(1,2) by simp
  note found = find_by_sid_found [OF bind]
  have fst: "fst (run_state (findSsoSessionBySid sid) s) = Some x"
    using find_by_sid_run(1) [of sid s] bind by simp
  have eq1: "rt_value ?s1 = rt_value s" "family_keys ?s1 = family_keys s" "family_refs ?s1 sid = family_refs s sid"
    "now ?s1 = now s"
    using beyond_sso_fields [OF find_by_sid_run(2), of sid s]
    by (simp_all add: rt_value_def family_keys_def family_refs_def fun_eq_iff)
  note whole = revoke_session_run [OF assms(3), unfolded fst option.case]
  note live = revoke_live_run [OF refl, of env sid x ?s1]
  show "sso_live s' = (sso_live s)(ss_id x := None)" using whole(3) live(3) found(1) by simp
  show "kv_value (now s') (sid_index s') = (kv_value (now s) (sid_index s))(ss_sid x := None)"
    using whole(4,5) live(4,5) found(2) eq1(4) by simp
  show "rt_value s' = rt_value (snd (run_state (revoke_all (map fr_family (family_refs s sid))) s))"
    using whole(1) live(1) eq1 by (simp add: revoke_all_result cong: if_cong)
  show "family_keys s' = family_keys s" using whole(2) live(2) eq1 by simp
  show "now s' = now s" using whole(5) live(5) eq1 by simp
qed

text \<open>
  Revoking a live session by its sid removes exactly that SSO session and its sid, leaves no usable
  refresh token in any family recorded for the sid, and changes no token outside those families.
\<close>

theorem session_revocation_is_complete:
  assumes "kv_value (now s) (sid_index s) sid = Some (ss_id x)" "sso_live s (ss_id x) = Some x"
    and "ss_sid x = sid" and "s' = snd (run_state (revokeSessionBySid env sid reason e) s)"
  shows "sso_live s' = (sso_live s)(ss_id x := None) \<and>
    kv_value (now s') (sid_index s') = (kv_value (now s) (sid_index s))(sid := None) \<and>
    (\<forall>f \<in> fr_family ` set (family_refs s sid). active_in s' f = {}) \<and>
    (\<forall>k. (\<forall>f \<in> fr_family ` set (family_refs s sid). k \<notin> set (family_keys s f)) \<longrightarrow>
      rt_value s' k = rt_value s k)"
proof -
  note r = revoked_live [OF assms(1,2,4)]
  let ?fs = "map fr_family (family_refs s sid)"
  have "active_in s' f = active_in (snd (run_state (revoke_all ?fs) s)) f" for f
    using r(3,4) by (simp add: active_in_def revoke_all_frame)
  then have "\<forall>f \<in> fr_family ` set (family_refs s sid). active_in s' f = {}"
    using revoke_all_no_active [of _ ?fs s] by simp
  moreover have "rt_value s' k = rt_value s k"
    if "\<forall>f \<in> fr_family ` set (family_refs s sid). k \<notin> set (family_keys s f)" for k
    using that r(3) by (simp add: revoke_all_result)
  ultimately show ?thesis using r(1,2) assms(3) by simp
qed

text \<open>
  C11: After a global logout, at every later time, no refresh token bound to the session is exchanged
  for new tokens, even one whose family had already left the session's record.
\<close>

theorem logout_kills_refresh:
  assumes "kv_value (now s) (sid_index s) (ss_sid x) = Some (ss_id x)" "sso_live s (ss_id x) = Some x"
    and "s' = snd (run_state (globalLogout env x e) s)" and "now s \<le> t"
    and "rt_value (s'\<lparr>now := t\<rparr>) (keyOf env v) = Some tok" "rt_session tok = ss_id x"
  shows "\<not> is_ok (fst (run_state (refreshAccessToken env client v) (s'\<lparr>now := t\<rparr>)))"
proof -
  note r = revoked_live [OF assms(1,2) assms(3) [unfolded globalLogout_def]]
  have "sso_live (s'\<lparr>now := t\<rparr>) (ss_id x) = None"
    using r(1,5) assms(4) by (intro live_later) simp_all
  then show ?thesis using refresh_dead_session [OF assms(5)] assms(6) by simp
qed

lemma js_unique_set [simp]: "set (js_unique xs) = set xs" and js_unique_distinct: "distinct (js_unique xs)"
  by (induction xs) auto

text \<open>
  A revocation posts one logout token per service the session entered, to the service's registered
  uri, whether or not the SSO session was still alive, and marks the record revoked.
\<close>

theorem logout_notifies_entered_services:
  "let s' = snd (run_state (revokeSessionBySid env sid reason e) s);
       ids = js_unique (map sc_client (filter (\<lambda>c. sc_session c = sid) (sd_clients (sessions s))))
   in notified s' = notified s @ (if find_session (sessions s) sid = None then []
          else concat (map (notice_of (identity s) sid) ids)) \<and> distinct ids \<and>
      sessions s' = sd_mark_revoked sid reason (now s) (sessions s)"
proof -
  let ?s1 = "snd (run_state (findSsoSessionBySid sid) s)"
  note whole = revoke_session_run [OF refl, of env sid reason e s]
  have "notified ?s1 = notified s" using beyond_sso_fields [OF find_by_sid_run(2), of sid s] by simp
  then have "notified (case fst (run_state (findSsoSessionBySid sid) s) of None \<Rightarrow> ?s1
      | Some x \<Rightarrow> snd (run_state (revoke_live_session env sid x) ?s1)) = notified s"
    using revoke_live_run(7) [OF refl, of env sid _ ?s1] by (simp split: option.split)
  moreover have "snd (with_clients (sessions s) y) = filter (\<lambda>c. sc_session c = sid) (sd_clients (sessions s))"
    if "find_session (sessions s) sid = Some y" for y
    using find_session_id [OF that] by (simp add: with_clients_def)
  ultimately show ?thesis
    using whole(6,7) js_unique_distinct
    by (auto simp: Let_def sd_find_with_clients_def)
qed

theorem session_revocation_is_complete_witness:
  "\<exists>s'. s' = snd (run_state (revokeSessionBySid fx_env ''s1'' User_revoked None) fx_token_state) \<and>
     sso_live s' ''k1'' = None"
proof -
  have "ss_id fx_session = ''k1''" "ss_sid fx_session = ''s1''" by (simp_all add: fx_session_def)
  moreover have "kv_value (now fx_token_state) (sid_index fx_token_state) ''s1'' = Some ''k1''"
    by code_simp
  ultimately show ?thesis
    using session_revocation_is_complete [where s = fx_token_state and sid = "''s1''"
        and x = fx_session and env = fx_env and reason = User_revoked and e = None, OF _ _ _ refl]
      fx_lookups(1) by auto
qed

theorem logout_kills_refresh_witness:
  "\<not> is_ok (fst (run_state (refreshAccessToken fx_env fx_client ''v'')
     ((snd (run_state (globalLogout fx_env fx_session \<lparr>env_ip = [], env_user_agent = []\<rparr>) fx_token_state))\<lparr>now := 1010\<rparr>)))"
proof -
  let ?s = "snd (run_state (globalLogout fx_env fx_session \<lparr>env_ip = [], env_user_agent = []\<rparr>) fx_token_state)"
  have id: "ss_id fx_session = ''k1''" "ss_sid fx_session = ''s1''" by (simp_all add: fx_session_def)
  have idx: "kv_value (now fx_token_state) (sid_index fx_token_state) (ss_sid fx_session) =
      Some (ss_id fx_session)" by code_simp
  have live: "sso_live fx_token_state (ss_id fx_session) = Some fx_session"
    using fx_lookups(1) by (simp add: id)
  note r = revoked_live [OF idx live refl, where env = fx_env and reason = Global_logout
      and e = "Some \<lparr>env_ip = [], env_user_agent = []\<rparr>"]
  have now: "now ?s = now fx_token_state" "now fx_token_state = 1010"
    using r(5) by (simp_all add: globalLogout_def) (simp add: fx_token_state_def fx_state_def)
  then have same: "?s\<lparr>now := 1010\<rparr> = ?s" by simp
  have "family_refs fx_token_state ''s1'' = []" by code_simp
  then have "rt_value ?s = rt_value fx_token_state"
    using r(3) by (simp add: globalLogout_def revoke_all_def id)
  then have "rt_value (?s\<lparr>now := 1010\<rparr>) (keyOf fx_env ''v'') = Some fx_token"
    by (simp only: same fx_token_value)
  moreover have "rt_session fx_token = ss_id fx_session" by (simp add: fx_token_def id)
  moreover have "now fx_token_state \<le> 1010" using now by simp
  ultimately show ?thesis using logout_kills_refresh [OF idx live refl] by blast
qed

section \<open>Revoking one service\<close>

text \<open>The families of a session that belong to one service and tenant.\<close>

definition service_families :: "'c auth_state \<Rightarrow> oidc_client \<Rightarrow> string \<Rightarrow> session_with_clients \<Rightarrow> string list" where
  "service_families s client tid r =
     map fr_family (filter (\<lambda>x. fr_client x = oc_client_id client \<and> fr_tenant x = tid)
       (family_refs s (as_id (fst r))))"

lemma family_refs_cong: "now s' = now s \<Longrightarrow> sid_families s' = sid_families s \<Longrightarrow> family_refs s' = family_refs s"
  by (simp add: family_refs_def fun_eq_iff)

lemma revoke_in_session_run:
  fixes s s' :: "'c auth_state"
  assumes "s' = snd (run_state (revoke_in_session env client tid r) s)"
  shows "rt_value s' = rt_value (snd (run_state (revoke_all (service_families s client tid r)) s))"
    and "family_keys s' = family_keys s" and "family_refs s' = family_refs s"
    and "sso_live s' = sso_live s" and "sessions s' = sessions s" and "identity s' = identity s"
    and "now s' = now s"
proof -
  let ?fs = "service_families s client tid r"
  let ?s1 = "s\<lparr>sid_families := snd (ss_members (now s) (as_id (fst r)) (sid_families s))\<rparr>"
  let ?s2 = "snd (run_state (revoke_all ?fs) ?s1)"
  have s': "s' = snd (run_state (notifyClient env client (as_id (fst r))) ?s2)"
    by (simp add: assms revoke_in_session_def case_prod_beta list_families_run revoke_all_refs
        service_families_def)
  have b3: "beyond_notify s' = beyond_notify ?s2"
    unfolding s' by (rule keeps_run [OF keeps_notify])
  have acc: "same_access s' ?s2" by (rule notify_access [OF b3])
  note s2 = beyond_rt_fields [OF revoke_all_frame(1), of ?fs ?s1]
  have rt1: "rt_value ?s1 = rt_value s" "family_keys ?s1 = family_keys s"
    by (simp_all add: rt_value_def family_keys_def fun_eq_iff)
  have refs1: "family_refs ?s1 = family_refs s"
    by (simp add: family_refs_def fun_eq_iff mem_set.mems_elems)
  show "rt_value s' = rt_value (snd (run_state (revoke_all ?fs) s))"
    using acc by (simp add: same_access_def revoke_all_result rt1 cong: if_cong)
  show "family_keys s' = family_keys s"
    using acc by (simp add: same_access_def revoke_all_frame rt1)
  show "now s' = now s" "identity s' = identity s" "sessions s' = sessions s"
    using beyond_notify_fields [OF b3] s2 by simp_all
  have "family_refs s' = family_refs ?s2"
    using beyond_notify_fields [OF b3] by (intro family_refs_cong) simp_all
  also have "\<dots> = family_refs ?s1" using s2 by (intro family_refs_cong) simp_all
  finally show "family_refs s' = family_refs s" by (simp only: refs1)
  have "sso_live ?s2 = sso_live s" using s2 by (intro sso_live_cong) simp_all
  then show "sso_live s' = sso_live s" using acc by (simp add: same_access_def)
qed

lemma revoke_sessions_run:
  fixes s :: "'c auth_state"
  shows "let s' = snd (run_state (mapM_unit (revoke_in_session env client tid) rs) s);
             fs = concat (map (service_families s client tid) rs)
    in rt_value s' = rt_value (snd (run_state (revoke_all fs) s)) \<and> family_keys s' = family_keys s \<and>
       sso_live s' = sso_live s \<and> sessions s' = sessions s \<and> identity s' = identity s"
proof (induction rs arbitrary: s)
  case Nil
  then show ?case by (simp add: revoke_all_def)
next
  case (Cons r rs)
  let ?s1 = "snd (run_state (revoke_in_session env client tid r) s)"
  note step = revoke_in_session_run [OF refl, of env client tid r s]
  have fams: "service_families ?s1 client tid = service_families s client tid"
    by (simp add: fun_eq_iff service_families_def step(3))
  have "rt_value (snd (run_state (revoke_all (concat (map (service_families s client tid) rs))) ?s1)) =
      rt_value (snd (run_state (revoke_all (concat (map (service_families s client tid) (r # rs)))) s))"
    by (auto simp: revoke_all_result step(1,2) fun_eq_iff option.map_comp comp_def)
  then show ?case
    using Cons.IH [of ?s1] by (simp add: case_prod_beta Let_def fams step)
qed

lemma revoke_access_run:
  "snd (run_state (revokeClientAccess env uid client tid) s) =
     snd (run_state (mapM_unit (revoke_in_session env client tid)
       (filter (entered client tid) (sd_list_active (now s) uid (sessions s)))) s)"
  by (simp add: revokeClientAccess_def case_prod_beta Let_def)

text \<open>
  C39: Removing a member of a service cuts that service only: the assignment is gone, no family that the
  user's active sessions hold for this service and tenant has a usable token, while every SSO session,
  every other assignment and every token outside those families is unchanged.
\<close>

theorem member_removal_is_scoped:
  fixes s :: "'c auth_state"
  assumes "run_state (revokeServiceMember env client tid uid) s = (Inr (), s')"
  defines "fs \<equiv> concat (map (service_families s client tid)
      (filter (entered client tid) (sd_list_active (now s) uid (sessions s))))"
  shows "findServiceMembership (identity s') t c u =
      (if t = tid \<and> c = oc_id client \<and> u = uid then None else findServiceMembership (identity s) t c u) \<and>
    sso_live s' = sso_live s \<and> sessions s' = sessions s \<and>
    (\<forall>f \<in> set fs. active_in s' f = {}) \<and>
    (\<forall>k. (\<forall>f \<in> set fs. k \<notin> set (family_keys s f)) \<longrightarrow> rt_value s' k = rt_value s k)"
proof -
  let ?s1 = "identity_update (removeServiceMembership tid (oc_id client) uid) s"
  let ?s2 = "snd (run_state (revokeClientAccess env uid client tid) ?s1)"
  obtain u0 where ctx: "resolveContractedTenant (identity s) client tid = Inr tid"
    "findUserById (identity s) uid = Some u0" "user_id u0 = uid"
  proof -
    obtain t' where t': "resolveContractedTenant (identity s) client tid = Inr t'"
      using assms(1) by (cases "resolveContractedTenant (identity s) client tid")
        (simp_all add: revokeServiceMember_def)
    then have "t' = tid"
      using find_Some_iff' [of _ "id_tenants (identity s)"]
      by (auto simp: resolveContractedTenant_def findTenantById_def split: option.splits if_splits)
    moreover obtain u0 where "findUserById (identity s) uid = Some u0"
      using assms(1) t' by (cases "findUserById (identity s) uid")
        (simp_all add: revokeServiceMember_def)
    moreover from this have "user_id u0 = uid"
      unfolding findUserById_def by (drule_tac find_Some_iff') simp
    ultimately show thesis using that t' by blast
  qed
  obtain a where s': "s' = snd (run_state (recordAudit env a) ?s2)"
    using assms(1) by (auto simp: revokeServiceMember_def ctx case_prod_beta)
  have acc: "same_access s' ?s2" "identity s' = identity ?s2" "sessions s' = sessions ?s2"
    unfolding s' by (rule audit_access) (simp_all add: recordAudit_def run_simps)
  have fams: "service_families ?s1 = service_families s"
    by (simp add: fun_eq_iff service_families_def family_refs_def)
  have eq1: "rt_value ?s1 = rt_value s" "family_keys ?s1 = family_keys s" "sso_live ?s1 = sso_live s"
    by (simp_all add: rt_value_def family_keys_def fun_eq_iff sso_live_def split: option.split)
  have run: "rt_value ?s2 = rt_value (snd (run_state (revoke_all fs) s))" "family_keys ?s2 = family_keys s"
    "sso_live ?s2 = sso_live s" "sessions ?s2 = sessions s" "identity ?s2 = identity ?s1"
    using revoke_sessions_run [of env client tid "filter (entered client tid)
        (sd_list_active (now s) uid (sessions s))" ?s1]
    by (simp_all add: revoke_access_run Let_def fams fs_def revoke_all_result eq1 cong: if_cong)
  have active: "active_in s' f = active_in (snd (run_state (revoke_all fs) s)) f" for f
    using acc(1) run(1,2) by (simp add: active_in_def same_access_def revoke_all_frame)
  have "\<forall>f \<in> set fs. active_in s' f = {}" by (simp add: active revoke_all_no_active)
  moreover have "rt_value s' k = rt_value s k" if "\<forall>f \<in> set fs. k \<notin> set (family_keys s f)" for k
    using that acc(1) run(1) by (simp add: same_access_def revoke_all_result)
  ultimately show ?thesis
    using acc run by (simp add: same_access_def mem_assign.lookup_unassign)
qed

lemma fx_remove_ok:
  "fst (run_state (revokeServiceMember fx_env fx_client ''t1'' ''u1'') fx_token_state) = Inr ()"
proof -
  have "resolveContractedTenant (identity fx_token_state) fx_client ''t1'' = Inr ''t1''" by code_simp
  then show ?thesis by (simp add: revokeServiceMember_def fx_lookups case_prod_beta)
qed

theorem member_removal_is_scoped_witness:
  "\<exists>s'. run_state (revokeServiceMember fx_env fx_client ''t1'' ''u1'') fx_token_state = (Inr (), s') \<and>
     findServiceMembership (identity s') ''t1'' (oc_id fx_client) ''u1'' = None \<and>
     sso_live s' ''k1'' = Some fx_session"
proof -
  obtain s' where r: "run_state (revokeServiceMember fx_env fx_client ''t1'' ''u1'') fx_token_state = (Inr (), s')"
    using fx_remove_ok by (cases "run_state (revokeServiceMember fx_env fx_client ''t1'' ''u1'') fx_token_state") auto
  show ?thesis
    using r member_removal_is_scoped [OF r, of "''t1''" "oc_id fx_client" "''u1''"] fx_lookups(1) by auto
qed

end
