(* ===== verification/MockCognito.thy ===== *)
theory MockCognito
  imports Login
begin

text \<open>
  apps/auth-api/src/infrastructure/mock-cognito.ts: the adapter of the Cognito port used in local
  verification, and its contract. The locale \<open>second_factor\<close> states what the login flow relies on
  of the port: an enrolled account is never authenticated by its password alone, and a challenge is
  answered once. It is interpreted on the mock, and \<open>mock_env\<close> plugs the mock into the
  environment of the use cases.
\<close>

record mock_user =
  mu_username :: string
  mu_password :: string
  mu_sub :: string
  mu_email :: string
  mu_name :: "string option"
  mu_totp_secret :: "string option"

record mock_session =
  ms_username :: string
  ms_expires_at :: seconds

record mock_state =
  mk_now :: seconds
  mk_enrolled :: "string \<rightharpoonup> string"
  mk_pending :: "string \<rightharpoonup> string"
  mk_verified :: "string \<rightharpoonup> string"
  mk_access :: "string \<rightharpoonup> string"
  mk_sessions :: "string \<rightharpoonup> mock_session"
  mk_draws :: nat

record mock_config =
  mf_users :: "mock_user list"
  mf_hmac :: "bytes \<Rightarrow> bytes \<Rightarrow> bytes"
  mf_random :: "nat \<Rightarrow> nat \<Rightarrow> bytes"

definition MOCK_TOKEN_LIFETIME_SECONDS :: seconds where "MOCK_TOKEN_LIFETIME_SECONDS = 60 * 60"
definition MOCK_SESSION_LIFETIME_SECONDS :: seconds where "MOCK_SESSION_LIFETIME_SECONDS = 3 * 60"

text \<open>The constructor: the configured secrets are enrolled, later entries of a name win.\<close>

definition mock_init :: "mock_config \<Rightarrow> seconds \<Rightarrow> mock_state" where
  "mock_init cfg t =
     \<lparr>mk_now = t,
      mk_enrolled = map_of (rev (List.map_filter (\<lambda>u. map_option (Pair (mu_username u)) (mu_totp_secret u))
        (mf_users cfg))),
      mk_pending = Map.empty, mk_verified = Map.empty, mk_access = Map.empty,
      mk_sessions = Map.empty, mk_draws = 0\<rparr>"

definition mock_random :: "mock_config \<Rightarrow> nat \<Rightarrow> mock_state \<Rightarrow> string \<times> mock_state" where
  "mock_random cfg n m = (randomToken (mf_random cfg (mk_draws m) n), m\<lparr>mk_draws := mk_draws m + 1\<rparr>)"

definition find_mock_user :: "mock_config \<Rightarrow> string \<Rightarrow> mock_user option" where
  "find_mock_user cfg name = List.find (\<lambda>u. mu_username u = name) (mf_users cfg)"

definition mock_issue :: "mock_config \<Rightarrow> mock_user \<Rightarrow> mock_state \<Rightarrow> cognito_authenticated \<times> mock_state" where
  "mock_issue cfg u m =
     (let (a, m1) = mock_random cfg 8 m;
          access = ''mock-access-'' @ a;
          m2 = m1\<lparr>mk_access := (mk_access m1)(access \<mapsto> mu_username u)\<rparr>;
          (i, m3) = mock_random cfg 8 m2;
          (r, m4) = mock_random cfg 8 m3
      in (\<lparr>ca_sub = mu_sub u, ca_email = mu_email u, ca_name = mu_name u,
           ca_tokens = \<lparr>ck_access = access, ck_id = ''mock-id-'' @ i, ck_refresh = ''mock-refresh-'' @ r,
             ck_expires_at = mk_now m + MOCK_TOKEN_LIFETIME_SECONDS\<rparr>\<rparr>, m4))"

definition mock_authenticate ::
  "mock_config \<Rightarrow> credentials \<Rightarrow> mock_state \<Rightarrow> (cognito_outcome, cognito_auth_error) result \<times> mock_state" where
  "mock_authenticate cfg cr m =
     (case find_mock_user cfg (cr_username cr) of
        None \<Rightarrow> (let (_, m1) = mock_random cfg TOKEN_BYTES m in (Inl Invalid_credentials, m1))
      | Some u \<Rightarrow>
          if \<not> timingSafeEqualString (cr_password cr) (mu_password u) then (Inl Invalid_credentials, m)
          else if mk_enrolled m (mu_username u) \<noteq> None then
            (let (session, m1) = mock_random cfg TOKEN_BYTES m
             in (Inr (Totp_required session (mu_username u)),
                 m1\<lparr>mk_sessions := (mk_sessions m1)(session \<mapsto>
                   \<lparr>ms_username = mu_username u,
                    ms_expires_at = mk_now m1 + MOCK_SESSION_LIFETIME_SECONDS\<rparr>)\<rparr>))
          else (let (a, m1) = mock_issue cfg u m in (Inr (Authenticated a), m1)))"

text \<open>
  The configuration schema only admits secrets of the base32 alphabet, which decode; a secret that
  does not is answered as a mismatch.
\<close>

definition mock_code_ok :: "mock_config \<Rightarrow> string \<Rightarrow> string \<Rightarrow> mock_state \<Rightarrow> bool" where
  "mock_code_ok cfg secret code m =
     (verifyTotp (mf_hmac cfg) secret code (nat (mk_now m)) = Some True)"

definition mock_respond ::
  "mock_config \<Rightarrow> string \<Rightarrow> string \<Rightarrow> string \<Rightarrow> mock_state \<Rightarrow>
   (cognito_authenticated, cognito_mfa_error) result \<times> mock_state" where
  "mock_respond cfg username session code m =
     (case mk_sessions m session of
        None \<Rightarrow> (Inl Session_expired, m)
      | Some se \<Rightarrow>
          if ms_username se \<noteq> username \<or> ms_expires_at se < mk_now m then (Inl Session_expired, m)
          else (case (mk_enrolled m username, find_mock_user cfg username) of
                  (Some secret, Some u) \<Rightarrow>
                    if \<not> mock_code_ok cfg secret code m then (Inl Code_mismatch, m)
                    else (let (a, m1) = mock_issue cfg u (m\<lparr>mk_sessions := (mk_sessions m)(session := None)\<rparr>)
                          in (Inr a, m1))
                | _ \<Rightarrow> (Inl Session_expired, m)))"

definition mock_associate :: "mock_config \<Rightarrow> string \<Rightarrow> mock_state \<Rightarrow> (string, cognito_mfa_error) result \<times> mock_state" where
  "mock_associate cfg access m =
     (case mk_access m access of
        None \<Rightarrow> (Inl Session_expired, m)
      | Some name \<Rightarrow>
          (let secret = generateTotpSecret (mf_random cfg (mk_draws m) 20)
           in (Inr secret, m\<lparr>mk_draws := mk_draws m + 1, mk_pending := (mk_pending m)(name \<mapsto> secret)\<rparr>)))"

definition mock_verify ::
  "mock_config \<Rightarrow> string \<Rightarrow> string \<Rightarrow> mock_state \<Rightarrow> (unit, cognito_mfa_error) result \<times> mock_state" where
  "mock_verify cfg access code m =
     (case mk_access m access of
        None \<Rightarrow> (Inl Session_expired, m)
      | Some name \<Rightarrow>
          (case mk_pending m name of
             None \<Rightarrow> (Inl Session_expired, m)
           | Some secret \<Rightarrow>
               if \<not> mock_code_ok cfg secret code m then (Inl Code_mismatch, m)
               else (Inr (), m\<lparr>mk_verified := (mk_verified m)(name \<mapsto> secret)\<rparr>)))"

definition mock_enable :: "mock_config \<Rightarrow> string \<Rightarrow> mock_state \<Rightarrow> (unit, cognito_mfa_error) result \<times> mock_state" where
  "mock_enable cfg access m =
     (case mk_access m access of
        None \<Rightarrow> (Inl Session_expired, m)
      | Some name \<Rightarrow>
          (case mk_verified m name of
             None \<Rightarrow> (Inl Session_expired, m)
           | Some secret \<Rightarrow>
               (Inr (), m\<lparr>mk_enrolled := (mk_enrolled m)(name \<mapsto> secret),
                          mk_pending := (mk_pending m)(name := None),
                          mk_verified := (mk_verified m)(name := None)\<rparr>)))"

definition mock_revoke :: "string \<Rightarrow> mock_state \<Rightarrow> bool \<times> mock_state" where
  "mock_revoke token m = (True, m)"

section \<open>The contract of the port\<close>

locale second_factor =
  fixes enrolled :: "'m \<Rightarrow> string \<Rightarrow> bool"
    and open_challenge :: "'m \<Rightarrow> string \<Rightarrow> string \<Rightarrow> bool"
    and authenticate :: "credentials \<Rightarrow> 'm \<Rightarrow> (cognito_outcome, cognito_auth_error) result \<times> 'm"
    and respond :: "string \<Rightarrow> string \<Rightarrow> string \<Rightarrow> 'm \<Rightarrow> (cognito_authenticated, cognito_mfa_error) result \<times> 'm"
  assumes password_alone: "enrolled m (cr_username cr) \<Longrightarrow>
      fst (authenticate cr m) \<noteq> Inr (Authenticated a)"
    and stays_enrolled: "enrolled m n \<Longrightarrow> enrolled (snd (authenticate cr m)) n \<and>
      enrolled (snd (respond u se c m)) n"
    and respond_open: "fst (respond u se c m) = Inr a \<Longrightarrow>
      open_challenge m u se \<and> \<not> open_challenge (snd (respond u se c m)) u se"
begin

text \<open>A challenge that was answered is closed: no second answer to it succeeds.\<close>

lemma answered_once:
  "fst (respond u se c m) = Inr a \<Longrightarrow> fst (respond u se c' (snd (respond u se c m))) \<noteq> Inr b"
  using respond_open by blast

text \<open>However many passwords are tried, an enrolled account only ever gets a challenge.\<close>

lemma never_bypassed:
  "enrolled m (cr_username cr) \<Longrightarrow>
     fst (authenticate cr (fold (\<lambda>x m. snd (authenticate x m)) tries m)) \<noteq> Inr (Authenticated a)"
proof (induction tries arbitrary: m)
  case (Cons x tries)
  then show ?case using stays_enrolled [of m "cr_username cr" x] by simp
qed (simp add: password_alone)

end

definition mock_enrolled :: "mock_state \<Rightarrow> string \<Rightarrow> bool" where
  "mock_enrolled m n = (mk_enrolled m n \<noteq> None)"

definition mock_open :: "mock_state \<Rightarrow> string \<Rightarrow> string \<Rightarrow> bool" where
  "mock_open m u se = (case mk_sessions m se of None \<Rightarrow> False | Some x \<Rightarrow> ms_username x = u)"

lemma find_mock_name: "find_mock_user cfg n = Some u \<Longrightarrow> mu_username u = n"
  unfolding find_mock_user_def by (drule find_Some_iff') simp

lemma mock_issue_frame:
  "mk_enrolled (snd (mock_issue cfg u m)) = mk_enrolled m"
  "mk_sessions (snd (mock_issue cfg u m)) = mk_sessions m"
  by (simp_all add: mock_issue_def mock_random_def Let_def)

interpretation mock: second_factor mock_enrolled mock_open "mock_authenticate cfg" "mock_respond cfg" for cfg
proof
  fix cfg :: mock_config and m :: mock_state and cr :: credentials and a
  assume "mock_enrolled m (cr_username cr)"
  then show "fst (mock_authenticate cfg cr m) \<noteq> Inr (Authenticated a)"
    using find_mock_name by (auto simp: mock_authenticate_def mock_enrolled_def mock_random_def
        split: option.splits)
next
  fix cfg :: mock_config and m :: mock_state and n :: string and cr :: credentials and u se c
  assume "mock_enrolled m n"
  then show "mock_enrolled (snd (mock_authenticate cfg cr m)) n \<and>
      mock_enrolled (snd (mock_respond cfg u se c m)) n"
    by (auto simp: mock_authenticate_def mock_respond_def mock_enrolled_def mock_random_def
        case_prod_beta mock_issue_frame split: option.splits)
next
  fix cfg :: mock_config and u se c :: string and m :: mock_state and a
  assume "fst (mock_respond cfg u se c m) = Inr a"
  then show "mock_open m u se \<and> \<not> mock_open (snd (mock_respond cfg u se c m)) u se"
    by (auto simp: mock_respond_def mock_open_def case_prod_beta mock_issue_frame
        split: option.splits if_splits)
qed

text \<open>The mock as the Cognito adapter of the use cases.\<close>

definition mock_env :: "mock_config \<Rightarrow> mock_state auth_env \<Rightarrow> mock_state auth_env" where
  "mock_env cfg env =
     env\<lparr>cg_authenticate := mock_authenticate cfg, cg_respond := mock_respond cfg,
         cg_associate := mock_associate cfg, cg_verify := mock_verify cfg,
         cg_enable := mock_enable cfg, cg_revoke := mock_revoke\<rparr>"

text \<open>
  With the mock adapter a challenge is answered once: a pending login that was completed with a code
  cannot be completed again by replaying the challenge, whatever the code.
\<close>

theorem mock_challenge_answered_once:
  assumes "fst (mock_respond cfg u session code m) = Inr a"
  shows "\<not> is_ok (fst (mock_respond cfg u session code2 (snd (mock_respond cfg u session code m))))"
  using mock.answered_once [OF assms, of code2] by (auto simp: is_ok_iff)

text \<open>The fixture: one enrolled account with an open challenge; the HMAC is empty, so that every code is 000000.\<close>

definition fx_mock_user :: mock_user where
  "fx_mock_user = \<lparr>mu_username = ''ann'', mu_password = ''pw'', mu_sub = ''s1'', mu_email = ''a@x.jp'', mu_name = None,
     mu_totp_secret = Some ''AEBA''\<rparr>"

definition fx_mock :: mock_config where
  "fx_mock = \<lparr>mf_users = [fx_mock_user], mf_hmac = (\<lambda>k m. []), mf_random = (\<lambda>i n. replicate n 0)\<rparr>"

definition fx_mock_state :: mock_state where
  "fx_mock_state = (mock_init fx_mock 60)\<lparr>mk_sessions := [''se'' \<mapsto> \<lparr>ms_username = ''ann'', ms_expires_at = 100\<rparr>]\<rparr>"

lemma fx_mock_code: "verifyTotp (\<lambda>k m. []) ''AEBA'' ''000000'' 60 = Some True"
proof -
  have dec: "base32Decode ''AEBA'' = Some [1, 2]" by code_simp
  have zero: "digits 0 = ''0''" by (subst digits.simps) code_simp
  have pad: "pad_start TOTP_DIGITS ''0'' = ''000000''" by code_simp
  have gen: "generateTotp (\<lambda>k m. []) ''AEBA'' t = Some ''000000''" for t
    by (simp add: generateTotp_def dec Let_def byte_at_def zero pad)
  have "six_digits ''000000''" by code_simp
  then show ?thesis by (simp add: verifyTotp_def gen)
qed

lemma fx_mock_responds:
  "fst (mock_respond fx_mock ''ann'' ''se'' ''000000'' fx_mock_state) =
     Inr (fst (mock_issue fx_mock fx_mock_user (fx_mock_state\<lparr>mk_sessions := Map.empty\<rparr>)))"
  by (simp add: mock_respond_def fx_mock_state_def mock_init_def fx_mock_def fx_mock_user_def map_filter_def
      find_mock_user_def mock_code_ok_def fx_mock_code case_prod_beta)

theorem mock_challenge_answered_once_witness:
  "\<not> is_ok (fst (mock_respond fx_mock ''ann'' ''se'' ''000000''
     (snd (mock_respond fx_mock ''ann'' ''se'' ''000000'' fx_mock_state))))"
  by (rule mock_challenge_answered_once [OF fx_mock_responds])

end
