(* ===== verification/OidcClient.thy ===== *)
theory OidcClient
  imports Jwks
begin

text \<open>
  packages/oidc-client/src: types.ts, session.ts, provider.ts and api-client.ts, the OIDC client of a
  service's backend-for-frontend. The state holds the tenant sessions and their index by sid, the
  pre-authentication states, the refresh locks and the provider's caches; \<open>net\<close> is the state of
  the network, and \<open>http\<close> of the environment what it answers to a request (\<open>None\<close> when
  \<open>fetch\<close> throws). \<open>sleep\<close> is what the other requests and the clock do while this one waits.
\<close>

section \<open>types.ts\<close>

record service_config =
  sv_client_id :: string
  sv_secret :: string
  sv_scopes :: "string list"
  sv_api_base_url :: string
  sv_name :: string

record client_config = service_config +
  cl_tenant_slug :: string
  cl_redirect_uri :: string

record tenant_session = expiring_session +
  tn_id :: string
  tn_tenant_slug :: string
  tn_user :: string
  tn_tenant :: string
  tn_sid :: string
  tn_email :: "string option"
  tn_name :: "string option"
  tn_access_token :: string
  tn_access_expires_at :: seconds
  tn_refresh_token :: string
  tn_csrf :: string

record pre_auth_state =
  pa_state :: string
  pa_nonce :: string
  pa_code_verifier :: string
  pa_return_to :: string

definition SESSION_IDLE_SECONDS :: seconds where "SESSION_IDLE_SECONDS = 30 * 60"
definition SESSION_ABSOLUTE_SECONDS :: seconds where "SESSION_ABSOLUTE_SECONDS = 12 * 60 * 60"
definition PRE_AUTH_TTL_SECONDS :: seconds where "PRE_AUTH_TTL_SECONDS = 30 * 60"
definition ACCESS_TOKEN_REFRESH_MARGIN_SECONDS :: seconds where "ACCESS_TOKEN_REFRESH_MARGIN_SECONDS = 60"
definition REFRESH_LOCK_TTL_SECONDS :: seconds where "REFRESH_LOCK_TTL_SECONDS = 10"
definition AUTH_ROUTE_LIMIT :: nat where "AUTH_ROUTE_LIMIT = 60"
definition AUTH_ROUTE_WINDOW_SECONDS :: nat where "AUTH_ROUTE_WINDOW_SECONDS = 60"
definition COOKIE_SESSION :: string where "COOKIE_SESSION = ''tenant_session''"
definition COOKIE_PRE_AUTH :: string where "COOKIE_PRE_AUTH = ''tenant_pre_auth''"

record discovery =
  di_issuer :: string
  di_authorization :: string
  di_token :: string
  di_jwks_uri :: string
  di_userinfo :: "string option"
  di_revocation :: "string option"

record provider_tokens =
  pt_access :: string
  pt_expires_in :: seconds
  pt_id :: "string option"
  pt_refresh :: string

record http_request =
  rq_method :: string
  rq_url :: string
  rq_headers :: "(string \<times> string) list"
  rq_body :: "string option"

record http_response =
  rs_status :: nat
  rs_www_authenticate :: "string option"
  rs_content_type :: "string option"
  rs_json :: "json option"

record 'n bff_state =
  bnow :: seconds
  tenant_sessions :: "tenant_session kv"
  sessions_by_sid :: set_store
  pre_auths :: "pre_auth_state kv"
  refresh_locks :: "string kv"
  rate_counters :: counter_store
  discovered :: "discovery option"
  key_source :: jwks_source
  net :: 'n
  bdraws :: nat

record 'n bff_env =
  provider_issuer :: string
  backchannel_base :: "string option"
  rewrite_host :: "string \<Rightarrow> string \<Rightarrow> string"
  is_url :: "string \<Rightarrow> bool"
  key_text :: "json \<Rightarrow> string"
  jose_of :: jose
  resolveClient :: "string option \<Rightarrow> client_config option"
  resolveClientById :: "string \<Rightarrow> service_config option"
  b_random :: "nat \<Rightarrow> nat \<Rightarrow> bytes"
  b_sha256 :: "bytes \<Rightarrow> bytes"
  cookie_policy_secure :: bool
  http :: "http_request \<Rightarrow> 'n \<Rightarrow> http_response option \<times> 'n"
  sleep :: "nat \<Rightarrow> 'n bff_state \<Rightarrow> 'n bff_state"

type_synonym ('n, 'a) bff_m = "('n bff_state, 'a) state"

definition bff_store ::
  "('n bff_state \<Rightarrow> 'm) \<Rightarrow> (('m \<Rightarrow> 'm) \<Rightarrow> 'n bff_state \<Rightarrow> 'n bff_state) \<Rightarrow>
   (seconds \<Rightarrow> 'm \<Rightarrow> 'a \<times> 'm) \<Rightarrow> ('n, 'a) bff_m" where
  "bff_store sel upd f =
     State (\<lambda>s. let (a, m) = f (bnow s) (sel s) in (a, upd (\<lambda>_. m) s))"

lemma run_bff_store [run_simps]:
  "run_state (bff_store sel upd f) s =
     (fst (f (bnow s) (sel s)), upd (\<lambda>_. snd (f (bnow s) (sel s))) s)"
  by (simp add: bff_store_def case_prod_beta)

definition quiet :: "(seconds \<Rightarrow> 'm \<Rightarrow> 'm) \<Rightarrow> seconds \<Rightarrow> 'm \<Rightarrow> unit \<times> 'm" where
  "quiet f t m = ((), f t m)"

lemma quiet_simps [simp]: "fst (quiet f t m) = ()" "snd (quiet f t m) = f t m"
  by (simp_all add: quiet_def)

lemma bff_kv_fst [simp]:
  "fst (kv_get t k m) = kv_value t m k"
  "fst (kv_get_and_delete t k m) = kv_value t m k"
  "fst (kv_set_if_absent t k v ttl m) \<longleftrightarrow> kv_value t m k = None"
  "fst (ss_members t k' m') = ss_elems t m' k'"
  by (simp_all add: kv_value_def mem.results mem_set.mems_result)

abbreviation "session_store \<equiv> bff_store tenant_sessions tenant_sessions_update"
abbreviation "sid_sets \<equiv> bff_store sessions_by_sid sessions_by_sid_update"
abbreviation "pre_auth_store \<equiv> bff_store pre_auths pre_auths_update"
abbreviation "lock_store \<equiv> bff_store refresh_locks refresh_locks_update"

definition bff_token :: "('n, 'z) bff_env_scheme \<Rightarrow> ('n, string) bff_m" where
  "bff_token env = State (\<lambda>s. (randomToken (b_random env (bdraws s) 32), s\<lparr>bdraws := bdraws s + 1\<rparr>))"

definition fetch :: "('n, 'z) bff_env_scheme \<Rightarrow> http_request \<Rightarrow> ('n, http_response option) bff_m" where
  "fetch env rq = State (\<lambda>s. let (r, n) = http env rq (net s) in (r, s\<lparr>net := n\<rparr>))"

lemma run_bff_token [run_simps]:
  "run_state (bff_token env) s =
     (randomToken (b_random env (bdraws s) 32), s\<lparr>bdraws := bdraws s + 1\<rparr>)"
  by (simp add: bff_token_def)

lemma run_fetch [run_simps]:
  "run_state (fetch env rq) s = (fst (http env rq (net s)), s\<lparr>net := snd (http env rq (net s))\<rparr>)"
  by (simp add: fetch_def case_prod_beta)

section \<open>session.ts\<close>

definition tenant_expiry :: session_expiry_policy where
  "tenant_expiry = \<lparr>idle_seconds = SESSION_IDLE_SECONDS, absolute_seconds = SESSION_ABSOLUTE_SECONDS\<rparr>"

definition sessionKey :: "string \<Rightarrow> string \<Rightarrow> string" where
  "sessionKey slug i = slug @ '':'' @ i"

definition sidKey :: "string \<Rightarrow> string" where "sidKey sid = ''sid:'' @ sid"

definition key_of :: "tenant_session \<Rightarrow> string" where
  "key_of x = sessionKey (tn_tenant_slug x) (tn_id x)"

definition destroySession :: "tenant_session \<Rightarrow> ('n, unit) bff_m" where
  "destroySession x = do {
     _ \<leftarrow> session_store (quiet (\<lambda>_. kv_delete (key_of x)));
     sid_sets (quiet (\<lambda>t. ss_remove t (sidKey (tn_sid x)) (key_of x)))
   }"

definition loadSession ::
  "'z client_config_scheme \<Rightarrow> string option \<Rightarrow> ('n, tenant_session option) bff_m" where
  "loadSession client cookie =
     (case cookie of None \<Rightarrow> State_Monad.return None
      | Some i \<Rightarrow>
          if i = [] then State_Monad.return None
          else do {
            found \<leftarrow> session_store (\<lambda>t. kv_get t (sessionKey (cl_tenant_slug client) i));
            t \<leftarrow> reads bnow;
            case found of
              None \<Rightarrow> State_Monad.return None
            | Some x \<Rightarrow>
                if isExpired tenant_expiry x t
                then do { _ \<leftarrow> destroySession x; State_Monad.return None }
                else State_Monad.return (Some x)
          })"

record new_session_input =
  ns_client :: client_config
  ns_user :: string
  ns_tenant :: string
  ns_sid :: string
  ns_email :: "string option"
  ns_name :: "string option"
  ns_tokens :: provider_tokens

definition createSession ::
  "('n, 'z) bff_env_scheme \<Rightarrow> new_session_input \<Rightarrow> ('n, tenant_session) bff_m" where
  "createSession env i = do {
     t \<leftarrow> reads bnow;
     token \<leftarrow> bff_token env;
     csrf \<leftarrow> bff_token env;
     let x = \<lparr>created_at = t, last_seen_at = t, tn_id = token,
              tn_tenant_slug = cl_tenant_slug (ns_client i), tn_user = ns_user i,
              tn_tenant = ns_tenant i, tn_sid = ns_sid i, tn_email = ns_email i,
              tn_name = ns_name i, tn_access_token = pt_access (ns_tokens i),
              tn_access_expires_at = t + pt_expires_in (ns_tokens i),
              tn_refresh_token = pt_refresh (ns_tokens i), tn_csrf = csrf\<rparr>;
     _ \<leftarrow> session_store (quiet (\<lambda>t. kv_set t (key_of x) x SESSION_ABSOLUTE_SECONDS));
     _ \<leftarrow> sid_sets (quiet (\<lambda>t. ss_add t (sidKey (tn_sid x)) (key_of x) SESSION_ABSOLUTE_SECONDS));
     State_Monad.return x
   }"

definition saveSession :: "tenant_session \<Rightarrow> ('n, tenant_session) bff_m" where
  "saveSession x = do {
     t \<leftarrow> reads bnow;
     let u = x\<lparr>last_seen_at := t\<rparr>;
     _ \<leftarrow> session_store (quiet (\<lambda>t. kv_set t (key_of u) u (remainingTtl tenant_expiry u t)));
     State_Monad.return u
   }"

definition touchSession :: "tenant_session \<Rightarrow> ('n, tenant_session) bff_m" where
  "touchSession x = do {
     t \<leftarrow> reads bnow;
     if \<not> shouldTouch x t then State_Monad.return x
     else do {
       latest \<leftarrow> session_store (\<lambda>t. kv_get t (key_of x));
       saveSession (case latest of Some y \<Rightarrow> y | None \<Rightarrow> x)
     }
   }"

definition destroySessionsBySid :: "string \<Rightarrow> ('n, nat) bff_m" where
  "destroySessionsBySid sid = do {
     keys \<leftarrow> sid_sets (\<lambda>t. ss_members t (sidKey sid));
     _ \<leftarrow> mapM_unit (\<lambda>k. session_store (quiet (\<lambda>_. kv_delete k))) keys;
     _ \<leftarrow> sid_sets (quiet (\<lambda>_. ss_delete (sidKey sid)));
     State_Monad.return (length keys)
   }"

section \<open>provider.ts\<close>

datatype provider_error =
  Discovery_failed string | Jwks_failed string | Invalid_grant | Invalid_client
| Token_request_failed string | Id_token_invalid string

definition url_field :: "(string \<Rightarrow> bool) \<Rightarrow> string \<Rightarrow> json \<Rightarrow> string option" where
  "url_field ok k j = Option.bind (json_string (json_field k j)) (\<lambda>u. if ok u then Some u else None)"

text \<open>An optional field is absent or valid; \<open>None\<close> when it is present and not valid.\<close>

definition optional_field :: "(json \<Rightarrow> 'a option) \<Rightarrow> string \<Rightarrow> json \<Rightarrow> 'a option option" where
  "optional_field parse k j =
     (case json_field k j of None \<Rightarrow> Some None | Some v \<Rightarrow> map_option Some (parse v))"

definition discoverySchema :: "(string \<Rightarrow> bool) \<Rightarrow> json \<Rightarrow> discovery option" where
  "discoverySchema ok j = do {
     i \<leftarrow> url_field ok ''issuer'' j;
     a \<leftarrow> url_field ok ''authorization_endpoint'' j;
     t \<leftarrow> url_field ok ''token_endpoint'' j;
     k \<leftarrow> url_field ok ''jwks_uri'' j;
     u \<leftarrow> optional_field (\<lambda>v. Option.bind (json_string (Some v)) (\<lambda>x. if ok x then Some x else None))
       ''userinfo_endpoint'' j;
     r \<leftarrow> optional_field (\<lambda>v. Option.bind (json_string (Some v)) (\<lambda>x. if ok x then Some x else None))
       ''revocation_endpoint'' j;
     Some \<lparr>di_issuer = i, di_authorization = a, di_token = t, di_jwks_uri = k,
           di_userinfo = u, di_revocation = r\<rparr>
   }"

definition tokenResponseSchema :: "json \<Rightarrow> provider_tokens option" where
  "tokenResponseSchema j =
     (case (json_field ''access_token'' j, json_field ''token_type'' j, json_field ''expires_in'' j,
            json_field ''refresh_token'' j,
            optional_field (\<lambda>v. json_string (Some v)) ''id_token'' j,
            optional_field (\<lambda>v. json_string (Some v)) ''scope'' j) of
        (Some (JStr a), Some (JStr ty), Some (JNum e), Some (JStr r), Some i, Some _) \<Rightarrow>
          if ty = ''Bearer'' \<and> 0 < e
          then Some \<lparr>pt_access = a, pt_expires_in = e, pt_id = i, pt_refresh = r\<rparr> else None
      | _ \<Rightarrow> None)"

definition toBackchannel :: "('n, 'z) bff_env_scheme \<Rightarrow> string \<Rightarrow> string" where
  "toBackchannel env url =
     (case backchannel_base env of None \<Rightarrow> url | Some base \<Rightarrow> rewrite_host env url base)"

definition get_request :: "string \<Rightarrow> http_request" where
  "get_request url = \<lparr>rq_method = ''GET'', rq_url = url, rq_headers = [], rq_body = None\<rparr>"

definition res_ok :: "http_response \<Rightarrow> bool" where
  "res_ok r = (200 \<le> rs_status r \<and> rs_status r \<le> 299)"

definition getDiscovery :: "('n, 'z) bff_env_scheme \<Rightarrow> ('n, (discovery, string) result) bff_m" where
  "getDiscovery env = do {
     known \<leftarrow> reads discovered;
     case known of
       Some d \<Rightarrow> State_Monad.return (Inr d)
     | None \<Rightarrow> do {
         answer \<leftarrow> fetch env (get_request
           (toBackchannel env (provider_issuer env @ ''/.well-known/openid-configuration'')));
         case answer of
           None \<Rightarrow> State_Monad.return (Inl ''fetch failed'')
         | Some r \<Rightarrow>
             if \<not> res_ok r then State_Monad.return (Inl (''status '' @ digits (rs_status r)))
             else (case rs_json r of
               None \<Rightarrow> State_Monad.return (Inl ''fetch failed'')
             | Some body \<Rightarrow>
                 (case discoverySchema (is_url env) body of
                    None \<Rightarrow> State_Monad.return (Inl ''malformed document'')
                  | Some d \<Rightarrow>
                      if di_issuer d \<noteq> provider_issuer env
                      then State_Monad.return (Inl ''issuer mismatch'')
                      else do {
                        _ \<leftarrow> modifies (\<lambda>s. s\<lparr>discovered := Some d\<rparr>);
                        State_Monad.return (Inr d)
                      }))
       }
   }"

text \<open>\<open>jwksSchema\<close>: a list of objects, of which the key id and the text are kept.\<close>

fun jwk_list :: "(json \<Rightarrow> string) \<Rightarrow> json list \<Rightarrow> jwks option" where
  "jwk_list text [] = Some []"
| "jwk_list text (JObj fs # ks) =
     map_option (Cons \<lparr>jwk_kid = json_string (json_field ''kid'' (JObj fs)), jwk_material = text (JObj fs)\<rparr>)
       (jwk_list text ks)"
| "jwk_list text (_ # ks) = None"

definition jwksSchema :: "(json \<Rightarrow> string) \<Rightarrow> json \<Rightarrow> jwks option" where
  "jwksSchema text j = (case json_field ''keys'' j of Some (JArr ks) \<Rightarrow> jwk_list text ks | _ \<Rightarrow> None)"

definition jwks_fetch :: "('n, 'z) bff_env_scheme \<Rightarrow> ('n, jwks_response) bff_m" where
  "jwks_fetch env = do {
     d \<leftarrow> getDiscovery env;
     case d of
       Inl reason \<Rightarrow> State_Monad.return (Url_error reason)
     | Inr doc \<Rightarrow> do {
         answer \<leftarrow> fetch env (get_request (toBackchannel env (di_jwks_uri doc)));
         State_Monad.return (case answer of
             None \<Rightarrow> Fetch_threw ''fetch failed''
           | Some r \<Rightarrow>
               if \<not> res_ok r then Bad_status (digits (rs_status r))
               else (case rs_json r of None \<Rightarrow> Fetch_threw ''fetch failed''
                     | Some body \<Rightarrow> (case jwksSchema (key_text env) body of
                         None \<Rightarrow> Bad_body | Some ks \<Rightarrow> Key_set ks)))
       }
   }"

definition provider_jwks :: "('n, 'z) bff_env_scheme \<Rightarrow> bool \<Rightarrow> ('n, (jwks, jwks_error) result) bff_m" where
  "provider_jwks env force = do {
     t \<leftarrow> reads bnow;
     source \<leftarrow> reads key_source;
     case jwks_get t force source of
       (Serve keys, _) \<Rightarrow> State_Monad.return (Inr keys)
     | (_, started) \<Rightarrow> do {
         _ \<leftarrow> modifies (\<lambda>s. s\<lparr>key_source := started\<rparr>);
         response \<leftarrow> jwks_fetch env;
         State (\<lambda>s. let (r, src) = jwks_done response (key_source s) in (r, s\<lparr>key_source := src\<rparr>))
       }
   }"

definition verify_token ::
  "('n, 'z) bff_env_scheme \<Rightarrow> string \<Rightarrow> string option \<Rightarrow> ('n, (json, provider_error) result) bff_m" where
  "verify_token env token audience = do {
     t \<leftarrow> reads bnow;
     verified \<leftarrow> verifyJwtWithSource (jose_of env) (provider_jwks env) token
       \<lparr>vo_issuer = provider_issuer env, vo_audience = audience, vo_now = t,
        vo_tolerance = DEFAULT_CLOCK_TOLERANCE_SECONDS\<rparr>;
     State_Monad.return (case verified of
         Inr payload \<Rightarrow> Inr payload
       | Inl (Jwks_unavailable reason) \<Rightarrow> Inl (Jwks_failed reason)
       | Inl Expired \<Rightarrow> Inl (Id_token_invalid ''expired'')
       | Inl (Invalid_token reason) \<Rightarrow> Inl (Id_token_invalid reason))
   }"

definition verifyIdToken ::
  "('n, 'z) bff_env_scheme \<Rightarrow> string \<Rightarrow> 'y client_config_scheme \<Rightarrow> string \<Rightarrow>
   ('n, (json, provider_error) result) bff_m" where
  "verifyIdToken env token client nonce = do {
     verified \<leftarrow> verify_token env token (Some (sv_client_id client));
     State_Monad.return (case verified of Inl e \<Rightarrow> Inl e
       | Inr payload \<Rightarrow>
           if json_field ''nonce'' payload \<noteq> Some (JStr nonce) then Inl (Id_token_invalid ''nonce mismatch'')
           else if json_string (json_field ''sub'' payload) = None then Inl (Id_token_invalid ''sub missing'')
           else Inr payload)
   }"

record logout_subject =
  lo_sid :: string
  lo_audience :: string

definition LOGOUT_EVENT :: string where
  "LOGOUT_EVENT = ''http://schemas.openid.net/event/backchannel-logout''"

definition has_logout_event :: "json \<Rightarrow> bool" where
  "has_logout_event payload =
     (case json_field ''events'' payload of Some (JObj fs) \<Rightarrow> LOGOUT_EVENT \<in> set (map fst fs) | _ \<Rightarrow> False)"

definition first_audience :: "json \<Rightarrow> string option" where
  "first_audience payload =
     (case json_field ''aud'' payload of
        Some (JArr (a # _)) \<Rightarrow> json_string (Some a) | Some (JArr []) \<Rightarrow> None | a \<Rightarrow> json_string a)"

definition read_logout_claims :: "json \<Rightarrow> (logout_subject, provider_error) result" where
  "read_logout_claims payload =
     (if \<not> has_logout_event payload then Inl (Id_token_invalid ''events missing'')
      else if json_field ''nonce'' payload \<noteq> None then Inl (Id_token_invalid ''nonce present'')
      else (case json_string (json_field ''sid'' payload) of
        None \<Rightarrow> Inl (Id_token_invalid ''sid missing'')
      | Some sid \<Rightarrow>
          (case first_audience payload of
             None \<Rightarrow> Inl (Id_token_invalid ''aud missing'')
           | Some a \<Rightarrow> Inr \<lparr>lo_sid = sid, lo_audience = a\<rparr>)))"

definition verifyLogoutToken ::
  "('n, 'z) bff_env_scheme \<Rightarrow> string \<Rightarrow> ('n, (logout_subject, provider_error) result) bff_m" where
  "verifyLogoutToken env token = do {
     verified \<leftarrow> verify_token env token None;
     State_Monad.return (case verified of Inl e \<Rightarrow> Inl e | Inr payload \<Rightarrow> read_logout_claims payload)
   }"

text \<open>\<open>Buffer.toString("base64")\<close>: the standard alphabet, padded.\<close>

definition b64_encode :: "bytes \<Rightarrow> string" where
  "b64_encode bs =
     (let s = map (\<lambda>c. if c = CHR ''-'' then CHR ''+'' else if c = CHR ''_'' then CHR ''/'' else c)
                (b64url_encode bs)
      in s @ replicate ((4 - length s mod 4) mod 4) CHR ''='')"

definition formHeaders :: "'y client_config_scheme \<Rightarrow> (string \<times> string) list" where
  "formHeaders client =
     [(''Content-Type'', ''application/x-www-form-urlencoded''),
      (''Authorization'', ''Basic '' @
        b64_encode (bytes_of_string (encode_uri (sv_client_id client) @ '':'' @ encode_uri (sv_secret client))))]"

definition form_request :: "'y client_config_scheme \<Rightarrow> string \<Rightarrow> (string \<times> string) list \<Rightarrow> http_request" where
  "form_request client url form =
     \<lparr>rq_method = ''POST'', rq_url = url, rq_headers = formHeaders client,
      rq_body = Some (url_search_params form)\<rparr>"

definition tokenRequest ::
  "('n, 'z) bff_env_scheme \<Rightarrow> 'y client_config_scheme \<Rightarrow> (string \<times> string) list \<Rightarrow>
   ('n, (provider_tokens, provider_error) result) bff_m" where
  "tokenRequest env client form = do {
     d \<leftarrow> getDiscovery env;
     case d of
       Inl reason \<Rightarrow> State_Monad.return (Inl (Discovery_failed reason))
     | Inr doc \<Rightarrow> do {
         answer \<leftarrow> fetch env (form_request client (toBackchannel env (di_token doc)) form);
         State_Monad.return (case answer of
             None \<Rightarrow> Inl (Token_request_failed ''fetch failed'')
           | Some r \<Rightarrow>
               if rs_status r = 400 then Inl Invalid_grant
               else if rs_status r = 401 then Inl Invalid_client
               else if \<not> res_ok r then Inl (Token_request_failed (''status '' @ digits (rs_status r)))
               else (case rs_json r of
                 None \<Rightarrow> Inl (Token_request_failed ''fetch failed'')
               | Some body \<Rightarrow> (case tokenResponseSchema body of
                   None \<Rightarrow> Inl (Token_request_failed ''malformed token response'')
                 | Some tokens \<Rightarrow> Inr tokens)))
       }
   }"

definition exchangeCode ::
  "('n, 'z) bff_env_scheme \<Rightarrow> 'y client_config_scheme \<Rightarrow> string \<Rightarrow> string \<Rightarrow>
   ('n, (provider_tokens, provider_error) result) bff_m" where
  "exchangeCode env client code verifier = tokenRequest env client
     [(''grant_type'', ''authorization_code''), (''code'', code),
      (''redirect_uri'', cl_redirect_uri client), (''code_verifier'', verifier)]"

definition provider_refresh ::
  "('n, 'z) bff_env_scheme \<Rightarrow> 'y client_config_scheme \<Rightarrow> string \<Rightarrow>
   ('n, (provider_tokens, provider_error) result) bff_m" where
  "provider_refresh env client token =
     tokenRequest env client [(''grant_type'', ''refresh_token''), (''refresh_token'', token)]"

definition provider_revoke ::
  "('n, 'z) bff_env_scheme \<Rightarrow> 'y client_config_scheme \<Rightarrow> string \<Rightarrow> ('n, (unit, provider_error) result) bff_m" where
  "provider_revoke env client token = do {
     d \<leftarrow> getDiscovery env;
     case d of
       Inl reason \<Rightarrow> State_Monad.return (Inl (Discovery_failed reason))
     | Inr doc \<Rightarrow>
         (case di_revocation doc of
            None \<Rightarrow> State_Monad.return (Inr ())
          | Some url \<Rightarrow> do {
              answer \<leftarrow> fetch env (form_request client (toBackchannel env url)
                [(''token'', token), (''token_type_hint'', ''refresh_token'')]);
              State_Monad.return (case answer of
                  None \<Rightarrow> Inl (Token_request_failed ''fetch failed'')
                | Some r \<Rightarrow> if res_ok r then Inr ()
                    else Inl (Token_request_failed (''revoke status '' @ digits (rs_status r))))
            })
   }"

end
