(* ===== verification/ApiClient.thy ===== *)
theory ApiClient
  imports OidcClient
begin

text \<open>
  packages/oidc-client/src/api-client.ts: keeping the access token of a tenant session fresh under a
  per-session lock, and calling the service's API with it.
\<close>

section \<open>api-client.ts\<close>

datatype api_access_error = Session_gone | Provider_unavailable string

definition REFRESH_WAIT_MS :: nat where "REFRESH_WAIT_MS = 100"
definition REFRESH_WAIT_ATTEMPTS :: nat where "REFRESH_WAIT_ATTEMPTS = 30"

definition needsRefresh :: "tenant_session \<Rightarrow> seconds \<Rightarrow> bool" where
  "needsRefresh x t = (tn_access_expires_at x - t \<le> ACCESS_TOKEN_REFRESH_MARGIN_SECONDS)"

definition error_kind :: "provider_error \<Rightarrow> string" where
  "error_kind e = (case e of Discovery_failed _ \<Rightarrow> ''discovery_failed'' | Jwks_failed _ \<Rightarrow> ''jwks_failed''
     | Invalid_grant \<Rightarrow> ''invalid_grant'' | Invalid_client \<Rightarrow> ''invalid_client''
     | Token_request_failed _ \<Rightarrow> ''token_request_failed'' | Id_token_invalid _ \<Rightarrow> ''id_token_invalid'')"

definition renewed :: "tenant_session \<Rightarrow> provider_tokens \<Rightarrow> seconds \<Rightarrow> tenant_session" where
  "renewed x tokens t = x\<lparr>tn_access_token := pt_access tokens,
     tn_access_expires_at := t + pt_expires_in tokens, tn_refresh_token := pt_refresh tokens\<rparr>"

text \<open>\<open>refresh\<close>: what is done with the provider's answer, and the whole.\<close>

definition refresh_answer ::
  "tenant_session \<Rightarrow> (provider_tokens, provider_error) result \<Rightarrow>
   ('n, (tenant_session, api_access_error) result) bff_m" where
  "refresh_answer x refreshed =
     (case refreshed of
        Inl Invalid_grant \<Rightarrow> do {
          _ \<leftarrow> destroySession x;
          State_Monad.return (Inl Session_gone)
        }
      | Inl e \<Rightarrow> State_Monad.return (Inl (Provider_unavailable (error_kind e)))
      | Inr tokens \<Rightarrow> do {
          t \<leftarrow> reads bnow;
          updated \<leftarrow> saveSession (renewed x tokens t);
          State_Monad.return (Inr updated)
        })"

definition refresh_session ::
  "('n, 'z) bff_env_scheme \<Rightarrow> 'y client_config_scheme \<Rightarrow> tenant_session \<Rightarrow>
   ('n, (tenant_session, api_access_error) result) bff_m" where
  "refresh_session env client x = do {
     refreshed \<leftarrow> provider_refresh env client (tn_refresh_token x);
     refresh_answer x refreshed
   }"

text \<open>The loop of \<open>waitForRefresh\<close>, by the number of attempts left.\<close>

fun wait_loop ::
  "('n, 'z) bff_env_scheme \<Rightarrow> 'y client_config_scheme \<Rightarrow> tenant_session \<Rightarrow> nat \<Rightarrow>
   ('n, (tenant_session, api_access_error) result) bff_m" where
  "wait_loop env client x 0 = State_Monad.return (Inl (Provider_unavailable ''refresh_lock_timeout''))"
| "wait_loop env client x (Suc n) = do {
     _ \<leftarrow> modifies (sleep env REFRESH_WAIT_MS);
     latest \<leftarrow> loadSession client (Some (tn_id x));
     t \<leftarrow> reads bnow;
     case latest of
       None \<Rightarrow> State_Monad.return (Inl Session_gone)
     | Some y \<Rightarrow>
         if \<not> needsRefresh y t then State_Monad.return (Inr y) else wait_loop env client x n
   }"

definition waitForRefresh ::
  "('n, 'z) bff_env_scheme \<Rightarrow> 'y client_config_scheme \<Rightarrow> tenant_session \<Rightarrow>
   ('n, (tenant_session, api_access_error) result) bff_m" where
  "waitForRefresh env client x = wait_loop env client x REFRESH_WAIT_ATTEMPTS"

definition lock_key :: "'y client_config_scheme \<Rightarrow> tenant_session \<Rightarrow> string" where
  "lock_key client x = cl_tenant_slug client @ '':'' @ tn_id x"

definition acquire_lock :: "string \<Rightarrow> ('n, bool) bff_m" where
  "acquire_lock k = lock_store (\<lambda>t. kv_set_if_absent t k ''1'' REFRESH_LOCK_TTL_SECONDS)"

definition release_lock :: "string \<Rightarrow> ('n, unit) bff_m" where
  "release_lock k = lock_store (quiet (\<lambda>_. kv_delete k))"

definition latest_or :: "tenant_session \<Rightarrow> tenant_session option \<Rightarrow> tenant_session" where
  "latest_or x loaded = (case loaded of Some y \<Rightarrow> y | None \<Rightarrow> x)"

definition ensureFreshAccessToken ::
  "('n, 'z) bff_env_scheme \<Rightarrow> 'y client_config_scheme \<Rightarrow> tenant_session \<Rightarrow>
   ('n, (tenant_session, api_access_error) result) bff_m" where
  "ensureFreshAccessToken env client x = do {
     t \<leftarrow> reads bnow;
     if \<not> needsRefresh x t then State_Monad.return (Inr x)
     else do {
       locked \<leftarrow> acquire_lock (lock_key client x);
       if \<not> locked then waitForRefresh env client x
       else do {
         loaded \<leftarrow> loadSession client (Some (tn_id x));
         t2 \<leftarrow> reads bnow;
         r \<leftarrow> (if \<not> needsRefresh (latest_or x loaded) t2
               then State_Monad.return (Inr (latest_or x loaded))
               else refresh_session env client (latest_or x loaded));
         _ \<leftarrow> release_lock (lock_key client x);
         State_Monad.return r
       }
     }
   }"

text \<open>\<open>Headers.set\<close> replaces; header names are compared without case.\<close>

definition set_header :: "string \<Rightarrow> string \<Rightarrow> (string \<times> string) list \<Rightarrow> (string \<times> string) list" where
  "set_header k v hs = filter (\<lambda>h. to_lower (fst h) \<noteq> to_lower k) hs @ [(k, v)]"

definition withBearer :: "http_request \<Rightarrow> string \<Rightarrow> http_request" where
  "withBearer rq token = rq\<lparr>rq_headers := set_header ''Authorization'' (''Bearer '' @ token) (rq_headers rq)\<rparr>"

definition expired_answer :: "http_response \<Rightarrow> bool" where
  "expired_answer r = (rs_status r = 401 \<and> isExpiredTokenChallenge (rs_www_authenticate r))"

text \<open>
  \<open>None\<close> is the exception of a \<open>fetch\<close> of the API that throws. The retry passes a copy
  of the session whose expiry is set to 0.
\<close>

definition api_retry ::
  "('n, 'z) bff_env_scheme \<Rightarrow> 'y client_config_scheme \<Rightarrow> tenant_session \<Rightarrow> http_request \<Rightarrow>
   ('n, (http_response \<times> tenant_session, api_access_error) result option) bff_m" where
  "api_retry env client fresh rq = do {
     forced \<leftarrow> ensureFreshAccessToken env client (fresh\<lparr>tn_access_expires_at := 0\<rparr>);
     case forced of
       Inl e \<Rightarrow> State_Monad.return (Some (Inl e))
     | Inr y \<Rightarrow> do {
         retried \<leftarrow> fetch env (withBearer rq (tn_access_token y));
         State_Monad.return (map_option (\<lambda>r. Inr (r, y)) retried)
       }
   }"

definition apiFetch ::
  "('n, 'z) bff_env_scheme \<Rightarrow> 'y client_config_scheme \<Rightarrow> tenant_session \<Rightarrow> http_request \<Rightarrow>
   ('n, (http_response \<times> tenant_session, api_access_error) result option) bff_m" where
  "apiFetch env client x rq = do {
     fresh \<leftarrow> ensureFreshAccessToken env client x;
     case fresh of
       Inl e \<Rightarrow> State_Monad.return (Some (Inl e))
     | Inr y \<Rightarrow> do {
         answer \<leftarrow> fetch env (withBearer rq (tn_access_token y));
         case answer of
           None \<Rightarrow> State_Monad.return None
         | Some r \<Rightarrow>
             if \<not> expired_answer r then State_Monad.return (Some (Inr (r, y)))
             else api_retry env client y rq
       }
   }"

section \<open>What runs leave unchanged\<close>

text \<open>The sessions, their index and the locks; the provider's calls change none of them.\<close>

definition session_part :: "'n bff_state \<Rightarrow> seconds \<times> tenant_session kv \<times> set_store \<times> string kv" where
  "session_part s = (bnow s, tenant_sessions s, sessions_by_sid s, refresh_locks s)"

lemma session_part_frame [simp]:
  "session_part (net_update f s) = session_part s"
  "session_part (discovered_update g s) = session_part s"
  "session_part (key_source_update h s) = session_part s"
  "session_part (bdraws_update d s) = session_part s"
  by (simp_all add: session_part_def)

lemma keeps_fetch [intro]: "(\<And>f s. obs (net_update f s) = obs s) \<Longrightarrow> keeps obs (fetch env rq)"
  by (simp add: keeps_def run_fetch)

text \<open>The provider's operations change only the network and the provider's own caches.\<close>

definition provider_blind :: "('n bff_state \<Rightarrow> 'o) \<Rightarrow> bool" where
  "provider_blind obs = (\<forall>f g h s. obs (net_update f s) = obs s \<and> obs (discovered_update g s) = obs s \<and>
     obs (key_source_update h s) = obs s)"

lemma provider_blindD:
  assumes "provider_blind obs"
  shows "obs (net_update f s) = obs s" "obs (discovered_update g s) = obs s"
    "obs (key_source_update h s) = obs s"
  using assms by (simp_all add: provider_blind_def)

lemma blind_session_part [simp]: "provider_blind session_part"
  by (simp add: provider_blind_def)

lemma keeps_discovery: "provider_blind obs \<Longrightarrow> keeps obs (getDiscovery env)"
  unfolding getDiscovery_def
  by (auto intro!: keeps_bind keeps_fetch keeps_modifies split: option.split simp: provider_blindD)

lemma keeps_jwks:
  assumes "provider_blind obs"
  shows "keeps obs (provider_jwks env force)"
proof -
  have "keeps obs (jwks_fetch env)"
    unfolding jwks_fetch_def
    by (auto intro!: keeps_bind keeps_fetch keeps_discovery assms split: sum.split
        simp: provider_blindD [OF assms])
  then show ?thesis
    unfolding provider_jwks_def
    by (auto intro!: keeps_bind keeps_modifies split: jwks_step.split prod.split
        simp: provider_blindD [OF assms])
       (simp_all add: keeps_def case_prod_beta provider_blindD [OF assms])
qed

lemma keeps_verify: "provider_blind obs \<Longrightarrow> keeps obs (verify_token env token audience)"
  unfolding verify_token_def verifyJwtWithSource_def
  by (auto intro!: keeps_bind keeps_jwks split: option.split sum.split)

lemma keeps_token_request: "provider_blind obs \<Longrightarrow> keeps obs (tokenRequest env client form)"
  unfolding tokenRequest_def
  by (auto intro!: keeps_bind keeps_fetch keeps_discovery split: sum.split simp: provider_blindD)

lemma keeps_provider_revoke: "provider_blind obs \<Longrightarrow> keeps obs (provider_revoke env client token)"
  unfolding provider_revoke_def
  by (auto intro!: keeps_bind keeps_fetch keeps_discovery split: sum.split option.split simp: provider_blindD)

lemma keeps_refresh: "provider_blind obs \<Longrightarrow> keeps obs (provider_refresh env client token)"
  unfolding provider_refresh_def by (rule keeps_token_request)

lemma keeps_verify_id: "provider_blind obs \<Longrightarrow> keeps obs (verifyIdToken env token client nonce)"
  and keeps_verify_logout: "provider_blind obs \<Longrightarrow> keeps obs (verifyLogoutToken env token)"
  unfolding verifyIdToken_def verifyLogoutToken_def by (auto intro!: keeps_bind keeps_verify)

lemma keeps_exchange: "provider_blind obs \<Longrightarrow> keeps obs (exchangeCode env client code verifier)"
  unfolding exchangeCode_def by (rule keeps_token_request)

lemmas provider_keeps = keeps_discovery keeps_refresh keeps_provider_revoke keeps_verify_id keeps_verify_logout
  keeps_exchange

lemmas provider_frames = provider_keeps [OF blind_session_part, THEN keeps_run]

lemma session_part_fields:
  assumes "session_part s' = session_part s"
  shows "bnow s' = bnow s" "tenant_sessions s' = tenant_sessions s"
    "sessions_by_sid s' = sessions_by_sid s" "refresh_locks s' = refresh_locks s"
  using assms by (simp_all add: session_part_def)

lemmas provider_now = provider_frames [THEN session_part_fields(1)]
lemmas refresh_frame = session_part_fields [OF keeps_run [OF keeps_refresh [OF blind_session_part]]]

text \<open>The session that a cookie value names at the state's clock.\<close>

definition session_live :: "'n bff_state \<Rightarrow> string \<Rightarrow> tenant_session option" where
  "session_live s k =
     (case kv_value (bnow s) (tenant_sessions s) k of
        Some x \<Rightarrow> if isExpired tenant_expiry x (bnow s) then None else Some x
      | None \<Rightarrow> None)"

definition named :: "'y client_config_scheme \<Rightarrow> string \<Rightarrow> string" where
  "named client i = sessionKey (cl_tenant_slug client) i"

lemma load_session_result [simp]:
  "fst (run_state (loadSession client (Some i)) s) =
     (if i = [] then None else session_live s (named client i))"
  by (auto simp: loadSession_def session_live_def named_def run_simps case_prod_beta destroySession_def
      split: option.splits)

lemma load_session_none [simp]: "run_state (loadSession client None) s = (None, s)"
  by (simp add: loadSession_def)

definition beyond_sessions :: "'n bff_state \<Rightarrow> 'n bff_state" where
  "beyond_sessions s = s\<lparr>tenant_sessions := kv_empty, sessions_by_sid := ss_empty\<rparr>"

lemma keeps_bff_store:
  assumes "\<And>m s. obs (upd (\<lambda>_. m) s) = obs s"
  shows "keeps obs (bff_store sel upd f)"
  using assms by (simp add: keeps_def run_bff_store)

lemma keeps_destroy: "keeps beyond_sessions (destroySession x)"
  unfolding destroySession_def by (intro keeps_bind keeps_bff_store) (auto simp: beyond_sessions_def)

lemma keeps_load_session: "keeps beyond_sessions (loadSession client cookie)"
  unfolding loadSession_def
  by (auto intro!: keeps_bind keeps_bff_store keeps_destroy split: option.split)
     (auto simp: beyond_sessions_def)

lemma beyond_sessions_fields:
  fixes s s' :: "'n bff_state"
  assumes "beyond_sessions s' = beyond_sessions s"
  shows "bnow s' = bnow s" "refresh_locks s' = refresh_locks s" "net s' = net s"
    "pre_auths s' = pre_auths s" "discovered s' = discovered s"
proof -
  have "f (beyond_sessions s') = f (beyond_sessions s)" for f :: "'n bff_state \<Rightarrow> 'x"
    using assms by simp
  from this [of bnow] this [of refresh_locks] this [of net] this [of pre_auths] this [of discovered]
  show "bnow s' = bnow s" "refresh_locks s' = refresh_locks s" "net s' = net s"
    "pre_auths s' = pre_auths s" "discovered s' = discovered s"
    by (simp_all add: beyond_sessions_def)
qed

lemmas load_session_frame = beyond_sessions_fields [OF keeps_run [OF keeps_load_session]]

section \<open>Runs of the access-token protocol\<close>

lemma run_acquire [run_simps]:
  "run_state (acquire_lock k) s =
     (kv_value (bnow s) (refresh_locks s) k = None,
      s\<lparr>refresh_locks := snd (kv_set_if_absent (bnow s) k ''1'' REFRESH_LOCK_TTL_SECONDS (refresh_locks s))\<rparr>)"
  by (simp add: acquire_lock_def run_bff_store)

lemma run_release [run_simps]:
  "run_state (release_lock k) s = ((), s\<lparr>refresh_locks := kv_delete k (refresh_locks s)\<rparr>)"
  by (simp add: release_lock_def run_bff_store)

lemma session_live_frame [simp]:
  "session_live (s\<lparr>refresh_locks := l\<rparr>) = session_live s"
  "session_live (net_update f s) = session_live s"
  by (simp_all add: session_live_def fun_eq_iff cong: option.case_cong if_cong)

text \<open>With the lock free, the request that has it works on the stored session.\<close>

lemma ensure_locked_run:
  assumes "needsRefresh x (bnow s)" "kv_value (bnow s) (refresh_locks s) (lock_key client x) = None"
    and "tn_id x \<noteq> []"
  shows "\<exists>s1 s2. session_live s1 = session_live s \<and> bnow s1 = bnow s \<and> net s2 = net s \<and> bnow s2 = bnow s \<and>
    s2 = snd (run_state (loadSession client (Some (tn_id x))) s1) \<and>
    run_state (ensureFreshAccessToken env client x) s =
      (let latest = latest_or x (session_live s (named client (tn_id x)));
           (r, s3) = (if \<not> needsRefresh latest (bnow s) then (Inr latest, s2)
                      else run_state (refresh_session env client latest) s2)
       in (r, snd (run_state (release_lock (lock_key client x)) s3)))"
proof -
  let ?s1 = "snd (run_state (acquire_lock (lock_key client x)) s)"
  let ?s2 = "snd (run_state (loadSession client (Some (tn_id x))) ?s1)"
  have live: "session_live ?s1 = session_live s" by (simp add: run_acquire)
  have "net ?s2 = net s" "bnow ?s2 = bnow s" "bnow ?s1 = bnow s"
    using load_session_frame [of client "Some (tn_id x)" ?s1] by (simp_all add: run_acquire)
  moreover have "run_state (ensureFreshAccessToken env client x) s =
      (let latest = latest_or x (session_live s (named client (tn_id x)));
           (r, s3) = (if \<not> needsRefresh latest (bnow s) then (Inr latest, ?s2)
                      else run_state (refresh_session env client latest) ?s2)
       in (r, snd (run_state (release_lock (lock_key client x)) s3)))"
    using assms load_session_frame(1) [of client "Some (tn_id x)" ?s1]
    by (simp add: ensureFreshAccessToken_def case_prod_beta Let_def run_acquire)
  ultimately show ?thesis using live by blast
qed

section \<open>Properties\<close>

text \<open>
  What a caller gets from the freshness check is usable: its token has more than the refresh
  margin left, or it has just been renewed from the provider's answer to the refresh token of the
  stored session (of the caller's copy when none is stored), and the lock is free again.
\<close>

theorem fresh_token_outcome:
  assumes "run_state (ensureFreshAccessToken env client x) s = (Inr y, s')" "tn_id x \<noteq> []"
    and "kv_value (bnow s) (refresh_locks s) (lock_key client x) = None"
  shows "\<not> needsRefresh y (bnow s) \<or>
    (\<exists>latest s1 tokens. latest = latest_or x (session_live s (named client (tn_id x))) \<and>
       fst (run_state (provider_refresh env client (tn_refresh_token latest)) s1) = Inr tokens \<and> net s1 = net s \<and>
       y = (renewed latest tokens (bnow s))\<lparr>last_seen_at := bnow s\<rparr> \<and>
       kv_value (bnow s) (refresh_locks s') (lock_key client x) = None)"
proof (cases "needsRefresh x (bnow s)")
  case False
  then show ?thesis using assms(1) by (simp add: ensureFreshAccessToken_def)
next
  case True
  let ?l = "latest_or x (session_live s (named client (tn_id x)))"
  obtain s2 where s2: "net s2 = net s" "bnow s2 = bnow s" and run:
      "run_state (ensureFreshAccessToken env client x) s =
      (let latest = ?l;
           (r, s3) = (if \<not> needsRefresh latest (bnow s) then (Inr latest, s2)
                      else run_state (refresh_session env client latest) s2)
       in (r, snd (run_state (release_lock (lock_key client x)) s3)))"
    using ensure_locked_run [OF True assms(3,2), of env] by blast
  show ?thesis
  proof (cases "needsRefresh ?l (bnow s)")
    case False
    then show ?thesis using run assms(1) by simp
  next
    case stale: True
    let ?p = "run_state (provider_refresh env client (tn_refresh_token ?l)) s2"
    have now: "bnow (snd ?p) = bnow s" by (simp add: refresh_frame s2)
    have eq: "run_state (ensureFreshAccessToken env client x) s =
        (let (r, s3) = run_state (refresh_answer ?l (fst ?p)) (snd ?p)
         in (r, snd (run_state (release_lock (lock_key client x)) s3)))"
      using run stale by (simp add: refresh_session_def case_prod_beta Let_def)
    obtain tokens where tok: "fst ?p = Inr tokens"
    proof (cases "fst ?p")
      case (Inl e)
      then have False using eq assms(1)
        by (cases e) (auto simp: refresh_answer_def case_prod_beta Let_def)
      then show ?thesis ..
    qed
    have "y = (renewed ?l tokens (bnow s))\<lparr>last_seen_at := bnow s\<rparr>"
      "kv_value (bnow s) (refresh_locks s') (lock_key client x) = None"
      using eq assms(1) tok now
      by (auto simp: refresh_answer_def saveSession_def Let_def run_bff_store run_release)
    then show ?thesis using tok s2(1) by blast
  qed
qed

text \<open>
  An access token the API rejects as expired is not renewed when the stored session says it has
  time left (the clocks differ, or a revocation changed the key): the retry of the forced refresh
  re-reads the stored session, finds nothing to do, and sends the same token once more. The two
  API calls are all the network sees.
\<close>

theorem rejected_token_is_resent:
  assumes "tn_id x \<noteq> []" "session_live s (named client (tn_id x)) = Some x"
    and "\<not> needsRefresh x (bnow s)" "0 \<le> bnow s"
    and "kv_value (bnow s) (refresh_locks s) (lock_key client x) = None"
    and "http env (withBearer rq (tn_access_token x)) (net s) = (Some r, n)" "expired_answer r"
  shows "fst (run_state (apiFetch env client x rq) s) =
      map_option (\<lambda>r2. Inr (r2, x)) (fst (http env (withBearer rq (tn_access_token x)) n)) \<and>
    net (snd (run_state (apiFetch env client x rq) s)) =
      snd (http env (withBearer rq (tn_access_token x)) n)"
proof -
  let ?s = "s\<lparr>net := n\<rparr>" and ?z = "x\<lparr>tn_access_expires_at := 0\<rparr>"
  have stale: "needsRefresh ?z (bnow ?s)"
    using assms(4) by (simp add: needsRefresh_def ACCESS_TOKEN_REFRESH_MARGIN_SECONDS_def)
  have key: "lock_key client ?z = lock_key client x" by (simp add: lock_key_def)
  have live: "session_live ?s (named client (tn_id ?z)) = Some x"
    using assms(2) session_live_frame(2) [of "\<lambda>_. n" s] by simp
  have free: "kv_value (bnow ?s) (refresh_locks ?s) (lock_key client ?z) = None"
    using assms(5) key by simp
  have "tn_id ?z \<noteq> []" using assms(1) by simp
  from ensure_locked_run [OF stale free this, of env] obtain s2 where s2: "net s2 = n" and run:
      "run_state (ensureFreshAccessToken env client ?z) ?s =
      (let latest = latest_or ?z (session_live ?s (named client (tn_id ?z)));
           (r, s3) = (if \<not> needsRefresh latest (bnow ?s) then (Inr latest, s2)
                      else run_state (refresh_session env client latest) s2)
       in (r, snd (run_state (release_lock (lock_key client ?z)) s3)))" by auto
  define s3 where "s3 = snd (run_state (release_lock (lock_key client ?z)) s2)"
  have s3: "net s3 = n" "run_state (ensureFreshAccessToken env client ?z) ?s = (Inr x, s3)"
    using run assms(3) s2 unfolding live by (simp_all add: latest_or_def Let_def run_release s3_def)
  have first: "run_state (ensureFreshAccessToken env client x) s = (Inr x, s)"
    using assms(3) by (simp add: ensureFreshAccessToken_def)
  have "run_state (apiFetch env client x rq) s = run_state (api_retry env client x rq) ?s"
    using first assms(6,7) by (simp add: apiFetch_def run_fetch)
  also have "\<dots> = (map_option (\<lambda>r2. Inr (r2, x)) (fst (http env (withBearer rq (tn_access_token x)) n)),
      s3\<lparr>net := snd (http env (withBearer rq (tn_access_token x)) n)\<rparr>)"
    using s3 by (simp add: api_retry_def run_fetch)
  finally show ?thesis by simp
qed

section \<open>Fixtures and witnesses\<close>

definition fx_service :: service_config where
  "fx_service = \<lparr>sv_client_id = ''crm'', sv_secret = ''k'', sv_scopes = [''openid''],
     sv_api_base_url = ''http://api'', sv_name = ''CRM''\<rparr>"

definition fx_tenant_client :: client_config where
  "fx_tenant_client = \<lparr>sv_client_id = ''crm'', sv_secret = ''k'', sv_scopes = [''openid''],
     sv_api_base_url = ''http://api'', sv_name = ''CRM'', cl_tenant_slug = ''acme'',
     cl_redirect_uri = ''http://acme.crm/auth/callback''\<rparr>"

definition fx_tenant_session :: "seconds \<Rightarrow> tenant_session" where
  "fx_tenant_session e = \<lparr>created_at = 0, last_seen_at = 0, tn_id = ''i'', tn_tenant_slug = ''acme'',
     tn_user = ''u1'', tn_tenant = ''t1'', tn_sid = ''sid1'', tn_email = None, tn_name = None,
     tn_access_token = ''a1'', tn_access_expires_at = e, tn_refresh_token = ''r1'', tn_csrf = ''c''\<rparr>"

definition fx_discovery :: discovery where
  "fx_discovery = \<lparr>di_issuer = ''http://op'', di_authorization = ''http://op/authorize'',
     di_token = ''http://op/token'', di_jwks_uri = ''http://op/jwks'', di_userinfo = None, di_revocation = None\<rparr>"

definition fx_bff :: "(http_request \<Rightarrow> nat \<Rightarrow> http_response option \<times> nat) \<Rightarrow> nat bff_env" where
  "fx_bff h = \<lparr>provider_issuer = ''http://op'', backchannel_base = None, rewrite_host = (\<lambda>u b. u),
     is_url = (\<lambda>u. True), key_text = (\<lambda>j. []),
     jose_of = \<lparr>jose_kid = (\<lambda>t. Some ''k1''), jose_verify = (\<lambda>t ks a opts. Jose_error ''no'')\<rparr>,
     resolveClient = (\<lambda>h. Some fx_tenant_client), resolveClientById = (\<lambda>i. Some fx_service),
     b_random = (\<lambda>i n. [word_of_nat i]), b_sha256 = (\<lambda>b. b), cookie_policy_secure = True,
     http = h, sleep = (\<lambda>ms s. s)\<rparr>"

definition fx_bff_state :: "tenant_session \<Rightarrow> nat bff_state" where
  "fx_bff_state x = \<lparr>bnow = 0, tenant_sessions = kv_set 0 (key_of x) x 600 kv_empty,
     sessions_by_sid = ss_add 0 (sidKey (tn_sid x)) (key_of x) 600 ss_empty,
     pre_auths = kv_empty, refresh_locks = kv_empty, rate_counters = counter_empty,
     discovered = Some fx_discovery, key_source = jwks_source_new, net = 0, bdraws = 0\<rparr>"

lemmas fx_bff_defs = fx_service_def fx_tenant_client_def fx_tenant_session_def fx_discovery_def
  fx_bff_def fx_bff_state_def

definition fx_answer :: "nat \<Rightarrow> string option \<Rightarrow> json option \<Rightarrow> http_response" where
  "fx_answer st www body = \<lparr>rs_status = st, rs_www_authenticate = www, rs_content_type = None, rs_json = body\<rparr>"

definition fx_tokens_json :: json where
  "fx_tokens_json = JObj [(''access_token'', JStr ''a2''), (''token_type'', JStr ''Bearer''),
     (''expires_in'', JNum 300), (''refresh_token'', JStr ''r2'')]"

lemma fx_tenant_live:
  "session_live (fx_bff_state (fx_tenant_session e)) (named fx_tenant_client ''i'') = Some (fx_tenant_session e)"
  by (simp add: session_live_def fx_bff_defs named_def key_of_def sessionKey_def isExpired_def
      remainingTtl_def tenant_expiry_def SESSION_IDLE_SECONDS_def SESSION_ABSOLUTE_SECONDS_def)

lemma fx_tokens: "tokenResponseSchema fx_tokens_json =
    Some \<lparr>pt_access = ''a2'', pt_expires_in = 300, pt_id = None, pt_refresh = ''r2''\<rparr>"
  by (simp add: tokenResponseSchema_def fx_tokens_json_def json_field_def optional_field_def)

definition fx_renewing :: "nat bff_env" where
  "fx_renewing = fx_bff (\<lambda>rq n. (Some (fx_answer 200 None (Some fx_tokens_json)), n + 1))"

lemma fx_provider_answers:
  assumes "discovered s = Some fx_discovery"
  shows "run_state (provider_refresh fx_renewing client t) s =
     (Inr \<lparr>pt_access = ''a2'', pt_expires_in = 300, pt_id = None, pt_refresh = ''r2''\<rparr>, s\<lparr>net := net s + 1\<rparr>)"
  using assms by (simp add: provider_refresh_def tokenRequest_def getDiscovery_def run_fetch fx_renewing_def
      fx_bff_def fx_answer_def res_ok_def fx_tokens toBackchannel_def)

definition fx_expired :: http_response where
  "fx_expired = fx_answer 401 (Some (bearerChallenge ''invalid_token'' (Some TOKEN_EXPIRED_DESCRIPTION))) None"

definition fx_rejecting :: "nat bff_env" where
  "fx_rejecting = fx_bff (\<lambda>rq n. (Some fx_expired, n + 1))"

lemma fx_expired_answer: "expired_answer fx_expired"
  using expired_challenge_recognised [of "''invalid_token''"]
  by (simp add: expired_answer_def fx_expired_def fx_answer_def)

theorem rejected_token_is_resent_witness:
  "fst (run_state (apiFetch fx_rejecting fx_tenant_client (fx_tenant_session 300) (get_request ''http://api/x''))
     (fx_bff_state (fx_tenant_session 300))) = Some (Inr (fx_expired, fx_tenant_session 300)) \<and>
   net (snd (run_state (apiFetch fx_rejecting fx_tenant_client (fx_tenant_session 300) (get_request ''http://api/x''))
     (fx_bff_state (fx_tenant_session 300)))) = 2"
proof -
  let ?x = "fx_tenant_session 300" and ?rq = "get_request ''http://api/x''"
  have i: "tn_id ?x = ''i''" by (simp add: fx_tenant_session_def)
  have "http fx_rejecting (withBearer ?rq (tn_access_token ?x)) n = (Some fx_expired, n + 1)" for n
    by (simp add: fx_rejecting_def fx_bff_def)
  moreover from this [of 0] have
    "fst (run_state (apiFetch fx_rejecting fx_tenant_client ?x ?rq) (fx_bff_state ?x)) =
       map_option (\<lambda>r2. Inr (r2, ?x)) (fst (http fx_rejecting (withBearer ?rq (tn_access_token ?x)) 1)) \<and>
     net (snd (run_state (apiFetch fx_rejecting fx_tenant_client ?x ?rq) (fx_bff_state ?x))) =
       snd (http fx_rejecting (withBearer ?rq (tn_access_token ?x)) 1)"
    by (intro rejected_token_is_resent [where r = fx_expired])
       (simp_all add: i fx_tenant_live fx_expired_answer, simp_all add: fx_expired_answer fx_bff_defs needsRefresh_def
         ACCESS_TOKEN_REFRESH_MARGIN_SECONDS_def)
  ultimately show ?thesis by simp
qed

definition fx_renewed :: tenant_session where
  "fx_renewed = (renewed (fx_tenant_session 60)
     \<lparr>pt_access = ''a2'', pt_expires_in = 300, pt_id = None, pt_refresh = ''r2''\<rparr> 0)\<lparr>last_seen_at := 0\<rparr>"

lemma fx_renewing_run:
  "fst (run_state (ensureFreshAccessToken fx_renewing fx_tenant_client (fx_tenant_session 60))
     (fx_bff_state (fx_tenant_session 60))) = Inr fx_renewed"
proof -
  let ?x = "fx_tenant_session 60" and ?s = "fx_bff_state (fx_tenant_session 60)"
  have i: "tn_id ?x = ''i''" by (simp add: fx_tenant_session_def)
  have stale: "needsRefresh ?x 0"
    by (simp add: needsRefresh_def ACCESS_TOKEN_REFRESH_MARGIN_SECONDS_def fx_tenant_session_def)
  have s: "bnow ?s = 0" "refresh_locks ?s = kv_empty" "discovered ?s = Some fx_discovery"
    by (simp_all add: fx_bff_state_def)
  show ?thesis
    by (simp add: ensureFreshAccessToken_def stale s i run_acquire fx_tenant_live case_prod_beta latest_or_def
        load_session_frame refresh_session_def fx_provider_answers refresh_answer_def saveSession_def Let_def
        run_bff_store fx_renewed_def)
qed

theorem fresh_token_outcome_witness:
  "\<not> needsRefresh fx_renewed (bnow (fx_bff_state (fx_tenant_session 60))) \<or>
    (\<exists>latest s1 tokens.
       latest = latest_or (fx_tenant_session 60) (session_live (fx_bff_state (fx_tenant_session 60))
         (named fx_tenant_client (tn_id (fx_tenant_session 60)))) \<and>
       fst (run_state (provider_refresh fx_renewing fx_tenant_client (tn_refresh_token latest)) s1) = Inr tokens \<and>
       net s1 = net (fx_bff_state (fx_tenant_session 60)) \<and>
       fx_renewed = (renewed latest tokens (bnow (fx_bff_state (fx_tenant_session 60))))
         \<lparr>last_seen_at := bnow (fx_bff_state (fx_tenant_session 60))\<rparr> \<and>
       kv_value (bnow (fx_bff_state (fx_tenant_session 60)))
         (refresh_locks (snd (run_state (ensureFreshAccessToken fx_renewing fx_tenant_client (fx_tenant_session 60))
           (fx_bff_state (fx_tenant_session 60))))) (lock_key fx_tenant_client (fx_tenant_session 60)) = None)"
  by (rule fresh_token_outcome [OF prod_eqI])
     (simp_all add: fx_renewing_run, simp_all add: fx_tenant_session_def fx_bff_state_def)

end
