(* ===== verification/RefreshRace.thy ===== *)
theory RefreshRace
  imports ApiClient
begin

text \<open>
  Concurrent requests of one tenant session around \<open>ensureFreshAccessToken\<close>: the steps between the
  awaits of the code (taking the lock, re-reading the session, handling the provider's answer and
  releasing the lock), interleaved, with the clock running in between. \<open>spent\<close> collects the refresh
  tokens the provider has exchanged; a spent token that arrives again makes the authorization server
  revoke the whole family. The \<open>bounded\<close> runs are those in which every request is through with its
  critical section before its lock expires.
\<close>

datatype phase = Outside | Holding seconds | Calling seconds tenant_session | Left

record 'n race =
  world :: "'n bff_state"
  phases :: "nat \<Rightarrow> phase"
  spent :: "string list"

definition since :: "phase \<Rightarrow> seconds option" where
  "since p = (case p of Holding t \<Rightarrow> Some t | Calling t _ \<Rightarrow> Some t | _ \<Rightarrow> None)"

definition answer_and_release ::
  "string \<Rightarrow> tenant_session \<Rightarrow> (provider_tokens, provider_error) result \<Rightarrow>
   ('n, (tenant_session, api_access_error) result) bff_m" where
  "answer_and_release lk y answer = do {
     r \<leftarrow> refresh_answer y answer;
     _ \<leftarrow> release_lock lk;
     State_Monad.return r
   }"

text \<open>A new refresh token is none of those seen before.\<close>

definition fresh_answer :: "(provider_tokens, provider_error) result \<Rightarrow> string list \<Rightarrow> bool" where
  "fresh_answer a seen = (case a of Inl _ \<Rightarrow> True | Inr tokens \<Rightarrow> pt_refresh tokens \<notin> set seen)"

definition spend :: "(provider_tokens, provider_error) result \<Rightarrow> string \<Rightarrow> string list \<Rightarrow> string list" where
  "spend a token seen = (case a of Inl _ \<Rightarrow> seen | Inr _ \<Rightarrow> token # seen)"

inductive race_reach :: "bool \<Rightarrow> client_config \<Rightarrow> tenant_session \<Rightarrow> 'n race \<Rightarrow> bool"
  for bounded client x where
  start: "kv_value (bnow s) (tenant_sessions s) (named client (tn_id x)) = Some y \<Longrightarrow>
    key_of y = named client (tn_id x) \<Longrightarrow>
    race_reach bounded client x \<lparr>world = s, phases = (\<lambda>i. Outside), spent = []\<rparr>"
| acquire: "race_reach bounded client x w \<Longrightarrow> phases w i = Outside \<Longrightarrow>
    run_state (acquire_lock (lock_key client x)) (world w) = (True, s) \<Longrightarrow>
    race_reach bounded client x (w\<lparr>world := s, phases := (phases w)(i := Holding (bnow (world w)))\<rparr>)"
| decide: "race_reach bounded client x w \<Longrightarrow> phases w i = Holding t \<Longrightarrow>
    run_state (loadSession client (Some (tn_id x))) (world w) = (Some y, s) \<Longrightarrow> needsRefresh y (bnow s) \<Longrightarrow>
    race_reach bounded client x (w\<lparr>world := s, phases := (phases w)(i := Calling t y)\<rparr>)"
| served: "race_reach bounded client x w \<Longrightarrow> phases w i = Holding t \<Longrightarrow>
    run_state (loadSession client (Some (tn_id x))) (world w) = (Some y, s) \<Longrightarrow> \<not> needsRefresh y (bnow s) \<Longrightarrow>
    race_reach bounded client x (w\<lparr>world := snd (run_state (release_lock (lock_key client x)) s),
      phases := (phases w)(i := Left)\<rparr>)"
| answer: "race_reach bounded client x w \<Longrightarrow> phases w i = Calling t y \<Longrightarrow>
    fresh_answer a (tn_refresh_token y # spent w) \<Longrightarrow>
    race_reach bounded client x
      (w\<lparr>world := snd (run_state (answer_and_release (lock_key client x) y a) (world w)),
         phases := (phases w)(i := Left), spent := spend a (tn_refresh_token y) (spent w)\<rparr>)"
| tick: "race_reach bounded client x w \<Longrightarrow> 0 \<le> d \<Longrightarrow>
    (bounded \<Longrightarrow> \<forall>i t. since (phases w i) = Some t \<longrightarrow>
       bnow (world w) + d < t + REFRESH_LOCK_TTL_SECONDS) \<Longrightarrow>
    race_reach bounded client x (w\<lparr>world := (world w)\<lparr>bnow := bnow (world w) + d\<rparr>\<rparr>)"

section \<open>The invariant of bounded runs\<close>

definition lock_held :: "string \<Rightarrow> 'n race \<Rightarrow> bool" where
  "lock_held lk w = (\<forall>i t. since (phases w i) = Some t \<longrightarrow>
     map_option snd (kv_view (bnow (world w)) (refresh_locks (world w)) lk) = Some (t + REFRESH_LOCK_TTL_SECONDS))"

definition alone :: "'n race \<Rightarrow> bool" where
  "alone w = (\<forall>i j. since (phases w i) \<noteq> None \<longrightarrow> since (phases w j) \<noteq> None \<longrightarrow> i = j)"

definition unspent :: "string \<Rightarrow> 'n race \<Rightarrow> bool" where
  "unspent k w =
     ((\<forall>y. kv_value (bnow (world w)) (tenant_sessions (world w)) k = Some y \<longrightarrow>
         key_of y = k \<and> tn_refresh_token y \<notin> set (spent w)) \<and>
      (\<forall>i t y. phases w i = Calling t y \<longrightarrow> key_of y = k \<and> tn_refresh_token y \<notin> set (spent w)))"

lemmas race_inv_defs = lock_held_def alone_def unspent_def

lemma since_simps [simp]:
  "since Outside = None" "since Left = None" "since (Holding t) = Some t" "since (Calling t y) = Some t"
  by (simp_all add: since_def)

lemma acquired:
  assumes "run_state (acquire_lock lk) s = (True, s')"
  shows "bnow s' = bnow s \<and> tenant_sessions s' = tenant_sessions s \<and>
    kv_view (bnow s) (refresh_locks s) lk = None \<and>
    kv_view (bnow s') (refresh_locks s') lk = Some (''1'', bnow s + REFRESH_LOCK_TTL_SECONDS)"
proof -
  have free: "kv_view (bnow s) (refresh_locks s) lk = None"
    using assms by (simp add: run_acquire kv_value_def)
  have "s' = s\<lparr>refresh_locks := snd (kv_set_if_absent (bnow s) lk ''1'' REFRESH_LOCK_TTL_SECONDS (refresh_locks s))\<rparr>"
    using assms by (simp add: run_acquire)
  then show ?thesis
    using free by (simp add: mem.absent_view REFRESH_LOCK_TTL_SECONDS_def)
qed

lemma loaded:
  assumes "run_state (loadSession client (Some i)) s = (Some y, s')"
  shows "bnow s' = bnow s \<and> refresh_locks s' = refresh_locks s \<and>
    kv_value (bnow s) (tenant_sessions s') = kv_value (bnow s) (tenant_sessions s) \<and>
    kv_value (bnow s) (tenant_sessions s) (named client i) = Some y"
proof -
  have s': "s' = snd (run_state (loadSession client (Some i)) s)" using assms by simp
  show ?thesis using assms unfolding s'
    by (auto simp: loadSession_def run_bff_store case_prod_beta named_def split: option.splits if_splits)
qed

lemma answered:
  assumes s'_def: "s' = snd (run_state (answer_and_release lk y a) s)"
  shows "bnow s' = bnow s"
    and "kv_value (bnow s') (tenant_sessions s') (key_of y) = Some z \<Longrightarrow>
      (\<exists>tokens. a = Inr tokens \<and> tn_refresh_token z = pt_refresh tokens \<and> key_of z = key_of y) \<or>
      (\<exists>e. a = Inl e) \<and> kv_value (bnow s) (tenant_sessions s) (key_of y) = Some z"
  unfolding s'_def
  by (auto simp: answer_and_release_def refresh_answer_def case_prod_beta run_release destroySession_def
      run_bff_store saveSession_def Let_def renewed_def key_of_def
      split: sum.splits provider_error.splits if_splits)

definition race_inv :: "string \<Rightarrow> string \<Rightarrow> 'n race \<Rightarrow> bool" where
  "race_inv lk k w \<longleftrightarrow> lock_held lk w \<and> alone w \<and> unspent k w"

lemma race_inv_acquire:
  assumes inv: "race_inv lk k w" and out: "phases w i = Outside"
    and run: "run_state (acquire_lock lk) (world w) = (True, s)"
  shows "race_inv lk k (w\<lparr>world := s, phases := (phases w)(i := Holding (bnow (world w)))\<rparr>)"
proof -
  note a = acquired [OF run]
  have idle: "since (phases w j) = None" for j
  proof (rule ccontr)
    assume "since (phases w j) \<noteq> None"
    then obtain t where "since (phases w j) = Some t" by blast
    then show False using inv a by (fastforce simp: race_inv_def lock_held_def)
  qed
  then show ?thesis
    using inv a by (auto simp: race_inv_def race_inv_defs kv_value_def split: if_splits)
qed

lemma race_inv_decide:
  assumes inv: "race_inv lk k w" and hold: "phases w i = Holding t"
    and run: "run_state (loadSession client (Some (tn_id x))) (world w) = (Some y, s)" "k = named client (tn_id x)"
  shows "race_inv lk k (w\<lparr>world := s, phases := (phases w)(i := Calling t y)\<rparr>)"
proof -
  note l = loaded [OF run(1)]
  have held: "map_option snd (kv_view (bnow (world w)) (refresh_locks (world w)) lk) =
      Some (t + REFRESH_LOCK_TTL_SECONDS)"
    using inv hold unfolding race_inv_def lock_held_def by (metis since_simps(3))
  have "lock_held lk (w\<lparr>world := s, phases := (phases w)(i := Calling t y)\<rparr>)"
    using inv l held by (auto simp: race_inv_def lock_held_def)
  moreover have "alone (w\<lparr>world := s, phases := (phases w)(i := Calling t y)\<rparr>)"
    unfolding alone_def
  proof (intro allI impI)
    fix a b
    assume ab: "since (phases (w\<lparr>world := s, phases := (phases w)(i := Calling t y)\<rparr>) a) \<noteq> None"
      "since (phases (w\<lparr>world := s, phases := (phases w)(i := Calling t y)\<rparr>) b) \<noteq> None"
    have "since (phases w a) \<noteq> None" "since (phases w b) \<noteq> None"
      using ab hold by (cases "a = i"; cases "b = i"; simp)+
    then show "a = b" using inv by (auto simp: race_inv_def alone_def)
  qed
  moreover have "unspent k (w\<lparr>world := s, phases := (phases w)(i := Calling t y)\<rparr>)"
    using inv l run(2) by (simp add: race_inv_def unspent_def)
  ultimately show ?thesis by (simp add: race_inv_def)
qed

text \<open>When the only request in the critical section leaves, nobody is in it.\<close>

lemma all_out:
  assumes "alone w" "since (phases w i) \<noteq> None"
  shows "since (((phases w)(i := Left)) j) = None"
  using assms by (auto simp: alone_def)

lemma race_inv_leave:
  assumes out: "\<And>j. since (p j) = None"
    and "\<And>y. kv_value (bnow s) (tenant_sessions s) k = Some y \<Longrightarrow> key_of y = k \<and> tn_refresh_token y \<notin> set sp"
  shows "race_inv lk k (w\<lparr>world := s, phases := p, spent := sp\<rparr>)"
proof -
  have "p j \<noteq> Calling t y" for j t y using out [of j] by auto
  then show ?thesis using assms by (simp add: race_inv_def race_inv_defs)
qed

lemma race_inv_served:
  assumes inv: "race_inv lk k w" and hold: "phases w i = Holding t"
    and run: "run_state (loadSession client (Some (tn_id x))) (world w) = (Some y, s)"
  shows "race_inv lk k (w\<lparr>world := snd (run_state (release_lock lk) s), phases := (phases w)(i := Left)\<rparr>)"
proof -
  have "race_inv lk k (w\<lparr>world := snd (run_state (release_lock lk) s), phases := (phases w)(i := Left),
      spent := spent w\<rparr>)"
    using inv hold loaded [OF run]
    by (intro race_inv_leave all_out) (auto simp: race_inv_def unspent_def run_release)
  then show ?thesis by simp
qed

lemma race_inv_answer:
  assumes inv: "race_inv lk k w" and call: "phases w i = Calling t y"
    and fresh: "fresh_answer a (tn_refresh_token y # spent w)"
  shows "race_inv lk k (w\<lparr>world := snd (run_state (answer_and_release lk y a) (world w)),
     phases := (phases w)(i := Left), spent := spend a (tn_refresh_token y) (spent w)\<rparr>)"
proof (rule race_inv_leave)
  show "since (((phases w)(i := Left)) j) = None" for j
    using inv call by (intro all_out) (auto simp: race_inv_def)
next
  fix z
  let ?s = "snd (run_state (answer_and_release lk y a) (world w))"
  assume z: "kv_value (bnow ?s) (tenant_sessions ?s) k = Some z"
  have key: "key_of y = k" using inv call by (auto simp: race_inv_def unspent_def)
  show "key_of z = k \<and> tn_refresh_token z \<notin> set (spend a (tn_refresh_token y) (spent w))"
    using answered(2) [OF refl, of lk y a "world w" z] z fresh inv unfolding key
    by (auto simp: fresh_answer_def spend_def race_inv_def unspent_def)
qed

lemma race_inv_tick:
  assumes inv: "race_inv lk k w" and "0 \<le> d"
    and bound: "\<forall>i t. since (phases w i) = Some t \<longrightarrow> bnow (world w) + d < t + REFRESH_LOCK_TTL_SECONDS"
  shows "race_inv lk k (w\<lparr>world := (world w)\<lparr>bnow := bnow (world w) + d\<rparr>\<rparr>)"
proof -
  let ?t = "bnow (world w) + d"
  have le: "bnow (world w) \<le> ?t" using assms(2) by simp
  have "map_option snd (kv_view ?t (refresh_locks (world w)) lk) = Some (t + REFRESH_LOCK_TTL_SECONDS)"
    if "since (phases w i) = Some t" for i t
  proof -
    have "map_option snd (kv_view (bnow (world w)) (refresh_locks (world w)) lk) = Some (t + REFRESH_LOCK_TTL_SECONDS)"
      using inv that by (simp add: race_inv_def lock_held_def)
    then show ?thesis
      using bound that mem.view_ages [OF le, of "refresh_locks (world w)" lk] by (auto split: option.splits)
  qed
  moreover have "key_of y = k \<and> tn_refresh_token y \<notin> set (spent w)"
    if "kv_value ?t (tenant_sessions (world w)) k = Some y" for y
    using that kv_value_ages [OF le, of "tenant_sessions (world w)" k] inv
    by (auto simp: race_inv_def unspent_def)
  ultimately show ?thesis
    using inv by (auto simp: race_inv_def race_inv_defs)
qed

lemma race_reach_inv:
  "race_reach True client x w \<Longrightarrow> race_inv (lock_key client x) (named client (tn_id x)) w"
proof (induction rule: race_reach.induct)
  case (start s y)
  then show ?case by (simp add: race_inv_def race_inv_defs)
qed (simp_all add: race_inv_acquire race_inv_decide race_inv_served race_inv_answer race_inv_tick)

section \<open>Properties\<close>


lemma acquire_free:
  "kv_value (bnow s) (refresh_locks s) lk = None \<Longrightarrow>
   run_state (acquire_lock lk) s = (True, snd (run_state (acquire_lock lk) s))"
  by (simp add: run_acquire)

lemma load_ok:
  "session_live s (named client i) = Some y \<Longrightarrow> i \<noteq> [] \<Longrightarrow>
   run_state (loadSession client (Some i)) s = (Some y, s\<lparr>tenant_sessions :=
     snd (kv_get (bnow s) (named client i) (tenant_sessions s))\<rparr>)"
  by (auto simp: session_live_def loadSession_def run_bff_store named_def split: option.splits if_splits)

definition fx_spare :: provider_tokens where
  "fx_spare = \<lparr>pt_access = ''a2'', pt_expires_in = 300, pt_id = None, pt_refresh = ''r2''\<rparr>"

lemma fx_first_call:
  "\<exists>w :: nat race. race_reach bounded fx_tenant_client (fx_tenant_session 60) w \<and>
     phases w = (\<lambda>i. Outside)(0 := Calling 0 (fx_tenant_session 60)) \<and> spent w = [] \<and> bnow (world w) = 0 \<and>
     kv_view 0 (tenant_sessions (world w)) (named fx_tenant_client ''i'') = Some (fx_tenant_session 60, 600) \<and>
     kv_view 0 (refresh_locks (world w)) (lock_key fx_tenant_client (fx_tenant_session 60)) = Some (''1'', 10)"
proof -
  let ?x = "fx_tenant_session 60" and ?s = "fx_bff_state (fx_tenant_session 60)"
  let ?k = "named fx_tenant_client ''i''" and ?lk = "lock_key fx_tenant_client (fx_tenant_session 60)"
  have x: "tn_id ?x = ''i''" "key_of ?x = ?k" "needsRefresh ?x 0"
    by (simp_all add: fx_tenant_session_def key_of_def named_def fx_tenant_client_def needsRefresh_def
        ACCESS_TOKEN_REFRESH_MARGIN_SECONDS_def)
  have s: "bnow ?s = 0" "refresh_locks ?s = kv_empty"
    "kv_view 0 (tenant_sessions ?s) ?k = Some (?x, 600)"
    using x(2) by (simp_all add: fx_bff_state_def mem.set_view)
  let ?w0 = "\<lparr>world = ?s, phases = (\<lambda>i. Outside), spent = []\<rparr> :: nat race"
  have r0: "race_reach bounded fx_tenant_client ?x ?w0"
    by (rule race_reach.start [where y = "fx_tenant_session 60"]) (simp_all add: s x kv_value_def)
  let ?s1 = "snd (run_state (acquire_lock ?lk) ?s)"
  have a: "run_state (acquire_lock ?lk) (world ?w0) = (True, ?s1)"
    using acquire_free [of ?s ?lk] s by simp
  note s1 = acquired [OF a]
  let ?w1 = "?w0\<lparr>world := ?s1, phases := (phases ?w0)(0 := Holding (bnow (world ?w0)))\<rparr>"
  have r1: "race_reach bounded fx_tenant_client ?x ?w1"
    by (rule race_reach.acquire [OF r0 _ a]) simp
  have now1: "bnow ?s1 = 0" using s1 s by simp
  have live: "session_live ?s1 ?k = Some ?x"
    using fx_tenant_live [of 60] by (simp add: run_acquire)
  let ?s2 = "?s1\<lparr>tenant_sessions := snd (kv_get (bnow ?s1) ?k (tenant_sessions ?s1))\<rparr>"
  have l: "run_state (loadSession fx_tenant_client (Some (tn_id ?x))) (world ?w1) = (Some ?x, ?s2)"
    using load_ok [OF live] x by simp
  let ?w2 = "?w1\<lparr>world := ?s2, phases := (phases ?w1)(0 := Calling 0 ?x)\<rparr>"
  have r2: "race_reach bounded fx_tenant_client ?x ?w2"
    by (rule race_reach.decide [OF r1 _ l]) (simp_all add: s x now1)
  show ?thesis
    using r2 s s1 now1
    by (intro exI [of _ ?w2]) (simp add: mem.get_view REFRESH_LOCK_TTL_SECONDS_def)
qed

text \<open>
  Nothing bounds the provider's answer by the lock's ten seconds. When the answer is slower, the
  lock expires, a second request sends the same refresh token, and once the first answer is in, the
  call still in flight carries a spent token, which the authorization server answers by revoking
  the family.
\<close>

theorem slow_answer_spends_token_twice:
  "\<exists>(w :: nat race) t y. race_reach False fx_tenant_client (fx_tenant_session 60) w \<and>
     phases w 1 = Calling t y \<and> tn_refresh_token y \<in> set (spent w)"
proof -
  let ?x = "fx_tenant_session 60" and ?k = "named fx_tenant_client ''i''"
  let ?lk = "lock_key fx_tenant_client (fx_tenant_session 60)"
  have x: "tn_id ?x = ''i''" "tn_refresh_token ?x = ''r1''" "needsRefresh ?x 10"
    by (simp_all add: fx_tenant_session_def needsRefresh_def ACCESS_TOKEN_REFRESH_MARGIN_SECONDS_def)
  obtain w :: "nat race" where w: "race_reach False fx_tenant_client ?x w"
    "phases w = (\<lambda>i. Outside)(0 := Calling 0 ?x)" "spent w = []" "bnow (world w) = 0"
    and views: "kv_view 0 (tenant_sessions (world w)) ?k = Some (?x, 600)"
      "kv_view 0 (refresh_locks (world w)) ?lk = Some (''1'', 10)"
    using fx_first_call by blast
  let ?s3 = "(world w)\<lparr>bnow := bnow (world w) + 10\<rparr>"
  let ?w3 = "w\<lparr>world := ?s3\<rparr>"
  have r3: "race_reach False fx_tenant_client ?x ?w3"
    by (rule race_reach.tick [OF w(1)]) simp_all
  have stored: "kv_value 10 (tenant_sessions (world w)) ?k = Some ?x"
    using mem.view_ages [of 0 10 "tenant_sessions (world w)" ?k] views(1) by (simp add: kv_value_def)
  have free: "kv_value 10 (refresh_locks (world w)) ?lk = None"
    using mem.view_ages [of 0 10 "refresh_locks (world w)" ?lk] views(2) by (simp add: kv_value_def)
  let ?s4 = "snd (run_state (acquire_lock ?lk) ?s3)"
  have a: "run_state (acquire_lock ?lk) (world ?w3) = (True, ?s4)"
    using acquire_free [of ?s3 ?lk] free w(4) by simp
  let ?w4 = "?w3\<lparr>world := ?s4, phases := (phases ?w3)(1 := Holding (bnow (world ?w3)))\<rparr>"
  have r4: "race_reach False fx_tenant_client ?x ?w4"
    by (rule race_reach.acquire [OF r3 _ a]) (simp add: w)
  have now: "bnow ?s4 = 10" "tenant_sessions ?s4 = tenant_sessions (world w)"
    using acquired [OF a] w(4) by simp_all
  have live: "session_live ?s4 ?k = Some ?x"
    using stored now by (simp add: session_live_def isExpired_def remainingTtl_def tenant_expiry_def
        fx_tenant_session_def SESSION_IDLE_SECONDS_def SESSION_ABSOLUTE_SECONDS_def)
  let ?s5 = "?s4\<lparr>tenant_sessions := snd (kv_get (bnow ?s4) ?k (tenant_sessions ?s4))\<rparr>"
  have l: "run_state (loadSession fx_tenant_client (Some (tn_id ?x))) (world ?w4) = (Some ?x, ?s5)"
    using load_ok [OF live] x by simp
  let ?w5 = "?w4\<lparr>world := ?s5, phases := (phases ?w4)(1 := Calling (bnow (world ?w3)) ?x)\<rparr>"
  have r5: "race_reach False fx_tenant_client ?x ?w5"
    by (rule race_reach.decide [OF r4 _ l]) (simp_all add: x now)
  let ?w6 = "?w5\<lparr>world := snd (run_state (answer_and_release ?lk ?x (Inr fx_spare)) (world ?w5)),
      phases := (phases ?w5)(0 := Left), spent := spend (Inr fx_spare) (tn_refresh_token ?x) (spent ?w5)\<rparr>"
  have "race_reach False fx_tenant_client ?x ?w6"
    by (rule race_reach.answer [OF r5]) (simp_all add: w x fresh_answer_def fx_spare_def)
  moreover have "phases ?w6 1 = Calling (bnow (world ?w3)) ?x" "tn_refresh_token ?x \<in> set (spent ?w6)"
    by (simp_all add: spend_def)
  ultimately show ?thesis by blast
qed


end
