(* ===== verification/TenantSessions.thy ===== *)
theory TenantSessions
  imports ApiClient
begin

text \<open>
  packages/oidc-client/src/middleware.ts, and what the operations of session.ts keep of the tenant
  sessions: each is stored under the key of its tenant and id and listed under its sid for as long
  as it lives, which is what Back-Channel Logout relies on. \<open>tenant_reach\<close> are the states that
  whole requests lead to.
\<close>

section \<open>middleware.ts\<close>

record tenant_context =
  tx_client :: client_config
  tx_session :: "tenant_session option"
  tx_clear_cookie :: bool

definition load_and_touch ::
  "'y client_config_scheme \<Rightarrow> string option \<Rightarrow> ('n, tenant_session option) bff_m" where
  "load_and_touch client cookie = do {
     loaded \<leftarrow> loadSession client cookie;
     case loaded of
       None \<Rightarrow> State_Monad.return None
     | Some x \<Rightarrow> do { y \<leftarrow> touchSession x; State_Monad.return (Some y) }
   }"

text \<open>\<open>None\<close> is the answer of \<open>onUnknownHost\<close>.\<close>

definition tenantContext ::
  "('n, 'z) bff_env_scheme \<Rightarrow> string option \<Rightarrow> string option \<Rightarrow> ('n, tenant_context option) bff_m" where
  "tenantContext env host cookie =
     (case resolveClient env host of
        None \<Rightarrow> State_Monad.return None
      | Some client \<Rightarrow> do {
          x \<leftarrow> load_and_touch client cookie;
          State_Monad.return (Some \<lparr>tx_client = client, tx_session = x,
            tx_clear_cookie = (x = None \<and> cookie \<noteq> None)\<rparr>)
        })"

definition requireSession :: "tenant_session option \<Rightarrow> string \<Rightarrow> string option" where
  "requireSession x path =
     (if x = None then Some (''/auth/login?return_to='' @ encode_uri path) else None)"

section \<open>The invariant\<close>

definition session_ok :: "'n bff_state \<Rightarrow> string \<Rightarrow> tenant_session \<Rightarrow> seconds \<Rightarrow> bool" where
  "session_ok s k x e \<longleftrightarrow>
     k = key_of x \<and> valid_slug (tn_tenant_slug x) \<and>
     e = created_at x + SESSION_ABSOLUTE_SECONDS \<and> created_at x \<le> bnow s \<and>
     (\<forall>t. bnow s \<le> t \<and> t < e \<longrightarrow> k \<in> set (ss_elems t (sessions_by_sid s) (sidKey (tn_sid x))))"

definition tenant_inv :: "'n bff_state \<Rightarrow> bool" where
  "tenant_inv s = (\<forall>k x e. kv_view (bnow s) (tenant_sessions s) k = Some (x, e) \<longrightarrow> session_ok s k x e)"

lemma tenant_invI:
  "(\<And>k x e. kv_view (bnow s) (tenant_sessions s) k = Some (x, e) \<Longrightarrow> session_ok s k x e) \<Longrightarrow> tenant_inv s"
  by (simp add: tenant_inv_def)

lemma tenant_invD:
  "tenant_inv s \<Longrightarrow> kv_view (bnow s) (tenant_sessions s) k = Some (x, e) \<Longrightarrow> session_ok s k x e"
  by (simp add: tenant_inv_def)

lemma tenant_inv_part: "session_part s' = session_part s \<Longrightarrow> tenant_inv s' = tenant_inv s"
  by (simp add: session_part_def tenant_inv_def session_ok_def)

lemma sidKey_inj [simp]: "sidKey a = sidKey b \<longleftrightarrow> a = b"
  by (simp add: sidKey_def)

text \<open>The session store and the index after an operation, seen at the clock of the state.\<close>

lemma tenant_inv_tick:
  assumes "tenant_inv s" "0 \<le> d"
  shows "tenant_inv (s\<lparr>bnow := bnow s + d\<rparr>)"
proof (rule tenant_invI)
  fix k x e
  assume live: "kv_view (bnow (s\<lparr>bnow := bnow s + d\<rparr>)) (tenant_sessions (s\<lparr>bnow := bnow s + d\<rparr>)) k = Some (x, e)"
  then have "kv_view (bnow s) (tenant_sessions s) k = Some (x, e)"
    using mem.view_ages [of "bnow s" "bnow s + d" "tenant_sessions s" k] assms(2)
    by (auto split: option.splits if_splits)
  from tenant_invD [OF assms(1) this] show "session_ok (s\<lparr>bnow := bnow s + d\<rparr>) k x e"
    using assms(2) by (auto simp: session_ok_def)
qed

lemma destroy_session_run:
  "run_state (destroySession x) s =
     ((), s\<lparr>tenant_sessions := kv_delete (key_of x) (tenant_sessions s),
            sessions_by_sid := ss_remove (bnow s) (sidKey (tn_sid x)) (key_of x) (sessions_by_sid s)\<rparr>)"
  by (simp add: destroySession_def run_bff_store)

lemma tenant_inv_destroy:
  assumes "tenant_inv s"
  shows "tenant_inv (snd (run_state (destroySession x) s))"
proof (rule tenant_invI)
  let ?s = "snd (run_state (destroySession x) s)"
  fix k y e
  assume "kv_view (bnow ?s) (tenant_sessions ?s) k = Some (y, e)"
  then have live: "kv_view (bnow s) (tenant_sessions s) k = Some (y, e)" "k \<noteq> key_of x"
    by (auto simp: destroy_session_run mem.del_view split: if_splits)
  have "session_ok s k y e" by (rule tenant_invD [OF assms live(1)])
  then show "session_ok ?s k y e"
    using live(2) by (auto simp: session_ok_def destroy_session_run mem_set.rem_elems)
qed

lemma load_run:
  "snd (run_state (loadSession client cookie) s) = s\<lparr>tenant_sessions := m\<rparr> \<Longrightarrow>
   kv_view (bnow s) m = kv_view (bnow s) (tenant_sessions s) \<Longrightarrow> tenant_inv s \<Longrightarrow>
   tenant_inv (snd (run_state (loadSession client cookie) s))"
  by (simp add: tenant_inv_def session_ok_def)

lemma tenant_inv_get:
  "tenant_inv (s\<lparr>tenant_sessions := snd (kv_get (bnow s) k (tenant_sessions s))\<rparr>) = tenant_inv s"
  by (simp add: tenant_inv_def session_ok_def mem.get_view)

lemma tenant_inv_load:
  assumes "tenant_inv s"
  shows "tenant_inv (snd (run_state (loadSession client cookie) s))"
  using assms
  by (auto simp: loadSession_def run_bff_store case_prod_beta tenant_inv_get
      split: option.split intro!: tenant_inv_destroy)

lemma save_run:
  "run_state (saveSession x) s =
     (x\<lparr>last_seen_at := bnow s\<rparr>,
      s\<lparr>tenant_sessions := kv_set (bnow s) (key_of x) (x\<lparr>last_seen_at := bnow s\<rparr>)
          (created_at x + SESSION_ABSOLUTE_SECONDS - bnow s) (tenant_sessions s)\<rparr>)"
  by (simp add: saveSession_def Let_def run_bff_store remainingTtl_def tenant_expiry_def key_of_def)

text \<open>Saving a new content of a stored session keeps the invariant.\<close>

lemma tenant_inv_save:
  assumes inv: "tenant_inv s" and live: "kv_view (bnow s) (tenant_sessions s) (key_of y) = Some (y, e)"
    and same: "key_of x = key_of y" "tn_sid x = tn_sid y" "created_at x = created_at y"
      "tn_tenant_slug x = tn_tenant_slug y"
  shows "tenant_inv (snd (run_state (saveSession x) s))"
proof (rule tenant_invI)
  let ?s = "snd (run_state (saveSession x) s)"
  fix k z e'
  assume view: "kv_view (bnow ?s) (tenant_sessions ?s) k = Some (z, e')"
  have ok: "session_ok s (key_of y) y e" by (rule tenant_invD [OF inv live])
  show "session_ok ?s k z e'"
  proof (cases "k = key_of x")
    case True
    then have "z = x\<lparr>last_seen_at := bnow s\<rparr>" "e' = created_at x + SESSION_ABSOLUTE_SECONDS"
      using view by (auto simp: save_run mem.set_view split: if_splits)
    then show ?thesis
      using ok True same by (auto simp: session_ok_def save_run key_of_def)
  next
    case False
    then have "kv_view (bnow s) (tenant_sessions s) k = Some (z, e')"
      using view by (simp add: save_run mem.set_view)
    from tenant_invD [OF inv this] show ?thesis by (auto simp: session_ok_def save_run)
  qed
qed

lemma tenant_inv_touch:
  assumes inv: "tenant_inv s" and stored: "kv_value (bnow s) (tenant_sessions s) (key_of x) \<noteq> None"
  shows "tenant_inv (snd (run_state (touchSession x) s))"
proof (cases "shouldTouch x (bnow s)")
  case True
  obtain y e where y: "kv_view (bnow s) (tenant_sessions s) (key_of x) = Some (y, e)"
    using stored by (auto simp: kv_value_def)
  have key: "key_of y = key_of x" using tenant_invD [OF inv y] by (simp add: session_ok_def)
  let ?s = "s\<lparr>tenant_sessions := snd (kv_get (bnow s) (key_of x) (tenant_sessions s))\<rparr>"
  have "tenant_inv (snd (run_state (saveSession y) ?s))"
  proof (rule tenant_inv_save)
    show "tenant_inv ?s" using inv by (simp only: tenant_inv_get)
    show "kv_view (bnow ?s) (tenant_sessions ?s) (key_of y) = Some (y, e)"
      using y key by (simp add: mem.get_view)
  qed simp_all
  then show ?thesis
    using True y by (simp add: touchSession_def run_bff_store case_prod_beta kv_value_def)
qed (simp add: touchSession_def inv)

lemma tenant_inv_create:
  assumes inv: "tenant_inv s" and slug: "valid_slug (cl_tenant_slug (ns_client i))"
  shows "tenant_inv (snd (run_state (createSession env i) s))"
proof (rule tenant_invI)
  let ?s = "snd (run_state (createSession env i) s)"
  let ?x = "fst (run_state (createSession env i) s)"
  have x: "created_at ?x = bnow s" "tn_tenant_slug ?x = cl_tenant_slug (ns_client i)"
    and s: "bnow ?s = bnow s"
      "tenant_sessions ?s = kv_set (bnow s) (key_of ?x) ?x SESSION_ABSOLUTE_SECONDS (tenant_sessions s)"
      "sessions_by_sid ?s = ss_add (bnow s) (sidKey (tn_sid ?x)) (key_of ?x) SESSION_ABSOLUTE_SECONDS
         (sessions_by_sid s)"
    by (simp_all add: createSession_def Let_def run_bff_store run_bff_token)
  fix k y e
  assume view: "kv_view (bnow ?s) (tenant_sessions ?s) k = Some (y, e)"
  show "session_ok ?s k y e"
  proof (cases "k = key_of ?x")
    case True
    then have y: "y = ?x" "e = bnow s + SESSION_ABSOLUTE_SECONDS"
      using view unfolding s by (auto simp: mem.set_view split: if_splits)
    have "key_of ?x \<in> set (ss_elems t (sessions_by_sid ?s) (sidKey (tn_sid ?x)))"
      if "bnow s \<le> t" "t < e" for t
      using that y(2) unfolding s by (simp add: mem_set.add_elems js_set_add_def)
    then show ?thesis using y True x slug s(1) by (simp add: session_ok_def)
  next
    case False
    then have "kv_view (bnow s) (tenant_sessions s) k = Some (y, e)"
      using view unfolding s by (simp add: mem.set_view)
    from tenant_invD [OF inv this] have ok: "session_ok s k y e" .
    have "k \<in> set (ss_elems t (sessions_by_sid ?s) (sidKey (tn_sid y)))" if "bnow s \<le> t" "t < e" for t
    proof -
      have "t < bnow s + SESSION_ABSOLUTE_SECONDS" "bnow s < e" using ok that by (auto simp: session_ok_def)
      then show ?thesis
        using ok that unfolding s by (auto simp: session_ok_def mem_set.add_elems js_set_add_def)
    qed
    then show ?thesis using ok s(1) by (simp add: session_ok_def)
  qed
qed

lemma tenant_inv_refresh:
  assumes inv: "tenant_inv s" and live: "kv_value (bnow s) (tenant_sessions s) (key_of x) = Some x"
  shows "tenant_inv (snd (run_state (refresh_answer x answer) s))"
proof -
  obtain e where e: "kv_view (bnow s) (tenant_sessions s) (key_of x) = Some (x, e)"
    using live by (auto simp: kv_value_def)
  have "tenant_inv (snd (run_state (saveSession (renewed x tokens t)) s))" for tokens t
    by (rule tenant_inv_save [OF inv e]) (simp_all add: renewed_def key_of_def)
  then show ?thesis
    using inv tenant_inv_destroy [OF inv]
    by (auto simp: refresh_answer_def case_prod_beta split: sum.split provider_error.split)
qed

lemma delete_keys_run:
  "snd (run_state (mapM_unit (\<lambda>k. bff_store tenant_sessions tenant_sessions_update (quiet (\<lambda>_. kv_delete k))) ks) s) =
     s\<lparr>tenant_sessions := fold kv_delete ks (tenant_sessions s)\<rparr>"
  by (induction ks arbitrary: s) (simp_all add: run_bff_store case_prod_beta)

lemma view_delete_keys:
  "kv_view t (fold kv_delete ks m) = (\<lambda>k. if k \<in> set ks then None else kv_view t m k)"
  by (induction ks arbitrary: m) (auto simp: mem.del_view fun_eq_iff)

lemma backchannel_run:
  "fst (run_state (destroySessionsBySid sid) s) = length (ss_elems (bnow s) (sessions_by_sid s) (sidKey sid))"
  "bnow (snd (run_state (destroySessionsBySid sid) s)) = bnow s"
  "kv_view t (tenant_sessions (snd (run_state (destroySessionsBySid sid) s))) =
     (\<lambda>k. if k \<in> set (ss_elems (bnow s) (sessions_by_sid s) (sidKey sid)) then None
          else kv_view t (tenant_sessions s) k)"
  "bnow s \<le> t \<Longrightarrow> ss_elems t (sessions_by_sid (snd (run_state (destroySessionsBySid sid) s))) =
     (ss_elems t (sessions_by_sid s))(sidKey sid := [])"
  by (simp_all add: destroySessionsBySid_def run_bff_store case_prod_beta delete_keys_run view_delete_keys
      mem_set.drop_elems mem_set.mems_elems)

lemma indexed:
  assumes "tenant_inv s" "kv_view (bnow s) (tenant_sessions s) k = Some (x, e)"
  shows "k \<in> set (ss_elems (bnow s) (sessions_by_sid s) (sidKey (tn_sid x)))"
  using tenant_invD [OF assms] mem.live_bound [OF assms(2)] by (auto simp: session_ok_def)

lemma tenant_inv_backchannel:
  assumes "tenant_inv s"
  shows "tenant_inv (snd (run_state (destroySessionsBySid sid) s))"
proof (rule tenant_invI)
  fix k x e
  assume "kv_view (bnow (snd (run_state (destroySessionsBySid sid) s)))
      (tenant_sessions (snd (run_state (destroySessionsBySid sid) s))) k = Some (x, e)"
  then have live: "kv_view (bnow s) (tenant_sessions s) k = Some (x, e)"
    and out: "k \<notin> set (ss_elems (bnow s) (sessions_by_sid s) (sidKey sid))"
    by (auto simp: backchannel_run split: if_splits)
  have "tn_sid x \<noteq> sid" using indexed [OF assms live] out by auto
  then show "session_ok (snd (run_state (destroySessionsBySid sid) s)) k x e"
    using tenant_invD [OF assms live] by (auto simp: session_ok_def backchannel_run)
qed

section \<open>Reachable states\<close>

text \<open>
  The handlers that touch the sessions, each run to its end: a request with any cookie, the callback's
  new session, the answer to a refresh of a stored session, a logout, a Back-Channel Logout, and
  everything else the process does (provider calls, locks, time).
\<close>

inductive tenant_reach :: "'n bff_state \<Rightarrow> bool" where
  start: "tenant_sessions s = kv_empty \<Longrightarrow> tenant_reach s"
| tick: "tenant_reach s \<Longrightarrow> 0 \<le> d \<Longrightarrow> tenant_reach (s\<lparr>bnow := bnow s + d\<rparr>)"
| request: "tenant_reach s \<Longrightarrow>
    tenant_reach (snd (run_state (load_and_touch (client :: client_config) cookie) s))"
| login: "tenant_reach s \<Longrightarrow> valid_slug (cl_tenant_slug (ns_client i)) \<Longrightarrow>
    tenant_reach (snd (run_state (createSession (env :: 'n bff_env) i) s))"
| renew: "tenant_reach s \<Longrightarrow> kv_value (bnow s) (tenant_sessions s) (key_of x) = Some x \<Longrightarrow>
    tenant_reach (snd (run_state (refresh_answer x answer) s))"
| logout: "tenant_reach s \<Longrightarrow> tenant_reach (snd (run_state (destroySession x) s))"
| backchannel: "tenant_reach s \<Longrightarrow> tenant_reach (snd (run_state (destroySessionsBySid sid) s))"
| elsewhere: "tenant_reach s \<Longrightarrow> bnow s' = bnow s \<Longrightarrow> tenant_sessions s' = tenant_sessions s \<Longrightarrow>
    sessions_by_sid s' = sessions_by_sid s \<Longrightarrow> tenant_reach s'"

lemma live_stored:
  "session_live s k = Some x \<Longrightarrow> kv_value (bnow s) (tenant_sessions s) k = Some x"
  by (auto simp: session_live_def split: option.splits if_splits)

lemma load_keeps_views:
  assumes "fst (run_state (loadSession client cookie) s) = Some x"
  shows "kv_value (bnow s) (tenant_sessions (snd (run_state (loadSession client cookie) s))) =
    kv_value (bnow s) (tenant_sessions s)"
  using assms
  by (auto simp: loadSession_def run_bff_store case_prod_beta split: option.splits if_splits)

lemma tenant_inv_request:
  assumes inv: "tenant_inv s"
  shows "tenant_inv (snd (run_state (load_and_touch client cookie) s))"
proof (cases "fst (run_state (loadSession client cookie) s)")
  case None
  then show ?thesis by (simp add: load_and_touch_def case_prod_beta tenant_inv_load [OF inv])
next
  case (Some x)
  let ?s = "snd (run_state (loadSession client cookie) s)"
  obtain i where i: "cookie = Some i" "session_live s (named client i) = Some x"
    using Some by (cases cookie) (auto split: if_splits)
  have stored: "kv_value (bnow s) (tenant_sessions s) (named client i) = Some x"
    by (rule live_stored [OF i(2)])
  then have "named client i = key_of x"
    using tenant_invD [OF inv, of "named client i" x] by (auto simp: session_ok_def kv_value_def)
  then have "kv_value (bnow ?s) (tenant_sessions ?s) (key_of x) \<noteq> None"
    using stored load_keeps_views [OF Some] by (simp add: load_session_frame)
  from tenant_inv_touch [OF tenant_inv_load [OF inv] this] show ?thesis
    using Some by (simp add: load_and_touch_def case_prod_beta)
qed

lemma reach_inv: "tenant_reach s \<Longrightarrow> tenant_inv s"
proof (induction rule: tenant_reach.induct)
  case (start s)
  then show ?case by (simp add: tenant_inv_def kv_view_def kv_empty_def)
next
  case (elsewhere s s')
  then show ?case by (simp add: tenant_inv_def session_ok_def)
qed (simp_all add: tenant_inv_tick tenant_inv_request tenant_inv_create tenant_inv_refresh
       tenant_inv_destroy tenant_inv_backchannel)

section \<open>Properties\<close>

lemma sessionKey_inj:
  assumes "valid_slug a" "valid_slug b" "sessionKey a i = sessionKey b j"
  shows "a = b \<and> i = j"
proof -
  have colon: "CHR '':'' \<notin> set c" if "valid_slug c" for c
    using valid_slug_chars [OF that] by (auto simp: list_all_iff slug_alnum_def char_between_def)
  have slug: "takeWhile (\<lambda>d. d \<noteq> CHR '':'') (sessionKey c l) = c" if "valid_slug c" for c l
    using colon [OF that] by (induction c) (auto simp: sessionKey_def)
  have "a = b" using arg_cong [OF assms(3), of "takeWhile (\<lambda>d. d \<noteq> CHR '':'')"] slug assms(1,2) by simp
  then show ?thesis using assms(3) by (simp add: sessionKey_def)
qed

lemma request_result:
  assumes inv: "tenant_inv s" and y: "fst (run_state (load_and_touch client cookie) s) = Some y"
  shows "\<exists>i. cookie = Some i \<and> key_of y = named client i \<and> valid_slug (tn_tenant_slug y)"
proof -
  let ?s = "snd (run_state (loadSession client cookie) s)"
  obtain x where x: "fst (run_state (loadSession client cookie) s) = Some x"
    using y by (auto simp: load_and_touch_def case_prod_beta split: option.splits)
  obtain i where i: "cookie = Some i" "session_live s (named client i) = Some x"
    using x by (cases cookie) (auto split: if_splits)
  have inv1: "tenant_inv ?s" by (rule tenant_inv_load [OF inv])
  have val: "kv_value (bnow ?s) (tenant_sessions ?s) (named client i) = Some x"
    using live_stored [OF i(2)] load_keeps_views [OF x] by (simp add: load_session_frame)
  have ok: "named client i = key_of x \<and> valid_slug (tn_tenant_slug x)"
    using tenant_invD [OF inv1, of "named client i" x] val by (auto simp: session_ok_def kv_value_def)
  have "y = fst (run_state (touchSession x) ?s)"
    using y x by (simp add: load_and_touch_def case_prod_beta)
  then have "y = x \<or> y = x\<lparr>last_seen_at := bnow ?s\<rparr>"
    using val ok by (auto simp: touchSession_def run_bff_store save_run case_prod_beta)
  then show ?thesis using ok i(1) by (auto simp: key_of_def)
qed

text \<open>
  C14: A cookie opens only a session of the tenant whose host the request came to: the session a
  request gets has that tenant's slug and the cookie's value as its id, so a cookie copied to
  another tenant's host names nothing there.
\<close>

theorem cookie_stays_in_tenant:
  assumes "tenant_reach s" "valid_slug (cl_tenant_slug client)"
    and "fst (run_state (load_and_touch client cookie) s) = Some y"
  shows "tn_tenant_slug y = cl_tenant_slug client \<and> cookie = Some (tn_id y)"
  using request_result [OF reach_inv [OF assms(1)] assms(3)] assms(2) sessionKey_inj
  by (auto simp: key_of_def named_def)

text \<open>
  C13: Back-Channel Logout is complete: in every state that whole requests reach, once the sid's
  sessions are destroyed no session of that sid is stored, in any tenant, now or later, and every
  session not listed under the sid is kept.
\<close>

theorem backchannel_logout_complete:
  fixes sid and s :: "'n bff_state"
  assumes "tenant_reach s" "bnow s \<le> t"
  defines "s' \<equiv> snd (run_state (destroySessionsBySid sid) s)"
  shows "(\<forall>k x. kv_value t (tenant_sessions s') k = Some x \<longrightarrow> tn_sid x \<noteq> sid) \<and>
    (\<forall>k. k \<notin> set (ss_elems (bnow s) (sessions_by_sid s) (sidKey sid)) \<longrightarrow>
      kv_value t (tenant_sessions s') k = kv_value t (tenant_sessions s) k)"
proof -
  have view: "kv_value t (tenant_sessions s') k =
      (if k \<in> set (ss_elems (bnow s) (sessions_by_sid s) (sidKey sid)) then None
       else kv_value t (tenant_sessions s) k)" for k
    by (simp add: kv_value_def s'_def backchannel_run)
  have "tn_sid x \<noteq> sid" if live: "kv_value t (tenant_sessions s') k = Some x" for k x
  proof -
    have out: "k \<notin> set (ss_elems (bnow s) (sessions_by_sid s) (sidKey sid))"
      and stored: "kv_value t (tenant_sessions s) k = Some x"
      using live view by (auto split: if_splits)
    then have "kv_value (bnow s) (tenant_sessions s) k = Some x"
      using kv_value_ages [OF assms(2), of "tenant_sessions s" k] by simp
    then obtain e where "kv_view (bnow s) (tenant_sessions s) k = Some (x, e)"
      by (auto simp: kv_value_def)
    from indexed [OF reach_inv [OF assms(1)] this] out show ?thesis by auto
  qed
  then show ?thesis using view by simp
qed

text \<open>
  A request that loaded its session before a Back-Channel Logout and touches it after undoes the
  logout: the session is stored again, alive, and no longer listed under its sid, so a second
  Back-Channel Logout for the sid does not find it.
\<close>

theorem touch_revives_revoked_session:
  assumes "tenant_reach s" "session_live s (key_of x) = Some x" "shouldTouch x (bnow s)"
  defines "s1 \<equiv> snd (run_state (destroySessionsBySid (tn_sid x)) s)"
    and "s2 \<equiv> snd (run_state (touchSession x) (snd (run_state (destroySessionsBySid (tn_sid x)) s)))"
  shows "session_live s1 (key_of x) = None \<and>
    session_live s2 (key_of x) = Some (x\<lparr>last_seen_at := bnow s\<rparr>) \<and>
    session_live (snd (run_state (destroySessionsBySid (tn_sid x)) s2)) (key_of x) =
      Some (x\<lparr>last_seen_at := bnow s\<rparr>)"
proof -
  obtain e where e: "kv_view (bnow s) (tenant_sessions s) (key_of x) = Some (x, e)"
    using live_stored [OF assms(2)] by (auto simp: kv_value_def)
  have gone: "kv_value (bnow s) (tenant_sessions s1) (key_of x) = None"
    using indexed [OF reach_inv [OF assms(1)] e] by (simp add: kv_value_def s1_def backchannel_run)
  have now: "bnow s1 = bnow s" by (simp add: s1_def backchannel_run)
  have left: "\<not> remainingTtl tenant_expiry x (bnow s) \<le> 0"
    using assms(2) by (auto simp: session_live_def isExpired_def split: option.splits if_splits)
  let ?y = "x\<lparr>last_seen_at := bnow s\<rparr>"
  have s2: "s2 = snd (run_state (saveSession x)
      (s1\<lparr>tenant_sessions := snd (kv_get (bnow s) (key_of x) (tenant_sessions s1))\<rparr>))"
    using gone now assms(3)
    by (simp add: s2_def s1_def [symmetric] touchSession_def run_bff_store case_prod_beta)
  have alive: "\<not> isExpired tenant_expiry ?y (bnow s)"
    using left by (simp add: isExpired_def remainingTtl_def tenant_expiry_def SESSION_IDLE_SECONDS_def)
  have stored: "kv_value (bnow s) (tenant_sessions s2) (key_of x) = Some ?y"
    "bnow s2 = bnow s" "sessions_by_sid s2 = sessions_by_sid s1"
    using left now by (simp_all add: s2 save_run remainingTtl_def tenant_expiry_def)
  have unlisted: "ss_elems (bnow s) (sessions_by_sid s1) (sidKey (tn_sid x)) = []"
    by (simp add: s1_def backchannel_run)
  have "kv_value (bnow s) (tenant_sessions (snd (run_state (destroySessionsBySid (tn_sid x)) s2))) (key_of x) = Some ?y"
    using stored unlisted by (simp add: kv_value_def backchannel_run)
  then show ?thesis
    using gone now stored alive by (simp add: session_live_def backchannel_run)
qed

section \<open>Witnesses\<close>

definition fx_new_session :: new_session_input where
  "fx_new_session = \<lparr>ns_client = fx_tenant_client, ns_user = ''u1'', ns_tenant = ''t1'', ns_sid = ''sid1'',
     ns_email = None, ns_name = None,
     ns_tokens = \<lparr>pt_access = ''a1'', pt_expires_in = 300, pt_id = None, pt_refresh = ''r1''\<rparr>\<rparr>"

definition fx_blank :: "nat bff_state" where
  "fx_blank = (fx_bff_state (fx_tenant_session 300))
     \<lparr>tenant_sessions := kv_empty, sessions_by_sid := ss_empty\<rparr>"

definition fx_created :: "tenant_session \<times> nat bff_state" where
  "fx_created = run_state (createSession fx_renewing fx_new_session) fx_blank"

definition fx_later :: "nat bff_state" where
  "fx_later = (snd fx_created)\<lparr>bnow := bnow (snd fx_created) + 60\<rparr>"

lemma fx_slug: "valid_slug ''acme''" by code_simp

lemma fx_later_reach: "tenant_reach fx_later"
proof -
  have "tenant_reach fx_blank" by (rule tenant_reach.start) (simp add: fx_blank_def)
  then have "tenant_reach (snd fx_created)"
    unfolding fx_created_def
    by (rule tenant_reach.login) (simp add: fx_new_session_def fx_tenant_client_def fx_slug)
  then show ?thesis unfolding fx_later_def by (rule tenant_reach.tick) simp
qed

lemma fx_created_session:
  "created_at (fst fx_created) = 0" "last_seen_at (fst fx_created) = 0"
  "tn_tenant_slug (fst fx_created) = ''acme''" "tn_id (fst fx_created) = randomToken [0]"
  "tn_sid (fst fx_created) = ''sid1''"
  by (simp_all add: fx_created_def createSession_def Let_def run_bff_store run_bff_token fx_blank_def
      fx_bff_state_def fx_new_session_def fx_tenant_client_def fx_renewing_def fx_bff_def)

lemma fx_later_state:
  "bnow fx_later = 60"
  "tenant_sessions fx_later =
     kv_set 0 (key_of (fst fx_created)) (fst fx_created) SESSION_ABSOLUTE_SECONDS kv_empty"
  by (simp_all add: fx_later_def fx_created_def createSession_def Let_def run_bff_store run_bff_token
      fx_blank_def fx_bff_state_def)

lemma fx_later_live: "session_live fx_later (key_of (fst fx_created)) = Some (fst fx_created)"
proof -
  have "kv_value 60 (tenant_sessions fx_later) (key_of (fst fx_created)) = Some (fst fx_created)"
    by (simp add: fx_later_state kv_value_def mem.set_view [of 0] SESSION_ABSOLUTE_SECONDS_def)
  then show ?thesis
    by (simp add: session_live_def fx_later_state isExpired_def remainingTtl_def tenant_expiry_def
        fx_created_session SESSION_ABSOLUTE_SECONDS_def SESSION_IDLE_SECONDS_def)
qed

theorem touch_revives_revoked_session_witness:
  "session_live (snd (run_state (touchSession (fst fx_created))
      (snd (run_state (destroySessionsBySid (tn_sid (fst fx_created))) fx_later)))) (key_of (fst fx_created)) =
     Some ((fst fx_created)\<lparr>last_seen_at := bnow fx_later\<rparr>)"
  using touch_revives_revoked_session [OF fx_later_reach fx_later_live]
  by (simp add: shouldTouch_def fx_later_state fx_created_session TOUCH_INTERVAL_SECONDS_def)

theorem backchannel_logout_complete_witness:
  "\<not> (\<exists>k x. kv_value 100 (tenant_sessions (snd (run_state (destroySessionsBySid ''sid1'') fx_later))) k = Some x \<and>
      tn_sid x = ''sid1'') \<and>
   \<not> (\<exists>k. k \<notin> set (ss_elems (bnow fx_later) (sessions_by_sid fx_later) (sidKey ''sid1'')) \<and>
      kv_value 100 (tenant_sessions (snd (run_state (destroySessionsBySid ''sid1'') fx_later))) k \<noteq>
      kv_value 100 (tenant_sessions fx_later) k)"
proof -
  have "bnow fx_later \<le> 100" by (simp add: fx_later_state)
  from backchannel_logout_complete [OF fx_later_reach this, of "''sid1''"] show ?thesis by blast
qed

lemma fx_cookie: "fst (run_state (load_and_touch fx_tenant_client (Some (randomToken [0]))) fx_later) =
    Some ((fst fx_created)\<lparr>last_seen_at := 60\<rparr>)"
proof -
  have "named fx_tenant_client (randomToken [0]) = key_of (fst fx_created)"
    by (simp add: named_def key_of_def fx_tenant_client_def fx_created_session)
  moreover have "randomToken [0] \<noteq> []" by code_simp
  ultimately have loaded: "fst (run_state (loadSession fx_tenant_client (Some (randomToken [0]))) fx_later) =
      Some (fst fx_created)"
    using fx_later_live by simp
  then have stored: "kv_value 60 (tenant_sessions (snd (run_state (loadSession fx_tenant_client
      (Some (randomToken [0]))) fx_later))) (key_of (fst fx_created)) = Some (fst fx_created)"
    using load_keeps_views [OF loaded] live_stored [OF fx_later_live]
    by (simp add: load_session_frame fx_later_state)
  show ?thesis
    using loaded stored
    by (simp add: load_and_touch_def case_prod_beta touchSession_def run_bff_store save_run load_session_frame
        fx_later_state shouldTouch_def fx_created_session TOUCH_INTERVAL_SECONDS_def)
qed

theorem cookie_stays_in_tenant_witness:
  "tn_tenant_slug ((fst fx_created)\<lparr>last_seen_at := 60\<rparr>) = cl_tenant_slug fx_tenant_client \<and>
   Some (randomToken [0]) = Some (tn_id ((fst fx_created)\<lparr>last_seen_at := 60\<rparr>))"
  by (rule cookie_stays_in_tenant [OF fx_later_reach _ fx_cookie]) (simp add: fx_tenant_client_def fx_slug)

end
