(* ===== verification/BffRoutes.thy ===== *)
theory BffRoutes
  imports TenantSessions
begin

text \<open>
  packages/oidc-client/src/cookies.ts and routes.ts: login, callback, logout and Back-Channel Logout of
  a service's backend-for-frontend. A handler returns its reply and the cookies it sets; the texts of
  the error pages are kept as the page they stand for.
\<close>

section \<open>cookies.ts\<close>

datatype cookie_op = Set_cookie string string cookie_attributes | Delete_cookie string string bool

definition PRE_AUTH_PATH :: string where "PRE_AUTH_PATH = ''/auth''"

definition sessionCookieName :: "('n, 'z) bff_env_scheme \<Rightarrow> string" where
  "sessionCookieName env = cookieName COOKIE_SESSION Host_scope (cookie_policy_secure env)"

definition preAuthCookieName :: "('n, 'z) bff_env_scheme \<Rightarrow> string" where
  "preAuthCookieName env = cookieName COOKIE_PRE_AUTH Path_scope (cookie_policy_secure env)"

definition writeSessionCookie :: "('n, 'z) bff_env_scheme \<Rightarrow> string \<Rightarrow> cookie_op" where
  "writeSessionCookie env i =
     Set_cookie (sessionCookieName env) i (sessionCookieAttributes (cookie_policy_secure env))"

definition clearSessionCookie :: "('n, 'z) bff_env_scheme \<Rightarrow> cookie_op" where
  "clearSessionCookie env = Delete_cookie (sessionCookieName env) ''/'' (cookie_policy_secure env)"

definition writePreAuthCookie :: "('n, 'z) bff_env_scheme \<Rightarrow> string \<Rightarrow> cookie_op" where
  "writePreAuthCookie env i = Set_cookie (preAuthCookieName env) i
     (shortLivedCookieAttributes (cookie_policy_secure env) PRE_AUTH_PATH PRE_AUTH_TTL_SECONDS)"

definition clearPreAuthCookie :: "('n, 'z) bff_env_scheme \<Rightarrow> cookie_op" where
  "clearPreAuthCookie env = Delete_cookie (preAuthCookieName env) PRE_AUTH_PATH (cookie_policy_secure env)"

section \<open>routes.ts\<close>

datatype error_page =
  Retry_login | Temporary_error | Login_failed | Not_contracted_page string string | Suspended_page
| No_access_page string | Reload_page

text \<open>\<open>Redirect_with u ps\<close> is the URL \<open>u\<close> with its search parameters \<open>ps\<close> set in order.\<close>

datatype reply =
  Redirect string | Redirect_with string "(string \<times> string) list" | Page error_page nat | Plain nat

type_synonym bff_reply = "reply \<times> cookie_op list"

definition preAuthKey :: "'y client_config_scheme \<Rightarrow> string \<Rightarrow> string" where
  "preAuthKey client i = cl_tenant_slug client @ '':'' @ i"

definition authorization_params ::
  "('n, 'z) bff_env_scheme \<Rightarrow> 'y client_config_scheme \<Rightarrow> pre_auth_state \<Rightarrow> (string \<times> string) list" where
  "authorization_params env client p =
     [(''response_type'', ''code''), (''client_id'', sv_client_id client),
      (''redirect_uri'', cl_redirect_uri client), (''scope'', join_with '' '' (sv_scopes client)),
      (''state'', pa_state p), (''nonce'', pa_nonce p),
      (''code_challenge'', computeCodeChallenge (b_sha256 env) (pa_code_verifier p)),
      (''code_challenge_method'', ''S256'')]"

definition auth_login ::
  "('n, 'z) bff_env_scheme \<Rightarrow> 'y client_config_scheme \<Rightarrow> string option \<Rightarrow> ('n, bff_reply) bff_m" where
  "auth_login env client return_to = do {
     d \<leftarrow> getDiscovery env;
     case d of
       Inl _ \<Rightarrow> State_Monad.return (Page Temporary_error 503, [])
     | Inr doc \<Rightarrow> do {
         i \<leftarrow> bff_token env;
         verifier \<leftarrow> bff_token env;
         st \<leftarrow> bff_token env;
         nonce \<leftarrow> bff_token env;
         let p = \<lparr>pa_state = st, pa_nonce = nonce, pa_code_verifier = verifier,
                  pa_return_to = sanitizeReturnTo return_to\<rparr>;
         _ \<leftarrow> pre_auth_store (quiet (\<lambda>t. kv_set t (preAuthKey client i) p PRE_AUTH_TTL_SECONDS));
         State_Monad.return (Redirect_with (di_authorization doc) (authorization_params env client p),
           [writePreAuthCookie env i])
       }
   }"

record callback_query =
  cq_state :: "string option"
  cq_iss :: "string option"
  cq_error :: "string option"
  cq_error_description :: "string option"
  cq_code :: "string option"

definition renderAuthorizationError ::
  "'y client_config_scheme \<Rightarrow> string \<Rightarrow> string option \<Rightarrow> reply" where
  "renderAuthorizationError client err description =
     (if err \<noteq> ''access_denied'' then Page Login_failed 400
      else (case description of
        Some d \<Rightarrow>
          if isAccessDeniedReason d \<and> d = ''not_contracted''
          then Page (Not_contracted_page (cl_tenant_slug client) (sv_name client)) 403
          else if isAccessDeniedReason d \<and> d = ''tenant_suspended'' then Page Suspended_page 403
          else Page (No_access_page (cl_tenant_slug client)) 403
      | None \<Rightarrow> Page (No_access_page (cl_tenant_slug client)) 403))"

definition renderTokenError :: "provider_error \<Rightarrow> reply" where
  "renderTokenError e =
     (case e of Invalid_grant \<Rightarrow> Page Retry_login 401 | Invalid_client \<Rightarrow> Page Temporary_error 500
      | _ \<Rightarrow> Page Temporary_error 503)"

definition take_pre_auth ::
  "'y client_config_scheme \<Rightarrow> string option \<Rightarrow> ('n, pre_auth_state option) bff_m" where
  "take_pre_auth client cookie =
     (case cookie of None \<Rightarrow> State_Monad.return None
      | Some i \<Rightarrow> pre_auth_store (\<lambda>t. kv_get_and_delete t (preAuthKey client i)))"

text \<open>The end of the callback: the old session of the browser is destroyed, a new one created.\<close>

definition establish_session ::
  "('n, 'z) bff_env_scheme \<Rightarrow> client_config \<Rightarrow> string option \<Rightarrow> provider_tokens \<Rightarrow> json \<Rightarrow> string \<Rightarrow>
   string \<Rightarrow> string \<Rightarrow> ('n, tenant_session) bff_m" where
  "establish_session env client session_cookie tokens payload sub sid tid = do {
     existing \<leftarrow> loadSession client session_cookie;
     _ \<leftarrow> (case existing of Some x \<Rightarrow> destroySession x | None \<Rightarrow> State_Monad.return ());
     createSession env \<lparr>ns_client = client, ns_user = sub, ns_tenant = tid, ns_sid = sid,
       ns_email = json_string (json_field ''email'' payload),
       ns_name = json_string (json_field ''name'' payload), ns_tokens = tokens\<rparr>
   }"

definition session_claims :: "json \<Rightarrow> (string \<times> string \<times> string) option" where
  "session_claims payload =
     (case (json_string (json_field ''sub'' payload), json_string (json_field ''sid'' payload),
            json_string (json_field ''tenant_id'' payload)) of
        (Some sub, Some sid, Some tid) \<Rightarrow> Some (sub, sid, tid) | _ \<Rightarrow> None)"

definition callback_with_code ::
  "('n, 'z) bff_env_scheme \<Rightarrow> client_config \<Rightarrow> string option \<Rightarrow> pre_auth_state \<Rightarrow> string \<Rightarrow>
   ('n, reply \<times> string option) bff_m" where
  "callback_with_code env client session_cookie p code = do {
     answer \<leftarrow> exchangeCode env client code (pa_code_verifier p);
     case answer of
       Inl e \<Rightarrow> State_Monad.return (renderTokenError e, None)
     | Inr tokens \<Rightarrow>
         (case pt_id tokens of
            None \<Rightarrow> State_Monad.return (Page Retry_login 401, None)
          | Some id_token \<Rightarrow> do {
              claims \<leftarrow> verifyIdToken env id_token client (pa_nonce p);
              case claims of
                Inl _ \<Rightarrow> State_Monad.return (Page Retry_login 401, None)
              | Inr payload \<Rightarrow>
                  (case session_claims payload of
                     None \<Rightarrow> State_Monad.return (Page Retry_login 401, None)
                   | Some (sub, sid, tid) \<Rightarrow>
                       if json_field ''tenant_slug'' payload \<noteq> Some (JStr (cl_tenant_slug client))
                       then State_Monad.return (Page Retry_login 401, None)
                       else do {
                         x \<leftarrow> establish_session env client session_cookie tokens payload sub sid tid;
                         State_Monad.return (Redirect (pa_return_to p), Some (tn_id x))
                       })
            })
   }"

definition auth_callback ::
  "('n, 'z) bff_env_scheme \<Rightarrow> client_config \<Rightarrow> string option \<Rightarrow> string option \<Rightarrow> callback_query \<Rightarrow>
   ('n, bff_reply) bff_m" where
  "auth_callback env client pre_auth_cookie session_cookie q = do {
     taken \<leftarrow> take_pre_auth client pre_auth_cookie;
     case taken of
       None \<Rightarrow> State_Monad.return (Page Retry_login 400, [clearPreAuthCookie env])
     | Some p \<Rightarrow>
         if cq_state q \<noteq> Some (pa_state p)
         then State_Monad.return (Page Retry_login 400, [clearPreAuthCookie env])
         else if cq_iss q \<noteq> None \<and> cq_iss q \<noteq> Some (provider_issuer env)
         then State_Monad.return (Page Retry_login 400, [clearPreAuthCookie env])
         else (case cq_error q of
           Some err \<Rightarrow> State_Monad.return
             (renderAuthorizationError client err (cq_error_description q), [clearPreAuthCookie env])
         | None \<Rightarrow>
             (case cq_code q of
                None \<Rightarrow> State_Monad.return (Page Retry_login 400, [clearPreAuthCookie env])
              | Some code \<Rightarrow>
                  if code = [] then State_Monad.return (Page Retry_login 400, [clearPreAuthCookie env])
                  else do {
                    (r, created) \<leftarrow> callback_with_code env client session_cookie p code;
                    State_Monad.return (r, clearPreAuthCookie env #
                      (case created of None \<Rightarrow> [] | Some i \<Rightarrow> [writeSessionCookie env i]))
                  }))
   }"

definition auth_logout ::
  "('n, 'z) bff_env_scheme \<Rightarrow> client_config \<Rightarrow> tenant_session option \<Rightarrow> string option \<Rightarrow> ('n, bff_reply) bff_m" where
  "auth_logout env client session csrf =
     (case session of
        None \<Rightarrow> State_Monad.return (Redirect ''/'', [clearSessionCookie env])
      | Some x \<Rightarrow>
          if (case csrf of None \<Rightarrow> True | Some c \<Rightarrow> \<not> timingSafeEqualString c (tn_csrf x))
          then State_Monad.return (Page Reload_page 403, [])
          else do {
            _ \<leftarrow> provider_revoke env client (tn_refresh_token x);
            _ \<leftarrow> destroySession x;
            State_Monad.return (Redirect ''/?logged_out=1'', [clearSessionCookie env])
          })"

text \<open>POST /auth/backchannel-logout: the form field, absent or empty when it is not a text.\<close>

definition backchannel_logout ::
  "('n, 'z) bff_env_scheme \<Rightarrow> string option \<Rightarrow> ('n, reply) bff_m" where
  "backchannel_logout env logout_token =
     (case logout_token of
        None \<Rightarrow> State_Monad.return (Plain 400)
      | Some token \<Rightarrow>
          if token = [] then State_Monad.return (Plain 400)
          else do {
            verified \<leftarrow> verifyLogoutToken env token;
            case verified of
              Inl _ \<Rightarrow> State_Monad.return (Plain 400)
            | Inr v \<Rightarrow>
                (case resolveClientById env (lo_audience v) of
                   None \<Rightarrow> State_Monad.return (Plain 400)
                 | Some _ \<Rightarrow> do {
                     _ \<leftarrow> destroySessionsBySid (lo_sid v);
                     State_Monad.return (Plain 200)
                   })
          })"

section \<open>The pre-authentication state is used once\<close>

definition pre_part :: "'n bff_state \<Rightarrow> seconds \<times> pre_auth_state kv" where
  "pre_part s = (bnow s, pre_auths s)"

lemma blind_pre_part [simp]: "provider_blind pre_part"
  by (simp add: provider_blind_def pre_part_def)

lemma keeps_pre_sessions:
  "keeps pre_part (destroySession x)" "keeps pre_part (loadSession client cookie)"
  "keeps pre_part (createSession env i)"
proof -
  show d: "keeps pre_part (destroySession x)" for x :: tenant_session
    unfolding destroySession_def by (intro keeps_bind keeps_bff_store) (simp_all add: pre_part_def)
  show "keeps pre_part (loadSession client cookie)"
    unfolding loadSession_def
    by (auto intro!: keeps_bind keeps_bff_store d split: option.split) (simp add: pre_part_def)
  have "keeps pre_part (bff_token env)" by (simp add: keeps_def run_bff_token pre_part_def)
  then show "keeps pre_part (createSession env i)"
    unfolding createSession_def Let_def
    by (auto intro!: keeps_bind keeps_bff_store) (simp_all add: pre_part_def)
qed

lemma keeps_callback_code: "keeps pre_part (callback_with_code env client sc p code)"
  unfolding callback_with_code_def establish_session_def
  by (auto intro!: keeps_bind provider_keeps keeps_pre_sessions split: sum.split option.split)

lemma callback_takes:
  assumes "bnow s \<le> t"
  shows "kv_value t (pre_auths (snd (run_state (auth_callback env client (Some i) sc q) s))) (preAuthKey client i) = None"
proof -
  let ?s1 = "snd (run_state (take_pre_auth client (Some i)) s)"
  have gone: "kv_value t (pre_auths ?s1) (preAuthKey client i) = None"
    using assms by (simp add: take_pre_auth_def run_bff_store kv_value_def mem.take_view)
  have rest: "pre_auths (snd (run_state (callback_with_code env client sc p code) ?s1)) = pre_auths ?s1" for p code
    using keeps_run [OF keeps_callback_code, of env client sc p code ?s1] by (simp add: pre_part_def)
  show ?thesis
    using gone
    by (auto simp: auth_callback_def case_prod_beta rest split: option.split)
qed

text \<open>
  C10: A pre-authentication state is used once: after a callback with some cookie, whatever it was
  answered, every later callback with that cookie on the same host is sent back to the login,
  whatever its query, so a captured callback URL cannot be replayed.
\<close>

theorem callback_not_replayable:
  assumes "bnow s \<le> t"
  shows "fst (run_state (auth_callback env client (Some i) sc2 q2)
      ((snd (run_state (auth_callback env client (Some i) sc q) s))\<lparr>bnow := t\<rparr>)) =
    (Page Retry_login 400, [clearPreAuthCookie env])"
  using callback_takes [OF assms, of env client i sc q]
  by (simp add: auth_callback_def [of env client "Some i" sc2 q2] take_pre_auth_def run_bff_store case_prod_beta)

section \<open>What a successful callback has checked\<close>

lemma verified_with_source:
  assumes "fst (run_state (verifyJwtWithSource j src token opts) s) = Inr payload"
  shows "\<exists>ks. jose_verify j token ks SIGNING_ALGORITHM opts = Jose_ok payload"
  using assms
  by (auto simp: verifyJwtWithSource_def verifyJwt_def case_prod_beta
      split: option.splits sum.splits jose_outcome.splits if_splits)

lemma id_token_checked:
  assumes "fst (run_state (verifyIdToken env token client nonce) s) = Inr payload"
  shows "(\<exists>ks. jose_verify (jose_of env) token ks SIGNING_ALGORITHM
      \<lparr>vo_issuer = provider_issuer env, vo_audience = Some (sv_client_id client), vo_now = bnow s,
       vo_tolerance = DEFAULT_CLOCK_TOLERANCE_SECONDS\<rparr> = Jose_ok payload) \<and>
    json_field ''nonce'' payload = Some (JStr nonce)"
proof -
  have "fst (run_state (verifyJwtWithSource (jose_of env) (provider_jwks env) token
      \<lparr>vo_issuer = provider_issuer env, vo_audience = Some (sv_client_id client), vo_now = bnow s,
       vo_tolerance = DEFAULT_CLOCK_TOLERANCE_SECONDS\<rparr>) s) = Inr payload"
    using assms by (auto simp: verifyIdToken_def verify_token_def case_prod_beta
        split: sum.splits verify_error.splits if_splits)
  from verified_with_source [OF this] assms show ?thesis
    by (auto simp: verifyIdToken_def case_prod_beta split: sum.splits if_splits)
qed

lemma created_stored:
  assumes "run_state (createSession env i) s = (x, s')"
  shows "kv_value (bnow s) (tenant_sessions s') (key_of x) = Some x \<and> bnow s' = bnow s \<and>
    tn_tenant_slug x = cl_tenant_slug (ns_client i) \<and> tn_user x = ns_user i \<and> tn_sid x = ns_sid i \<and>
    tn_tenant x = ns_tenant i"
  using assms
  by (auto simp: createSession_def Let_def run_bff_store run_bff_token SESSION_ABSOLUTE_SECONDS_def)

definition claims_match :: "json \<Rightarrow> 'y client_config_scheme \<Rightarrow> tenant_session \<Rightarrow> bool" where
  "claims_match payload client x \<longleftrightarrow>
     json_field ''sub'' payload = Some (JStr (tn_user x)) \<and> json_field ''sid'' payload = Some (JStr (tn_sid x)) \<and>
     json_field ''tenant_id'' payload = Some (JStr (tn_tenant x)) \<and>
     json_field ''tenant_slug'' payload = Some (JStr (cl_tenant_slug client)) \<and>
     tn_tenant_slug x = cl_tenant_slug client"

lemma json_string_Some: "json_string j = Some v \<longleftrightarrow> j = Some (JStr v)"
  by (auto simp: json_string_def split: option.splits json.splits)

lemma code_callback_checked:
  assumes run: "run_state (callback_with_code env client sc p code) s = ((Redirect to, created), s')"
  shows "\<exists>token ks payload x.
    jose_verify (jose_of env) token ks SIGNING_ALGORITHM
      \<lparr>vo_issuer = provider_issuer env, vo_audience = Some (sv_client_id client), vo_now = bnow s,
       vo_tolerance = DEFAULT_CLOCK_TOLERANCE_SECONDS\<rparr> = Jose_ok payload \<and>
    json_field ''nonce'' payload = Some (JStr (pa_nonce p)) \<and> claims_match payload client x \<and>
    to = pa_return_to p \<and> created = Some (tn_id x) \<and>
    kv_value (bnow s) (tenant_sessions s') (key_of x) = Some x"
proof -
  let ?ex = "run_state (exchangeCode env client code (pa_code_verifier p)) s"
  obtain tokens token where tok: "fst ?ex = Inr tokens" "pt_id tokens = Some token"
    using run by (auto simp: callback_with_code_def case_prod_beta renderTokenError_def
        split: sum.splits option.splits provider_error.splits)
  let ?ver = "run_state (verifyIdToken env token client (pa_nonce p)) (snd ?ex)"
  obtain payload where pay: "fst ?ver = Inr payload"
    using run tok by (auto simp: callback_with_code_def case_prod_beta split: sum.splits)
  obtain sub sid tid where cl: "session_claims payload = Some (sub, sid, tid)"
    and slug: "json_field ''tenant_slug'' payload = Some (JStr (cl_tenant_slug client))"
    using run tok pay by (auto simp: callback_with_code_def case_prod_beta split: option.splits if_splits)
  let ?i = "\<lparr>ns_client = client, ns_user = sub, ns_tenant = tid, ns_sid = sid,
       ns_email = json_string (json_field ''email'' payload),
       ns_name = json_string (json_field ''name'' payload), ns_tokens = tokens\<rparr>"
  have now: "bnow (snd ?ex) = bnow s" "bnow (snd ?ver) = bnow s"
    by (simp_all add: provider_now)
  obtain s2 x where cr: "run_state (createSession env ?i) s2 = (x, s')" and s2: "bnow s2 = bnow s"
    and out: "to = pa_return_to p" "created = Some (tn_id x)"
  proof -
    let ?ld = "run_state (loadSession client sc) (snd ?ver)"
    let ?s2 = "snd (run_state (case fst ?ld of Some y \<Rightarrow> destroySession y | None \<Rightarrow> State_Monad.return ()) (snd ?ld))"
    have "bnow ?s2 = bnow s"
      using now load_session_frame(1) [of client sc "snd ?ver"]
      by (auto simp: destroy_session_run split: option.split)
    moreover have "run_state (createSession env ?i) ?s2 = (fst (run_state (createSession env ?i) ?s2), s')"
      "to = pa_return_to p" "created = Some (tn_id (fst (run_state (createSession env ?i) ?s2)))"
      using run tok pay cl slug
      by (auto simp: callback_with_code_def establish_session_def case_prod_beta)
    ultimately show ?thesis using that by blast
  qed
  obtain ks where "jose_verify (jose_of env) token ks SIGNING_ALGORITHM
      \<lparr>vo_issuer = provider_issuer env, vo_audience = Some (sv_client_id client), vo_now = bnow s,
       vo_tolerance = DEFAULT_CLOCK_TOLERANCE_SECONDS\<rparr> = Jose_ok payload"
    and "json_field ''nonce'' payload = Some (JStr (pa_nonce p))"
    using id_token_checked [OF pay] now by auto
  moreover have "claims_match payload client x"
    using created_stored [OF cr] cl slug
    by (auto simp: claims_match_def session_claims_def json_string_Some split: option.splits)
  moreover have "kv_value (bnow s) (tenant_sessions s') (key_of x) = Some x"
    using created_stored [OF cr] s2 by simp
  ultimately show ?thesis using out by blast
qed

text \<open>
  C9: The callback signs a browser in only when its cookie names a live pre-authentication state of
  this tenant whose state value the query repeats, the response is not an error and not of another
  issuer, and an ID token was verified for this client and issuer with the nonce of that login and
  the slug of this host's tenant; the session stored is that token's subject, sid and tenant.
\<close>

theorem callback_checks:
  assumes "run_state (auth_callback env client cookie sc q) s = ((Redirect to, ops), s')"
  shows "\<exists>i p token ks payload x. cookie = Some i \<and>
    kv_value (bnow s) (pre_auths s) (preAuthKey client i) = Some p \<and>
    cq_state q = Some (pa_state p) \<and> cq_iss q \<in> {None, Some (provider_issuer env)} \<and> cq_error q = None \<and>
    jose_verify (jose_of env) token ks SIGNING_ALGORITHM
      \<lparr>vo_issuer = provider_issuer env, vo_audience = Some (sv_client_id client), vo_now = bnow s,
       vo_tolerance = DEFAULT_CLOCK_TOLERANCE_SECONDS\<rparr> = Jose_ok payload \<and>
    json_field ''nonce'' payload = Some (JStr (pa_nonce p)) \<and> claims_match payload client x \<and>
    to = pa_return_to p \<and> ops = [clearPreAuthCookie env, writeSessionCookie env (tn_id x)] \<and>
    kv_value (bnow s) (tenant_sessions s') (key_of x) = Some x"
proof -
  obtain i where i: "cookie = Some i"
    using assms by (cases cookie) (auto simp: auth_callback_def take_pre_auth_def)
  let ?s1 = "snd (run_state (take_pre_auth client (Some i)) s)"
  have now: "bnow ?s1 = bnow s" by (simp add: take_pre_auth_def run_bff_store)
  obtain p where p: "kv_value (bnow s) (pre_auths s) (preAuthKey client i) = Some p"
    using assms i
    by (auto simp: auth_callback_def take_pre_auth_def run_bff_store case_prod_beta split: option.splits)
  have taken: "run_state (take_pre_auth client cookie) s = (Some p, ?s1)"
    using p by (simp add: i take_pre_auth_def run_bff_store)
  have no_redirect: "renderAuthorizationError client e d \<noteq> Redirect to" for e d
    by (auto simp: renderAuthorizationError_def split: option.split)
  have q: "cq_state q = Some (pa_state p)" "cq_iss q \<in> {None, Some (provider_issuer env)}" "cq_error q = None"
    using assms no_redirect
    by (auto simp: auth_callback_def taken case_prod_beta split: if_splits option.splits)
  obtain code where code: "cq_code q = Some code" "code \<noteq> []"
    using assms q by (auto simp: auth_callback_def taken case_prod_beta split: if_splits option.splits)
  let ?c = "run_state (callback_with_code env client sc p code) ?s1"
  have c: "?c = ((Redirect to, snd (fst ?c)), s')"
    and ops: "ops = clearPreAuthCookie env #
      (case snd (fst ?c) of None \<Rightarrow> [] | Some i \<Rightarrow> [writeSessionCookie env i])"
    using assms q code by (auto simp: auth_callback_def taken case_prod_beta prod_eq_iff)
  from code_callback_checked [OF c] show ?thesis
    using i p q ops unfolding now by fastforce
qed

text \<open>
  Only the form of the session itself logs it out: without the session's CSRF value the request
  changes nothing at all, with it the session is gone at once, whatever the authorization server answers to the revocation.
\<close>

theorem logout_needs_form_token:
  "if csrf = Some (tn_csrf x)
   then kv_value (bnow s) (tenant_sessions (snd (run_state (auth_logout env client (Some x) csrf) s))) (key_of x) = None
   else run_state (auth_logout env client (Some x) csrf) s = ((Page Reload_page 403, []), s)"
  using session_part_fields [OF keeps_run [OF keeps_provider_revoke [OF blind_session_part]],
      of env client "tn_refresh_token x" s]
  by (cases csrf) (auto simp: auth_logout_def case_prod_beta destroy_session_run)

section \<open>Witnesses\<close>

definition fx_payload :: json where
  "fx_payload = JObj [(''sub'', JStr ''u1''), (''sid'', JStr ''sid1''), (''tenant_id'', JStr ''t1''),
     (''tenant_slug'', JStr ''acme''), (''nonce'', JStr ''n1'')]"

definition fx_signing_in :: "nat bff_env" where
  "fx_signing_in = (fx_bff (\<lambda>rq n. (Some (fx_answer 200 None (Some (JObj [(''access_token'', JStr ''a1''),
       (''token_type'', JStr ''Bearer''), (''expires_in'', JNum 300), (''refresh_token'', JStr ''r1''),
       (''id_token'', JStr ''idt'')]))), n + 1)))
     \<lparr>jose_of := \<lparr>jose_kid = (\<lambda>t. Some ''k1''), jose_verify = (\<lambda>t ks a opts. Jose_ok fx_payload)\<rparr>\<rparr>"

definition fx_pre_auth :: pre_auth_state where
  "fx_pre_auth = \<lparr>pa_state = ''st'', pa_nonce = ''n1'', pa_code_verifier = ''v'', pa_return_to = ''/home''\<rparr>"

definition fx_started :: "nat bff_state" where
  "fx_started = fx_blank\<lparr>pre_auths := kv_set 0 (preAuthKey fx_tenant_client ''pre'') fx_pre_auth 60 kv_empty,
     key_source := \<lparr>cached = Some [\<lparr>jwk_kid = Some ''k1'', jwk_material = []\<rparr>], attempted_at = 0,
       forced_at = 0, inflight = False\<rparr>\<rparr>"

definition fx_query :: callback_query where
  "fx_query = \<lparr>cq_state = Some ''st'', cq_iss = None, cq_error = None, cq_error_description = None,
     cq_code = Some ''c''\<rparr>"

definition fx_callback :: "bff_reply \<times> nat bff_state" where
  "fx_callback = run_state (auth_callback fx_signing_in fx_tenant_client (Some ''pre'') None fx_query) fx_started"

lemma fx_exchange:
  "run_state (exchangeCode fx_signing_in fx_tenant_client c v)
     (fx_started\<lparr>pre_auths := m\<rparr>) =
   (Inr \<lparr>pt_access = ''a1'', pt_expires_in = 300, pt_id = Some ''idt'', pt_refresh = ''r1''\<rparr>,
    fx_started\<lparr>pre_auths := m, net := 1\<rparr>)"
  by (simp add: exchangeCode_def tokenRequest_def getDiscovery_def run_fetch fx_signing_in_def fx_bff_def
      fx_answer_def res_ok_def tokenResponseSchema_def json_field_def json_string_def optional_field_def
      toBackchannel_def fx_started_def fx_blank_def fx_bff_state_def)

lemma fx_verified:
  "run_state (verifyIdToken fx_signing_in t fx_tenant_client ''n1'') (fx_started\<lparr>pre_auths := m, net := n\<rparr>) =
   (Inr fx_payload, fx_started\<lparr>pre_auths := m, net := n\<rparr>)"
  by (simp add: verifyIdToken_def verify_token_def verifyJwtWithSource_def readJwtKid_def provider_jwks_def
      jwks_get_def CACHE_TTL_SECONDS_def hasKid_def verifyJwt_def fx_signing_in_def fx_bff_def
      fx_started_def fx_blank_def fx_bff_state_def fx_payload_def json_field_def json_string_def)

lemma fx_callback_reply: "fst (fst fx_callback) = Redirect ''/home''"
proof -
  have claims: "session_claims fx_payload = Some (''u1'', ''sid1'', ''t1'')"
    "json_field ''tenant_slug'' fx_payload = Some (JStr (cl_tenant_slug fx_tenant_client))"
    by (simp_all add: session_claims_def fx_payload_def json_field_def json_string_def fx_tenant_client_def)
  have p: "kv_value 0 (pre_auths fx_started) (preAuthKey fx_tenant_client ''pre'') = Some fx_pre_auth"
    "bnow fx_started = 0"
    by (simp_all add: fx_started_def fx_blank_def fx_bff_state_def)
  show ?thesis
    using p claims
    by (simp add: fx_callback_def auth_callback_def take_pre_auth_def run_bff_store fx_query_def
        fx_pre_auth_def callback_with_code_def fx_exchange fx_verified case_prod_beta)
qed

theorem callback_checks_witness:
  "\<exists>x. tn_user x = ''u1'' \<and> kv_value 0 (tenant_sessions (snd fx_callback)) (key_of x) = Some x"
proof -
  have run: "run_state (auth_callback fx_signing_in fx_tenant_client (Some ''pre'') None fx_query) fx_started =
      ((Redirect ''/home'', snd (fst fx_callback)), snd fx_callback)"
    using fx_callback_reply by (simp add: fx_callback_def prod_eq_iff)
  have "bnow fx_started = 0" by (simp add: fx_started_def fx_blank_def fx_bff_state_def)
  with callback_checks [OF run] obtain payload token ks x opts where
    "jose_verify (jose_of fx_signing_in) token ks SIGNING_ALGORITHM opts = Jose_ok payload"
    "claims_match payload fx_tenant_client x"
    "kv_value 0 (tenant_sessions (snd fx_callback)) (key_of x) = Some x"
    by auto
  then show ?thesis
    by (intro exI [of _ x]) (auto simp: fx_signing_in_def claims_match_def fx_payload_def json_field_def)
qed

theorem callback_not_replayable_witness:
  "fst (run_state (auth_callback fx_signing_in fx_tenant_client (Some ''pre'') None fx_query)
      ((snd (run_state (auth_callback fx_signing_in fx_tenant_client (Some ''pre'') None fx_query) fx_started))
         \<lparr>bnow := 5\<rparr>)) =
    (Page Retry_login 400, [clearPreAuthCookie fx_signing_in])"
  by (rule callback_not_replayable) (simp add: fx_started_def fx_blank_def fx_bff_state_def)

end
