(* ===== verification/ApiContext.thy ===== *)
theory ApiContext
  imports Jwks "HOL-Library.AList" "HOL-Library.List_Lexorder" "HOL-Library.Char_ord"
begin

text \<open>
  packages/api-core/src: the members of a service with their roles and permission overrides
  (domain/member.ts, domain/service-definition.ts), the in-memory member repository behind the
  interface of application/ports/member-repository.ts, the verification of access tokens
  (application/access-token.ts), the tenant context every request runs in
  (application/resolve-tenant-context.ts) and its HTTP face (interface/http/middleware.ts).
  A JavaScript \<open>Map\<close> that is iterated is an association list in insertion order, its \<open>set\<close> and
  \<open>delete\<close> are \<open>AList.update\<close> and \<open>AList.delete\<close> of HOL-Library.AList.
\<close>

section \<open>domain/member.ts\<close>

datatype member_status = Member_active | Member_disabled
datatype permission_effect = Allow | Deny

record member =
  m_tenant :: string
  m_user :: string
  m_email :: "string option"
  m_name :: "string option"
  m_role :: string
  m_status :: member_status

record permission_override =
  po_permission :: string
  po_effect :: permission_effect

record api_context =
  tc_tenant :: string
  tc_slug :: string
  tc_user :: string
  tc_client :: string
  tc_member :: member
  tc_permissions :: "string set"

section \<open>domain/service-definition.ts\<close>

definition MEMBER_PERMISSIONS :: "string list" where
  "MEMBER_PERMISSIONS = [''members:read'', ''members:invite'', ''members:manage'']"

record service_definition =
  sd_roles :: "string list"
  sd_default_role :: string
  sd_permissions :: "string list"
  sd_role_permissions :: "(string \<times> string list) list"

definition allPermissions :: "service_definition \<Rightarrow> string list" where
  "allPermissions sd = sd_permissions sd @ MEMBER_PERMISSIONS"

definition isRole :: "service_definition \<Rightarrow> string \<Rightarrow> bool" where
  "isRole sd v = (v \<in> set (sd_roles sd))"

definition isPermission :: "service_definition \<Rightarrow> string \<Rightarrow> bool" where
  "isPermission sd v = (v \<in> set (allPermissions sd))"

definition role_permissions :: "service_definition \<Rightarrow> string \<Rightarrow> string set" where
  "role_permissions sd role =
     (case map_of (sd_role_permissions sd) role of None \<Rightarrow> {} | Some ps \<Rightarrow> set ps)"

text \<open>Two passes over the overrides: the first adds what is allowed, the second removes what is denied.\<close>

fun add_allowed :: "service_definition \<Rightarrow> permission_override list \<Rightarrow> string set \<Rightarrow> string set" where
  "add_allowed sd [] granted = granted"
| "add_allowed sd (ov # ovs) granted =
     add_allowed sd ovs
       (if po_effect ov = Allow \<and> isPermission sd (po_permission ov)
        then insert (po_permission ov) granted else granted)"

fun drop_denied :: "permission_override list \<Rightarrow> string set \<Rightarrow> string set" where
  "drop_denied [] granted = granted"
| "drop_denied (ov # ovs) granted =
     drop_denied ovs (if po_effect ov = Deny then granted - {po_permission ov} else granted)"

definition resolvePermissions ::
  "service_definition \<Rightarrow> string \<Rightarrow> permission_override list \<Rightarrow> string set" where
  "resolvePermissions sd role ovs = drop_denied ovs (add_allowed sd ovs (role_permissions sd role))"

definition denied :: "permission_override list \<Rightarrow> string \<Rightarrow> bool" where
  "denied ovs p = list_ex (\<lambda>ov. po_effect ov = Deny \<and> po_permission ov = p) ovs"

definition allowed :: "permission_override list \<Rightarrow> string \<Rightarrow> bool" where
  "allowed ovs p = list_ex (\<lambda>ov. po_effect ov = Allow \<and> po_permission ov = p) ovs"

lemma mem_add_allowed: "p \<in> add_allowed sd ovs g \<longleftrightarrow> p \<in> g \<or> allowed ovs p \<and> isPermission sd p"
  by (induction ovs arbitrary: g) (auto simp: allowed_def)

lemma mem_drop_denied: "p \<in> drop_denied ovs g \<longleftrightarrow> p \<in> g \<and> \<not> denied ovs p"
  by (induction ovs arbitrary: g) (auto simp: denied_def)

lemma mem_resolvePermissions:
  "p \<in> resolvePermissions sd role ovs \<longleftrightarrow>
     (p \<in> role_permissions sd role \<or> allowed ovs p \<and> isPermission sd p) \<and> \<not> denied ovs p"
  by (simp add: resolvePermissions_def mem_drop_denied mem_add_allowed)

lemma finite_resolvePermissions [simp]: "finite (resolvePermissions sd role ovs)"
proof (rule finite_subset)
  show "resolvePermissions sd role ovs \<subseteq> role_permissions sd role \<union> set (allPermissions sd)"
    by (auto simp: mem_resolvePermissions isPermission_def)
  show "finite (role_permissions sd role \<union> set (allPermissions sd))"
    by (auto simp: role_permissions_def split: option.split)
qed

section \<open>MemoryMemberRepository\<close>

type_synonym overrides_row = "permission_override list"

record member_store =
  member_rows :: "(string \<times> member) list"
  override_rows :: "string \<rightharpoonup> overrides_row"

definition member_key :: "string \<Rightarrow> string \<Rightarrow> string" where
  "member_key tenant user = tenant @ '':'' @ user"

definition member_store_new ::
  "member list \<Rightarrow> (string \<times> string \<times> permission_override) list \<Rightarrow> member_store" where
  "member_store_new initial initial_overrides =
     \<lparr>member_rows = fold (\<lambda>m. AList.update (member_key (m_tenant m) (m_user m)) m) initial [],
      override_rows = fold (\<lambda>(t, u, ov) rows.
        rows(member_key t u \<mapsto> (case rows (member_key t u) of None \<Rightarrow> [] | Some r \<Rightarrow> r) @ [ov]))
        initial_overrides Map.empty\<rparr>"

definition find_member :: "string \<Rightarrow> string \<Rightarrow> member_store \<Rightarrow> member option" where
  "find_member tenant user db = map_of (member_rows db) (member_key tenant user)"

definition findWithOverrides ::
  "string \<Rightarrow> string \<Rightarrow> member_store \<Rightarrow> (member \<times> overrides_row) option" where
  "findWithOverrides tenant user db =
     (case map_of (member_rows db) (member_key tenant user) of
        None \<Rightarrow> None
      | Some m \<Rightarrow> Some (m, case override_rows db (member_key tenant user) of None \<Rightarrow> [] | Some r \<Rightarrow> r))"

definition list_members :: "string \<Rightarrow> member_store \<Rightarrow> member list" where
  "list_members tenant db = filter (\<lambda>m. m_tenant m = tenant) (map snd (member_rows db))"

definition or_else :: "'a option \<Rightarrow> 'a option \<Rightarrow> 'a option" where
  "or_else a b = (case a of None \<Rightarrow> b | Some _ \<Rightarrow> a)"

definition upsert_member :: "member \<Rightarrow> member_store \<Rightarrow> member \<times> member_store" where
  "upsert_member m db =
     (let k = member_key (m_tenant m) (m_user m);
          existing = map_of (member_rows db) k;
          merged = m\<lparr>m_email := or_else (m_email m) (Option.bind existing m_email),
            m_name := or_else (m_name m) (Option.bind existing m_name)\<rparr>
      in (merged, db\<lparr>member_rows := AList.update k merged (member_rows db)\<rparr>))"

definition remove_member :: "string \<Rightarrow> string \<Rightarrow> member_store \<Rightarrow> member_store" where
  "remove_member tenant user db =
     db\<lparr>member_rows := AList.delete (member_key tenant user) (member_rows db),
        override_rows := (override_rows db)(member_key tenant user := None)\<rparr>"

definition replace_overrides ::
  "string \<Rightarrow> string \<Rightarrow> overrides_row \<Rightarrow> member_store \<Rightarrow> member_store" where
  "replace_overrides tenant user ovs db =
     db\<lparr>override_rows := (override_rows db)(member_key tenant user \<mapsto> ovs)\<rparr>"

text \<open>
  What the use cases rely on. Rows are addressed by tenant and user; the composed key
  \<open>tenant:user\<close> separates tenants as long as a tenant id (a ULID) has no colon.
\<close>

definition plain_id :: "string \<Rightarrow> bool" where "plain_id t = (CHR '':'' \<notin> set t)"

locale member_repository =
  fixes lookup :: "string \<Rightarrow> string \<Rightarrow> 'db \<Rightarrow> (member \<times> permission_override list) option"
    and members_of :: "string \<Rightarrow> 'db \<Rightarrow> member list"
    and upsert :: "member \<Rightarrow> 'db \<Rightarrow> member \<times> 'db"
    and remove :: "string \<Rightarrow> string \<Rightarrow> 'db \<Rightarrow> 'db"
    and replace :: "string \<Rightarrow> string \<Rightarrow> permission_override list \<Rightarrow> 'db \<Rightarrow> 'db"
    and wf :: "'db \<Rightarrow> bool"
    and tenant_ok :: "string \<Rightarrow> bool"
    and member_ok :: "member \<Rightarrow> bool"
    and overrides_ok :: "permission_override list \<Rightarrow> bool"
    and stored :: "permission_override list \<Rightarrow> permission_override list"
  assumes lookup_own: "wf db \<Longrightarrow> lookup t u db = Some (m, ovs) \<Longrightarrow> tenant_ok t \<Longrightarrow> m_tenant m = t \<and> m_user m = u"
    and members_own: "wf db \<Longrightarrow> tenant_ok t \<Longrightarrow>
      m \<in> set (members_of t db) \<longleftrightarrow> (\<exists>u ovs. lookup t u db = Some (m, ovs))"
    and upsert_member: "wf db \<Longrightarrow> tenant_ok (m_tenant m) \<Longrightarrow> member_ok m \<Longrightarrow>
      fst (upsert m db) =
        m\<lparr>m_email := or_else (m_email m) (Option.bind (lookup (m_tenant m) (m_user m) db) (m_email \<circ> fst)),
          m_name := or_else (m_name m) (Option.bind (lookup (m_tenant m) (m_user m) db) (m_name \<circ> fst))\<rparr>"
    and lookup_upsert: "wf db \<Longrightarrow> tenant_ok t \<Longrightarrow> tenant_ok (m_tenant m) \<Longrightarrow> member_ok m \<Longrightarrow>
      lookup t u (snd (upsert m db)) =
        (if t = m_tenant m \<and> u = m_user m
         then Some (fst (upsert m db), case lookup t u db of None \<Rightarrow> [] | Some (_, ovs) \<Rightarrow> ovs)
         else lookup t u db)"
    and lookup_remove: "wf db \<Longrightarrow> tenant_ok t \<Longrightarrow> tenant_ok s \<Longrightarrow>
      lookup t u (remove s v db) = (if t = s \<and> u = v then None else lookup t u db)"
    and lookup_replace: "wf db \<Longrightarrow> tenant_ok t \<Longrightarrow> tenant_ok s \<Longrightarrow> overrides_ok ovs \<Longrightarrow>
      lookup t u (replace s v ovs db) =
        (if t = s \<and> u = v then map_option (\<lambda>(m, _). (m, stored ovs)) (lookup t u db) else lookup t u db)"
    and stored_set: "set (stored ovs) = set ovs"
    and wf_upsert: "wf db \<Longrightarrow> tenant_ok (m_tenant m) \<Longrightarrow> member_ok m \<Longrightarrow> wf (snd (upsert m db))"
    and wf_remove: "wf db \<Longrightarrow> wf (remove s v db)"
    and wf_replace: "wf db \<Longrightarrow> lookup s v db \<noteq> None \<Longrightarrow> overrides_ok ovs \<Longrightarrow> wf (replace s v ovs db)"
begin

text \<open>Every write of one tenant leaves what another tenant sees as it was.\<close>

lemma others_upsert:
  "wf db \<Longrightarrow> tenant_ok t \<Longrightarrow> tenant_ok (m_tenant m) \<Longrightarrow> member_ok m \<Longrightarrow> t \<noteq> m_tenant m \<Longrightarrow>
   lookup t u (snd (upsert m db)) = lookup t u db"
  by (simp add: lookup_upsert)

lemma others_remove:
  "wf db \<Longrightarrow> tenant_ok t \<Longrightarrow> tenant_ok s \<Longrightarrow> t \<noteq> s \<Longrightarrow> lookup t u (remove s v db) = lookup t u db"
  by (simp add: lookup_remove)

lemma others_replace:
  "wf db \<Longrightarrow> tenant_ok t \<Longrightarrow> tenant_ok s \<Longrightarrow> overrides_ok ovs \<Longrightarrow> t \<noteq> s \<Longrightarrow>
   lookup t u (replace s v ovs db) = lookup t u db"
  by (simp add: lookup_replace)

text \<open>A member removed and written again starts without the overrides it had.\<close>

lemma removed_forgets:
  "wf db \<Longrightarrow> tenant_ok (m_tenant m) \<Longrightarrow> member_ok m \<Longrightarrow>
   lookup (m_tenant m) (m_user m) (snd (upsert m (remove (m_tenant m) (m_user m) db))) =
     Some (fst (upsert m (remove (m_tenant m) (m_user m) db)), [])"
  by (simp add: wf_remove lookup_remove lookup_upsert)

end

text \<open>Two repositories with the same contract, on the tenants both admit, stay in agreement.\<close>

fun same_lookup :: "(member \<times> permission_override list) option \<Rightarrow> (member \<times> permission_override list) option \<Rightarrow> bool" where
  "same_lookup None None \<longleftrightarrow> True"
| "same_lookup (Some (m, ovs)) (Some (m', ovs')) \<longleftrightarrow> m = m' \<and> set ovs = set ovs'"
| "same_lookup _ _ \<longleftrightarrow> False"

lemma same_lookup_cases [elim]:
  assumes "same_lookup x y"
  obtains "x = None" "y = None" | m ovs ovs' where "x = Some (m, ovs)" "y = Some (m, ovs')" "set ovs = set ovs'"
  using assms by (cases "(x, y)" rule: same_lookup.cases) auto

definition members_agree ::
  "(string \<Rightarrow> bool) \<Rightarrow> (string \<Rightarrow> string \<Rightarrow> (member \<times> permission_override list) option) \<Rightarrow>
   (string \<Rightarrow> string \<Rightarrow> (member \<times> permission_override list) option) \<Rightarrow> bool" where
  "members_agree tenant_ok f g \<longleftrightarrow> (\<forall>t u. tenant_ok t \<longrightarrow> same_lookup (f t u) (g t u))"

locale member_repositories =
  a: member_repository lookup1 members1 upsert1 remove1 replace1 wf1 tenant_ok member_ok1 overrides_ok1 stored1 +
  b: member_repository lookup2 members2 upsert2 remove2 replace2 wf2 tenant_ok member_ok2 overrides_ok2 stored2
  for lookup1 :: "string \<Rightarrow> string \<Rightarrow> 'db1 \<Rightarrow> (member \<times> permission_override list) option"
    and members1 upsert1 remove1 replace1 wf1 tenant_ok member_ok1 overrides_ok1 stored1
    and lookup2 :: "string \<Rightarrow> string \<Rightarrow> 'db2 \<Rightarrow> (member \<times> permission_override list) option"
    and members2 upsert2 remove2 replace2 wf2 member_ok2 overrides_ok2 stored2
begin

lemma agree_upsert:
  assumes "wf1 x" "wf2 y" "tenant_ok (m_tenant m)" "member_ok1 m" "member_ok2 m"
    and agree: "members_agree tenant_ok (\<lambda>t u. lookup1 t u x) (\<lambda>t u. lookup2 t u y)"
  shows "fst (upsert1 m x) = fst (upsert2 m y)"
    and "members_agree tenant_ok (\<lambda>t u. lookup1 t u (snd (upsert1 m x))) (\<lambda>t u. lookup2 t u (snd (upsert2 m y)))"
proof -
  have rel: "same_lookup (lookup1 (m_tenant m) (m_user m) x) (lookup2 (m_tenant m) (m_user m) y)"
    using agree assms(3) by (simp add: members_agree_def)
  then show same: "fst (upsert1 m x) = fst (upsert2 m y)"
    unfolding a.upsert_member [OF assms(1,3,4)] b.upsert_member [OF assms(2,3,5)] by auto
  show "members_agree tenant_ok (\<lambda>t u. lookup1 t u (snd (upsert1 m x))) (\<lambda>t u. lookup2 t u (snd (upsert2 m y)))"
    unfolding members_agree_def
  proof (intro allI impI)
    fix t u assume "tenant_ok t"
    show "same_lookup (lookup1 t u (snd (upsert1 m x))) (lookup2 t u (snd (upsert2 m y)))"
    proof (cases "t = m_tenant m \<and> u = m_user m")
      case True
      then show ?thesis
        using rel by (elim same_lookup_cases) (simp_all add: assms(1-5) same a.lookup_upsert b.lookup_upsert)
    next
      case False
      then show ?thesis
        using agree assms(1-5) \<open>tenant_ok t\<close> by (auto simp: members_agree_def a.lookup_upsert b.lookup_upsert)
    qed
  qed
qed

lemma agree_remove:
  "wf1 x \<Longrightarrow> wf2 y \<Longrightarrow> tenant_ok s \<Longrightarrow> members_agree tenant_ok (\<lambda>t u. lookup1 t u x) (\<lambda>t u. lookup2 t u y) \<Longrightarrow>
   members_agree tenant_ok (\<lambda>t u. lookup1 t u (remove1 s v x)) (\<lambda>t u. lookup2 t u (remove2 s v y))"
  by (auto simp: members_agree_def a.lookup_remove b.lookup_remove)

lemma agree_replace:
  assumes "wf1 x" "wf2 y" "tenant_ok s" "overrides_ok1 ovs" "overrides_ok2 ovs"
    and agree: "members_agree tenant_ok (\<lambda>t u. lookup1 t u x) (\<lambda>t u. lookup2 t u y)"
  shows "members_agree tenant_ok (\<lambda>t u. lookup1 t u (replace1 s v ovs x)) (\<lambda>t u. lookup2 t u (replace2 s v ovs y))"
  unfolding members_agree_def
proof (intro allI impI)
  fix t u assume t: "tenant_ok t"
  then have "same_lookup (lookup1 t u x) (lookup2 t u y)" using agree by (simp add: members_agree_def)
  then show "same_lookup (lookup1 t u (replace1 s v ovs x)) (lookup2 t u (replace2 s v ovs y))"
    using t assms(1-5) by (auto simp: a.lookup_replace b.lookup_replace a.stored_set b.stored_set)
qed

end

text \<open>The memory repository keeps each row under the key made of the row's own tenant and user.\<close>

definition members_wf :: "member_store \<Rightarrow> bool" where
  "members_wf db = (distinct (map fst (member_rows db)) \<and>
     (\<forall>k m. map_of (member_rows db) k = Some m \<longrightarrow> k = member_key (m_tenant m) (m_user m) \<and> plain_id (m_tenant m)) \<and>
     dom (override_rows db) \<subseteq> dom (map_of (member_rows db)))"

lemma member_key_inj:
  "plain_id t \<Longrightarrow> plain_id s \<Longrightarrow> member_key t u = member_key s v \<longleftrightarrow> t = s \<and> u = v"
  by (auto simp: plain_id_def member_key_def append_eq_append_conv2 Cons_eq_append_conv append_eq_Cons_conv)

lemma members_keyed:
  "members_wf db \<Longrightarrow> map_of (member_rows db) k = Some m \<Longrightarrow>
   k = member_key (m_tenant m) (m_user m) \<and> plain_id (m_tenant m)"
  by (simp add: members_wf_def)

lemma members_named:
  assumes "members_wf db" "plain_id t" "map_of (member_rows db) (member_key t u) = Some m"
  shows "m_tenant m = t \<and> m_user m = u"
  using members_keyed [OF assms(1,3)] member_key_inj [of t "m_tenant m" u "m_user m"] assms(2) by simp

lemma lookup_Some:
  "findWithOverrides t u db = Some (m, ovs) \<longleftrightarrow>
     map_of (member_rows db) (member_key t u) = Some m \<and>
     ovs = (case override_rows db (member_key t u) of None \<Rightarrow> [] | Some r \<Rightarrow> r)"
  by (auto simp: findWithOverrides_def split: option.splits)

lemma find_member_lookup: "find_member t u db = map_option fst (findWithOverrides t u db)"
  by (simp add: find_member_def findWithOverrides_def split: option.split)

lemma stray_overrides:
  "members_wf db \<Longrightarrow> map_of (member_rows db) k = None \<Longrightarrow> override_rows db k = None"
  by (auto simp: members_wf_def)

lemma members_wf_upsert: "members_wf db \<Longrightarrow> plain_id (m_tenant m) \<Longrightarrow> members_wf (snd (upsert_member m db))"
  by (auto simp: members_wf_def upsert_member_def Let_def distinct_update update_conv')

lemma members_wf_remove: "members_wf db \<Longrightarrow> members_wf (remove_member t u db)"
  by (auto simp: members_wf_def remove_member_def delete_keys distinct_removeAll delete_conv')

lemma members_wf_replace:
  "members_wf db \<Longrightarrow> findWithOverrides t u db \<noteq> None \<Longrightarrow> members_wf (replace_overrides t u ovs db)"
  by (auto simp: members_wf_def replace_overrides_def findWithOverrides_def split: option.splits)

lemma list_members_iff:
  assumes "members_wf db" "plain_id t"
  shows "m \<in> set (list_members t db) \<longleftrightarrow> (\<exists>u ovs. findWithOverrides t u db = Some (m, ovs))"
proof -
  have "m \<in> snd ` set (member_rows db) \<longleftrightarrow> (\<exists>k. map_of (member_rows db) k = Some m)"
    using assms(1) by (force simp: members_wf_def)
  then show ?thesis
    using members_keyed [OF assms(1)] members_named [OF assms]
    by (auto simp: list_members_def lookup_Some simp del: image_iff)
qed

interpretation members: member_repository findWithOverrides list_members upsert_member remove_member
  replace_overrides members_wf plain_id "\<lambda>_. True" "\<lambda>_. True" "\<lambda>ovs. ovs"
proof
  fix db t u m ovs
  assume "members_wf db" "findWithOverrides t u db = Some (m, ovs)" "plain_id t"
  then show "m_tenant m = t \<and> m_user m = u"
    unfolding lookup_Some by (elim conjE) (rule members_named)
next
  fix db and m :: member
  show "fst (upsert_member m db) =
      m\<lparr>m_email := or_else (m_email m) (Option.bind (findWithOverrides (m_tenant m) (m_user m) db) (m_email \<circ> fst)),
        m_name := or_else (m_name m) (Option.bind (findWithOverrides (m_tenant m) (m_user m) db) (m_name \<circ> fst))\<rparr>"
    by (cases "map_of (member_rows db) (member_key (m_tenant m) (m_user m))")
      (simp_all add: upsert_member_def Let_def findWithOverrides_def)
next
  fix db t u and m :: member
  assume "members_wf db" "plain_id t" "plain_id (m_tenant m)"
  then show "findWithOverrides t u (snd (upsert_member m db)) =
      (if t = m_tenant m \<and> u = m_user m
       then Some (fst (upsert_member m db), case findWithOverrides t u db of None \<Rightarrow> [] | Some (_, ovs) \<Rightarrow> ovs)
       else findWithOverrides t u db)"
    using stray_overrides [of db "member_key t u"] member_key_inj [of t "m_tenant m" u "m_user m"]
    by (auto simp: findWithOverrides_def upsert_member_def Let_def update_conv' split: option.splits)
qed (simp_all add: list_members_iff members_wf_upsert members_wf_remove members_wf_replace,
  auto simp: upsert_member_def Let_def findWithOverrides_def remove_member_def replace_overrides_def
    delete_conv' member_key_inj split: option.splits)

section \<open>application/access-token.ts\<close>

record access_claims =
  ac_user :: string
  ac_tenant :: string
  ac_slug :: string
  ac_client :: string

datatype access_token_error = Token_invalid string | Token_expired | Token_jwks_unavailable string

text \<open>
  The environment of the API: \<open>api_keys\<close> is the \<open>JwksSource\<close> and \<open>api_invite\<close>, \<open>api_revoke\<close> the
  \<open>AuthAdminClient\<close>, all acting on the outer world \<open>'n\<close>; \<open>api_host\<close> is the host part that
  \<open>new URL(audience)\<close> has. A call of the admin client that throws is \<open>None\<close>.
\<close>

datatype auth_admin_error = Tenant_not_found | Not_contracted | User_not_found | Admin_unavailable string

record invited_user =
  iu_id :: string
  iu_email :: string
  iu_name :: "string option"
  iu_linked :: bool

record 'n api_state =
  api_now :: seconds
  api_members :: member_store
  api_world :: 'n

record 'n api_env =
  api_issuer :: string
  api_audience :: string
  api_host :: "string \<Rightarrow> string"
  api_jose :: jose
  api_keys :: "seconds \<Rightarrow> bool \<Rightarrow> ('n, (jwks, jwks_error) result) state"
  api_definition :: service_definition
  api_invite :: "string \<Rightarrow> string \<Rightarrow> string option \<Rightarrow> ('n, (invited_user, auth_admin_error) result option) state"
  api_revoke :: "string \<Rightarrow> string \<Rightarrow> ('n, (unit, auth_admin_error) result) state"

definition on_world :: "('n, 'a) state \<Rightarrow> ('n api_state, 'a) state" where
  "on_world m = State (\<lambda>s. let (a, n) = run_state m (api_world s) in (a, s\<lparr>api_world := n\<rparr>))"

definition on_members :: "(member_store \<Rightarrow> 'a \<times> member_store) \<Rightarrow> ('n api_state, 'a) state" where
  "on_members f = State (\<lambda>s. let (a, db) = f (api_members s) in (a, s\<lparr>api_members := db\<rparr>))"

lemma run_on_world [simp, run_simps]:
  "run_state (on_world m) s =
     (fst (run_state m (api_world s)), s\<lparr>api_world := snd (run_state m (api_world s))\<rparr>)"
  by (simp add: on_world_def case_prod_beta Let_def)

lemma run_on_members [simp, run_simps]:
  "run_state (on_members f) s = (fst (f (api_members s)), s\<lparr>api_members := snd (f (api_members s))\<rparr>)"
  by (simp add: on_members_def case_prod_beta Let_def)

text \<open>The claims an access token must have as strings, in the order they are checked.\<close>

definition REQUIRED_CLAIMS :: "string list" where
  "REQUIRED_CLAIMS = [''sub'', ''tenant_id'', ''tenant_slug'', ''sid'', ''client_id'']"

definition claim_text :: "string \<Rightarrow> json \<Rightarrow> string" where
  "claim_text k payload = (case json_string (json_field k payload) of Some v \<Rightarrow> v | None \<Rightarrow> [])"

definition read_access_claims :: "json \<Rightarrow> (access_claims, access_token_error) result" where
  "read_access_claims payload =
     (case List.find (\<lambda>k. json_string (json_field k payload) = None) REQUIRED_CLAIMS of
        Some k \<Rightarrow> Inl (Token_invalid (k @ '' missing''))
      | None \<Rightarrow> Inr \<lparr>ac_user = claim_text ''sub'' payload, ac_tenant = claim_text ''tenant_id'' payload,
          ac_slug = claim_text ''tenant_slug'' payload, ac_client = claim_text ''client_id'' payload\<rparr>)"

definition verifyAccessToken ::
  "('n, 'z) api_env_scheme \<Rightarrow> string \<Rightarrow> ('n api_state, (access_claims, access_token_error) result) state" where
  "verifyAccessToken env token = do {
     t \<leftarrow> reads api_now;
     verified \<leftarrow> verifyJwtWithSource (api_jose env) (\<lambda>force. on_world (api_keys env t force)) token
       \<lparr>vo_issuer = api_issuer env, vo_audience = Some (api_audience env), vo_now = t,
        vo_tolerance = DEFAULT_CLOCK_TOLERANCE_SECONDS\<rparr>;
     State_Monad.return (case verified of
         Inl Expired \<Rightarrow> Inl Token_expired
       | Inl (Invalid_token reason) \<Rightarrow> Inl (Token_invalid reason)
       | Inl (Jwks_unavailable reason) \<Rightarrow> Inl (Token_jwks_unavailable reason)
       | Inr payload \<Rightarrow> read_access_claims payload)
   }"

section \<open>application/resolve-tenant-context.ts\<close>

datatype tenant_context_error = Unknown_host | Missing_token | Rejected access_token_error | Member_is_disabled

definition createDefaultMember ::
  "('n, 'z) api_env_scheme \<Rightarrow> string \<Rightarrow> string \<Rightarrow> ('n api_state, member \<times> permission_override list) state" where
  "createDefaultMember env tenant user = do {
     m \<leftarrow> on_members (upsert_member \<lparr>m_tenant = tenant, m_user = user, m_email = None, m_name = None,
       m_role = sd_default_role (api_definition env), m_status = Member_active\<rparr>);
     State_Monad.return (m, [])
   }"

definition member_or_default ::
  "('n, 'z) api_env_scheme \<Rightarrow> string \<Rightarrow> string \<Rightarrow> ('n api_state, member \<times> permission_override list) state" where
  "member_or_default env tenant user = do {
     found \<leftarrow> reads (findWithOverrides tenant user \<circ> api_members);
     case found of Some r \<Rightarrow> State_Monad.return r | None \<Rightarrow> createDefaultMember env tenant user
   }"

definition resolveTenantContext ::
  "('n, 'z) api_env_scheme \<Rightarrow> string \<Rightarrow> string option \<Rightarrow>
   ('n api_state, (api_context, tenant_context_error) result) state" where
  "resolveTenantContext env host authorization =
     (if to_lower host \<noteq> api_host env (api_audience env) then State_Monad.return (Inl Unknown_host)
      else (case readBearerToken authorization of
        None \<Rightarrow> State_Monad.return (Inl Missing_token)
      | Some token \<Rightarrow> do {
          verified \<leftarrow> verifyAccessToken env token;
          case verified of
            Inl e \<Rightarrow> State_Monad.return (Inl (Rejected e))
          | Inr claims \<Rightarrow> do {
              row \<leftarrow> member_or_default env (ac_tenant claims) (ac_user claims);
              State_Monad.return (case row of (m, ovs) \<Rightarrow>
                if m_status m \<noteq> Member_active then Inl Member_is_disabled
                else Inr \<lparr>tc_tenant = ac_tenant claims, tc_slug = ac_slug claims, tc_user = ac_user claims,
                  tc_client = ac_client claims, tc_member = m,
                  tc_permissions = resolvePermissions (api_definition env) (m_role m) ovs\<rparr>)
            }
        }))"

section \<open>interface/http/middleware.ts\<close>

text \<open>The answers of the API: an error code, a challenge, a body, an empty body, or a thrown exception.\<close>

datatype 'b api_answer =
  Refused nat string | Unauthorized string string | Answer nat 'b | No_body nat | Failed

definition forbidden :: "'b api_answer" where "forbidden = Refused 403 ''forbidden''"
definition notFoundResponse :: "'b api_answer" where "notFoundResponse = Refused 404 ''not_found''"
definition invalidJson :: "'b api_answer" where "invalidJson = Refused 400 ''invalid_request''"

definition unauthorized :: "string \<Rightarrow> string option \<Rightarrow> 'b api_answer" where
  "unauthorized err description = Unauthorized (bearerChallenge err description) err"

definition respond_context_error :: "tenant_context_error \<Rightarrow> 'b api_answer" where
  "respond_context_error e =
     (case e of
        Unknown_host \<Rightarrow> Refused 404 ''not_found''
      | Missing_token \<Rightarrow> unauthorized ''invalid_request'' None
      | Rejected Token_expired \<Rightarrow> unauthorized ''invalid_token'' (Some TOKEN_EXPIRED_DESCRIPTION)
      | Rejected (Token_invalid _) \<Rightarrow> unauthorized ''invalid_token'' None
      | Rejected (Token_jwks_unavailable _) \<Rightarrow> Refused 503 ''temporarily_unavailable''
      | Member_is_disabled \<Rightarrow> forbidden)"

definition authenticate ::
  "('n, 'z) api_env_scheme \<Rightarrow> string \<Rightarrow> string option \<Rightarrow>
   (api_context \<Rightarrow> ('n api_state, 'b api_answer) state) \<Rightarrow> ('n api_state, 'b api_answer) state" where
  "authenticate env host authorization next_handler = do {
     resolved \<leftarrow> resolveTenantContext env host authorization;
     case resolved of
       Inl e \<Rightarrow> State_Monad.return (respond_context_error e)
     | Inr ctx \<Rightarrow> next_handler ctx
   }"

definition requirePermission :: "string \<Rightarrow> api_context \<Rightarrow> ('s, 'b api_answer) state \<Rightarrow> ('s, 'b api_answer) state" where
  "requirePermission permission ctx next_handler =
     (if permission \<notin> tc_permissions ctx then State_Monad.return forbidden else next_handler)"

section \<open>What the token decides\<close>

text \<open>
  The permissions of a request are those of its role and its allow overrides, less every denied
  one: a deny beats any allow and the role, and an override for a name outside the service's
  vocabulary grants nothing.
\<close>

theorem effective_permissions:
  "resolvePermissions sd role ovs =
     {p. p \<in> role_permissions sd role \<or> isPermission sd p \<and> \<lparr>po_permission = p, po_effect = Allow\<rparr> \<in> set ovs} -
     {p. \<lparr>po_permission = p, po_effect = Deny\<rparr> \<in> set ovs}"
proof -
  have "\<lparr>po_permission = p, po_effect = e\<rparr> \<in> set ovs \<longleftrightarrow> list_ex (\<lambda>ov. po_effect ov = e \<and> po_permission ov = p) ovs" for p e
    unfolding list_ex_iff by (metis permission_override.cases permission_override.select_convs)
  then show ?thesis by (auto simp: mem_resolvePermissions allowed_def denied_def)
qed

definition token_context ::
  "('n, 'z) api_env_scheme \<Rightarrow> string \<Rightarrow> seconds \<Rightarrow> api_context \<Rightarrow> bool" where
  "token_context env token t ctx = (\<exists>keys payload claims.
     jose_verify (api_jose env) token keys SIGNING_ALGORITHM
       \<lparr>vo_issuer = api_issuer env, vo_audience = Some (api_audience env), vo_now = t,
        vo_tolerance = DEFAULT_CLOCK_TOLERANCE_SECONDS\<rparr> = Jose_ok payload \<and>
     read_access_claims payload = Inr claims \<and>
     tc_tenant ctx = ac_tenant claims \<and> tc_user ctx = ac_user claims \<and>
     json_field ''tenant_id'' payload = Some (JStr (tc_tenant ctx)) \<and>
     json_field ''sub'' payload = Some (JStr (tc_user ctx)))"

lemma json_text: "json_string j = Some v \<longleftrightarrow> j = Some (JStr v)"
  by (auto simp: json_string_def split: option.splits json.splits)

lemma claims_text:
  assumes "read_access_claims payload = Inr claims"
  shows "json_field ''tenant_id'' payload = Some (JStr (ac_tenant claims))"
    and "json_field ''sub'' payload = Some (JStr (ac_user claims))"
proof -
  have "List.find (\<lambda>k. json_string (json_field k payload) = None) REQUIRED_CLAIMS = None"
    using assms by (simp add: read_access_claims_def split: option.splits)
  then have all: "json_string (json_field k payload) \<noteq> None" if "k \<in> set REQUIRED_CLAIMS" for k
    using that by (simp add: find_None_iff')
  have claims: "ac_tenant claims = claim_text ''tenant_id'' payload" "ac_user claims = claim_text ''sub'' payload"
    using assms by (auto simp: read_access_claims_def split: option.splits)
  have "json_field k payload = Some (JStr (claim_text k payload))" if "k \<in> set REQUIRED_CLAIMS" for k
    using all [OF that] by (auto simp: claim_text_def json_string_def split: option.splits json.splits)
  then show "json_field ''tenant_id'' payload = Some (JStr (ac_tenant claims))"
    and "json_field ''sub'' payload = Some (JStr (ac_user claims))"
    by (simp_all add: claims REQUIRED_CLAIMS_def)
qed

lemma verified_source_ok:
  assumes "run_state (verifyJwtWithSource j src token opts) s = (Inr payload, s')"
  shows "\<exists>keys. jose_verify j token keys SIGNING_ALGORITHM opts = Jose_ok payload"
  using assms
  by (auto simp: verifyJwtWithSource_def verifyJwt_def case_prod_beta
      split: option.splits sum.splits if_splits jose_outcome.splits)

lemma world_frame: "api_members (snd (run_state (on_world m) s)) = api_members s" "api_now (snd (run_state (on_world m) s)) = api_now s"
  by simp_all

lemma keeps_source [intro]:
  assumes "\<And>b. keeps obs (src b)"
  shows "keeps obs (verifyJwtWithSource j src token opts)"
  unfolding verifyJwtWithSource_def
  by (auto intro!: keeps_bind assms split: option.splits sum.splits)

lemma keeps_access_token: "keeps (\<lambda>s. (api_members s, api_now s)) (verifyAccessToken env token)"
  unfolding verifyAccessToken_def
  by (intro keeps_bind keeps_reads keeps_source keeps_return) (simp add: keeps_def)


lemma tenant_context_run:
  assumes "run_state (resolveTenantContext env host authorization) s = (Inr ctx, s')"
  obtains token claims row s1 where
    "to_lower host = api_host env (api_audience env)" "authorization = Some (''Bearer '' @ token)"
    "run_state (verifyAccessToken env token) s = (Inr claims, s1)"
    "run_state (member_or_default env (ac_tenant claims) (ac_user claims)) s1 = (row, s')"
    "tc_tenant ctx = ac_tenant claims" "tc_user ctx = ac_user claims" "tc_member ctx = fst row"
    "m_status (fst row) = Member_active"
    "tc_permissions ctx = resolvePermissions (api_definition env) (m_role (fst row)) (snd row)"
proof -
  from assms obtain token where host: "to_lower host = api_host env (api_audience env)"
    and token: "readBearerToken authorization = Some token"
    by (auto simp: resolveTenantContext_def split: if_splits option.splits)
  have bearer: "authorization = Some (''Bearer '' @ token)"
    using token readBearerToken_iff by (cases authorization) (auto simp: readBearerToken_def)
  obtain c s1 where v: "run_state (verifyAccessToken env token) s = (c, s1)" by fastforce
  from assms host token v obtain claims where c: "c = Inr claims"
    by (auto simp: resolveTenantContext_def split: sum.splits)
  obtain row s2 where r: "run_state (member_or_default env (ac_tenant claims) (ac_user claims)) s1 = (row, s2)"
    by fastforce
  have "s2 = s'" "tc_tenant ctx = ac_tenant claims" "tc_user ctx = ac_user claims" "tc_member ctx = fst row"
    "m_status (fst row) = Member_active"
    "tc_permissions ctx = resolvePermissions (api_definition env) (m_role (fst row)) (snd row)"
    using assms host token v c r by (auto simp: resolveTenantContext_def case_prod_beta split: if_splits)
  then show thesis using that host bearer v c r by blast
qed

text \<open>A request changes at most one row before its handler runs: the default row of its own token.\<close>

lemma default_row_run:
  "run_state (member_or_default env tenant user) s =
     (case findWithOverrides tenant user (api_members s) of
        Some row \<Rightarrow> (row, s)
      | None \<Rightarrow> let (m, db) = upsert_member \<lparr>m_tenant = tenant, m_user = user, m_email = None, m_name = None,
            m_role = sd_default_role (api_definition env), m_status = Member_active\<rparr> (api_members s)
          in ((m, []), s\<lparr>api_members := db\<rparr>))"
  by (simp add: member_or_default_def createDefaultMember_def case_prod_beta Let_def split: option.split)

lemma verify_keeps_members:
  "run_state (verifyAccessToken env token) s = (c, s1) \<Longrightarrow> api_members s1 = api_members s \<and> api_now s1 = api_now s"
  using keepsD [OF keeps_access_token] by fastforce

lemma verified_claims:
  assumes "run_state (verifyAccessToken env token) s = (Inr claims, s1)"
  obtains keys payload where "jose_verify (api_jose env) token keys SIGNING_ALGORITHM
       \<lparr>vo_issuer = api_issuer env, vo_audience = Some (api_audience env), vo_now = api_now s,
        vo_tolerance = DEFAULT_CLOCK_TOLERANCE_SECONDS\<rparr> = Jose_ok payload"
    "read_access_claims payload = Inr claims"
proof -
  let ?opts = "\<lparr>vo_issuer = api_issuer env, vo_audience = Some (api_audience env), vo_now = api_now s,
        vo_tolerance = DEFAULT_CLOCK_TOLERANCE_SECONDS\<rparr>"
  obtain v s2 where v: "run_state (verifyJwtWithSource (api_jose env)
    (\<lambda>force. on_world (api_keys env (api_now s) force)) token ?opts) s = (v, s2)" by fastforce
  then obtain payload where "v = Inr payload" "read_access_claims payload = Inr claims"
    using assms by (auto simp: verifyAccessToken_def split: sum.splits verify_error.splits)
  then show thesis using that verified_source_ok [of "api_jose env" _ token ?opts s payload s2] v by blast
qed

lemma default_row_facts:
  assumes "run_state (member_or_default env t0 u0) s = (row, s')" "members_wf (api_members s)" "plain_id t0"
  shows "findWithOverrides t0 u0 (api_members s') = Some row \<and> members_wf (api_members s') \<and>
    (\<forall>t u. plain_id t \<and> (t, u) \<noteq> (t0, u0) \<longrightarrow>
      findWithOverrides t u (api_members s') = findWithOverrides t u (api_members s))"
proof (cases "findWithOverrides t0 u0 (api_members s)")
  case None
  let ?m = "\<lparr>m_tenant = t0, m_user = u0, m_email = None, m_name = None,
    m_role = sd_default_role (api_definition env), m_status = Member_active\<rparr> :: member"
  have run: "row = (fst (upsert_member ?m (api_members s)), [])"
    "api_members s' = snd (upsert_member ?m (api_members s))"
    using assms(1) None by (auto simp: default_row_run case_prod_beta Let_def)
  show ?thesis
    unfolding run using None assms(2,3) by (auto simp: members.lookup_upsert members_wf_upsert)
next
  case (Some r)
  then show ?thesis using assms by (simp add: default_row_run)
qed

end
