(* ===== verification/ApiMembers.thy ===== *)
theory ApiMembers
  imports ApiContext OidcClient
begin

text \<open>
  packages/api-core/src: the member use cases (application/members.ts), the two admin clients behind
  application/ports/auth-admin.ts (infrastructure/auth-admin-client.ts over HTTP and
  infrastructure/memory-auth-admin.ts), and the routes /v1/me and /v1/members
  (interface/http/routes) with the request schemas of packages/api-contract they validate with.
\<close>

section \<open>application/members.ts\<close>

datatype member_error = Member_not_found | Cannot_remove_self | Auth_admin auth_admin_error

definition listMembers :: "string \<Rightarrow> ('n api_state, member list) state" where
  "listMembers tenant = reads (list_members tenant \<circ> api_members)"

definition getMemberDetail ::
  "('n, 'z) api_env_scheme \<Rightarrow> string \<Rightarrow> string \<Rightarrow>
   ('n api_state, (member \<times> permission_override list \<times> string set, member_error) result) state" where
  "getMemberDetail env tenant user = do {
     found \<leftarrow> reads (findWithOverrides tenant user \<circ> api_members);
     State_Monad.return (case found of
         None \<Rightarrow> Inl Member_not_found
       | Some (m, ovs) \<Rightarrow> Inr (m, ovs, resolvePermissions (api_definition env) (m_role m) ovs))
   }"

text \<open>\<open>None\<close>: the admin client threw.\<close>

definition inviteMember ::
  "('n, 'z) api_env_scheme \<Rightarrow> string \<Rightarrow> string \<Rightarrow> string option \<Rightarrow> string \<Rightarrow>
   ('n api_state, (member \<times> bool, member_error) result option) state" where
  "inviteMember env tenant email name role = do {
     invited \<leftarrow> on_world (api_invite env tenant email name);
     case invited of
       None \<Rightarrow> State_Monad.return None
     | Some (Inl e) \<Rightarrow> State_Monad.return (Some (Inl (Auth_admin e)))
     | Some (Inr u) \<Rightarrow> do {
         m \<leftarrow> on_members (upsert_member \<lparr>m_tenant = tenant, m_user = iu_id u, m_email = Some (iu_email u),
           m_name = iu_name u, m_role = role, m_status = Member_active\<rparr>);
         State_Monad.return (Some (Inr (m, iu_linked u)))
       }
   }"

definition changeMemberRole ::
  "string \<Rightarrow> string \<Rightarrow> string \<Rightarrow> ('n api_state, (member, member_error) result) state" where
  "changeMemberRole tenant user role = do {
     existing \<leftarrow> reads (find_member tenant user \<circ> api_members);
     case existing of
       None \<Rightarrow> State_Monad.return (Inl Member_not_found)
     | Some m \<Rightarrow> do {
         updated \<leftarrow> on_members (upsert_member (m\<lparr>m_role := role\<rparr>));
         State_Monad.return (Inr updated)
       }
   }"

definition replaceMemberOverrides ::
  "('n, 'z) api_env_scheme \<Rightarrow> string \<Rightarrow> string \<Rightarrow> permission_override list \<Rightarrow>
   ('n api_state, (permission_override list \<times> string set, member_error) result) state" where
  "replaceMemberOverrides env tenant user ovs = do {
     existing \<leftarrow> reads (find_member tenant user \<circ> api_members);
     case existing of
       None \<Rightarrow> State_Monad.return (Inl Member_not_found)
     | Some m \<Rightarrow> do {
         _ \<leftarrow> on_members (\<lambda>db. ((), replace_overrides tenant (m_user m) ovs db));
         State_Monad.return (Inr (ovs, resolvePermissions (api_definition env) (m_role m) ovs))
       }
   }"

definition removeMember ::
  "('n, 'z) api_env_scheme \<Rightarrow> string \<Rightarrow> string \<Rightarrow> string \<Rightarrow> ('n api_state, (unit, member_error) result) state" where
  "removeMember env tenant actor user =
     (if user = actor then State_Monad.return (Inl Cannot_remove_self)
      else do {
        existing \<leftarrow> reads (find_member tenant user \<circ> api_members);
        case existing of
          None \<Rightarrow> State_Monad.return (Inl Member_not_found)
        | Some _ \<Rightarrow> do {
            revoked \<leftarrow> on_world (api_revoke env tenant user);
            if \<not> is_ok revoked \<and> revoked \<noteq> Inl User_not_found
            then State_Monad.return (map_sum Auth_admin id revoked)
            else do {
              _ \<leftarrow> on_members (\<lambda>db. ((), remove_member tenant user db));
              State_Monad.return (Inr ())
            }
          }
      })"

section \<open>MemoryAuthAdminClient\<close>

record memory_admin =
  ma_invited :: "(string \<times> string) list"
  ma_revoked :: "(string \<times> string) list"
  ma_counter :: nat
  ma_known :: "string \<rightharpoonup> invited_user"

definition memory_invite ::
  "string \<Rightarrow> string \<Rightarrow> string option \<Rightarrow> (memory_admin, (invited_user, auth_admin_error) result option) state" where
  "memory_invite tenant email name = State (\<lambda>a.
     let a1 = a\<lparr>ma_invited := ma_invited a @ [(tenant, email)]\<rparr>
     in case ma_known a (to_lower email) of
          Some u \<Rightarrow> (Some (Inr u), a1)
        | None \<Rightarrow>
            let n = ma_counter a + 1;
                u = \<lparr>iu_id = ''user-invited-'' @ digits n, iu_email = email, iu_name = name, iu_linked = False\<rparr>
            in (Some (Inr u), a1\<lparr>ma_counter := n, ma_known := (ma_known a)(to_lower email \<mapsto> u)\<rparr>))"

definition memory_revoke :: "string \<Rightarrow> string \<Rightarrow> (memory_admin, (unit, auth_admin_error) result) state" where
  "memory_revoke tenant user = State (\<lambda>a.
     (if user = ''user-unknown'' then Inl User_not_found else Inr (),
      a\<lparr>ma_revoked := ma_revoked a @ [(tenant, user)]\<rparr>))"

section \<open>HttpAuthAdminClient\<close>

record 'n admin_client =
  hc_base_url :: string
  hc_client_id :: string
  hc_secret :: string
  hc_fetch :: "http_request \<Rightarrow> 'n \<Rightarrow> http_response option \<times> 'n"
  hc_stringify :: "json \<Rightarrow> string"

definition admin_headers :: "('n, 'z) admin_client_scheme \<Rightarrow> (string \<times> string) list" where
  "admin_headers c =
     [(''Content-Type'', ''application/json''),
      (''Authorization'', ''Basic '' @
        b64_encode (bytes_of_string (encode_uri (hc_client_id c) @ '':'' @ encode_uri (hc_secret c))))]"

definition errorResponseSchema :: "json \<Rightarrow> string option" where
  "errorResponseSchema j = do {
     code \<leftarrow> json_string (json_field ''error'' j);
     _ \<leftarrow> optional_field (\<lambda>v. json_string (Some v)) ''message'' j;
     Some code
   }"

definition admin_error :: "string \<Rightarrow> auth_admin_error" where
  "admin_error code =
     (if code = ''tenant_not_found'' then Tenant_not_found
      else if code = ''not_contracted'' then Not_contracted
      else if code = ''user_not_found'' then User_not_found
      else Admin_unavailable code)"

definition admin_call ::
  "('n, 'z) admin_client_scheme \<Rightarrow> string \<Rightarrow> json \<Rightarrow> ('n, (http_response, auth_admin_error) result) state" where
  "admin_call c verb body = do {
     answer \<leftarrow> State (hc_fetch c \<lparr>rq_method = verb, rq_url = hc_base_url c @ ''/admin/service-members'',
       rq_headers = admin_headers c, rq_body = Some (hc_stringify c body)\<rparr>);
     State_Monad.return (case answer of
         None \<Rightarrow> Inl (Admin_unavailable ''fetch failed'')
       | Some r \<Rightarrow>
           if res_ok r then Inr r
           else Inl (admin_error (case Option.bind (rs_json r) errorResponseSchema of
             Some code \<Rightarrow> code | None \<Rightarrow> ''status '' @ digits (rs_status r))))
   }"

definition nullable_string :: "json option \<Rightarrow> string option option" where
  "nullable_string j = (case j of Some JNull \<Rightarrow> Some None | Some (JStr s) \<Rightarrow> Some (Some s) | _ \<Rightarrow> None)"

definition short_id :: "string \<Rightarrow> bool" where "short_id s = (1 \<le> length s \<and> length s \<le> 64)"

definition serviceMemberUserSchema :: "json \<Rightarrow> invited_user option" where
  "serviceMemberUserSchema j = do {
     i \<leftarrow> json_string (json_field ''id'' j);
     e \<leftarrow> json_string (json_field ''email'' j);
     n \<leftarrow> nullable_string (json_field ''name'' j);
     if \<not> short_id i then None
     else (case json_field ''linked'' j of
       Some (JBool l) \<Rightarrow> Some \<lparr>iu_id = i, iu_email = e, iu_name = n, iu_linked = l\<rparr> | _ \<Rightarrow> None)
   }"

definition inviteServiceMemberResponseSchema :: "json \<Rightarrow> invited_user option" where
  "inviteServiceMemberResponseSchema j = Option.bind (json_field ''user'' j) serviceMemberUserSchema"

text \<open>A success answer whose body is not JSON makes \<open>res.json()\<close> throw out of \<open>invite\<close>: \<open>None\<close>.\<close>

definition http_invite ::
  "('n, 'z) admin_client_scheme \<Rightarrow> string \<Rightarrow> string \<Rightarrow> string option \<Rightarrow>
   ('n, (invited_user, auth_admin_error) result option) state" where
  "http_invite c tenant email name = do {
     res \<leftarrow> admin_call c ''POST'' (JObj ([(''tenant_id'', JStr tenant), (''email'', JStr email)] @
       (case name of None \<Rightarrow> [] | Some n \<Rightarrow> [(''name'', JStr n)])));
     State_Monad.return (case res of
         Inl e \<Rightarrow> Some (Inl e)
       | Inr r \<Rightarrow> (case rs_json r of
           None \<Rightarrow> None
         | Some body \<Rightarrow> (case inviteServiceMemberResponseSchema body of
             None \<Rightarrow> Some (Inl (Admin_unavailable ''malformed response''))
           | Some u \<Rightarrow> Some (Inr u))))
   }"

definition http_revoke ::
  "('n, 'z) admin_client_scheme \<Rightarrow> string \<Rightarrow> string \<Rightarrow> ('n, (unit, auth_admin_error) result) state" where
  "http_revoke c tenant user = do {
     res \<leftarrow> admin_call c ''DELETE'' (JObj [(''tenant_id'', JStr tenant), (''user_id'', JStr user)]);
     State_Monad.return (map_sum id (\<lambda>_. ()) res)
   }"

section \<open>Request schemas\<close>

text \<open>\<open>is_email\<close> is zod's \<open>email()\<close>. Role and permission names are refined by the service's vocabulary.\<close>

definition emailSchema :: "(string \<Rightarrow> bool) \<Rightarrow> json option \<Rightarrow> string option" where
  "emailSchema is_email j =
     Option.bind (json_string j) (\<lambda>e. if is_email e \<and> length e \<le> 254 then Some e else None)"

definition personNameSchema :: "json \<Rightarrow> string option" where
  "personNameSchema j = Option.bind (json_string (Some j))
     (\<lambda>s. let n = js_trim s in if 1 \<le> length n \<and> length n \<le> 100 then Some n else None)"

definition roleSchema :: "service_definition \<Rightarrow> json option \<Rightarrow> string option" where
  "roleSchema sd j = Option.bind (json_string j) (\<lambda>r. if isRole sd r then Some r else None)"

definition inviteSchema ::
  "(string \<Rightarrow> bool) \<Rightarrow> service_definition \<Rightarrow> json \<Rightarrow> (string \<times> string option \<times> string) option" where
  "inviteSchema is_email sd j = do {
     e \<leftarrow> emailSchema is_email (json_field ''email'' j);
     n \<leftarrow> optional_field personNameSchema ''name'' j;
     r \<leftarrow> roleSchema sd (json_field ''role'' j);
     Some (e, n, r)
   }"

definition patchSchema :: "service_definition \<Rightarrow> json \<Rightarrow> string option" where
  "patchSchema sd j = roleSchema sd (json_field ''role'' j)"

definition overrideSchema :: "service_definition \<Rightarrow> json \<Rightarrow> permission_override option" where
  "overrideSchema sd j = do {
     p \<leftarrow> json_string (json_field ''permission'' j);
     e \<leftarrow> json_string (json_field ''effect'' j);
     if \<not> isPermission sd p then None
     else if e = ''allow'' then Some \<lparr>po_permission = p, po_effect = Allow\<rparr>
     else if e = ''deny'' then Some \<lparr>po_permission = p, po_effect = Deny\<rparr>
     else None
   }"

fun all_parsed :: "('a \<Rightarrow> 'b option) \<Rightarrow> 'a list \<Rightarrow> 'b list option" where
  "all_parsed parse [] = Some []"
| "all_parsed parse (x # xs) = do { y \<leftarrow> parse x; ys \<leftarrow> all_parsed parse xs; Some (y # ys) }"

definition permissionsSchema :: "service_definition \<Rightarrow> json \<Rightarrow> permission_override list option" where
  "permissionsSchema sd j =
     (case json_field ''overrides'' j of
        Some (JArr js) \<Rightarrow>
          Option.bind (all_parsed (overrideSchema sd) js)
            (\<lambda>ovs. if length ovs \<le> 50 then Some ovs else None)
      | _ \<Rightarrow> None)"

section \<open>Routes\<close>

record member_json =
  mj_user :: string
  mj_email :: "string option"
  mj_name :: "string option"
  mj_role :: string
  mj_status :: member_status

definition member_to_json :: "member \<Rightarrow> member_json" where
  "member_to_json m = \<lparr>mj_user = m_user m, mj_email = m_email m, mj_name = m_name m, mj_role = m_role m,
     mj_status = m_status m\<rparr>"

record me_json =
  me_user :: "string \<times> string option \<times> string option"
  me_tenant :: "string \<times> string"
  me_role :: string
  me_permissions :: "string list"
  me_service :: "string \<times> string list \<times> string list"

datatype member_body =
  Me_body me_json
  | Members_body "member_json list"
  | Detail_body member_json "permission_override list" "string list"
  | Invited_body member_json bool
  | Member_body member_json
  | Overrides_body "permission_override list" "string list"

definition respondError :: "member_error \<Rightarrow> 'b api_answer" where
  "respondError e =
     (case e of
        Member_not_found \<Rightarrow> notFoundResponse
      | Cannot_remove_self \<Rightarrow> Refused 400 ''cannot_remove_self''
      | Auth_admin Tenant_not_found \<Rightarrow> Refused 403 ''tenant_not_found''
      | Auth_admin Not_contracted \<Rightarrow> Refused 403 ''not_contracted''
      | Auth_admin User_not_found \<Rightarrow> notFoundResponse
      | Auth_admin (Admin_unavailable _) \<Rightarrow> Refused 503 ''temporarily_unavailable'')"

text \<open>
  The requests, one constructor per route. \<open>validated\<close> is the \<open>zValidator\<close> step; a request without a
  JSON content type (\<open>None\<close>) is validated as the empty object. Malformed JSON never reaches a handler.
\<close>

datatype member_request =
  Get_me
  | Get_members
  | Get_member string
  | Post_member "json option"
  | Patch_member string "json option"
  | Put_permissions string "json option"
  | Delete_member string

definition validated ::
  "(json \<Rightarrow> 'a option) \<Rightarrow> json option \<Rightarrow> ('a \<Rightarrow> ('s, 'b api_answer) state) \<Rightarrow> ('s, 'b api_answer) state" where
  "validated schema body handler =
     (case schema (case body of None \<Rightarrow> JObj [] | Some j \<Rightarrow> j) of
        None \<Rightarrow> State_Monad.return invalidJson | Some v \<Rightarrow> handler v)"

definition answer_result :: "('a \<Rightarrow> 'b api_answer) \<Rightarrow> ('a, member_error) result \<Rightarrow> 'b api_answer" where
  "answer_result f r = (case r of Inl e \<Rightarrow> respondError e | Inr v \<Rightarrow> f v)"

definition me_response :: "('n, 'z) api_env_scheme \<Rightarrow> api_context \<Rightarrow> me_json" where
  "me_response env ctx =
     \<lparr>me_user = (tc_user ctx, m_email (tc_member ctx), m_name (tc_member ctx)),
      me_tenant = (tc_tenant ctx, tc_slug ctx), me_role = m_role (tc_member ctx),
      me_permissions = sorted_list_of_set (tc_permissions ctx),
      me_service = (tc_client ctx, sd_roles (api_definition env), allPermissions (api_definition env))\<rparr>"

definition member_routes ::
  "('n, 'z) api_env_scheme \<Rightarrow> (string \<Rightarrow> bool) \<Rightarrow> member_request \<Rightarrow> api_context \<Rightarrow>
   ('n api_state, member_body api_answer) state" where
  "member_routes env is_email rq ctx =
     (case rq of
        Get_me \<Rightarrow> State_Monad.return (Answer 200 (Me_body (me_response env ctx)))
      | Get_members \<Rightarrow> requirePermission ''members:read'' ctx (do {
          ms \<leftarrow> listMembers (tc_tenant ctx);
          State_Monad.return (Answer 200 (Members_body (map member_to_json ms)))
        })
      | Get_member user \<Rightarrow> requirePermission ''members:read'' ctx (do {
          r \<leftarrow> getMemberDetail env (tc_tenant ctx) user;
          State_Monad.return (answer_result (\<lambda>(m, ovs, ps).
            Answer 200 (Detail_body (member_to_json m) ovs (sorted_list_of_set ps))) r)
        })
      | Post_member body \<Rightarrow> requirePermission ''members:invite'' ctx
          (validated (inviteSchema is_email (api_definition env)) body (\<lambda>(email, name, role). do {
            r \<leftarrow> inviteMember env (tc_tenant ctx) email name role;
            State_Monad.return (case r of None \<Rightarrow> Failed
              | Some x \<Rightarrow> answer_result (\<lambda>(m, linked). Answer 201 (Invited_body (member_to_json m) linked)) x)
          }))
      | Patch_member user body \<Rightarrow> requirePermission ''members:manage'' ctx
          (validated (patchSchema (api_definition env)) body (\<lambda>role. do {
            r \<leftarrow> changeMemberRole (tc_tenant ctx) user role;
            State_Monad.return (answer_result (\<lambda>m. Answer 200 (Member_body (member_to_json m))) r)
          }))
      | Put_permissions user body \<Rightarrow> requirePermission ''members:manage'' ctx
          (validated (permissionsSchema (api_definition env)) body (\<lambda>ovs. do {
            r \<leftarrow> replaceMemberOverrides env (tc_tenant ctx) user ovs;
            State_Monad.return (answer_result (\<lambda>(ovs, ps).
              Answer 200 (Overrides_body ovs (sorted_list_of_set ps))) r)
          }))
      | Delete_member user \<Rightarrow> requirePermission ''members:manage'' ctx (do {
          r \<leftarrow> removeMember env (tc_tenant ctx) (tc_user ctx) user;
          State_Monad.return (answer_result (\<lambda>_. No_body 204) r)
        }))"

definition members_app ::
  "('n, 'z) api_env_scheme \<Rightarrow> (string \<Rightarrow> bool) \<Rightarrow> string \<Rightarrow> string option \<Rightarrow> member_request \<Rightarrow>
   ('n api_state, member_body api_answer) state" where
  "members_app env is_email host authorization rq =
     authenticate env host authorization (member_routes env is_email rq)"

section \<open>The context of a request\<close>

text \<open>
  A request runs in the tenant and as the user its access token names: the handler is reached only
  on the host of the API's audience, with a bearer token that verified against the issuer and that
  audience, for a member row of exactly that tenant and user that is active, with the permissions of
  that row's role and overrides. Before the handler only that row can have been created; what any
  other tenant sees of the member table is as before.
\<close>

theorem api_context_facts:
  assumes "run_state (resolveTenantContext env host authorization) s = (Inr ctx, s')"
    and "members_wf (api_members s)" "plain_id (tc_tenant ctx)"
  shows "to_lower host = api_host env (api_audience env) \<and>
    (\<exists>token. authorization = Some (''Bearer '' @ token) \<and> token_context env token (api_now s) ctx) \<and>
    (\<exists>ovs. findWithOverrides (tc_tenant ctx) (tc_user ctx) (api_members s') = Some (tc_member ctx, ovs) \<and>
      m_status (tc_member ctx) = Member_active \<and>
      tc_permissions ctx = resolvePermissions (api_definition env) (m_role (tc_member ctx)) ovs) \<and>
    members_wf (api_members s') \<and>
    (\<forall>t u. plain_id t \<and> (t, u) \<noteq> (tc_tenant ctx, tc_user ctx) \<longrightarrow>
      findWithOverrides t u (api_members s') = findWithOverrides t u (api_members s))"
proof -
  from tenant_context_run [OF assms(1)] obtain token claims row s1 where
    host: "to_lower host = api_host env (api_audience env)" and bearer: "authorization = Some (''Bearer '' @ token)"
    and v: "run_state (verifyAccessToken env token) s = (Inr claims, s1)"
    and r: "run_state (member_or_default env (ac_tenant claims) (ac_user claims)) s1 = (row, s')"
    and ctx: "tc_tenant ctx = ac_tenant claims" "tc_user ctx = ac_user claims" "tc_member ctx = fst row"
      "m_status (fst row) = Member_active"
      "tc_permissions ctx = resolvePermissions (api_definition env) (m_role (fst row)) (snd row)"
    by metis
  from verified_claims [OF v] obtain keys payload where
    jose: "jose_verify (api_jose env) token keys SIGNING_ALGORITHM
       \<lparr>vo_issuer = api_issuer env, vo_audience = Some (api_audience env), vo_now = api_now s,
        vo_tolerance = DEFAULT_CLOCK_TOLERANCE_SECONDS\<rparr> = Jose_ok payload"
    and claims: "read_access_claims payload = Inr claims" .
  have token: "token_context env token (api_now s) ctx"
    unfolding token_context_def
    by (intro exI [of _ keys] exI [of _ payload] exI [of _ claims] conjI jose claims ctx)
       (simp_all add: ctx claims_text [OF claims])
  have same: "api_members s1 = api_members s" using verify_keeps_members [OF v] by simp
  have "plain_id (ac_tenant claims)" using assms(3) ctx(1) by simp
  from default_row_facts [OF r _ this] assms(2)
  have row: "findWithOverrides (tc_tenant ctx) (tc_user ctx) (api_members s') = Some row"
    "members_wf (api_members s')"
    "\<forall>t u. plain_id t \<and> (t, u) \<noteq> (tc_tenant ctx, tc_user ctx) \<longrightarrow>
      findWithOverrides t u (api_members s') = findWithOverrides t u (api_members s)"
    unfolding same ctx(1,2) by simp_all
  have "findWithOverrides (tc_tenant ctx) (tc_user ctx) (api_members s') = Some (tc_member ctx, snd row)"
    using row(1) ctx(3) by simp
  then show ?thesis
    by (intro conjI exI [of _ token] exI [of _ "snd row"]) (use host bearer token ctx row in simp_all)
qed

section \<open>Effects of the routes\<close>

text \<open>
  What an operation of tenant \<open>t\<close> may do to the member table: keep it well formed and keep what every
  other tenant sees.
\<close>

definition confined :: "string \<Rightarrow> member_store \<Rightarrow> member_store \<Rightarrow> bool" where
  "confined t db db' = (members_wf db' \<and>
     (\<forall>v u. plain_id v \<and> v \<noteq> t \<longrightarrow> findWithOverrides v u db' = findWithOverrides v u db))"

lemma confined_same [simp]: "members_wf db \<Longrightarrow> confined t db db"
  by (simp add: confined_def)

lemma confined_upsert:
  "members_wf db \<Longrightarrow> plain_id (m_tenant m) \<Longrightarrow> confined (m_tenant m) db (snd (upsert_member m db))"
  by (auto simp: confined_def members.others_upsert members_wf_upsert)

lemma confined_remove:
  "members_wf db \<Longrightarrow> plain_id t \<Longrightarrow> confined t db (remove_member t u db)"
  by (auto simp: confined_def members.others_remove members_wf_remove)

lemma confined_replace:
  "members_wf db \<Longrightarrow> plain_id t \<Longrightarrow> findWithOverrides t u db \<noteq> None \<Longrightarrow>
   confined t db (replace_overrides t u ovs db)"
  by (auto simp: confined_def members.others_replace members_wf_replace)

lemma upserted_listed:
  assumes "members_wf db" "plain_id (m_tenant m)"
  shows "fst (upsert_member m db) \<in> set (list_members (m_tenant m) (snd (upsert_member m db)))"
  using members.lookup_upsert [OF assms(1) assms(2) assms(2), of "m_user m"]
  unfolding list_members_iff [OF members_wf_upsert [OF assms] assms(2)] by auto

lemma found_named:
  assumes "members_wf db" "plain_id t" "find_member t u db = Some m"
  shows "m_tenant m = t \<and> m_user m = u"
  using members_named [OF assms(1,2)] assms(3) by (simp add: find_member_def)

fun shown :: "member_body api_answer \<Rightarrow> member_json list" where
  "shown (Answer _ (Members_body ms)) = ms"
| "shown (Answer _ (Detail_body m _ _)) = [m]"
| "shown (Answer _ (Invited_body m _)) = [m]"
| "shown (Answer _ (Member_body m)) = [m]"
| "shown _ = []"

lemma shown_refused [simp]: "shown forbidden = []" "shown invalidJson = []" "shown (respondError e) = []"
  by (simp_all add: forbidden_def invalidJson_def notFoundResponse_def respondError_def
      split: member_error.split auth_admin_error.split)

definition rows_shown :: "string \<Rightarrow> 'n api_state \<Rightarrow> member_body api_answer \<Rightarrow> bool" where
  "rows_shown t s a = (\<forall>j\<in>set (shown a). \<exists>m\<in>set (list_members t (api_members s)). j = member_to_json m)"

lemma rows_shown_none [simp]: "shown a = [] \<Longrightarrow> rows_shown t s a"
  by (simp add: rows_shown_def)

definition write_permission :: "member_request \<Rightarrow> string option" where
  "write_permission rq =
     (case rq of Get_me \<Rightarrow> None | Get_members \<Rightarrow> None | Get_member _ \<Rightarrow> None
      | Post_member _ \<Rightarrow> Some ''members:invite'' | _ \<Rightarrow> Some ''members:manage'')"

definition contained :: "string \<Rightarrow> 'n api_state \<Rightarrow> member_body api_answer \<times> 'n api_state \<Rightarrow> bool" where
  "contained t s r = (confined t (api_members s) (api_members (snd r)) \<and> rows_shown t (snd r) (fst r))"

lemma contained_quiet: "members_wf (api_members s) \<Longrightarrow> shown a = [] \<Longrightarrow> contained t s (a, s)"
  by (simp add: contained_def)

lemma contained_permission:
  "members_wf (api_members s) \<Longrightarrow> contained t s (run_state m s) \<Longrightarrow>
   contained t s (run_state (requirePermission p ctx m) s)"
  by (simp add: requirePermission_def contained_quiet)

lemma contained_validated:
  "members_wf (api_members s) \<Longrightarrow> (\<And>v. contained t s (run_state (h v) s)) \<Longrightarrow>
   contained t s (run_state (validated schema body h) s)"
  by (simp add: validated_def contained_quiet split: option.split)

lemma contained_invite:
  assumes "members_wf (api_members s)" "plain_id t"
  shows "contained t s (run_state (do {
     r \<leftarrow> inviteMember env t email name role;
     State_Monad.return (case r of None \<Rightarrow> Failed
       | Some x \<Rightarrow> answer_result (\<lambda>(m, linked). Answer 201 (Invited_body (member_to_json m) linked)) x)
   }) s)"
proof -
  have row: "confined t (api_members s) (snd (upsert_member m (api_members s))) \<and>
      fst (upsert_member m (api_members s)) \<in> set (list_members t (snd (upsert_member m (api_members s))))"
    if "m_tenant m = t" for m
    using confined_upsert [of "api_members s" m] upserted_listed [of "api_members s" m] assms that by simp
  show ?thesis
    using assms row
    by (auto simp: contained_def rows_shown_def inviteMember_def answer_result_def case_prod_beta
        split: option.split sum.split)
qed

lemma contained_change:
  assumes "members_wf (api_members s)" "plain_id t"
  shows "contained t s (run_state (do {
     r \<leftarrow> changeMemberRole t user role;
     State_Monad.return (answer_result (\<lambda>m. Answer 200 (Member_body (member_to_json m))) r)
   }) s)"
proof (cases "find_member t user (api_members s)")
  case None
  then show ?thesis using assms by (simp add: changeMemberRole_def answer_result_def contained_quiet)
next
  case (Some m)
  have "m_tenant (m\<lparr>m_role := role\<rparr>) = t" using found_named [OF assms Some] by simp
  then show ?thesis
    using confined_upsert [of "api_members s" "m\<lparr>m_role := role\<rparr>"]
      upserted_listed [of "api_members s" "m\<lparr>m_role := role\<rparr>"] assms Some
    by (auto simp: contained_def rows_shown_def changeMemberRole_def answer_result_def case_prod_beta)
qed

lemma contained_replace:
  assumes "members_wf (api_members s)" "plain_id t"
  shows "contained t s (run_state (do {
     r \<leftarrow> replaceMemberOverrides env t user ovs;
     State_Monad.return (answer_result (\<lambda>(ovs, ps). Answer 200 (Overrides_body ovs (sorted_list_of_set ps))) r)
   }) s)"
proof (cases "find_member t user (api_members s)")
  case None
  then show ?thesis using assms by (simp add: replaceMemberOverrides_def answer_result_def contained_quiet)
next
  case (Some m)
  then have "findWithOverrides t user (api_members s) \<noteq> None" by (auto simp: find_member_lookup)
  then show ?thesis
    using confined_replace [OF assms, of user ovs] found_named [OF assms Some] Some
    by (simp add: contained_def replaceMemberOverrides_def answer_result_def case_prod_beta)
qed

lemma contained_remove:
  assumes "members_wf (api_members s)" "plain_id t"
  shows "contained t s (run_state (do {
     r \<leftarrow> removeMember env t actor user;
     State_Monad.return (answer_result (\<lambda>_. No_body 204) r)
   }) s)"
  using assms confined_remove [OF assms, of user]
  by (auto simp: contained_def removeMember_def answer_result_def case_prod_beta is_ok_def
      split: option.split sum.split)

lemma contained_reads:
  assumes "members_wf (api_members s)" "plain_id t"
  shows "contained t s (run_state (do {
       ms \<leftarrow> listMembers t; State_Monad.return (Answer 200 (Members_body (map member_to_json ms))) }) s)"
    and "contained t s (run_state (do {
       r \<leftarrow> getMemberDetail env t user;
       State_Monad.return (answer_result (\<lambda>(m, ovs, ps).
         Answer 200 (Detail_body (member_to_json m) ovs (sorted_list_of_set ps))) r) }) s)"
proof -
  have listed: "m \<in> set (list_members t (api_members s))"
    if "findWithOverrides t user (api_members s) = Some (m, ovs)" for m ovs
    unfolding list_members_iff [OF assms] using that by blast
  then show "contained t s (run_state (do {
       ms \<leftarrow> listMembers t; State_Monad.return (Answer 200 (Members_body (map member_to_json ms))) }) s)"
    "contained t s (run_state (do {
       r \<leftarrow> getMemberDetail env t user;
       State_Monad.return (answer_result (\<lambda>(m, ovs, ps).
         Answer 200 (Detail_body (member_to_json m) ovs (sorted_list_of_set ps))) r) }) s)"
    using assms(1)
    by (auto simp: contained_def rows_shown_def listMembers_def getMemberDetail_def answer_result_def
        split: option.split)
qed

text \<open>
  C20: A member request never leaves its tenant: it keeps the table well formed, no other tenant sees a
  change of any of its rows or overrides, every row in the answer is a row of the request's own
  tenant, and without the permission of the route neither the table nor the outside (the admin API)
  is touched.
\<close>

theorem member_requests_stay_in_tenant:
  assumes "run_state (member_routes env is_email rq ctx) s = (a, s')"
    and "members_wf (api_members s)" "plain_id (tc_tenant ctx)"
  shows "members_wf (api_members s') \<and>
    (\<forall>t u. plain_id t \<and> t \<noteq> tc_tenant ctx \<longrightarrow>
      findWithOverrides t u (api_members s') = findWithOverrides t u (api_members s)) \<and>
    (\<forall>j\<in>set (shown a). \<exists>m\<in>set (list_members (tc_tenant ctx) (api_members s')). j = member_to_json m) \<and>
    (s' = s \<or> (\<exists>p\<in>tc_permissions ctx. write_permission rq = Some p))"
proof -
  note run = contained_quiet contained_permission contained_validated contained_invite contained_change
    contained_replace contained_remove contained_reads
  have "contained (tc_tenant ctx) s (run_state (member_routes env is_email rq ctx) s)"
    unfolding member_routes_def
    by (cases rq) (simp_all only: member_request.simps split_beta, auto intro!: run assms(2,3) simp: split_beta)
  moreover have "s' = s \<or> (\<exists>p\<in>tc_permissions ctx. write_permission rq = Some p)"
    using assms(1)
    by (cases rq) (auto simp: member_routes_def requirePermission_def write_permission_def listMembers_def
        getMemberDetail_def split: if_splits)
  ultimately show ?thesis
    using assms(1) by (auto simp: contained_def confined_def rows_shown_def)
qed

lemma invite_run:
  assumes "run_state (api_invite env t email name) (api_world s) = (Some (Inr u), n)"
  shows "run_state (inviteMember env t email name role) s =
    (let (m, db) = upsert_member \<lparr>m_tenant = t, m_user = iu_id u, m_email = Some (iu_email u),
       m_name = iu_name u, m_role = role, m_status = Member_active\<rparr> (api_members s)
     in (Some (Inr (m, iu_linked u)), s\<lparr>api_world := n, api_members := db\<rparr>))"
  using assms by (simp add: inviteMember_def case_prod_beta Let_def)

text \<open>
  A removal is complete on both sides: it never is the caller's own, the authorization server was
  asked to revoke the user in that tenant and agreed (or did not know the user), and the row and its
  overrides are gone. A request the removed user still makes with an unexpired token starts again with
  the default role and nothing else.
\<close>

theorem removed_member_restarts:
  assumes "run_state (removeMember env t actor user) s = (Inr (), s1)"
    and "members_wf (api_members s)" "plain_id t"
  shows "user \<noteq> actor \<and>
    fst (run_state (api_revoke env t user) (api_world s)) \<in> {Inr (), Inl User_not_found} \<and>
    api_world s1 = snd (run_state (api_revoke env t user) (api_world s)) \<and>
    findWithOverrides t user (api_members s1) = None \<and>
    fst (run_state (member_or_default env t user) s1) =
      (\<lparr>m_tenant = t, m_user = user, m_email = None, m_name = None,
        m_role = sd_default_role (api_definition env), m_status = Member_active\<rparr>, [])"
proof -
  let ?r = "run_state (api_revoke env t user) (api_world s)"
  have ne: "user \<noteq> actor" using assms(1) by (auto simp: removeMember_def)
  with assms(1) obtain m where "find_member t user (api_members s) = Some m"
    by (auto simp: removeMember_def split: option.splits)
  with assms(1) ne have run: "fst ?r \<in> {Inr (), Inl User_not_found}"
    "s1 = s\<lparr>api_world := snd ?r, api_members := remove_member t user (api_members s)\<rparr>"
    by (cases "fst ?r"; auto simp: removeMember_def case_prod_beta is_ok_def split: if_splits)+
  have gone: "findWithOverrides t user (api_members s1) = None"
    using assms(2,3) by (simp add: run(2) members.lookup_remove)
  then have "map_of (member_rows (api_members s1)) (member_key t user) = None"
    by (auto simp: findWithOverrides_def split: option.splits)
  then show ?thesis
    using ne run gone by (simp add: default_row_run upsert_member_def Let_def or_else_def)
qed

section \<open>Witnesses\<close>

definition fx_service_roles :: service_definition where
  "fx_service_roles = \<lparr>sd_roles = [''owner'', ''viewer''], sd_default_role = ''viewer'', sd_permissions = [''x:read''],
     sd_role_permissions = [(''owner'', [''x:read'', ''members:read'', ''members:invite'', ''members:manage'']),
       (''viewer'', [''x:read'', ''members:read''])]\<rparr>"

definition fx_member :: "string \<Rightarrow> string \<Rightarrow> string \<Rightarrow> member" where
  "fx_member t u role = \<lparr>m_tenant = t, m_user = u, m_email = None, m_name = None, m_role = role,
     m_status = Member_active\<rparr>"

definition fx_members :: member_store where
  "fx_members = member_store_new [fx_member ''t1'' ''u1'' ''owner'', fx_member ''t1'' ''u2'' ''viewer'',
     fx_member ''t2'' ''u1'' ''viewer''] [(''t1'', ''u2'', \<lparr>po_permission = ''members:read'', po_effect = Deny\<rparr>)]"

definition fx_admin :: memory_admin where
  "fx_admin = \<lparr>ma_invited = [], ma_revoked = [], ma_counter = 0, ma_known = Map.empty\<rparr>"

definition fx_api_state :: "memory_admin api_state" where
  "fx_api_state = \<lparr>api_now = 100, api_members = fx_members, api_world = fx_admin\<rparr>"

text \<open>A token \<open>good\<close> for user \<open>u1\<close> of tenant \<open>t1\<close>, whose key the source serves.\<close>

definition fx_access_payload :: json where
  "fx_access_payload = JObj [(''sub'', JStr ''u1''), (''tenant_id'', JStr ''t1''), (''tenant_slug'', JStr ''acme''),
     (''sid'', JStr ''s1''), (''client_id'', JStr ''crm'')]"

definition fx_api_env :: "memory_admin api_env" where
  "fx_api_env = \<lparr>api_issuer = ''https://op'', api_audience = ''https://api'', api_host = (\<lambda>_. ''api''),
     api_jose = \<lparr>jose_kid = (\<lambda>_. Some ''k1''),
       jose_verify = (\<lambda>t _ _ _. if t = ''good'' then Jose_ok fx_access_payload else Jose_error ''bad'')\<rparr>,
     api_keys = (\<lambda>_ _. State_Monad.return (Inr [\<lparr>jwk_kid = Some ''k1'', jwk_material = []\<rparr>])),
     api_definition = fx_service_roles, api_invite = memory_invite, api_revoke = memory_revoke\<rparr>"

lemma fx_members_wf: "members_wf fx_members"
  by (auto simp: members_wf_def fx_members_def member_store_new_def fx_member_def member_key_def plain_id_def
      split: if_splits)

lemma plain_fx: "plain_id ''t1''" "plain_id ''t2''"
  by (simp_all add: plain_id_def)

lemma fx_context_run:
  "fst (run_state (resolveTenantContext fx_api_env ''API'' (Some ''Bearer good'')) fx_api_state) =
     Inr \<lparr>tc_tenant = ''t1'', tc_slug = ''acme'', tc_user = ''u1'', tc_client = ''crm'',
        tc_member = fx_member ''t1'' ''u1'' ''owner'',
        tc_permissions = {''x:read'', ''members:read'', ''members:invite'', ''members:manage''}\<rparr>"
  by code_simp

theorem api_context_facts_witness:
  "\<exists>ctx. fst (run_state (resolveTenantContext fx_api_env ''API'' (Some ''Bearer good'')) fx_api_state) = Inr ctx \<and>
     tc_tenant ctx = ''t1'' \<and> (\<exists>token. Some ''Bearer good'' = Some (''Bearer '' @ token) \<and>
       token_context fx_api_env token (api_now fx_api_state) ctx)"
proof -
  let ?ctx = "\<lparr>tc_tenant = ''t1'', tc_slug = ''acme'', tc_user = ''u1'', tc_client = ''crm'',
        tc_member = fx_member ''t1'' ''u1'' ''owner'',
        tc_permissions = {''x:read'', ''members:read'', ''members:invite'', ''members:manage''}\<rparr>"
  obtain s1 where "run_state (resolveTenantContext fx_api_env ''API'' (Some ''Bearer good'')) fx_api_state = (Inr ?ctx, s1)"
    using fx_context_run by (metis prod.collapse)
  moreover have "members_wf (api_members fx_api_state)" by (simp add: fx_api_state_def fx_members_wf)
  moreover have "plain_id (tc_tenant ?ctx)" by (simp add: plain_fx)
  ultimately have "\<exists>token. Some ''Bearer good'' = Some (''Bearer '' @ token) \<and>
      token_context fx_api_env token (api_now fx_api_state) ?ctx"
    using api_context_facts by blast
  then show ?thesis
    using fx_context_run by (intro exI [of _ ?ctx] conjI) (simp_all del: append.simps)
qed

theorem removed_member_restarts_witness:
  "findWithOverrides ''t1'' ''u2'' (api_members (snd (run_state (removeMember fx_api_env ''t1'' ''u1'' ''u2'') fx_api_state))) = None"
proof -
  have run: "fst (run_state (removeMember fx_api_env ''t1'' ''u1'' ''u2'') fx_api_state) = Inr ()" by code_simp
  then obtain s1 where s1: "run_state (removeMember fx_api_env ''t1'' ''u1'' ''u2'') fx_api_state = (Inr (), s1)"
    by (metis prod.collapse)
  have "members_wf (api_members fx_api_state)" by (simp add: fx_api_state_def fx_members_wf)
  from removed_member_restarts [OF s1 this plain_fx(1)] show ?thesis by (simp add: s1)
qed

theorem member_requests_stay_in_tenant_witness:
  "\<exists>ctx. findWithOverrides ''t2'' ''u1'' (api_members (snd (run_state
       (member_routes fx_api_env (\<lambda>_. True) (Patch_member ''u2'' (Some (JObj [(''role'', JStr ''owner'')]))) ctx) fx_api_state))) =
     findWithOverrides ''t2'' ''u1'' (api_members fx_api_state) \<and> tc_tenant ctx = ''t1'' \<and>
     ''members:manage'' \<in> tc_permissions ctx"
proof -
  let ?ctx = "\<lparr>tc_tenant = ''t1'', tc_slug = ''acme'', tc_user = ''u1'', tc_client = ''crm'',
        tc_member = fx_member ''t1'' ''u1'' ''owner'',
        tc_permissions = {''x:read'', ''members:read'', ''members:invite'', ''members:manage''}\<rparr>"
  let ?rq = "Patch_member ''u2'' (Some (JObj [(''role'', JStr ''owner'')]))"
  obtain a s1 where run: "run_state (member_routes fx_api_env (\<lambda>_. True) ?rq ?ctx) fx_api_state = (a, s1)"
    by fastforce
  have "members_wf (api_members fx_api_state)" "plain_id (tc_tenant ?ctx)"
    by (simp_all add: fx_api_state_def fx_members_wf plain_fx)
  from member_requests_stay_in_tenant [OF run this] have
    "findWithOverrides ''t2'' ''u1'' (api_members s1) = findWithOverrides ''t2'' ''u1'' (api_members fx_api_state)"
    using plain_fx by simp
  then show ?thesis using run by (intro exI [of _ ?ctx]) simp
qed

end
