(* ===== verification/TenantRows.thy ===== *)
theory TenantRows
  imports ApiMembers
begin

text \<open>
  The contract of the service repositories (EndUserRepository of apps/crm-api and PostRepository of
  apps/cms-api): rows addressed by tenant and id. The abstract state is, per tenant, the list of its
  rows in insertion order; \<open>tenant_rows\<close> says how each operation of a repository acts on these lists.
  A request of one tenant is then a step on its own list (\<open>rows_spec\<close>), and the lists of all others
  stay as they are.
\<close>

section \<open>Requests on the rows of one tenant\<close>

datatype ('i, 'p) rows_request = Rows_list | Rows_get string | Rows_create string 'i
  | Rows_update string 'p | Rows_delete string

datatype 'r rows_reply = Rows "'r list" | Row "'r option" | Gone bool

text \<open>The specification: what a request answers and does to its tenant's list.\<close>

fun rows_spec ::
  "('r \<Rightarrow> string) \<Rightarrow> (string \<Rightarrow> 'i \<Rightarrow> 'r) \<Rightarrow> ('p \<Rightarrow> 'r \<Rightarrow> 'r) \<Rightarrow> ('i, 'p) rows_request \<Rightarrow> 'r list \<Rightarrow>
   'r rows_reply \<times> 'r list" where
  "rows_spec key mk patch Rows_list rs = (Rows rs, rs)"
| "rows_spec key mk patch (Rows_get i) rs = (Row (List.find (\<lambda>r. key r = i) rs), rs)"
| "rows_spec key mk patch (Rows_create i x) rs = (Row (Some (mk i x)), rs @ [mk i x])"
| "rows_spec key mk patch (Rows_update i p) rs =
     (Row (map_option (patch p) (List.find (\<lambda>r. key r = i) rs)),
      map (\<lambda>r. if key r = i then patch p r else r) rs)"
| "rows_spec key mk patch (Rows_delete i) rs =
     (Gone (list_ex (\<lambda>r. key r = i) rs), filter (\<lambda>r. key r \<noteq> i) rs)"

fun rows_step ::
  "(string \<Rightarrow> 'db \<Rightarrow> 'r list) \<Rightarrow> (string \<Rightarrow> string \<Rightarrow> 'db \<Rightarrow> 'r option) \<Rightarrow>
   (string \<Rightarrow> string \<Rightarrow> 'i \<Rightarrow> 'db \<Rightarrow> 'r \<times> 'db) \<Rightarrow> (string \<Rightarrow> string \<Rightarrow> 'p \<Rightarrow> 'db \<Rightarrow> 'r option \<times> 'db) \<Rightarrow>
   (string \<Rightarrow> string \<Rightarrow> 'db \<Rightarrow> bool \<times> 'db) \<Rightarrow> string \<Rightarrow> ('i, 'p) rows_request \<Rightarrow> 'db \<Rightarrow> 'r rows_reply \<times> 'db" where
  "rows_step lst fnd crt upd rmv t Rows_list db = (Rows (lst t db), db)"
| "rows_step lst fnd crt upd rmv t (Rows_get i) db = (Row (fnd t i db), db)"
| "rows_step lst fnd crt upd rmv t (Rows_create i x) db = apfst (Row \<circ> Some) (crt t i x db)"
| "rows_step lst fnd crt upd rmv t (Rows_update i p) db = apfst Row (upd t i p db)"
| "rows_step lst fnd crt upd rmv t (Rows_delete i) db = apfst Gone (rmv t i db)"

definition creates_fresh :: "('db \<Rightarrow> string set) \<Rightarrow> ('i, 'p) rows_request \<Rightarrow> 'db \<Rightarrow> bool" where
  "creates_fresh ids rq db = (case rq of Rows_create i _ \<Rightarrow> i \<notin> ids db | _ \<Rightarrow> True)"

section \<open>The contract\<close>

locale tenant_rows =
  fixes lst :: "string \<Rightarrow> 'db \<Rightarrow> 'r list"
    and fnd :: "string \<Rightarrow> string \<Rightarrow> 'db \<Rightarrow> 'r option"
    and crt :: "string \<Rightarrow> string \<Rightarrow> 'i \<Rightarrow> 'db \<Rightarrow> 'r \<times> 'db"
    and upd :: "string \<Rightarrow> string \<Rightarrow> 'p \<Rightarrow> 'db \<Rightarrow> 'r option \<times> 'db"
    and rmv :: "string \<Rightarrow> string \<Rightarrow> 'db \<Rightarrow> bool \<times> 'db"
    and key :: "'r \<Rightarrow> string"
    and mk :: "string \<Rightarrow> string \<Rightarrow> 'i \<Rightarrow> 'r"
    and patch :: "'p \<Rightarrow> 'r \<Rightarrow> 'r"
    and ids :: "'db \<Rightarrow> string set"
    and wf :: "'db \<Rightarrow> bool"
  assumes fnd_law: "wf db \<Longrightarrow> fnd t i db = List.find (\<lambda>r. key r = i) (lst t db)"
    and crt_row: "fst (crt t i x db) = mk t i x"
    and crt_law: "wf db \<Longrightarrow> i \<notin> ids db \<Longrightarrow>
      lst s (snd (crt t i x db)) = (if s = t then lst t db @ [mk t i x] else lst s db)"
    and upd_row: "wf db \<Longrightarrow> fst (upd t i p db) = map_option (patch p) (fnd t i db)"
    and upd_law: "wf db \<Longrightarrow> lst s (snd (upd t i p db)) =
      (if s = t then map (\<lambda>r. if key r = i then patch p r else r) (lst t db) else lst s db)"
    and rmv_row: "wf db \<Longrightarrow> fst (rmv t i db) = (fnd t i db \<noteq> None)"
    and rmv_law: "wf db \<Longrightarrow> lst s (snd (rmv t i db)) =
      (if s = t then filter (\<lambda>r. key r \<noteq> i) (lst t db) else lst s db)"
    and crt_wf: "wf db \<Longrightarrow> wf (snd (crt t i x db))"
    and upd_wf: "wf db \<Longrightarrow> wf (snd (upd t i p db))"
    and rmv_wf: "wf db \<Longrightarrow> wf (snd (rmv t i db))"
begin

text \<open>Functional refinement: the repository's step is the specification's step on the tenant's list.\<close>

lemma step_refines:
  assumes "wf db" "creates_fresh ids rq db"
  shows "(fst (rows_step lst fnd crt upd rmv t rq db), lst t (snd (rows_step lst fnd crt upd rmv t rq db))) =
    rows_spec key (mk t) patch rq (lst t db)"
  using assms
  by (cases rq) (auto simp: creates_fresh_def fnd_law crt_row crt_law upd_row upd_law rmv_row rmv_law
      find_None_iff' list_ex_iff)

lemma step_isolated:
  assumes "wf db" "creates_fresh ids rq db" "s \<noteq> t"
  shows "lst s (snd (rows_step lst fnd crt upd rmv t rq db)) = lst s db"
  using assms by (cases rq) (auto simp: creates_fresh_def crt_law upd_law rmv_law)

lemma step_wf: "wf db \<Longrightarrow> wf (snd (rows_step lst fnd crt upd rmv t rq db))"
  by (cases rq) (auto simp: crt_wf upd_wf rmv_wf)

end

section \<open>Rows kept in a map from ids\<close>

text \<open>
  Both memory repositories keep one \<open>Map\<close> from id to row and filter by tenant. These are the facts
  about association lists their interpretations share.
\<close>

definition keyed :: "('r \<Rightarrow> string) \<Rightarrow> (string \<times> 'r) list \<Rightarrow> bool" where
  "keyed key rows = (distinct (map fst rows) \<and> (\<forall>(k, r)\<in>set rows. key r = k))"

lemma keyed_simps [simp]:
  "keyed key []" "keyed key ((k, r) # rows) \<longleftrightarrow> key r = k \<and> k \<notin> fst ` set rows \<and> keyed key rows"
  by (auto simp: keyed_def)

lemma update_set: "p \<in> set (AList.update k r rows) \<Longrightarrow> p = (k, r) \<or> p \<in> set rows"
  by (induction rows) (auto split: if_splits)

lemma keyed_update: "keyed key rows \<Longrightarrow> key r = k \<Longrightarrow> keyed key (AList.update k r rows)"
  by (auto simp: keyed_def distinct_update dest!: update_set)

lemma keyed_delete: "keyed key rows \<Longrightarrow> keyed key (AList.delete k rows)"
  by (auto simp: keyed_def AList.delete_eq distinct_map_filter)

lemma keyed_row: "keyed key rows \<Longrightarrow> r \<in> snd ` set rows \<longleftrightarrow> map_of rows (key r) = Some r"
  by (force simp: keyed_def)

abbreviation own :: "('r \<Rightarrow> string) \<Rightarrow> string \<Rightarrow> (string \<times> 'r) list \<Rightarrow> 'r list" where
  "own owner t rows \<equiv> filter (\<lambda>r. owner r = t) (map snd rows)"

definition own_row :: "('r \<Rightarrow> string) \<Rightarrow> string \<Rightarrow> string \<Rightarrow> (string \<times> 'r) list \<Rightarrow> 'r option" where
  "own_row owner t i rows =
     (case map_of rows i of Some r \<Rightarrow> if owner r = t then Some r else None | None \<Rightarrow> None)"

lemma own_row_find: "keyed key rows \<Longrightarrow> own_row owner t i rows = List.find (\<lambda>r. key r = i) (own owner t rows)"
proof (induction rows)
  case (Cons p rows)
  obtain k r where p: "p = (k, r)" by fastforce
  show ?case
  proof (cases "k = i")
    case True
    have "List.find (\<lambda>r. key r = i) (own owner t rows) = None"
      using Cons.prems True by (force simp: p find_None_iff' keyed_def)
    then show ?thesis using True Cons.prems by (simp add: p own_row_def)
  next
    case False
    then show ?thesis using Cons by (simp add: p own_row_def)
  qed
qed (simp add: own_row_def)

lemma update_fresh: "k \<notin> fst ` set rows \<Longrightarrow> AList.update k r rows = rows @ [(k, r)]"
  by (induction rows) auto

lemma own_create:
  "i \<notin> fst ` set rows \<Longrightarrow> owner r = t \<Longrightarrow>
   own owner s (AList.update i r rows) = (if s = t then own owner t rows @ [r] else own owner s rows)"
  by (simp add: update_fresh)

lemma own_update:
  assumes "keyed key rows" "own_row owner t i rows = Some r" "owner r' = t"
  shows "own owner s (AList.update i r' rows) =
    (if s = t then map (\<lambda>x. if key x = i then r' else x) (own owner t rows) else own owner s rows)"
  using assms
proof (induction rows)
  case (Cons p rows)
  obtain k x where p: "p = (k, x)" by fastforce
  show ?case
  proof (cases "k = i")
    case True
    have "map (\<lambda>x. if key x = i then r' else x) (own owner t rows) = own owner t rows"
      using Cons.prems(1) True by (intro map_idI) (force simp: p keyed_def)
    then show ?thesis using True Cons.prems by (auto simp: p own_row_def split: if_splits)
  next
    case False
    then show ?thesis using Cons by (cases "s = t") (auto simp: p own_row_def)
  qed
qed (simp add: own_row_def)

lemma own_delete:
  assumes "keyed key rows" "own_row owner t i rows = Some r"
  shows "own owner s (AList.delete i rows) =
    (if s = t then filter (\<lambda>x. key x \<noteq> i) (own owner t rows) else own owner s rows)"
  using assms
proof (induction rows)
  case (Cons p rows)
  obtain k x where p: "p = (k, x)" by fastforce
  show ?case
  proof (cases "k = i")
    case True
    have "filter (\<lambda>x. key x \<noteq> i) (own owner t rows) = own owner t rows" "AList.delete i rows = rows"
      using Cons.prems(1) True by (force simp: p keyed_def intro!: filter_True, simp add: p)
    then show ?thesis using True Cons.prems by (auto simp: p own_row_def split: if_splits)
  next
    case False
    then show ?thesis using Cons by (cases "s = t") (auto simp: p own_row_def)
  qed
qed (simp add: own_row_def)

lemma own_row_named: "keyed key rows \<Longrightarrow> own_row owner t i rows = Some r \<Longrightarrow> key r = i \<and> owner r = t"
  by (auto simp: own_row_def keyed_def split: option.splits if_splits dest!: map_of_SomeD)

lemma own_row_unique:
  assumes "keyed key rows" "own_row owner t i rows = Some u" "x \<in> set (own owner t rows)" "key x = i"
  shows "x = u"
proof -
  obtain k where "(k, x) \<in> set rows" using assms(3) by auto
  moreover from this have "k = i" using assms(1,4) by (auto simp: keyed_def)
  ultimately have "map_of rows i = Some x" using assms(1) by (simp add: keyed_def)
  with assms(2) show ?thesis by (auto simp: own_row_def split: if_splits)
qed

lemma own_patch:
  assumes "keyed key rows" "own_row owner t i rows = Some u" "owner (f u) = t"
  shows "own owner s (AList.update i (f u) rows) =
    (if s = t then map (\<lambda>x. if key x = i then f x else x) (own owner t rows) else own owner s rows)"
proof -
  have "map (\<lambda>x. if key x = i then f u else x) (own owner t rows) =
      map (\<lambda>x. if key x = i then f x else x) (own owner t rows)"
    using own_row_unique [OF assms(1,2)] by (intro map_cong refl) auto
  then show ?thesis using own_update [OF assms] by simp
qed

lemma own_absent:
  assumes "keyed key rows" "own_row owner t i rows = None"
  shows "map (\<lambda>x. if key x = i then f x else x) (own owner t rows) = own owner t rows"
    and "filter (\<lambda>x. key x \<noteq> i) (own owner t rows) = own owner t rows"
proof -
  have "\<forall>x\<in>set (own owner t rows). key x \<noteq> i"
    unfolding find_None_iff' [symmetric] own_row_find [OF assms(1), symmetric] by (rule assms(2))
  then show "map (\<lambda>x. if key x = i then f x else x) (own owner t rows) = own owner t rows"
    and "filter (\<lambda>x. key x \<noteq> i) (own owner t rows) = own owner t rows"
    by (auto intro!: map_idI filter_cong)
qed

end
