(* ===== verification/CrmApi.thy ===== *)
theory CrmApi
  imports TenantRows
begin

text \<open>
  apps/crm-api/src: the roles of the CRM (definition.ts), the end users with their masking
  (end-users/domain), the use cases and the memory repository (end-users/application and
  end-users/infrastructure), and the routes /v1/end-users with the schemas of
  packages/api-contract/src/crm they validate with.
\<close>

section \<open>definition.ts\<close>

definition CRM_PERMISSIONS :: "string list" where
  "CRM_PERMISSIONS = [''end_users:read'', ''end_users:create'', ''end_users:update'', ''end_users:delete'',
     ''end_users:unmask'']"

definition CRM :: service_definition where
  "CRM = \<lparr>sd_roles = [''owner'', ''admin'', ''member'', ''viewer''], sd_default_role = ''viewer'',
     sd_permissions = CRM_PERMISSIONS,
     sd_role_permissions =
       [(''owner'', CRM_PERMISSIONS @ [''members:read'', ''members:invite'', ''members:manage'']),
        (''admin'', CRM_PERMISSIONS @ [''members:read'', ''members:invite'']),
        (''member'', [''end_users:read'', ''end_users:create'', ''end_users:update'', ''members:read'']),
        (''viewer'', [''end_users:read'', ''members:read''])]\<rparr>"

section \<open>domain/end-user.ts\<close>

record end_user =
  eu_id :: string
  eu_tenant :: string
  eu_name :: string
  eu_email :: string
  eu_phone :: string
  eu_note :: string

record end_user_input =
  ei_name :: string
  ei_email :: string
  ei_phone :: string
  ei_note :: string

record end_user_patch =
  ep_name :: "string option"
  ep_email :: "string option"
  ep_phone :: "string option"
  ep_note :: "string option"

record end_user_view = end_user +
  ev_masked :: bool

text \<open>\<open>const [local = "", domain = ""] = email.split("@")\<close>: the first two parts, further ones are ignored.\<close>

definition email_parts :: "string \<Rightarrow> string \<times> string" where
  "email_parts email = (case split_on (CHR ''@'') email of
     [] \<Rightarrow> ([], []) | [l] \<Rightarrow> (l, []) | l # d # _ \<Rightarrow> (l, d))"

definition phone_digits :: "string \<Rightarrow> string" where "phone_digits phone = filter is_digit phone"

definition last4 :: "string \<Rightarrow> string" where "last4 s = drop (length s - 4) s"

definition mask_email :: "string \<Rightarrow> string" where
  "mask_email email = (case email_parts email of (local_part, domain) \<Rightarrow> take 1 local_part @ ''***@'' @ domain)"

definition mask_phone :: "string \<Rightarrow> string" where
  "mask_phone phone = ''***-****-'' @ last4 (phone_digits phone)"

definition maskEndUser :: "end_user \<Rightarrow> end_user" where
  "maskEndUser u = u\<lparr>eu_email := mask_email (eu_email u), eu_phone := mask_phone (eu_phone u)\<rparr>"

definition presentEndUser :: "end_user \<Rightarrow> bool \<Rightarrow> end_user_view" where
  "presentEndUser u can_unmask =
     end_user.extend (if can_unmask then u else maskEndUser u) (end_user_view.fields (\<not> can_unmask))"

section \<open>MemoryEndUserRepository\<close>

type_synonym end_user_db = "(string \<times> end_user) list"

definition end_user_db_new :: "end_user list \<Rightarrow> end_user_db" where
  "end_user_db_new initial = fold (\<lambda>u. AList.update (eu_id u) u) initial []"

definition eu_list :: "string \<Rightarrow> end_user_db \<Rightarrow> end_user list" where
  "eu_list tenant db = filter (\<lambda>u. eu_tenant u = tenant) (map snd db)"

definition eu_find :: "string \<Rightarrow> string \<Rightarrow> end_user_db \<Rightarrow> end_user option" where
  "eu_find tenant i db =
     (case map_of db i of Some u \<Rightarrow> if eu_tenant u = tenant then Some u else None | None \<Rightarrow> None)"

definition eu_row :: "string \<Rightarrow> string \<Rightarrow> end_user_input \<Rightarrow> end_user" where
  "eu_row tenant i x = \<lparr>eu_id = i, eu_tenant = tenant, eu_name = ei_name x, eu_email = ei_email x,
     eu_phone = ei_phone x, eu_note = ei_note x\<rparr>"

definition eu_create :: "string \<Rightarrow> string \<Rightarrow> end_user_input \<Rightarrow> end_user_db \<Rightarrow> end_user \<times> end_user_db" where
  "eu_create tenant i x db = (eu_row tenant i x, AList.update i (eu_row tenant i x) db)"

definition eu_patched :: "end_user_patch \<Rightarrow> end_user \<Rightarrow> end_user" where
  "eu_patched p u = u\<lparr>eu_name := (case ep_name p of Some v \<Rightarrow> v | None \<Rightarrow> eu_name u),
     eu_email := (case ep_email p of Some v \<Rightarrow> v | None \<Rightarrow> eu_email u),
     eu_phone := (case ep_phone p of Some v \<Rightarrow> v | None \<Rightarrow> eu_phone u),
     eu_note := (case ep_note p of Some v \<Rightarrow> v | None \<Rightarrow> eu_note u)\<rparr>"

definition eu_update ::
  "string \<Rightarrow> string \<Rightarrow> end_user_patch \<Rightarrow> end_user_db \<Rightarrow> end_user option \<times> end_user_db" where
  "eu_update tenant i p db =
     (case eu_find tenant i db of
        None \<Rightarrow> (None, db)
      | Some u \<Rightarrow> (Some (eu_patched p u), AList.update i (eu_patched p u) db))"

definition eu_remove :: "string \<Rightarrow> string \<Rightarrow> end_user_db \<Rightarrow> bool \<times> end_user_db" where
  "eu_remove tenant i db =
     (case eu_find tenant i db of None \<Rightarrow> (False, db) | Some _ \<Rightarrow> (True, AList.delete i db))"

lemma eu_find_own: "eu_find = own_row eu_tenant"
  by (intro ext) (simp add: eu_find_def own_row_def)

lemma eu_patched_names [simp]: "eu_id (eu_patched p u) = eu_id u" "eu_tenant (eu_patched p u) = eu_tenant u"
  by (simp_all add: eu_patched_def)

lemma eu_row_names [simp]: "eu_id (eu_row t i x) = i" "eu_tenant (eu_row t i x) = t"
  by (simp_all add: eu_row_def)

interpretation end_users: tenant_rows eu_list eu_find eu_create eu_update eu_remove eu_id eu_row eu_patched
  "\<lambda>db. fst ` set db" "keyed eu_id"
proof
  fix db :: end_user_db and s t i p
  assume wf: "keyed eu_id db"
  show "eu_list s (snd (eu_update t i p db)) =
      (if s = t then map (\<lambda>r. if eu_id r = i then eu_patched p r else r) (eu_list t db) else eu_list s db)"
  proof (cases "eu_find t i db")
    case None
    then show ?thesis
      using own_absent(1) [OF wf None [unfolded eu_find_own]] by (simp add: eu_update_def eu_list_def)
  next
    case (Some u)
    then show ?thesis
      using own_patch [OF wf Some [unfolded eu_find_own]] own_row_named [OF wf Some [unfolded eu_find_own]]
      by (simp add: eu_update_def eu_list_def)
  qed
  show "eu_list s (snd (eu_remove t i db)) =
      (if s = t then filter (\<lambda>r. eu_id r \<noteq> i) (eu_list t db) else eu_list s db)"
  proof (cases "eu_find t i db")
    case None
    then show ?thesis
      using own_absent(2) [OF wf None [unfolded eu_find_own]] by (simp add: eu_remove_def eu_list_def)
  next
    case (Some u)
    then show ?thesis
      using own_delete [OF wf Some [unfolded eu_find_own]] by (simp add: eu_remove_def eu_list_def)
  qed
next
  fix db :: end_user_db and i s t and x :: end_user_input
  assume "i \<notin> fst ` set db"
  then show "eu_list s (snd (eu_create t i x db)) =
      (if s = t then eu_list t db @ [eu_row t i x] else eu_list s db)"
    using own_create [of i db eu_tenant "eu_row t i x" t s] by (simp add: eu_create_def eu_list_def)
next
  fix db :: end_user_db and t i p
  assume wf: "keyed eu_id db"
  then show "keyed eu_id (snd (eu_update t i p db))"
    using own_row_named [OF wf, of eu_tenant t i]
    by (auto simp: eu_update_def eu_find_own intro: keyed_update split: option.split)
qed (auto simp: eu_find_own own_row_find eu_list_def eu_create_def eu_update_def eu_remove_def
  intro: keyed_update keyed_delete split: option.split)

section \<open>application/end-users.ts\<close>

definition UNMASK :: string where "UNMASK = ''end_users:unmask''"

definition can_unmask :: "api_context \<Rightarrow> bool" where "can_unmask ctx = (UNMASK \<in> tc_permissions ctx)"

definition listEndUsers :: "api_context \<Rightarrow> (end_user_db, end_user_view list \<times> bool) state" where
  "listEndUsers ctx = reads (\<lambda>db.
     (map (\<lambda>u. presentEndUser u (can_unmask ctx)) (eu_list (tc_tenant ctx) db), \<not> can_unmask ctx))"

definition getEndUser :: "api_context \<Rightarrow> string \<Rightarrow> (end_user_db, end_user_view option) state" where
  "getEndUser ctx i = reads (\<lambda>db.
     map_option (\<lambda>u. presentEndUser u (can_unmask ctx)) (eu_find (tc_tenant ctx) i db))"

text \<open>\<open>ulid\<close> is the fresh identifier that the library draws.\<close>

definition createEndUser :: "string \<Rightarrow> api_context \<Rightarrow> end_user_input \<Rightarrow> (end_user_db, end_user_view) state" where
  "createEndUser ulid ctx x = do {
     created \<leftarrow> State (eu_create (tc_tenant ctx) ulid x);
     State_Monad.return (presentEndUser created (can_unmask ctx))
   }"

definition updateEndUser ::
  "api_context \<Rightarrow> string \<Rightarrow> end_user_patch \<Rightarrow> (end_user_db, end_user_view option) state" where
  "updateEndUser ctx i p = do {
     updated \<leftarrow> State (eu_update (tc_tenant ctx) i p);
     State_Monad.return (map_option (\<lambda>u. presentEndUser u (can_unmask ctx)) updated)
   }"

definition deleteEndUser :: "api_context \<Rightarrow> string \<Rightarrow> (end_user_db, bool) state" where
  "deleteEndUser ctx i = State (eu_remove (tc_tenant ctx) i)"

section \<open>Schemas\<close>

text \<open>
  \<open>z.string().trim().min(lo).max(hi)\<close>. In the patch every field is optional; zod 4 applies a
  \<open>default\<close> inside an optional field too, so an absent note is the empty string there as well.
\<close>

definition trimmed_text :: "nat \<Rightarrow> nat \<Rightarrow> json \<Rightarrow> string option" where
  "trimmed_text lo hi j = Option.bind (json_string (Some j))
     (\<lambda>s. let v = js_trim s in if lo \<le> length v \<and> length v \<le> hi then Some v else None)"

definition note_field :: "json \<Rightarrow> string option" where
  "note_field j = (case json_field ''note'' j of
     None \<Rightarrow> Some []
   | Some v \<Rightarrow> Option.bind (json_string (Some v)) (\<lambda>s. if length s \<le> 1000 then Some s else None))"

definition endUserInputSchema :: "(string \<Rightarrow> bool) \<Rightarrow> json \<Rightarrow> end_user_input option" where
  "endUserInputSchema is_email j = do {
     n \<leftarrow> Option.bind (json_field ''name'' j) (trimmed_text 1 100);
     e \<leftarrow> emailSchema is_email (json_field ''email'' j);
     p \<leftarrow> Option.bind (json_field ''phone'' j) (trimmed_text 1 32);
     t \<leftarrow> note_field j;
     Some \<lparr>ei_name = n, ei_email = e, ei_phone = p, ei_note = t\<rparr>
   }"

definition endUserPatchSchema :: "(string \<Rightarrow> bool) \<Rightarrow> json \<Rightarrow> end_user_patch option" where
  "endUserPatchSchema is_email j = do {
     _ \<leftarrow> (case j of JObj _ \<Rightarrow> Some () | _ \<Rightarrow> None);
     n \<leftarrow> optional_field (trimmed_text 1 100) ''name'' j;
     e \<leftarrow> optional_field (\<lambda>v. emailSchema is_email (Some v)) ''email'' j;
     p \<leftarrow> optional_field (trimmed_text 1 32) ''phone'' j;
     t \<leftarrow> note_field j;
     Some \<lparr>ep_name = n, ep_email = e, ep_phone = p, ep_note = Some t\<rparr>
   }"

section \<open>interface/routes.ts\<close>

record end_user_json =
  ej_id :: string
  ej_name :: string
  ej_email :: string
  ej_phone :: string
  ej_note :: string
  ej_masked :: bool

definition end_user_to_json :: "end_user_view \<Rightarrow> end_user_json" where
  "end_user_to_json v = \<lparr>ej_id = eu_id v, ej_name = eu_name v, ej_email = eu_email v, ej_phone = eu_phone v,
     ej_note = eu_note v, ej_masked = ev_masked v\<rparr>"

datatype end_user_body = End_users_body "end_user_json list" bool | End_user_body end_user_json

datatype end_user_request =
  List_end_users
  | Get_end_user string
  | Post_end_user "json option"
  | Patch_end_user string "json option"
  | Delete_end_user string

definition view_answer :: "end_user_view option \<Rightarrow> end_user_body api_answer" where
  "view_answer r = (case r of None \<Rightarrow> notFoundResponse | Some v \<Rightarrow> Answer 200 (End_user_body (end_user_to_json v)))"

definition end_user_routes ::
  "(string \<Rightarrow> bool) \<Rightarrow> string \<Rightarrow> end_user_request \<Rightarrow> api_context \<Rightarrow> (end_user_db, end_user_body api_answer) state" where
  "end_user_routes is_email ulid rq ctx =
     (case rq of
        List_end_users \<Rightarrow> requirePermission ''end_users:read'' ctx (do {
          r \<leftarrow> listEndUsers ctx;
          State_Monad.return (Answer 200 (End_users_body (map end_user_to_json (fst r)) (snd r)))
        })
      | Get_end_user i \<Rightarrow> requirePermission ''end_users:read'' ctx (do {
          r \<leftarrow> getEndUser ctx i;
          State_Monad.return (view_answer r)
        })
      | Post_end_user body \<Rightarrow> requirePermission ''end_users:create'' ctx
          (validated (endUserInputSchema is_email) body (\<lambda>x. do {
            v \<leftarrow> createEndUser ulid ctx x;
            State_Monad.return (Answer 201 (End_user_body (end_user_to_json v)))
          }))
      | Patch_end_user i body \<Rightarrow> requirePermission ''end_users:update'' ctx
          (validated (endUserPatchSchema is_email) body (\<lambda>p. do {
            r \<leftarrow> updateEndUser ctx i p;
            State_Monad.return (view_answer r)
          }))
      | Delete_end_user i \<Rightarrow> requirePermission ''end_users:delete'' ctx (do {
          r \<leftarrow> deleteEndUser ctx i;
          State_Monad.return (if r then No_body 204 else notFoundResponse)
        }))"

text \<open>A request to the CRM's API: the tenant context, then the route.\<close>

definition crm_app ::
  "('n, 'z) api_env_scheme \<Rightarrow> (string \<Rightarrow> bool) \<Rightarrow> string \<Rightarrow> string \<Rightarrow> string option \<Rightarrow> end_user_request \<Rightarrow>
   'n api_state \<times> end_user_db \<Rightarrow> end_user_body api_answer \<times> 'n api_state \<times> end_user_db" where
  "crm_app env is_email ulid host authorization rq = (\<lambda>(s, db).
     case run_state (resolveTenantContext env host authorization) s of
       (Inl e, s') \<Rightarrow> (respond_context_error e, s', db)
     | (Inr ctx, s') \<Rightarrow>
         (case run_state (end_user_routes is_email ulid rq ctx) db of (a, db') \<Rightarrow> (a, s', db')))"

section \<open>Requests as steps on the tenant's rows\<close>

text \<open>
  What a request asks of the repository once permission and body are checked, and how the answer is
  made from what the repository returns.
\<close>

definition needs :: "end_user_request \<Rightarrow> string" where
  "needs rq = (case rq of List_end_users \<Rightarrow> ''end_users:read'' | Get_end_user _ \<Rightarrow> ''end_users:read''
     | Post_end_user _ \<Rightarrow> ''end_users:create'' | Patch_end_user _ _ \<Rightarrow> ''end_users:update''
     | Delete_end_user _ \<Rightarrow> ''end_users:delete'')"

definition body_json :: "json option \<Rightarrow> json" where "body_json b = (case b of None \<Rightarrow> JObj [] | Some j \<Rightarrow> j)"

definition planned ::
  "(string \<Rightarrow> bool) \<Rightarrow> string \<Rightarrow> end_user_request \<Rightarrow> (end_user_input, end_user_patch) rows_request option" where
  "planned is_email ulid rq =
     (case rq of
        List_end_users \<Rightarrow> Some Rows_list
      | Get_end_user i \<Rightarrow> Some (Rows_get i)
      | Post_end_user b \<Rightarrow> map_option (Rows_create ulid) (endUserInputSchema is_email (body_json b))
      | Patch_end_user i b \<Rightarrow> map_option (Rows_update i) (endUserPatchSchema is_email (body_json b))
      | Delete_end_user i \<Rightarrow> Some (Rows_delete i))"

definition shown_row :: "api_context \<Rightarrow> end_user \<Rightarrow> end_user_json" where
  "shown_row ctx u = end_user_to_json (presentEndUser u (can_unmask ctx))"

definition encoded :: "api_context \<Rightarrow> end_user_request \<Rightarrow> end_user rows_reply \<Rightarrow> end_user_body api_answer" where
  "encoded ctx rq reply =
     (case reply of
        Rows us \<Rightarrow> Answer 200 (End_users_body (map (shown_row ctx) us) (\<not> can_unmask ctx))
      | Row None \<Rightarrow> notFoundResponse
      | Row (Some u) \<Rightarrow> Answer (case rq of Post_end_user _ \<Rightarrow> 201 | _ \<Rightarrow> 200) (End_user_body (shown_row ctx u))
      | Gone ok \<Rightarrow> if ok then No_body 204 else notFoundResponse)"

abbreviation end_user_step ::
  "string \<Rightarrow> (end_user_input, end_user_patch) rows_request \<Rightarrow> end_user_db \<Rightarrow> end_user rows_reply \<times> end_user_db" where
  "end_user_step \<equiv> rows_step eu_list eu_find eu_create eu_update eu_remove"

lemma end_user_routes_step:
  "run_state (end_user_routes is_email ulid rq ctx) db =
     (if needs rq \<notin> tc_permissions ctx then (forbidden, db)
      else case planned is_email ulid rq of
        None \<Rightarrow> (invalidJson, db)
      | Some r \<Rightarrow> apfst (encoded ctx rq) (end_user_step (tc_tenant ctx) r db))"
  by (cases rq)
    (auto simp: end_user_routes_def requirePermission_def needs_def planned_def validated_def body_json_def
      encoded_def shown_row_def view_answer_def listEndUsers_def getEndUser_def createEndUser_def updateEndUser_def
      deleteEndUser_def apfst_def map_prod_def case_prod_beta split: option.split)

section \<open>Tenants and masking\<close>

text \<open>
  C17: The end-user repository refines a list per tenant: every operation answers what the
  specification answers on the rows of its own tenant in their order, leaves exactly the
  specification's rows behind, and does not touch the rows of any other tenant.
\<close>

theorem end_user_repository_refines:
  assumes "keyed eu_id db" "creates_fresh (\<lambda>db. fst ` set db) rq db"
  shows "(fst (end_user_step t rq db), eu_list t (snd (end_user_step t rq db))) =
      rows_spec eu_id (eu_row t) eu_patched rq (eu_list t db) \<and>
    (\<forall>s. s \<noteq> t \<longrightarrow> eu_list s (snd (end_user_step t rq db)) = eu_list s db) \<and>
    keyed eu_id (snd (end_user_step t rq db))"
  using end_users.step_refines [OF assms] end_users.step_isolated [OF assms] end_users.step_wf [OF assms(1)]
  by simp

lemma planned_fresh:
  "planned is_email ulid rq = Some r \<Longrightarrow> ulid \<notin> fst ` set db \<Longrightarrow> creates_fresh (\<lambda>db. fst ` set db) r db"
  by (cases rq) (auto simp: planned_def creates_fresh_def)

text \<open>
  C19: What a request learns and changes is its own tenant's: on two databases that agree on the rows of
  the request's tenant it gets the same answer and leaves the same rows for that tenant, and the rows
  of every other tenant are as before, with ids of other tenants answered as if they did not exist.
\<close>

theorem end_user_requests_stay_in_tenant:
  assumes "keyed eu_id db" "keyed eu_id db2" "ulid \<notin> fst ` set db" "ulid \<notin> fst ` set db2"
    and "eu_list (tc_tenant ctx) db = eu_list (tc_tenant ctx) db2"
    and "run_state (end_user_routes is_email ulid rq ctx) db = (a, db')"
    and "run_state (end_user_routes is_email ulid rq ctx) db2 = (a2, db2')"
  shows "a = a2 \<and> eu_list (tc_tenant ctx) db' = eu_list (tc_tenant ctx) db2' \<and>
    (\<forall>s. s \<noteq> tc_tenant ctx \<longrightarrow> eu_list s db' = eu_list s db)"
proof (cases "needs rq \<in> tc_permissions ctx \<and> planned is_email ulid rq \<noteq> None")
  case False
  then show ?thesis using assms(5-7) by (auto simp: end_user_routes_step split: if_splits)
next
  case True
  then obtain r where r: "planned is_email ulid rq = Some r" by blast
  note fresh = planned_fresh [OF r assms(3)] planned_fresh [OF r assms(4)]
  have "a = encoded ctx rq (fst (end_user_step (tc_tenant ctx) r db))"
    "db' = snd (end_user_step (tc_tenant ctx) r db)"
    "a2 = encoded ctx rq (fst (end_user_step (tc_tenant ctx) r db2))"
    "db2' = snd (end_user_step (tc_tenant ctx) r db2)"
    using assms(6,7) True r by (auto simp: end_user_routes_step apfst_def map_prod_def case_prod_beta)
  moreover have "(fst (end_user_step (tc_tenant ctx) r db), eu_list (tc_tenant ctx) (snd (end_user_step (tc_tenant ctx) r db))) =
      (fst (end_user_step (tc_tenant ctx) r db2), eu_list (tc_tenant ctx) (snd (end_user_step (tc_tenant ctx) r db2)))"
    unfolding end_users.step_refines [OF assms(1) fresh(1)] end_users.step_refines [OF assms(2) fresh(2)]
    by (simp add: assms(5))
  ultimately show ?thesis using end_users.step_isolated [OF assms(1) fresh(1)] by simp
qed

text \<open>Two databases that differ only in what the mask hides.\<close>

definition masked_same :: "end_user_db \<Rightarrow> end_user_db \<Rightarrow> bool" where
  "masked_same = list_all2 (\<lambda>(i, u) (j, v). i = j \<and> maskEndUser u = maskEndUser v)"

lemma mask_eq_iff:
  "maskEndUser u = maskEndUser v \<longleftrightarrow> eu_id u = eu_id v \<and> eu_tenant u = eu_tenant v \<and> eu_name u = eu_name v \<and>
     eu_note u = eu_note v \<and> mask_email (eu_email u) = mask_email (eu_email v) \<and>
     mask_phone (eu_phone u) = mask_phone (eu_phone v)"
  by (cases u; cases v) (auto simp: maskEndUser_def)

lemma mask_tenant: "maskEndUser u = maskEndUser v \<Longrightarrow> eu_tenant u = eu_tenant v"
  by (simp add: mask_eq_iff)

lemma masked_same_map:
  "masked_same db db2 \<Longrightarrow> rel_option (\<lambda>u v. maskEndUser u = maskEndUser v) (map_of db i) (map_of db2 i)"
  unfolding masked_same_def by (induction rule: list_all2_induct) auto

lemma masked_same_row:
  assumes "masked_same db db2"
  obtains "eu_find t i db = None" "eu_find t i db2 = None"
  | u v where "eu_find t i db = Some u" "eu_find t i db2 = Some v" "maskEndUser u = maskEndUser v"
  using masked_same_map [OF assms, of i]
proof (cases rule: option.rel_cases)
  case None
  then show thesis using that by (simp add: eu_find_def)
next
  case (Some u v)
  then show thesis using that mask_tenant [OF Some(3)] by (cases "eu_tenant u = t") (simp_all add: eu_find_def)
qed

lemma masked_same_list:
  "masked_same db db2 \<Longrightarrow> map maskEndUser (eu_list t db) = map maskEndUser (eu_list t db2)"
  unfolding masked_same_def
  by (induction rule: list_all2_induct) (auto simp: eu_list_def dest: mask_tenant)

lemma masked_same_update:
  "masked_same db db2 \<Longrightarrow> maskEndUser u = maskEndUser v \<Longrightarrow>
   masked_same (AList.update i u db) (AList.update i v db2)"
  unfolding masked_same_def by (induction rule: list_all2_induct) auto

lemma masked_same_delete: "masked_same db db2 \<Longrightarrow> masked_same (AList.delete i db) (AList.delete i db2)"
  unfolding masked_same_def by (induction rule: list_all2_induct) auto

lemma masked_same_patch:
  "maskEndUser u = maskEndUser v \<Longrightarrow> maskEndUser (eu_patched p u) = maskEndUser (eu_patched p v)"
  by (auto simp: mask_eq_iff eu_patched_def split: option.split)

lemma shown_row_masked:
  "\<not> can_unmask ctx \<Longrightarrow> maskEndUser u = maskEndUser v \<Longrightarrow> shown_row ctx u = shown_row ctx v"
  by (simp add: shown_row_def presentEndUser_def)

lemma shown_rows_masked:
  assumes "\<not> can_unmask ctx" "map maskEndUser us = map maskEndUser vs"
  shows "map (shown_row ctx) us = map (shown_row ctx) vs"
proof -
  have eq: "map (shown_row ctx) ws = map (\<lambda>u. end_user_to_json (end_user.extend u (end_user_view.fields True))) (map maskEndUser ws)" for ws
    using assms(1) by (simp add: shown_row_def presentEndUser_def)
  show ?thesis by (simp only: eq assms(2))
qed

lemma masked_step:
  assumes "\<not> can_unmask ctx" "masked_same db db2"
  shows "encoded ctx rq (fst (end_user_step t r db)) = encoded ctx rq (fst (end_user_step t r db2)) \<and>
    masked_same (snd (end_user_step t r db)) (snd (end_user_step t r db2))"
proof (cases r)
  case Rows_list
  then show ?thesis using shown_rows_masked [OF assms(1) masked_same_list [OF assms(2)]] assms by (simp add: encoded_def)
next
  case (Rows_get i)
  from assms(2) show ?thesis
  proof (cases rule: masked_same_row [of _ _ t i])
    case (2 u v)
    then show ?thesis using Rows_get assms(2) shown_row_masked [OF assms(1) 2(3)] by (simp add: encoded_def)
  qed (use Rows_get assms in \<open>simp add: encoded_def\<close>)
next
  case (Rows_create i x)
  then show ?thesis using assms masked_same_update [OF assms(2) refl] by (simp add: encoded_def eu_create_def)
next
  case (Rows_update i p)
  from assms(2) show ?thesis
  proof (cases rule: masked_same_row [of _ _ t i])
    case (2 u v)
    note patch = masked_same_patch [OF 2(3), of p]
    show ?thesis
      using 2 Rows_update shown_row_masked [OF assms(1) patch] masked_same_update [OF assms(2) patch]
      by (simp add: encoded_def eu_update_def)
  qed (use Rows_update assms in \<open>simp add: encoded_def eu_update_def\<close>)
next
  case (Rows_delete i)
  from assms(2) show ?thesis
    by (cases rule: masked_same_row [of _ _ t i])
      (use Rows_delete assms in \<open>simp_all add: encoded_def eu_remove_def masked_same_delete\<close>)
qed


text \<open>
  A partial update that does not mention the note erases it: the schema's default for the note is
  applied to the patch too, so a PATCH of the name alone stores the new name and an empty note.
\<close>

theorem patch_erases_note:
  assumes "keyed eu_id db" "eu_find (tc_tenant ctx) i db = Some u" "''end_users:update'' \<in> tc_permissions ctx"
    and "js_trim n = n" "1 \<le> length n" "length n \<le> 100"
    and "run_state (end_user_routes is_email ulid (Patch_end_user i (Some (JObj [(''name'', JStr n)]))) ctx) db = (a, db')"
  shows "eu_find (tc_tenant ctx) i db' = Some (u\<lparr>eu_name := n, eu_note := []\<rparr>)"
proof -
  let ?p = "\<lparr>ep_name = Some n, ep_email = None, ep_phone = None, ep_note = Some []\<rparr>"
  have "planned is_email ulid (Patch_end_user i (Some (JObj [(''name'', JStr n)]))) = Some (Rows_update i ?p)"
    using assms(4-6)
    by (simp add: planned_def body_json_def endUserPatchSchema_def optional_field_def json_field_def
        trimmed_text_def json_string_def note_field_def Let_def)
  then have db': "db' = snd (eu_update (tc_tenant ctx) i ?p db)"
    using assms(3,7) by (auto simp: end_user_routes_step needs_def apfst_def map_prod_def case_prod_beta)
  have patched: "eu_patched ?p u = u\<lparr>eu_name := n, eu_note := []\<rparr>" by (simp add: eu_patched_def)
  have "eu_tenant u = tc_tenant ctx" using assms(2) by (auto simp: eu_find_def split: option.splits if_splits)
  then show ?thesis
    using assms(2) unfolding db' by (simp add: eu_update_def eu_find_def update_conv' patched)
qed

text \<open>
  Inviting changes roles: an admin of the CRM, whose permissions do not include
  \<open>members:manage\<close>, that invites its own e-mail address with the role owner becomes owner, and its next
  request has \<open>members:manage\<close>, unless that permission is denied to it by name.
\<close>

theorem admin_makes_itself_owner:
  assumes "api_definition env = CRM" "members_wf (api_members s)" "plain_id (tc_tenant ctx)"
    and "findWithOverrides (tc_tenant ctx) (tc_user ctx) (api_members s) = Some (tc_member ctx, ovs)"
    and "m_role (tc_member ctx) = ''admin''" "tc_permissions ctx = resolvePermissions CRM ''admin'' ovs"
    and "\<not> denied ovs ''members:invite''" "\<not> denied ovs ''members:manage''" "\<not> allowed ovs ''members:manage''"
    and "is_email e" "length e \<le> 254"
    and "run_state (api_invite env (tc_tenant ctx) e None) (api_world s) = (Some (Inr u), n)" "iu_id u = tc_user ctx"
    and "run_state (member_routes env is_email
      (Post_member (Some (JObj [(''email'', JStr e), (''role'', JStr ''owner'')]))) ctx) s = (a, s')"
  shows "''members:manage'' \<notin> tc_permissions ctx \<and>
    (\<exists>m. fst (run_state (member_or_default env (tc_tenant ctx) (tc_user ctx)) s') = (m, ovs) \<and>
      m_role m = ''owner'' \<and> ''members:manage'' \<in> resolvePermissions CRM (m_role m) ovs)"
proof -
  let ?t = "tc_tenant ctx"
  let ?m = "\<lparr>m_tenant = ?t, m_user = tc_user ctx, m_email = Some (iu_email u), m_name = iu_name u,
    m_role = ''owner'', m_status = Member_active\<rparr> :: member"
  have invite: "''members:invite'' \<in> tc_permissions ctx" and manage: "''members:manage'' \<notin> tc_permissions ctx"
    using assms(6-9) by (simp_all add: mem_resolvePermissions role_permissions_def CRM_def CRM_PERMISSIONS_def)
  have parsed: "inviteSchema is_email CRM (JObj [(''email'', JStr e), (''role'', JStr ''owner'')]) = Some (e, None, ''owner'')"
    using assms(10,11)
    by (simp add: inviteSchema_def emailSchema_def roleSchema_def optional_field_def json_field_def json_string_def
        isRole_def CRM_def)
  have run: "run_state (inviteMember env ?t e None ''owner'') s =
      (Some (Inr (fst (upsert_member ?m (api_members s)), iu_linked u)),
       s\<lparr>api_world := n, api_members := snd (upsert_member ?m (api_members s))\<rparr>)"
    using invite_run [OF assms(12), of "''owner''"] assms(13) by (simp add: case_prod_beta Let_def)
  have "api_members s' = snd (upsert_member ?m (api_members s))"
    using assms(14) invite parsed run
    by (auto simp: member_routes_def requirePermission_def validated_def assms(1))
  then have row: "findWithOverrides ?t (tc_user ctx) (api_members s') = Some (fst (upsert_member ?m (api_members s)), ovs)"
    using members.lookup_upsert [of "api_members s" ?t ?m "tc_user ctx"] assms(2-4) by simp
  have "m_role (fst (upsert_member ?m (api_members s))) = ''owner''" by (simp add: upsert_member_def Let_def)
  moreover have "''members:manage'' \<in> resolvePermissions CRM ''owner'' ovs"
    using assms(8) by (simp add: mem_resolvePermissions role_permissions_def CRM_def)
  ultimately show ?thesis using manage row by (simp add: default_row_run)
qed

section \<open>Witnesses\<close>

definition fx_end_user :: "string \<Rightarrow> string \<Rightarrow> string \<Rightarrow> end_user" where
  "fx_end_user i t email = \<lparr>eu_id = i, eu_tenant = t, eu_name = ''Ann'', eu_email = email,
     eu_phone = ''090-1234-5678'', eu_note = ''vip''\<rparr>"

definition fx_end_users :: "string \<Rightarrow> end_user_db" where
  "fx_end_users email = end_user_db_new [fx_end_user ''e1'' ''t1'' email, fx_end_user ''e2'' ''t2'' ''z@z.io'']"

definition fx_crm_context :: "string \<Rightarrow> api_context" where
  "fx_crm_context role = \<lparr>tc_tenant = ''t1'', tc_slug = ''acme'', tc_user = ''u1'', tc_client = ''crm'',
     tc_member = fx_member ''t1'' ''u1'' role, tc_permissions = resolvePermissions CRM role []\<rparr>"

definition fx_invites_self :: memory_admin where
  "fx_invites_self = \<lparr>ma_invited = [], ma_revoked = [], ma_counter = 0,
     ma_known = [''a@x.io'' \<mapsto> \<lparr>iu_id = ''u1'', iu_email = ''a@x.io'', iu_name = None, iu_linked = True\<rparr>]\<rparr>"

definition fx_crm_state :: "memory_admin api_state" where
  "fx_crm_state = \<lparr>api_now = 100, api_members = member_store_new [fx_member ''t1'' ''u1'' ''admin''] [],
     api_world = fx_invites_self\<rparr>"

lemma fx_end_users_keyed: "keyed eu_id (fx_end_users email)"
  by (simp add: fx_end_users_def end_user_db_new_def fx_end_user_def)

theorem end_user_repository_refines_witness:
  "eu_list ''t2'' (snd (end_user_step ''t1'' (Rows_delete ''e1'') (fx_end_users ''a@x.io''))) =
   eu_list ''t2'' (fx_end_users ''a@x.io'')"
  using end_user_repository_refines [OF fx_end_users_keyed, of "Rows_delete ''e1''" "''a@x.io''" "''t1''"]
  by (simp add: creates_fresh_def)

theorem end_user_requests_stay_in_tenant_witness:
  "eu_list ''t2'' (snd (run_state (end_user_routes (\<lambda>_. True) ''e9'' (Delete_end_user ''e1'') (fx_crm_context ''owner''))
     (fx_end_users ''a@x.io''))) = eu_list ''t2'' (fx_end_users ''a@x.io'')"
proof -
  let ?db = "fx_end_users ''a@x.io''" and ?ctx = "fx_crm_context ''owner''"
  obtain a db' where run: "run_state (end_user_routes (\<lambda>_. True) ''e9'' (Delete_end_user ''e1'') ?ctx) ?db = (a, db')"
    by fastforce
  have "''e9'' \<notin> fst ` set ?db" by (simp add: fx_end_users_def end_user_db_new_def fx_end_user_def)
  from end_user_requests_stay_in_tenant [OF fx_end_users_keyed fx_end_users_keyed this this refl run run] run
  show ?thesis by (simp add: fx_crm_context_def)
qed


theorem patch_erases_note_witness:
  "eu_find ''t1'' ''e1'' (snd (run_state (end_user_routes (\<lambda>_. True) ''e9''
     (Patch_end_user ''e1'' (Some (JObj [(''name'', JStr ''Bob'')]))) (fx_crm_context ''member'')) (fx_end_users ''a@x.io''))) =
   Some ((fx_end_user ''e1'' ''t1'' ''a@x.io'')\<lparr>eu_name := ''Bob'', eu_note := []\<rparr>)"
proof -
  let ?db = "fx_end_users ''a@x.io''" and ?ctx = "fx_crm_context ''member''"
  let ?rq = "Patch_end_user ''e1'' (Some (JObj [(''name'', JStr ''Bob'')]))"
  obtain a db' where run: "run_state (end_user_routes (\<lambda>_. True) ''e9'' ?rq ?ctx) ?db = (a, db')" by fastforce
  have "eu_find (tc_tenant ?ctx) ''e1'' ?db = Some (fx_end_user ''e1'' ''t1'' ''a@x.io'')" by code_simp
  moreover have "''end_users:update'' \<in> tc_permissions ?ctx" "js_trim ''Bob'' = ''Bob''" by code_simp+
  ultimately have "eu_find (tc_tenant ?ctx) ''e1'' db' = Some ((fx_end_user ''e1'' ''t1'' ''a@x.io'')\<lparr>eu_name := ''Bob'', eu_note := []\<rparr>)"
    by (intro patch_erases_note [OF fx_end_users_keyed _ _ _ _ _ run]) simp_all
  moreover have "tc_tenant ?ctx = ''t1''" by (simp add: fx_crm_context_def)
  ultimately show ?thesis by (simp only: run snd_conv)
qed

theorem admin_makes_itself_owner_witness:
  "''members:manage'' \<notin> tc_permissions (fx_crm_context ''admin'') \<and>
   (\<exists>m. m_role m = ''owner'' \<and> fst (run_state (member_or_default (fx_api_env\<lparr>api_definition := CRM\<rparr>) ''t1'' ''u1'')
     (snd (run_state (member_routes (fx_api_env\<lparr>api_definition := CRM\<rparr>) (\<lambda>_. True)
       (Post_member (Some (JObj [(''email'', JStr ''a@x.io''), (''role'', JStr ''owner'')]))) (fx_crm_context ''admin''))
       fx_crm_state))) = (m, []))"
proof -
  let ?env = "fx_api_env\<lparr>api_definition := CRM\<rparr>" and ?ctx = "fx_crm_context ''admin''"
  let ?u = "\<lparr>iu_id = ''u1'', iu_email = ''a@x.io'', iu_name = None, iu_linked = True\<rparr>"
  obtain a s1 where run: "run_state (member_routes ?env (\<lambda>_. True)
      (Post_member (Some (JObj [(''email'', JStr ''a@x.io''), (''role'', JStr ''owner'')]))) ?ctx) fx_crm_state = (a, s1)"
    by fastforce
  have lower: "to_lower ''a@x.io'' = ''a@x.io''" by code_simp
  have "members_wf (api_members fx_crm_state)"
    by (simp add: members_wf_def fx_crm_state_def member_store_new_def fx_member_def member_key_def plain_id_def)
  moreover have "findWithOverrides (tc_tenant ?ctx) (tc_user ?ctx) (api_members fx_crm_state) = Some (tc_member ?ctx, [])"
    by code_simp
  ultimately have "''members:manage'' \<notin> tc_permissions ?ctx \<and>
      (\<exists>m. fst (run_state (member_or_default ?env (tc_tenant ?ctx) (tc_user ?ctx)) s1) = (m, []) \<and>
        m_role m = ''owner'' \<and> ''members:manage'' \<in> resolvePermissions CRM (m_role m) [])"
    by (intro admin_makes_itself_owner [OF _ _ _ _ _ _ _ _ _ _ _ _ _ run, where u = ?u and
        n = "fx_invites_self\<lparr>ma_invited := [(''t1'', ''a@x.io'')]\<rparr>"])
      (simp_all add: plain_fx fx_crm_context_def fx_member_def denied_def allowed_def fx_api_env_def
        memory_invite_def fx_crm_state_def fx_invites_self_def lower)
  moreover have "tc_tenant ?ctx = ''t1''" "tc_user ?ctx = ''u1''" by (simp_all add: fx_crm_context_def)
  ultimately show ?thesis unfolding run snd_conv by (metis (no_types))
qed

end
