(* ===== verification/CmsApi.thy ===== *)
theory CmsApi
  imports TenantRows
begin

text \<open>
  apps/cms-api/src: the roles of the CMS (definition.ts), the posts, their use cases and memory
  repository (posts/domain, posts/application, posts/infrastructure), and the routes /v1/posts with
  the schemas of packages/api-contract/src/cms they validate with.
\<close>

section \<open>definition.ts\<close>

definition CMS_PERMISSIONS :: "string list" where
  "CMS_PERMISSIONS = [''posts:read'', ''posts:create'', ''posts:update'', ''posts:delete'']"

definition CMS :: service_definition where
  "CMS = \<lparr>sd_roles = [''owner'', ''editor'', ''viewer''], sd_default_role = ''viewer'',
     sd_permissions = CMS_PERMISSIONS,
     sd_role_permissions =
       [(''owner'', CMS_PERMISSIONS @ [''members:read'', ''members:invite'', ''members:manage'']),
        (''editor'', CMS_PERMISSIONS @ [''members:read'']),
        (''viewer'', [''posts:read'', ''members:read''])]\<rparr>"

section \<open>domain/post.ts\<close>

record post =
  p_id :: string
  p_tenant :: string
  p_title :: string
  p_body :: string
  p_author :: string
  p_created_at :: string
  p_updated_at :: string

record post_input =
  pi_title :: string
  pi_body :: string

record post_patch =
  pp_title :: "string option"
  pp_body :: "string option"

section \<open>MemoryPostRepository\<close>

type_synonym post_db = "(string \<times> post) list"

definition post_db_new :: "post list \<Rightarrow> post_db" where
  "post_db_new initial = fold (\<lambda>p. AList.update (p_id p) p) initial []"

definition post_list :: "string \<Rightarrow> post_db \<Rightarrow> post list" where
  "post_list tenant db = filter (\<lambda>p. p_tenant p = tenant) (map snd db)"

definition post_find :: "string \<Rightarrow> string \<Rightarrow> post_db \<Rightarrow> post option" where
  "post_find tenant i db =
     (case map_of db i of Some p \<Rightarrow> if p_tenant p = tenant then Some p else None | None \<Rightarrow> None)"

definition EPOCH :: string where "EPOCH = ''1970-01-01T00:00:00.000Z''"

definition post_row :: "string \<Rightarrow> string \<Rightarrow> string \<times> post_input \<Rightarrow> post" where
  "post_row tenant i x = \<lparr>p_id = i, p_tenant = tenant, p_title = pi_title (snd x), p_body = pi_body (snd x),
     p_author = fst x, p_created_at = EPOCH, p_updated_at = EPOCH\<rparr>"

definition post_create :: "string \<Rightarrow> string \<Rightarrow> string \<times> post_input \<Rightarrow> post_db \<Rightarrow> post \<times> post_db" where
  "post_create tenant i x db = (post_row tenant i x, AList.update i (post_row tenant i x) db)"

definition post_patched :: "post_patch \<Rightarrow> post \<Rightarrow> post" where
  "post_patched p q = q\<lparr>p_title := (case pp_title p of Some v \<Rightarrow> v | None \<Rightarrow> p_title q),
     p_body := (case pp_body p of Some v \<Rightarrow> v | None \<Rightarrow> p_body q)\<rparr>"

definition post_update :: "string \<Rightarrow> string \<Rightarrow> post_patch \<Rightarrow> post_db \<Rightarrow> post option \<times> post_db" where
  "post_update tenant i p db =
     (case post_find tenant i db of
        None \<Rightarrow> (None, db)
      | Some q \<Rightarrow> (Some (post_patched p q), AList.update i (post_patched p q) db))"

definition post_remove :: "string \<Rightarrow> string \<Rightarrow> post_db \<Rightarrow> bool \<times> post_db" where
  "post_remove tenant i db =
     (case post_find tenant i db of None \<Rightarrow> (False, db) | Some _ \<Rightarrow> (True, AList.delete i db))"

lemma post_find_own: "post_find = own_row p_tenant"
  by (intro ext) (simp add: post_find_def own_row_def)

lemma post_names [simp]: "p_id (post_patched p q) = p_id q" "p_tenant (post_patched p q) = p_tenant q"
  "p_author (post_patched p q) = p_author q" "p_id (post_row t i x) = i" "p_tenant (post_row t i x) = t"
  "p_author (post_row t i x) = fst x"
  by (simp_all add: post_patched_def post_row_def)

interpretation posts: tenant_rows post_list post_find post_create post_update post_remove p_id post_row post_patched
  "\<lambda>db. fst ` set db" "keyed p_id"
proof
  fix db :: post_db and s t i p
  assume wf: "keyed p_id db"
  show "post_list s (snd (post_update t i p db)) =
      (if s = t then map (\<lambda>r. if p_id r = i then post_patched p r else r) (post_list t db) else post_list s db)"
  proof (cases "post_find t i db")
    case None
    then show ?thesis
      using own_absent(1) [OF wf None [unfolded post_find_own]] by (simp add: post_update_def post_list_def)
  next
    case (Some u)
    then show ?thesis
      using own_patch [OF wf Some [unfolded post_find_own]] own_row_named [OF wf Some [unfolded post_find_own]]
      by (simp add: post_update_def post_list_def)
  qed
  show "post_list s (snd (post_remove t i db)) =
      (if s = t then filter (\<lambda>r. p_id r \<noteq> i) (post_list t db) else post_list s db)"
  proof (cases "post_find t i db")
    case None
    then show ?thesis
      using own_absent(2) [OF wf None [unfolded post_find_own]] by (simp add: post_remove_def post_list_def)
  next
    case (Some u)
    then show ?thesis
      using own_delete [OF wf Some [unfolded post_find_own]] by (simp add: post_remove_def post_list_def)
  qed
next
  fix db :: post_db and i s t and x :: "string \<times> post_input"
  assume "i \<notin> fst ` set db"
  then show "post_list s (snd (post_create t i x db)) =
      (if s = t then post_list t db @ [post_row t i x] else post_list s db)"
    using own_create [of i db p_tenant "post_row t i x" t s] by (simp add: post_create_def post_list_def)
next
  fix db :: post_db and t i p
  assume wf: "keyed p_id db"
  then show "keyed p_id (snd (post_update t i p db))"
    using own_row_named [OF wf, of p_tenant t i]
    by (auto simp: post_update_def post_find_own intro: keyed_update split: option.split)
qed (auto simp: post_find_own own_row_find post_list_def post_create_def post_update_def post_remove_def
  intro: keyed_update keyed_delete split: option.split)

section \<open>application/posts.ts\<close>

definition listPosts :: "api_context \<Rightarrow> (post_db, post list) state" where
  "listPosts ctx = reads (post_list (tc_tenant ctx))"

definition getPost :: "api_context \<Rightarrow> string \<Rightarrow> (post_db, post option) state" where
  "getPost ctx i = reads (post_find (tc_tenant ctx) i)"

definition createPost :: "string \<Rightarrow> api_context \<Rightarrow> post_input \<Rightarrow> (post_db, post) state" where
  "createPost ulid ctx x = State (post_create (tc_tenant ctx) ulid (tc_user ctx, x))"

definition updatePost :: "api_context \<Rightarrow> string \<Rightarrow> post_patch \<Rightarrow> (post_db, post option) state" where
  "updatePost ctx i p = State (post_update (tc_tenant ctx) i p)"

definition deletePost :: "api_context \<Rightarrow> string \<Rightarrow> (post_db, bool) state" where
  "deletePost ctx i = State (post_remove (tc_tenant ctx) i)"

section \<open>Schemas and routes\<close>

definition title_text :: "json \<Rightarrow> string option" where
  "title_text j = Option.bind (json_string (Some j))
     (\<lambda>s. let v = js_trim s in if 1 \<le> length v \<and> length v \<le> 200 then Some v else None)"

definition body_text :: "json \<Rightarrow> string option" where
  "body_text j = Option.bind (json_string (Some j)) (\<lambda>s. if length s \<le> 20000 then Some s else None)"

definition postInputSchema :: "json \<Rightarrow> post_input option" where
  "postInputSchema j = do {
     t \<leftarrow> Option.bind (json_field ''title'' j) title_text;
     b \<leftarrow> Option.bind (json_field ''body'' j) body_text;
     Some \<lparr>pi_title = t, pi_body = b\<rparr>
   }"

definition postPatchSchema :: "json \<Rightarrow> post_patch option" where
  "postPatchSchema j = do {
     _ \<leftarrow> (case j of JObj _ \<Rightarrow> Some () | _ \<Rightarrow> None);
     t \<leftarrow> optional_field title_text ''title'' j;
     b \<leftarrow> optional_field body_text ''body'' j;
     Some \<lparr>pp_title = t, pp_body = b\<rparr>
   }"

record post_json =
  pj_id :: string
  pj_title :: string
  pj_body :: string
  pj_author :: string
  pj_created_at :: string
  pj_updated_at :: string

definition post_to_json :: "post \<Rightarrow> post_json" where
  "post_to_json p = \<lparr>pj_id = p_id p, pj_title = p_title p, pj_body = p_body p, pj_author = p_author p,
     pj_created_at = p_created_at p, pj_updated_at = p_updated_at p\<rparr>"

datatype post_body = Posts_body "post_json list" | Post_body post_json

datatype post_request =
  List_posts
  | Get_post string
  | Post_post "json option"
  | Patch_post string "json option"
  | Delete_post string

definition post_answer :: "post option \<Rightarrow> post_body api_answer" where
  "post_answer r = (case r of None \<Rightarrow> notFoundResponse | Some p \<Rightarrow> Answer 200 (Post_body (post_to_json p)))"

definition post_routes ::
  "string \<Rightarrow> post_request \<Rightarrow> api_context \<Rightarrow> (post_db, post_body api_answer) state" where
  "post_routes ulid rq ctx =
     (case rq of
        List_posts \<Rightarrow> requirePermission ''posts:read'' ctx (do {
          ps \<leftarrow> listPosts ctx;
          State_Monad.return (Answer 200 (Posts_body (map post_to_json ps)))
        })
      | Get_post i \<Rightarrow> requirePermission ''posts:read'' ctx (do {
          r \<leftarrow> getPost ctx i;
          State_Monad.return (post_answer r)
        })
      | Post_post body \<Rightarrow> requirePermission ''posts:create'' ctx
          (validated postInputSchema body (\<lambda>x. do {
            p \<leftarrow> createPost ulid ctx x;
            State_Monad.return (Answer 201 (Post_body (post_to_json p)))
          }))
      | Patch_post i body \<Rightarrow> requirePermission ''posts:update'' ctx
          (validated postPatchSchema body (\<lambda>p. do {
            r \<leftarrow> updatePost ctx i p;
            State_Monad.return (post_answer r)
          }))
      | Delete_post i \<Rightarrow> requirePermission ''posts:delete'' ctx (do {
          r \<leftarrow> deletePost ctx i;
          State_Monad.return (if r then No_body 204 else notFoundResponse)
        }))"

section \<open>Requests as steps on the tenant's posts\<close>

definition post_needs :: "post_request \<Rightarrow> string" where
  "post_needs rq = (case rq of List_posts \<Rightarrow> ''posts:read'' | Get_post _ \<Rightarrow> ''posts:read''
     | Post_post _ \<Rightarrow> ''posts:create'' | Patch_post _ _ \<Rightarrow> ''posts:update'' | Delete_post _ \<Rightarrow> ''posts:delete'')"

definition post_planned ::
  "string \<Rightarrow> api_context \<Rightarrow> post_request \<Rightarrow> (string \<times> post_input, post_patch) rows_request option" where
  "post_planned ulid ctx rq =
     (case rq of
        List_posts \<Rightarrow> Some Rows_list
      | Get_post i \<Rightarrow> Some (Rows_get i)
      | Post_post b \<Rightarrow> map_option (\<lambda>x. Rows_create ulid (tc_user ctx, x))
          (postInputSchema (case b of None \<Rightarrow> JObj [] | Some j \<Rightarrow> j))
      | Patch_post i b \<Rightarrow> map_option (Rows_update i) (postPatchSchema (case b of None \<Rightarrow> JObj [] | Some j \<Rightarrow> j))
      | Delete_post i \<Rightarrow> Some (Rows_delete i))"

definition post_encoded :: "post_request \<Rightarrow> post rows_reply \<Rightarrow> post_body api_answer" where
  "post_encoded rq reply =
     (case reply of
        Rows ps \<Rightarrow> Answer 200 (Posts_body (map post_to_json ps))
      | Row None \<Rightarrow> notFoundResponse
      | Row (Some p) \<Rightarrow> Answer (case rq of Post_post _ \<Rightarrow> 201 | _ \<Rightarrow> 200) (Post_body (post_to_json p))
      | Gone ok \<Rightarrow> if ok then No_body 204 else notFoundResponse)"

abbreviation post_step ::
  "string \<Rightarrow> (string \<times> post_input, post_patch) rows_request \<Rightarrow> post_db \<Rightarrow> post rows_reply \<times> post_db" where
  "post_step \<equiv> rows_step post_list post_find post_create post_update post_remove"

lemma post_routes_step:
  "run_state (post_routes ulid rq ctx) db =
     (if post_needs rq \<notin> tc_permissions ctx then (forbidden, db)
      else case post_planned ulid ctx rq of
        None \<Rightarrow> (invalidJson, db)
      | Some r \<Rightarrow> apfst (post_encoded rq) (post_step (tc_tenant ctx) r db))"
  by (cases rq)
    (auto simp: post_routes_def requirePermission_def post_needs_def post_planned_def validated_def
      post_encoded_def post_answer_def listPosts_def getPost_def createPost_def updatePost_def deletePost_def
      apfst_def map_prod_def case_prod_beta split: option.split)

text \<open>
  Posts keep their author and their tenant: after any request, each post of the request's tenant is
  a new one written by the caller, or one that was there with the same id, author and creation time;
  and the posts of every other tenant are exactly as before.
\<close>

theorem posts_keep_author_and_tenant:
  assumes "keyed p_id db" "ulid \<notin> fst ` set db"
    and "run_state (post_routes ulid rq ctx) db = (a, db')"
  shows "(\<forall>p\<in>set (post_list (tc_tenant ctx) db'). p_id p = ulid \<and> p_author p = tc_user ctx \<or>
      (\<exists>q\<in>set (post_list (tc_tenant ctx) db). p_id p = p_id q \<and> p_author p = p_author q \<and>
        p_created_at p = p_created_at q)) \<and>
    (\<forall>s. s \<noteq> tc_tenant ctx \<longrightarrow> post_list s db' = post_list s db)"
proof (cases "post_needs rq \<in> tc_permissions ctx \<and> post_planned ulid ctx rq \<noteq> None")
  case False
  then show ?thesis using assms(3) by (auto simp: post_routes_step split: if_splits)
next
  case True
  then obtain r where r: "post_planned ulid ctx rq = Some r" by blast
  have db': "db' = snd (post_step (tc_tenant ctx) r db)"
    using assms(3) True r by (auto simp: post_routes_step apfst_def map_prod_def case_prod_beta)
  have fresh: "creates_fresh (\<lambda>db. fst ` set db) r db"
    using r assms(2) by (cases rq) (auto simp: post_planned_def creates_fresh_def)
  have after: "post_list (tc_tenant ctx) db' =
      snd (rows_spec p_id (post_row (tc_tenant ctx)) post_patched r (post_list (tc_tenant ctx) db))"
    unfolding db' using posts.step_refines [OF assms(1) fresh, of "tc_tenant ctx"] by (metis snd_conv)
  have created: "r = Rows_create i x \<Longrightarrow> i = ulid \<and> fst x = tc_user ctx" for i x
    using r by (cases rq) (auto simp: post_planned_def)
  have same: "p_created_at (post_patched p q) = p_created_at q" for p q by (simp add: post_patched_def)
  show ?thesis
    using posts.step_isolated [OF assms(1) fresh] created unfolding db' [symmetric] after
    by (cases r) (auto simp: db' same)
qed

definition fx_posts :: post_db where
  "fx_posts = post_db_new [post_row ''t1'' ''p1'' (''u1'', \<lparr>pi_title = ''a'', pi_body = ''b''\<rparr>),
     post_row ''t2'' ''p2'' (''u3'', \<lparr>pi_title = ''c'', pi_body = ''d''\<rparr>)]"

definition fx_editor :: api_context where
  "fx_editor = \<lparr>tc_tenant = ''t1'', tc_slug = ''acme'', tc_user = ''u2'', tc_client = ''cms'',
     tc_member = fx_member ''t1'' ''u2'' ''editor'', tc_permissions = resolvePermissions CMS ''editor'' []\<rparr>"

theorem posts_keep_author_and_tenant_witness:
  "post_list ''t2'' (snd (run_state (post_routes ''p9'' (Patch_post ''p1'' (Some (JObj [(''title'', JStr ''x'')])))
     fx_editor) fx_posts)) = post_list ''t2'' fx_posts"
proof -
  obtain a db' where run: "run_state (post_routes ''p9'' (Patch_post ''p1'' (Some (JObj [(''title'', JStr ''x'')])))
     fx_editor) fx_posts = (a, db')" by fastforce
  have "keyed p_id fx_posts" "''p9'' \<notin> fst ` set fx_posts" by (simp_all add: fx_posts_def post_db_new_def)
  from posts_keep_author_and_tenant [OF this run] run show ?thesis by (simp add: fx_editor_def)
qed

end
