(* ===== verification/AuthHttp.thy ===== *)
theory AuthHttp
  imports Login Logout Jwks
begin

text \<open>
  apps/auth-api/src/interface/http/routes: the HTTP face of the authorization server. A handler takes
  what it reads of the request (cookies, environment, form or query fields) and returns its reply and
  the cookies it sets. Pages are kept as their status, error texts as the kind they are written for;
  \<open>secure\<close> is the cookie policy.
\<close>

section \<open>helpers.ts and client-auth.ts\<close>

definition COOKIE_SSO_SESSION :: string where "COOKIE_SSO_SESSION = ''sso_session''"
definition COOKIE_CSRF :: string where "COOKIE_CSRF = ''auth_csrf''"

datatype auth_cookie = Write_cookie string string cookie_attributes | Clear_cookie string string bool

definition write_sso :: "bool \<Rightarrow> string \<Rightarrow> auth_cookie" where
  "write_sso secure v =
     Write_cookie (cookieName COOKIE_SSO_SESSION Host_scope secure) v (sessionCookieAttributes secure)"

definition clear_sso :: "bool \<Rightarrow> auth_cookie" where
  "clear_sso secure = Clear_cookie (cookieName COOKIE_SSO_SESSION Host_scope secure) ''/'' secure"

definition write_csrf :: "bool \<Rightarrow> string \<Rightarrow> auth_cookie" where
  "write_csrf secure v =
     Write_cookie (cookieName COOKIE_CSRF Host_scope secure) v
       (shortLivedCookieAttributes secure ''/'' CSRF_TOKEN_TTL_SECONDS)"

record http_context =
  hx_sso :: "string option"
  hx_csrf :: "string option"
  hx_env :: request_environment

definition requestEnvironment :: "string option \<Rightarrow> string option \<Rightarrow> string option \<Rightarrow> request_environment" where
  "requestEnvironment forwarded_for remote user_agent =
     \<lparr>env_ip = clientIp forwarded_for remote,
      env_user_agent = take 512 (case user_agent of None \<Rightarrow> [] | Some u \<Rightarrow> u)\<rparr>"

record setup_body =
  sb_csrf :: string
  sb_view :: totp_setup_view
  sb_message :: "json option"

record user_json =
  uj_id :: string
  uj_email :: string
  uj_name :: "string option"
  uj_linked :: bool

record session_json =
  sj_id :: string
  sj_ip :: string
  sj_user_agent :: string
  sj_created_at :: seconds
  sj_last_seen_at :: seconds
  sj_current :: bool
  sj_services :: "(string \<times> string \<times> string \<times> string) list"

datatype auth_body =
  Login_context string string "json option"
  | Login_redirect string
  | Challenge_context string "json option"
  | Setup_context setup_body
  | Logout_context bool "string option" "(string \<times> string) option"
  | Sessions_context "session_json list" "(mfa_method \<times> seconds) list" string
  | Portal_context string "(string \<times> string \<times> (string \<times> string \<times> string) list) list"
  | Tokens_body token_response
  | Claims_body "(string \<times> json) list"
  | Members_list "(user_json \<times> active_status) list"
  | Member_user user_json
  | Document json

text \<open>
  \<open>Go\<close> is a redirect to a path, \<open>Go_with\<close> one to a URL whose search parameters are set in order;
  \<open>Failure\<close> is a JSON error code, \<open>Challenged\<close> adds a \<open>WWW-Authenticate\<close> header to it.
\<close>

datatype auth_answer =
  Go nat string | Go_with nat string "(string \<times> string) list" | Error_html nat | Body nat auth_body
  | Failure nat string | Challenged string string | Nothing nat

type_synonym auth_reply = "auth_answer \<times> auth_cookie list"

definition rejectInvalidCsrf ::
  "('c, 'z) auth_env_scheme \<Rightarrow> http_context \<Rightarrow> string \<Rightarrow> ('c, auth_reply) auth_m \<Rightarrow> ('c, auth_reply) auth_m" where
  "rejectInvalidCsrf env hx form_token next_handler = do {
     valid \<leftarrow> verifyCsrfToken env (hx_csrf hx) (Some form_token);
     if valid then next_handler else State_Monad.return (Error_html 403, [])
   }"

definition withQuery :: "string \<Rightarrow> (string \<times> string option) list \<Rightarrow> string" where
  "withQuery path params =
     (let kept = List.map_filter (\<lambda>(k, v). case v of None \<Rightarrow> None | Some x \<Rightarrow> if x = [] then None else Some (k, x)) params
      in if kept = [] then path else path @ ''?'' @ url_search_params kept)"

definition buildRedirect :: "nat \<Rightarrow> string \<Rightarrow> string \<Rightarrow> (string \<times> string option) list \<Rightarrow> auth_answer" where
  "buildRedirect status redirect_uri iss params =
     Go_with status redirect_uri
       (List.map_filter (\<lambda>(k, v). map_option (Pair k) v) params @ [(''iss'', iss)])"

definition redirectForOutcome ::
  "nat \<Rightarrow> string \<Rightarrow> string \<Rightarrow> string \<Rightarrow> (string, resume_error) result \<Rightarrow> auth_answer" where
  "redirectForOutcome status iss redirect_uri st outcome =
     (case outcome of
        Inr code \<Rightarrow> buildRedirect status redirect_uri iss [(''code'', Some code), (''state'', Some st)]
      | Inl (Access_denied reason) \<Rightarrow> buildRedirect status redirect_uri iss
          [(''error'', Some ''access_denied''), (''error_description'', Some (reason_text reason)), (''state'', Some st)]
      | Inl Resume_invalid_request \<Rightarrow> buildRedirect status redirect_uri iss
          [(''error'', Some ''invalid_request''), (''state'', Some st)])"

definition clientAuth ::
  "('c, 'z) auth_env_scheme \<Rightarrow> string \<Rightarrow> string option \<Rightarrow> (oidc_client \<Rightarrow> ('c, auth_reply) auth_m) \<Rightarrow>
   ('c, auth_reply) auth_m" where
  "clientAuth env realm authorization next_handler = do {
     db \<leftarrow> reads identity;
     case authenticateClient env db authorization of
       None \<Rightarrow> State_Monad.return (Challenged (''Basic realm='' @ dquote @ realm @ dquote) ''invalid_client'', [])
     | Some client \<Rightarrow> next_handler client
   }"

section \<open>token.ts\<close>

type_synonym form = "string \<Rightarrow> string option"

definition min1 :: "string option \<Rightarrow> string option" where
  "min1 v = (case v of None \<Rightarrow> None | Some s \<Rightarrow> if s = [] then None else Some s)"

datatype token_form = Code_form code_exchange_input | Refresh_form string

definition tokenFormSchema :: "form \<Rightarrow> token_form option" where
  "tokenFormSchema f =
     (if f ''grant_type'' = Some ''authorization_code'' then do {
        code \<leftarrow> min1 (f ''code'');
        uri \<leftarrow> min1 (f ''redirect_uri'');
        verifier \<leftarrow> min1 (f ''code_verifier'');
        Some (Code_form \<lparr>ce_code = code, ce_redirect_uri = uri, ce_code_verifier = verifier\<rparr>)
      }
      else if f ''grant_type'' = Some ''refresh_token''
      then map_option Refresh_form (min1 (f ''refresh_token'')) else None)"

definition unknown_grant :: "form \<Rightarrow> string" where
  "unknown_grant f =
     (if f ''grant_type'' = Some ''authorization_code'' \<or> f ''grant_type'' = Some ''refresh_token''
      then ''invalid_request'' else ''unsupported_grant_type'')"

definition token_route ::
  "('c, 'z) auth_env_scheme \<Rightarrow> string option \<Rightarrow> form \<Rightarrow> ('c, auth_reply) auth_m" where
  "token_route env authorization f = clientAuth env ''token'' authorization (\<lambda>client.
     case tokenFormSchema f of
       None \<Rightarrow> State_Monad.return (Failure 400 (unknown_grant f), [])
     | Some tf \<Rightarrow> do {
         r \<leftarrow> (case tf of Code_form input \<Rightarrow> exchangeAuthorizationCode env client input
               | Refresh_form value \<Rightarrow> refreshAccessToken env client value);
         State_Monad.return (case r of Inl _ \<Rightarrow> (Failure 400 ''invalid_grant'', [])
           | Inr tokens \<Rightarrow> (Body 200 (Tokens_body tokens), []))
       })"

definition revoke_route ::
  "('c, 'z) auth_env_scheme \<Rightarrow> string option \<Rightarrow> form \<Rightarrow> ('c, auth_reply) auth_m" where
  "revoke_route env authorization f = clientAuth env ''revoke'' authorization (\<lambda>client.
     case min1 (f ''token'') of
       None \<Rightarrow> State_Monad.return (Failure 400 ''invalid_request'', [])
     | Some value \<Rightarrow> do {
         _ \<leftarrow> revokeRefreshToken env client value;
         State_Monad.return (Nothing 200, [])
       })"

section \<open>authorize.ts\<close>

definition redirect_kind_text :: "redirect_kind \<Rightarrow> string" where
  "redirect_kind_text k = (case k of Invalid_request \<Rightarrow> ''invalid_request''
     | Unsupported_response_type \<Rightarrow> ''unsupported_response_type'' | Invalid_scope \<Rightarrow> ''invalid_scope'')"

definition respondValidationError :: "string \<Rightarrow> authorization_request_error \<Rightarrow> auth_answer" where
  "respondValidationError iss e =
     (case e of
        Not_redirectable _ \<Rightarrow> Error_html 400
      | Redirectable kind uri st description \<Rightarrow> buildRedirect 302 uri iss
          [(''error'', Some (redirect_kind_text kind)), (''error_description'', Some description), (''state'', st)])"

definition authorize_route ::
  "('c, 'z) auth_env_scheme \<Rightarrow> bool \<Rightarrow> http_context \<Rightarrow> raw_params \<Rightarrow> ('c, auth_reply) auth_m" where
  "authorize_route env secure hx params = do {
     db \<leftarrow> reads identity;
     case validateAuthorizationRequest db params of
       Inl e \<Rightarrow> State_Monad.return (respondValidationError (issuer env) e, [])
     | Inr request \<Rightarrow> do {
         session \<leftarrow> loadSsoSession env (hx_sso hx);
         case session of
           None \<Rightarrow> do {
             rid \<leftarrow> storePendingAuthorization env request;
             State_Monad.return (Go 302 (''/login?rid='' @ encode_uri rid),
               case hx_sso hx of None \<Rightarrow> [] | Some _ \<Rightarrow> [clear_sso secure])
           }
         | Some x \<Rightarrow> do {
             outcome \<leftarrow> authorizeWithSession env request x (hx_env hx);
             State_Monad.return (redirectForOutcome 302 (issuer env) (vr_redirect_uri request) (vr_state request)
               (map_sum Access_denied id outcome), [])
           }
       }
   }"

section \<open>login.ts\<close>

record login_form =
  lf_rid :: string
  lf_csrf :: string
  lf_username :: string
  lf_password :: string

record code_form =
  kf_mid :: string
  kf_csrf :: string
  kf_code :: string

definition bounded :: "nat \<Rightarrow> string option \<Rightarrow> string option" where
  "bounded hi v = (case v of None \<Rightarrow> None | Some s \<Rightarrow> if 1 \<le> length s \<and> length s \<le> hi then Some s else None)"

definition loginFormSchema :: "form \<Rightarrow> login_form option" where
  "loginFormSchema f = do {
     csrf \<leftarrow> min1 (f ''csrf'');
     username \<leftarrow> bounded 256 (f ''username'');
     password \<leftarrow> bounded 256 (f ''password'');
     Some \<lparr>lf_rid = (case f ''rid'' of None \<Rightarrow> [] | Some r \<Rightarrow> r), lf_csrf = csrf, lf_username = username,
           lf_password = password\<rparr>
   }"

definition codeFormSchema :: "form \<Rightarrow> code_form option" where
  "codeFormSchema f = do {
     mid \<leftarrow> bounded 128 (f ''mid'');
     csrf \<leftarrow> min1 (f ''csrf'');
     code \<leftarrow> f ''code'';
     if length code = 6 \<and> list_all is_digit code
     then Some \<lparr>kf_mid = mid, kf_csrf = csrf, kf_code = code\<rparr> else None
   }"

definition ERROR_KINDS :: "string list" where
  "ERROR_KINDS = [''invalid_credentials'', ''user_disabled'', ''user_not_confirmed'', ''password_reset_required'',
     ''challenge_required'', ''unavailable'', ''challenge_expired'', ''code_mismatch'', ''setup_expired'']"

text \<open>
  The message of an answer, by its kind. The lookup goes to a plain object and so also finds what objects
  inherit: the name \<open>__proto__\<close> gives the empty object, while inherited functions are left out when the
  answer is written as JSON.
\<close>

definition errorMessageOf :: "string option \<Rightarrow> json option" where
  "errorMessageOf e =
     (case e of
        None \<Rightarrow> None
      | Some k \<Rightarrow> if k \<in> set ERROR_KINDS then Some (JStr k)
          else if k = ''__proto__'' then Some (JObj []) else None)"

definition flow_error_kind :: "mfa_flow_error \<Rightarrow> string" where
  "flow_error_kind e = (case e of Flow_code_mismatch \<Rightarrow> ''code_mismatch'' | Flow_setup_expired \<Rightarrow> ''setup_expired''
     | Flow_expired \<Rightarrow> ''challenge_expired'' | Flow_user_disabled \<Rightarrow> ''user_disabled''
     | Flow_unavailable _ \<Rightarrow> ''unavailable'')"

definition respondMfaError :: "mfa_flow_error \<Rightarrow> string \<Rightarrow> string \<Rightarrow> auth_answer" where
  "respondMfaError e retry_path mid =
     (case e of
        Flow_code_mismatch \<Rightarrow> Go 303 (withQuery retry_path [(''mid'', Some mid), (''error'', Some (flow_error_kind e))])
      | Flow_setup_expired \<Rightarrow> Go 303 (withQuery retry_path [(''mid'', Some mid), (''error'', Some (flow_error_kind e))])
      | _ \<Rightarrow> Go 303 (withQuery ''/login'' [(''error'', Some (flow_error_kind e))]))"

definition destroy_previous :: "('c, 'z) auth_env_scheme \<Rightarrow> string option \<Rightarrow> ('c, unit) auth_m" where
  "destroy_previous env cookie = do {
     previous \<leftarrow> loadSsoSession env cookie;
     case previous of None \<Rightarrow> State_Monad.return () | Some x \<Rightarrow> destroySsoSession x
   }"

definition login_finish ::
  "('c, 'z) auth_env_scheme \<Rightarrow> bool \<Rightarrow> http_context \<Rightarrow> login_success \<Rightarrow> string \<Rightarrow> ('c, auth_reply) auth_m" where
  "login_finish env secure hx result rid = do {
     _ \<leftarrow> destroy_previous env (hx_sso hx);
     request \<leftarrow> (if rid = [] then State_Monad.return None else consumePendingAuthorization env rid);
     case request of
       None \<Rightarrow> State_Monad.return (Go 303 ''/'', [write_sso secure (ls_cookie result)])
     | Some rq \<Rightarrow> do {
         outcome \<leftarrow> resumePendingAuthorization env rq (ls_session result) (hx_env hx);
         State_Monad.return (redirectForOutcome 303 (issuer env) (ar_redirect_uri rq) (ar_state rq) outcome,
           [write_sso secure (ls_cookie result)])
       }
   }"

definition issue_csrf ::
  "('c, 'z) auth_env_scheme \<Rightarrow> bool \<Rightarrow> (string \<Rightarrow> auth_body) \<Rightarrow> ('c, auth_reply) auth_m" where
  "issue_csrf env secure body = do {
     issued \<leftarrow> issueCsrfToken env;
     State_Monad.return (Body 200 (body (csrf_form issued)), [write_csrf secure (csrf_cookie issued)])
   }"

definition api_login_route ::
  "('c, 'z) auth_env_scheme \<Rightarrow> bool \<Rightarrow> http_context \<Rightarrow> string option \<Rightarrow> string option \<Rightarrow> ('c, auth_reply) auth_m" where
  "api_login_route env secure hx rid_param err =
     (let rid = (case rid_param of None \<Rightarrow> [] | Some r \<Rightarrow> r);
          context = issue_csrf env secure (\<lambda>csrf. Login_context rid csrf (errorMessageOf err))
      in if rid \<noteq> [] then do {
           pending \<leftarrow> loadPendingAuthorization env rid;
           if pending = None then State_Monad.return (Failure 400 ''expired_request'', []) else context
         }
         else do {
           session \<leftarrow> loadSsoSession env (hx_sso hx);
           if session \<noteq> None then State_Monad.return (Body 200 (Login_redirect ''/''), []) else context
         })"

definition login_next :: "login_outcome \<Rightarrow> string" where
  "login_next r = (case r of Login_totp_required i \<Rightarrow> withQuery ''/login/challenge'' [(''mid'', Some i)]
     | Login_setup_required i \<Rightarrow> withQuery ''/login/mfa-setup'' [(''mid'', Some i)])"

definition login_route ::
  "('c, 'z) auth_env_scheme \<Rightarrow> http_context \<Rightarrow> form \<Rightarrow> ('c, auth_reply) auth_m" where
  "login_route env hx f =
     (case loginFormSchema f of
        None \<Rightarrow> State_Monad.return (Error_html 400, [])
      | Some lf \<Rightarrow> rejectInvalidCsrf env hx (lf_csrf lf) (do {
          pending \<leftarrow> (if lf_rid lf = [] then State_Monad.return True
            else do { p \<leftarrow> loadPendingAuthorization env (lf_rid lf); State_Monad.return (p \<noteq> None) });
          if \<not> pending then State_Monad.return (Error_html 400, [])
          else do {
            result \<leftarrow> login env \<lparr>cr_username = lf_username lf, cr_password = lf_password lf\<rparr> (hx_env hx) (lf_rid lf);
            State_Monad.return (case result of
                Inl e \<Rightarrow> (Go 303 (withQuery ''/login'' [(''error'', Some (auth_error_kind e)), (''rid'', Some (lf_rid lf))]), [])
              | Inr r \<Rightarrow> (Go 303 (login_next r), []))
          }
        }))"

definition api_challenge_route ::
  "('c, 'z) auth_env_scheme \<Rightarrow> bool \<Rightarrow> string option \<Rightarrow> ('c, auth_reply) auth_m" where
  "api_challenge_route env secure err = issue_csrf env secure (\<lambda>csrf. Challenge_context csrf (errorMessageOf err))"

definition code_route ::
  "('c, 'z) auth_env_scheme \<Rightarrow> bool \<Rightarrow> http_context \<Rightarrow> form \<Rightarrow> string \<Rightarrow>
   (string \<Rightarrow> string \<Rightarrow> request_environment \<Rightarrow> ('c, (mfa_completed, mfa_flow_error) result) auth_m) \<Rightarrow>
   ('c, auth_reply) auth_m" where
  "code_route env secure hx f path complete =
     (case codeFormSchema f of
        None \<Rightarrow> State_Monad.return (Error_html 400, [])
      | Some kf \<Rightarrow> rejectInvalidCsrf env hx (kf_csrf kf) (do {
          result \<leftarrow> complete (kf_mid kf) (kf_code kf) (hx_env hx);
          case result of
            Inl e \<Rightarrow> State_Monad.return (respondMfaError e path (kf_mid kf), [])
          | Inr m \<Rightarrow> login_finish env secure hx (mc_login m) (mc_rid m)
        }))"

definition challenge_route ::
  "('c, 'z) auth_env_scheme \<Rightarrow> bool \<Rightarrow> http_context \<Rightarrow> form \<Rightarrow> ('c, auth_reply) auth_m" where
  "challenge_route env secure hx f =
     code_route env secure hx f ''/login/challenge'' (completeTotpChallenge env)"

definition mfa_setup_route ::
  "('c, 'z) auth_env_scheme \<Rightarrow> bool \<Rightarrow> http_context \<Rightarrow> form \<Rightarrow> ('c, auth_reply) auth_m" where
  "mfa_setup_route env secure hx f =
     code_route env secure hx f ''/login/mfa-setup'' (completeTotpSetup env)"

definition api_mfa_setup_route ::
  "('c, 'z) auth_env_scheme \<Rightarrow> bool \<Rightarrow> string option \<Rightarrow> string option \<Rightarrow> string option \<Rightarrow> ('c, auth_reply) auth_m" where
  "api_mfa_setup_route env secure mid renew err = do {
     setup \<leftarrow> beginTotpSetup env (case mid of None \<Rightarrow> [] | Some m \<Rightarrow> m) (renew = Some ''1'');
     case setup of
       Inl _ \<Rightarrow> State_Monad.return (Failure 400 ''expired_request'', [])
     | Inr v \<Rightarrow> issue_csrf env secure (\<lambda>csrf.
         Setup_context \<lparr>sb_csrf = csrf, sb_view = v, sb_message = errorMessageOf err\<rparr>)
   }"

section \<open>logout.ts and sessions.ts\<close>

definition returnTarget ::
  "('c, 'z) auth_env_scheme \<Rightarrow> identity_db \<Rightarrow> string option \<Rightarrow> string option \<Rightarrow> (string \<times> string) option" where
  "returnTarget env db client_id slug =
     (case (client_id, slug) of
        (Some c, Some t) \<Rightarrow>
          (case (findClient db c, findTenantBySlug db t) of
             (Some client, Some tenant) \<Rightarrow>
               Some (oc_name client @ '' ('' @ tenant_slug tenant @ '')'',
                 serviceOrigin (url_origin env) (oc_redirect_template client) (tenant_slug tenant) @ ''/'')
           | _ \<Rightarrow> None)
      | _ \<Rightarrow> None)"

definition api_logout_route ::
  "('c, 'z) auth_env_scheme \<Rightarrow> bool \<Rightarrow> http_context \<Rightarrow> string option \<Rightarrow> string option \<Rightarrow> ('c, auth_reply) auth_m" where
  "api_logout_route env secure hx client_id slug = do {
     db \<leftarrow> reads identity;
     let target = returnTarget env db client_id slug;
     session \<leftarrow> loadSsoSession env (hx_sso hx);
     if session = None then State_Monad.return (Body 200 (Logout_context False None target), [clear_sso secure])
     else issue_csrf env secure (\<lambda>csrf. Logout_context True (Some csrf) target)
   }"

definition logout_route ::
  "('c, 'z) auth_env_scheme \<Rightarrow> bool \<Rightarrow> http_context \<Rightarrow> form \<Rightarrow> ('c, auth_reply) auth_m" where
  "logout_route env secure hx f =
     (case min1 (f ''csrf'') of
        None \<Rightarrow> State_Monad.return (Error_html 400, [])
      | Some csrf \<Rightarrow> rejectInvalidCsrf env hx csrf (do {
          session \<leftarrow> loadSsoSession env (hx_sso hx);
          _ \<leftarrow> (case session of None \<Rightarrow> State_Monad.return () | Some x \<Rightarrow> globalLogout env x (hx_env hx));
          State_Monad.return (Go 303 (withQuery ''/logout'' [(''client_id'', f ''client_id''), (''tenant'', f ''tenant'')]),
            [clear_sso secure])
        }))"

definition session_to_json :: "string \<Rightarrow> session_with_services \<Rightarrow> session_json" where
  "session_to_json own_sid r =
     (let x = fst (fst r) in
      \<lparr>sj_id = as_id x, sj_ip = as_ip x, sj_user_agent = as_user_agent x, sj_created_at = as_created_at x,
       sj_last_seen_at = as_last_seen_at x, sj_current = (as_id x = own_sid),
       sj_services = map (\<lambda>(c, t). (oc_client_id c, oc_name c, tenant_slug t, tenant_name t)) (snd r)\<rparr>)"

definition api_sessions_route ::
  "('c, 'z) auth_env_scheme \<Rightarrow> bool \<Rightarrow> http_context \<Rightarrow> ('c, auth_reply) auth_m" where
  "api_sessions_route env secure hx = do {
     session \<leftarrow> loadSsoSession env (hx_sso hx);
     case session of
       None \<Rightarrow> State_Monad.return (Failure 401 ''unauthenticated'', [])
     | Some x \<Rightarrow> do {
         rows \<leftarrow> listUserSessions (ss_user x);
         db \<leftarrow> reads identity;
         issue_csrf env secure (Sessions_context (map (session_to_json (ss_sid x)) rows) (listMfaMethods db (ss_user x)))
       }
   }"

definition revoke_target :: "sso_session \<Rightarrow> string \<Rightarrow> session_db \<Rightarrow> string option" where
  "revoke_target own sid db =
     (case sd_find_with_clients sid db of
        Some r \<Rightarrow> if as_user (fst r) = ss_user own \<and> as_id (fst r) \<noteq> ss_sid own then Some (as_id (fst r)) else None
      | None \<Rightarrow> None)"

definition sessions_revoke_route ::
  "('c, 'z) auth_env_scheme \<Rightarrow> http_context \<Rightarrow> form \<Rightarrow> ('c, auth_reply) auth_m" where
  "sessions_revoke_route env hx f =
     (case (min1 (f ''csrf''), bounded 128 (f ''session_id'')) of
        (Some csrf, Some sid) \<Rightarrow> do {
          session \<leftarrow> loadSsoSession env (hx_sso hx);
          case session of
            None \<Rightarrow> State_Monad.return (Go 303 ''/login'', [])
          | Some x \<Rightarrow> rejectInvalidCsrf env hx csrf (do {
              target \<leftarrow> reads (revoke_target x sid \<circ> sessions);
              _ \<leftarrow> (case target of None \<Rightarrow> State_Monad.return ()
                    | Some i \<Rightarrow> revokeSessionBySid env i User_revoked (Some (hx_env hx)));
              State_Monad.return (Go 303 ''/security'', [])
            })
        }
      | _ \<Rightarrow> State_Monad.return (Error_html 400, []))"

section \<open>portal.ts, userinfo.ts, discovery.ts\<close>

definition portal_route ::
  "('c, 'z) auth_env_scheme \<Rightarrow> http_context \<Rightarrow> ('c, auth_reply) auth_m" where
  "portal_route env hx = do {
     session \<leftarrow> loadSsoSession env (hx_sso hx);
     db \<leftarrow> reads identity;
     State_Monad.return (case session of
         None \<Rightarrow> (Failure 401 ''unauthenticated'', [])
       | Some x \<Rightarrow>
           (case findUserById db (ss_user x) of
              None \<Rightarrow> (Failure 401 ''unauthenticated'', [])
            | Some u \<Rightarrow>
                if user_status u \<noteq> Active then (Failure 401 ''unauthenticated'', [])
                else (Body 200 (Portal_context (user_email u) (map (\<lambda>en.
                  (tenant_slug (pe_tenant en), tenant_name (pe_tenant en), map (\<lambda>v.
                     (ps_name v, ps_client_id v, ps_origin v @ ''/auth/login'')) (pe_services en)))
                  (listPortalEntries (url_origin env) db (ss_user x)))), [])))
   }"

definition userinfo_route ::
  "('c, 'z) auth_env_scheme \<Rightarrow> jose \<Rightarrow> jwks \<Rightarrow> string option \<Rightarrow> ('c, auth_reply) auth_m" where
  "userinfo_route env j keys authorization =
     (case readBearerToken authorization of
        None \<Rightarrow> State_Monad.return (Challenged ''Bearer'' ''invalid_request'', [])
      | Some token \<Rightarrow> do {
          t \<leftarrow> reads now;
          db \<leftarrow> reads identity;
          State_Monad.return (case verifyJwt j token keys
              \<lparr>vo_issuer = issuer env, vo_audience = Some (issuer env), vo_now = t,
               vo_tolerance = DEFAULT_CLOCK_TOLERANCE_SECONDS\<rparr> of
            Inl _ \<Rightarrow> (Challenged (''Bearer error='' @ dquote @ ''invalid_token'' @ dquote) ''invalid_token'', [])
          | Inr payload \<Rightarrow>
              (case json_string (json_field ''sub'' payload) of
                 None \<Rightarrow> (Challenged (''Bearer error='' @ dquote @ ''invalid_token'' @ dquote) ''invalid_token'', [])
               | Some sub \<Rightarrow>
                   (case findUserById db sub of
                      None \<Rightarrow> (Failure 401 ''invalid_token'', [])
                    | Some u \<Rightarrow>
                        if user_status u \<noteq> Active then (Failure 401 ''invalid_token'', [])
                        else (Body 200 (Claims_body ([(''sub'', JStr (user_id u))] @
                          profileClaims u (case json_string (json_field ''scope'' payload) of
                            None \<Rightarrow> [] | Some sc \<Rightarrow> split_on (CHR '' '') sc) @
                          (case json_string (json_field ''tenant_id'' payload) of
                             None \<Rightarrow> [] | Some tid \<Rightarrow> [(''tenant_id'', JStr tid)]))), []))))
        })"

definition discovery_document :: "('c, 'z) auth_env_scheme \<Rightarrow> json" where
  "discovery_document env = JObj
     [(''issuer'', JStr (issuer env)),
      (''authorization_endpoint'', JStr (issuer env @ ''/authorize'')),
      (''token_endpoint'', JStr (issuer env @ ''/token'')),
      (''userinfo_endpoint'', JStr (issuer env @ ''/userinfo'')),
      (''revocation_endpoint'', JStr (issuer env @ ''/revoke'')),
      (''jwks_uri'', JStr (issuer env @ ''/jwks'')),
      (''response_types_supported'', JArr [JStr ''code'']),
      (''grant_types_supported'', JArr [JStr ''authorization_code'', JStr ''refresh_token'']),
      (''subject_types_supported'', JArr [JStr ''public'']),
      (''id_token_signing_alg_values_supported'', JArr [JStr SIGNING_ALGORITHM]),
      (''scopes_supported'', JArr (map JStr SUPPORTED_SCOPES)),
      (''token_endpoint_auth_methods_supported'', JArr [JStr ''client_secret_basic'']),
      (''code_challenge_methods_supported'', JArr [JStr ''S256'']),
      (''claims_supported'', JArr (map JStr [''sub'', ''aud'', ''iss'', ''exp'', ''iat'', ''auth_time'', ''nonce'',
        ''sid'', ''tenant_id'', ''email'', ''email_verified'', ''name''])),
      (''authorization_response_iss_parameter_supported'', JBool True)]"

section \<open>admin.ts\<close>

definition toUserJson :: "user \<Rightarrow> user_json" where
  "toUserJson u = \<lparr>uj_id = user_id u, uj_email = user_email u, uj_name = user_name u,
     uj_linked = (cognito_sub u \<noteq> None)\<rparr>"

definition respondMemberError :: "service_member_error \<Rightarrow> auth_answer" where
  "respondMemberError e = (case e of Member_tenant_not_found \<Rightarrow> Failure 404 ''tenant_not_found''
     | Member_not_contracted \<Rightarrow> Failure 403 ''not_contracted''
     | Member_user_not_found \<Rightarrow> Failure 404 ''user_not_found'')"

text \<open>The three requests; the body of POST and DELETE is the validated input, \<open>None\<close> when it is invalid.\<close>

datatype admin_request =
  List_service_members "string option"
  | Invite_service_member "(string \<times> string \<times> string option) option"
  | Revoke_service_member "(string \<times> string) option"

definition admin_routes ::
  "('c, 'z) auth_env_scheme \<Rightarrow> string option \<Rightarrow> admin_request \<Rightarrow> ('c, auth_reply) auth_m" where
  "admin_routes env authorization rq = clientAuth env ''admin'' authorization (\<lambda>client.
     case rq of
       List_service_members tid \<Rightarrow>
         (case bounded 64 tid of
            None \<Rightarrow> State_Monad.return (Failure 400 ''invalid_request'', [])
          | Some t \<Rightarrow> do {
              db \<leftarrow> reads identity;
              State_Monad.return (case listServiceMembersOf db client t of
                  Inl e \<Rightarrow> (respondMemberError e, [])
                | Inr ms \<Rightarrow> (Body 200 (Members_list (map (\<lambda>(u, st). (toUserJson u, st)) ms)), []))
            })
     | Invite_service_member body \<Rightarrow>
         (case body of
            None \<Rightarrow> State_Monad.return (Failure 400 ''invalid_request'', [])
          | Some (tid, email, name) \<Rightarrow> do {
              r \<leftarrow> inviteServiceMember env client tid email name;
              State_Monad.return (case r of Inl e \<Rightarrow> (respondMemberError e, [])
                | Inr u \<Rightarrow> (Body 201 (Member_user (toUserJson u)), []))
            })
     | Revoke_service_member body \<Rightarrow>
         (case body of
            None \<Rightarrow> State_Monad.return (Failure 400 ''invalid_request'', [])
          | Some (tid, uid) \<Rightarrow> do {
              r \<leftarrow> revokeServiceMember env client tid uid;
              State_Monad.return (case r of Inl e \<Rightarrow> (respondMemberError e, []) | Inr _ \<Rightarrow> (Nothing 204, []))
            }))"

section \<open>Properties\<close>

text \<open>What a form and the browser's cookies authorise: a live SSO session and the token of a served form.\<close>

definition signed_in_form ::
  "('c, 'z) auth_env_scheme \<Rightarrow> http_context \<Rightarrow> form \<Rightarrow> sso_session \<Rightarrow> 'c auth_state \<Rightarrow> bool" where
  "signed_in_form env hx f x s \<longleftrightarrow>
     (\<exists>c d. hx_sso hx = Some c \<and> sso_live s (keyOf env c) = Some x \<and> hx_csrf hx = Some d \<and>
        kv_value (now s) (csrf_tokens s) (keyOf env d) = f ''csrf'' \<and> f ''csrf'' \<noteq> None)"

lemma csrf_checked:
  assumes "fst (run_state (verifyCsrfToken env cookie (Some v)) s)"
  shows "\<exists>d. cookie = Some d \<and> kv_value (now s) (csrf_tokens s) (keyOf env d) = Some v"
  using assms
  by (auto simp: verifyCsrfToken_def run_on_store case_prod_beta timingSafeEqualString_iff split: option.splits)

lemma verify_keeps:
  "sessions (snd (run_state (verifyCsrfToken env cookie form) s)) = sessions s"
  "now (snd (run_state (verifyCsrfToken env cookie form) s)) = now s"
  by (simp_all add: verifyCsrfToken_def run_on_store case_prod_beta split: option.split)

lemma load_cookie:
  "fst (run_state (loadSsoSession env cookie) s) = Some x \<Longrightarrow>
     \<exists>c. cookie = Some c \<and> sso_live s (keyOf env c) = Some x"
  "beyond_sso (snd (run_state (loadSsoSession env cookie) s)) = beyond_sso s"
  by (auto simp: loadSsoSession_def load_frame split: option.splits if_splits)

lemma load_cookie_fields:
  "sessions (snd (run_state (loadSsoSession env cookie) s)) = sessions s"
  "now (snd (run_state (loadSsoSession env cookie) s)) = now s"
  "csrf_tokens (snd (run_state (loadSsoSession env cookie) s)) = csrf_tokens s"
  by (rule beyond_sso_fields [OF load_cookie(2)])+

text \<open>
  The revocation form of the portal reaches only the caller's own other sessions: a session record
  that POST /sessions/revoke changes is the one the form names, belongs to the user of the live SSO
  session in the cookie, is not that session itself, and the form carried a served CSRF token.
\<close>

theorem revoke_form_spares_others:
  "find_session (sessions (snd (run_state (sessions_revoke_route env hx f) s))) i = find_session (sessions s) i \<or>
   (\<exists>x r. signed_in_form env hx f x s \<and> f ''session_id'' = Some i \<and> find_session (sessions s) i = Some r \<and>
      as_user r = ss_user x \<and> i \<noteq> ss_sid x)"
proof (cases "min1 (f ''csrf'')")
  case None
  then show ?thesis by (simp add: sessions_revoke_route_def)
next
  case (Some csrf)
  then have csrf: "f ''csrf'' = Some csrf" by (auto simp: min1_def split: option.splits if_splits)
  show ?thesis
  proof (cases "bounded 128 (f ''session_id'')")
    case None
    then show ?thesis using Some by (simp add: sessions_revoke_route_def)
  next
    case sid: (Some sid)
    then have form: "f ''session_id'' = Some sid" by (auto simp: bounded_def split: option.splits if_splits)
    define s1 where "s1 = snd (run_state (loadSsoSession env (hx_sso hx)) s)"
    define s2 where "s2 = snd (run_state (verifyCsrfToken env (hx_csrf hx) (Some csrf)) s1)"
    have kept: "sessions s1 = sessions s" "now s1 = now s" "csrf_tokens s1 = csrf_tokens s" "sessions s2 = sessions s"
      by (simp_all add: s1_def s2_def load_cookie_fields verify_keeps)
    show ?thesis
    proof (cases "fst (run_state (loadSsoSession env (hx_sso hx)) s)")
      case None
      then show ?thesis
        using Some sid kept by (simp add: sessions_revoke_route_def case_prod_beta s1_def)
    next
      case own: (Some x)
      let ?ok = "fst (run_state (verifyCsrfToken env (hx_csrf hx) (Some csrf)) s1)"
      show ?thesis
      proof (cases "?ok \<and> revoke_target x sid (sessions s2) \<noteq> None")
        case False
        then have "sessions (snd (run_state (sessions_revoke_route env hx f) s)) = sessions s"
          using Some sid own kept
          by (auto simp: sessions_revoke_route_def rejectInvalidCsrf_def case_prod_beta s1_def s2_def)
        then show ?thesis by simp
      next
        case True
        then obtain r where r: "find_session (sessions s) sid = Some r" "as_user r = ss_user x" "sid \<noteq> ss_sid x"
            "revoke_target x sid (sessions s2) = Some sid"
          using find_session_id [of "sessions s" sid]
          by (auto simp: revoke_target_def sd_find_with_clients_def with_clients_def kept comp_def
              split: option.splits if_splits)
        have "sessions (snd (run_state (sessions_revoke_route env hx f) s)) =
            sessions (snd (run_state (revokeSessionBySid env sid User_revoked (Some (hx_env hx))) s2))"
          using Some sid own True r(4)
          by (simp add: sessions_revoke_route_def rejectInvalidCsrf_def case_prod_beta s1_def s2_def)
        also have "\<dots> = sd_mark_revoked sid User_revoked (now s2) (sessions s)"
          using revoke_session_run(7) [OF refl, of env sid User_revoked "Some (hx_env hx)" s2] kept by simp
        finally have "i \<noteq> sid \<Longrightarrow>
            find_session (sessions (snd (run_state (sessions_revoke_route env hx f) s))) i = find_session (sessions s) i"
          by (simp add: sd_mark_revoked_find)
        moreover have "signed_in_form env hx f x s"
          using load_cookie(1) [OF own] csrf_checked [OF conjunct1 [OF True]] csrf kept
          by (auto simp: signed_in_form_def)
        ultimately show ?thesis using r form by blast
      qed
    qed
  qed
qed

end
