(* ===== verification/AuthApp.thy ===== *)
theory AuthApp
  imports AuthHttp OidcClient ApiMembers
begin

text \<open>
  apps/auth-api/src/interface/http/app.ts: the authorization server as one HTTP application. A request
  passes the rate limiters registered for its path, in the order of their registration, and then the
  first route of its method and path. The JSON bodies of the answers that other servers read, and the
  schemas of the administration API, are those of the routes and of packages/api-contract.
  Which paths a pattern matches is the router's (\<open>sx_matches\<close>), \<open>JSON.parse\<close> the
  runtime's (\<open>sx_parse\<close>); a path no route takes is a page of the single-page application on GET.
  The content type of a request is taken to be the one its route reads, and the framework's own answer to
  a body that is not JSON is not told from the 400 of an invalid one.
\<close>

section \<open>Form bodies\<close>

text \<open>
  \<open>application/x-www-form-urlencoded\<close> as the platform reads it, on byte strings: a percent sign
  without two hexadecimal digits is kept. The validator's form of a request maps a name to its value
  when it has exactly one.
\<close>

fun percent_decode :: "string \<Rightarrow> string" where
  "percent_decode (c # a # b # cs) =
     (if c = CHR ''%'' then (case (hex_value a, hex_value b) of
          (Some x, Some y) \<Rightarrow> char_of (16 * x + y) # percent_decode cs
        | _ \<Rightarrow> c # percent_decode (a # b # cs))
      else (if c = CHR ''+'' then CHR '' '' else c) # percent_decode (a # b # cs))"
| "percent_decode (c # cs) = (if c = CHR ''+'' then CHR '' '' else c) # percent_decode cs"
| "percent_decode [] = []"

definition form_pair :: "string \<Rightarrow> string \<times> string" where
  "form_pair s =
     (case index_of ''='' s of None \<Rightarrow> (percent_decode s, [])
      | Some i \<Rightarrow> (percent_decode (take i s), percent_decode (drop (i + 1) s)))"

definition form_decode :: "string \<Rightarrow> (string \<times> string) list" where
  "form_decode s = map form_pair (filter (\<lambda>p. p \<noteq> []) (split_on CHR ''&'' s))"

definition form_of :: "(string \<times> string) list \<Rightarrow> form" where
  "form_of ps k = (case filter (\<lambda>p. fst p = k) ps of [p] \<Rightarrow> Some (snd p) | _ \<Rightarrow> None)"

section \<open>JSON bodies and request schemas\<close>

definition nullable :: "string option \<Rightarrow> json" where
  "nullable v = (case v of None \<Rightarrow> JNull | Some s \<Rightarrow> JStr s)"

definition token_body :: "token_response \<Rightarrow> json" where
  "token_body r = JObj
     [(''access_token'', JStr (tr_access_token r)), (''token_type'', JStr ''Bearer''),
      (''expires_in'', JNum (tr_expires_in r)), (''id_token'', JStr (tr_id_token r)),
      (''refresh_token'', JStr (tr_refresh_token r)), (''scope'', JStr (tr_scope r))]"

definition user_fields :: "user_json \<Rightarrow> (string \<times> json) list" where
  "user_fields u =
     [(''id'', JStr (uj_id u)), (''email'', JStr (uj_email u)), (''name'', nullable (uj_name u)),
      (''linked'', JBool (uj_linked u))]"

definition toMemberJson :: "user_json \<times> active_status \<Rightarrow> json" where
  "toMemberJson m = JObj (user_fields (fst m) @
     [(''status'', JStr (if snd m = Active then ''active'' else ''disabled''))])"

text \<open>The body of an answer of the back-channel routes; the screens' bodies stay records.\<close>

definition wire_body :: "auth_answer \<Rightarrow> json option" where
  "wire_body a =
     (case a of
        Body _ (Tokens_body r) \<Rightarrow> Some (token_body r)
      | Body _ (Claims_body fs) \<Rightarrow> Some (JObj fs)
      | Body _ (Members_list ms) \<Rightarrow> Some (JObj [(''members'', JArr (map toMemberJson ms))])
      | Body _ (Member_user u) \<Rightarrow> Some (JObj [(''user'', JObj (user_fields u))])
      | Body _ (Document j) \<Rightarrow> Some j
      | Failure _ code \<Rightarrow> Some (JObj [(''error'', JStr code)])
      | Challenged _ code \<Rightarrow> Some (JObj [(''error'', JStr code)])
      | _ \<Rightarrow> None)"

definition wire_status :: "auth_answer \<Rightarrow> nat" where
  "wire_status a =
     (case a of Go n _ \<Rightarrow> n | Go_with n _ _ \<Rightarrow> n | Error_html n \<Rightarrow> n | Body n _ \<Rightarrow> n | Failure n _ \<Rightarrow> n
      | Challenged _ _ \<Rightarrow> 401 | Nothing n \<Rightarrow> n)"

definition wire :: "auth_answer \<Rightarrow> http_response" where
  "wire a =
     \<lparr>rs_status = wire_status a,
      rs_www_authenticate = (case a of Challenged realm _ \<Rightarrow> Some realm | _ \<Rightarrow> None),
      rs_content_type = (if wire_body a = None then None else Some ''application/json''),
      rs_json = wire_body a\<rparr>"

definition id_field :: "string \<Rightarrow> json \<Rightarrow> string option" where
  "id_field k j = Option.bind (json_string (json_field k j)) (\<lambda>i. if short_id i then Some i else None)"

definition inviteServiceMemberInputSchema ::
  "(string \<Rightarrow> bool) \<Rightarrow> json \<Rightarrow> (string \<times> string \<times> string option) option" where
  "inviteServiceMemberInputSchema is_email j = do {
     t \<leftarrow> id_field ''tenant_id'' j;
     e \<leftarrow> emailSchema is_email (json_field ''email'' j);
     n \<leftarrow> optional_field personNameSchema ''name'' j;
     Some (t, e, n)
   }"

definition revokeServiceMemberInputSchema :: "json \<Rightarrow> (string \<times> string) option" where
  "revokeServiceMemberInputSchema j = do {
     t \<leftarrow> id_field ''tenant_id'' j;
     u \<leftarrow> id_field ''user_id'' j;
     Some (t, u)
   }"

definition toJwks :: "json list \<Rightarrow> json" where
  "toJwks public = JObj [(''keys'', JArr public)]"

section \<open>Rate limits\<close>

definition RATE_LIMIT_LOGIN :: "nat \<times> nat" where "RATE_LIMIT_LOGIN = (60, 60)"
definition RATE_LIMIT_LOGIN_PER_USER :: "nat \<times> nat" where "RATE_LIMIT_LOGIN_PER_USER = (10, 60)"
definition RATE_LIMIT_AUTHORIZE :: "nat \<times> nat" where "RATE_LIMIT_AUTHORIZE = (120, 60)"
definition RATE_LIMIT_TOKEN :: "nat \<times> nat" where "RATE_LIMIT_TOKEN = (300, 60)"

record limiter =
  lm_method :: "string option"
  lm_pattern :: string
  lm_name :: string
  lm_quota :: "nat \<times> nat"
  lm_per_user :: bool

definition on_any :: "string \<Rightarrow> string \<Rightarrow> nat \<times> nat \<Rightarrow> limiter" where
  "on_any pattern name quota =
     \<lparr>lm_method = None, lm_pattern = pattern, lm_name = name, lm_quota = quota, lm_per_user = False\<rparr>"

definition auth_limiters :: "limiter list" where
  "auth_limiters =
     [on_any ''/login'' ''login'' RATE_LIMIT_LOGIN,
      on_any ''/login/*'' ''login'' RATE_LIMIT_LOGIN,
      on_any ''/api/login'' ''login'' RATE_LIMIT_LOGIN,
      on_any ''/api/login/*'' ''login'' RATE_LIMIT_LOGIN,
      \<lparr>lm_method = Some ''POST'', lm_pattern = ''/login'', lm_name = ''login-user'',
       lm_quota = RATE_LIMIT_LOGIN_PER_USER, lm_per_user = True\<rparr>,
      on_any ''/authorize'' ''authorize'' RATE_LIMIT_AUTHORIZE,
      on_any ''/token'' ''token'' RATE_LIMIT_TOKEN,
      on_any ''/admin/*'' ''admin'' RATE_LIMIT_TOKEN,
      on_any ''/logout'' ''logout'' RATE_LIMIT_LOGIN,
      on_any ''/api/logout'' ''logout'' RATE_LIMIT_LOGIN,
      on_any ''/api/sessions'' ''logout'' RATE_LIMIT_LOGIN,
      on_any ''/sessions/*'' ''logout'' RATE_LIMIT_LOGIN]"

text \<open>A request: header and cookie names are lower case; \<open>sq_ip\<close> is \<open>clientIp\<close>.\<close>

record site_request =
  sq_method :: string
  sq_path :: string
  sq_query :: form
  sq_authorization :: "string option"
  sq_cookies :: form
  sq_env :: request_environment
  sq_body :: "string option"

record auth_site =
  sx_matches :: "string \<Rightarrow> string \<Rightarrow> bool"
  sx_parse :: "string \<Rightarrow> json option"
  sx_is_email :: "string \<Rightarrow> bool"
  sx_jose :: jose
  sx_key_text :: "json \<Rightarrow> string"
  sx_public_jwk :: json
  sx_secure :: bool

definition body_form :: "site_request \<Rightarrow> form" where
  "body_form q = (case sq_body q of None \<Rightarrow> (\<lambda>_. None) | Some b \<Rightarrow> form_of (form_decode b))"

definition body_json :: "auth_site \<Rightarrow> site_request \<Rightarrow> json option" where
  "body_json site q = Option.bind (sq_body q) (sx_parse site)"

definition limit_subject :: "site_request \<Rightarrow> limiter \<Rightarrow> string" where
  "limit_subject q l =
     (if lm_per_user l
      then env_ip (sq_env q) @ '':'' @ (case body_form q ''username'' of None \<Rightarrow> [] | Some u \<Rightarrow> u)
      else env_ip (sq_env q))"

definition limiters_of :: "auth_site \<Rightarrow> site_request \<Rightarrow> limiter list" where
  "limiters_of site q = filter (\<lambda>l. (case lm_method l of None \<Rightarrow> True | Some v \<Rightarrow> v = sq_method q) \<and>
     sx_matches site (lm_pattern l) (sq_path q)) auth_limiters"

fun pass_limiters ::
  "nat \<Rightarrow> site_request \<Rightarrow> limiter list \<Rightarrow> counter_store \<Rightarrow> bool \<times> counter_store" where
  "pass_limiters now_ms q [] m = (True, m)"
| "pass_limiters now_ms q (l # ls) m =
     (let (ok, m1) = rateLimit (lm_name l) (fst (lm_quota l)) (snd (lm_quota l)) now_ms (limit_subject q l) m
      in if ok then pass_limiters now_ms q ls m1 else (False, m1))"

section \<open>The application\<close>

datatype site_answer = Route auth_reply | Screen string | Too_many_requests nat

definition http_of :: "auth_site \<Rightarrow> site_request \<Rightarrow> http_context" where
  "http_of site q =
     \<lparr>hx_sso = sq_cookies q (cookieName COOKIE_SSO_SESSION Host_scope (sx_secure site)),
      hx_csrf = sq_cookies q (cookieName COOKIE_CSRF Host_scope (sx_secure site)), hx_env = sq_env q\<rparr>"

definition get_routes ::
  "('c, 'z) auth_env_scheme \<Rightarrow> auth_site \<Rightarrow> site_request \<Rightarrow> (string \<times> ('c, auth_reply) auth_m) list" where
  "get_routes env site q =
     (let hx = http_of site q; secure = sx_secure site; query = sq_query q in
      [(''/.well-known/openid-configuration'', State_Monad.return (Body 200 (Document (discovery_document env)), [])),
       (''/jwks'', State_Monad.return (Body 200 (Document (toJwks [sx_public_jwk site])), [])),
       (''/authorize'', authorize_route env secure hx query),
       (''/api/login'', api_login_route env secure hx (query ''rid'') (query ''error'')),
       (''/api/login/challenge'', api_challenge_route env secure (query ''error'')),
       (''/api/login/mfa-setup'', api_mfa_setup_route env secure (query ''mid'') (query ''renew'') (query ''error'')),
       (''/admin/service-members'', admin_routes env (sq_authorization q) (List_service_members (query ''tenant_id''))),
       (''/userinfo'', userinfo_route env (sx_jose site)
          (case jwk_list (sx_key_text site) [sx_public_jwk site] of None \<Rightarrow> [] | Some ks \<Rightarrow> ks)
          (sq_authorization q)),
       (''/api/logout'', api_logout_route env secure hx (query ''client_id'') (query ''tenant'')),
       (''/api/portal'', portal_route env hx),
       (''/api/sessions'', api_sessions_route env secure hx)])"

definition post_routes ::
  "('c, 'z) auth_env_scheme \<Rightarrow> auth_site \<Rightarrow> site_request \<Rightarrow> (string \<times> ('c, auth_reply) auth_m) list" where
  "post_routes env site q =
     (let hx = http_of site q; secure = sx_secure site; f = body_form q in
      [(''/login'', login_route env hx f),
       (''/login/challenge'', challenge_route env secure hx f),
       (''/login/mfa-setup'', mfa_setup_route env secure hx f),
       (''/token'', token_route env (sq_authorization q) f),
       (''/revoke'', revoke_route env (sq_authorization q) f),
       (''/admin/service-members'', admin_routes env (sq_authorization q)
          (Invite_service_member (Option.bind (body_json site q) (inviteServiceMemberInputSchema (sx_is_email site))))),
       (''/logout'', logout_route env secure hx f),
       (''/sessions/revoke'', sessions_revoke_route env hx f)])"

definition delete_routes ::
  "('c, 'z) auth_env_scheme \<Rightarrow> auth_site \<Rightarrow> site_request \<Rightarrow> (string \<times> ('c, auth_reply) auth_m) list" where
  "delete_routes env site q =
     [(''/admin/service-members'', admin_routes env (sq_authorization q)
        (Revoke_service_member (Option.bind (body_json site q) revokeServiceMemberInputSchema)))]"

definition routes_of ::
  "('c, 'z) auth_env_scheme \<Rightarrow> auth_site \<Rightarrow> site_request \<Rightarrow> (string \<times> ('c, auth_reply) auth_m) list" where
  "routes_of env site q =
     (if sq_method q = ''GET'' then get_routes env site q
      else if sq_method q = ''POST'' then post_routes env site q
      else if sq_method q = ''DELETE'' then delete_routes env site q else [])"

definition auth_routes ::
  "('c, 'z) auth_env_scheme \<Rightarrow> auth_site \<Rightarrow> site_request \<Rightarrow> ('c, site_answer) auth_m" where
  "auth_routes env site q =
     (case map_of (routes_of env site q) (sq_path q) of
        Some handler \<Rightarrow> do { r \<leftarrow> handler; State_Monad.return (Route r) }
      | None \<Rightarrow> State_Monad.return
          (if sq_method q = ''GET'' then Screen (sq_path q) else Route (Error_html 404, [])))"

record 'c auth_net =
  an_state :: "'c auth_state"
  an_counters :: counter_store
  an_wall :: nat

definition auth_app ::
  "('c, 'z) auth_env_scheme \<Rightarrow> auth_site \<Rightarrow> site_request \<Rightarrow> 'c auth_net \<Rightarrow> site_answer \<times> 'c auth_net" where
  "auth_app env site q n =
     (let ls = limiters_of site q; (ok, m) = pass_limiters (an_wall n) q ls (an_counters n)
      in if ok then let (a, s) = run_state (auth_routes env site q) (an_state n)
                    in (a, n\<lparr>an_counters := m, an_state := s\<rparr>)
         else (Too_many_requests (snd RATE_LIMIT_LOGIN), n\<lparr>an_counters := m\<rparr>))"

section \<open>How often the login page is counted\<close>

text \<open>
  The router: a pattern that ends in a wildcard matches its stem and every path below it, any other
  pattern of the application is a literal path.
\<close>

definition wildcard_match :: "string \<Rightarrow> string \<Rightarrow> bool" where
  "wildcard_match pattern path =
     (let stem = take (length pattern - 2) pattern in
      if drop (length pattern - 2) pattern = ''/*'' then path = stem \<or> prefix (stem @ ''/'') path
      else path = pattern)"

definition routes_by_wildcard :: "auth_site \<Rightarrow> bool" where
  "routes_by_wildcard site \<longleftrightarrow> sx_matches site = wildcard_match"

text \<open>The requests of a list of times, of which the limiters let a number through.\<close>

fun admitted :: "auth_site \<Rightarrow> site_request \<Rightarrow> nat list \<Rightarrow> counter_store \<Rightarrow> nat" where
  "admitted site q [] m = 0"
| "admitted site q (ms # ts) m =
     (let (ok, m1) = pass_limiters ms q (limiters_of site q) m
      in (if ok then 1 else 0) + admitted site q ts m1)"

lemma login_limiters:
  assumes "routes_by_wildcard site" "sq_method q = ''GET''" "sq_path q = ''/login''"
  shows "limiters_of site q =
    [on_any ''/login'' ''login'' RATE_LIMIT_LOGIN, on_any ''/login/*'' ''login'' RATE_LIMIT_LOGIN]"
  using assms
  by (simp add: limiters_of_def auth_limiters_def on_any_def routes_by_wildcard_def wildcard_match_def)

definition login_used :: "site_request \<Rightarrow> nat \<Rightarrow> nat \<Rightarrow> counter_store \<Rightarrow> nat" where
  "login_used q w t m = window_used ''login'' (env_ip (sq_env q)) w (int t) m"

definition login_sound :: "site_request \<Rightarrow> nat \<Rightarrow> nat \<Rightarrow> counter_store \<Rightarrow> bool" where
  "login_sound q w t m = window_sound 60 ''login'' (env_ip (sq_env q)) w (int t) m"

lemma login_counted:
  assumes sound: "login_sound q w (ms div 1000) m" and w: "ms div (1000 * 60) = w"
  defines "r \<equiv> rateLimit ''login'' 60 60 ms (env_ip (sq_env q)) m"
  shows "fst r \<longleftrightarrow> login_used q w (ms div 1000) m < 60" "login_sound q w (ms div 1000) (snd r)"
    "login_used q w (ms div 1000) (snd r) = login_used q w (ms div 1000) m + 1"
proof -
  have time: "ms div 1000 < (w + 1) * 60" using window_end [of 60 ms] w by simp
  note step = window_step [where ws = 60 and name = "''login''" and s = "env_ip (sq_env q)" and limit = 60
      and s' = "env_ip (sq_env q)", OF _ sound [unfolded login_sound_def] time]
  show "fst r \<longleftrightarrow> login_used q w (ms div 1000) m < 60" "login_sound q w (ms div 1000) (snd r)"
    "login_used q w (ms div 1000) (snd r) = login_used q w (ms div 1000) m + 1"
    using step w by (simp_all add: r_def login_used_def login_sound_def)
qed

lemma login_admitted:
  assumes site: "routes_by_wildcard site" "sq_method q = ''GET''" "sq_path q = ''/login''"
    and "sorted (t0 # map (\<lambda>ms. ms div 1000) ts)" "\<forall>ms\<in>set ts. ms div (1000 * 60) = w" "login_sound q w t0 m"
  shows "admitted site q ts m = min (length ts) ((60 - login_used q w t0 m) div 2)"
  using assms(4-6)
proof (induction ts arbitrary: m t0)
  case (Cons ms ts)
  let ?t = "ms div 1000" and ?lim = "\<lambda>m. rateLimit ''login'' 60 60 ms (env_ip (sq_env q)) m"
  have w: "ms div (1000 * 60) = w" and srt: "sorted (?t # map (\<lambda>ms. ms div 1000) ts)" and t0: "t0 \<le> ?t"
    using Cons.prems(1,2) by simp_all
  have "counter_view (int ?t) m (rate_key ''login'' (env_ip (sq_env q)) w) =
      counter_view (int t0) m (rate_key ''login'' (env_ip (sq_env q)) w)"
    using t0 window_end [of 60 ms] w
    by (intro window_ages [OF Cons.prems(3) [unfolded login_sound_def]]) (simp_all flip: of_nat_mult)
  then have sound: "login_sound q w ?t m" and used: "login_used q w ?t m = login_used q w t0 m"
    using Cons.prems(3) by (simp_all add: login_sound_def login_used_def window_sound_def window_used_def)
  define m1 where "m1 = snd (?lim m)"
  note one = login_counted [OF sound w, folded m1_def]
  define m2 where "m2 = snd (?lim m1)"
  note two = login_counted [OF one(2) w, folded m2_def]
  have run: "pass_limiters ms q (limiters_of site q) m =
      (if fst (?lim m) then ?lim m1 else (False, m1))"
    by (simp add: login_limiters [OF site] on_any_def RATE_LIMIT_LOGIN_def limit_subject_def case_prod_beta m1_def
        Let_def prod_eq_iff)
  have rest: "\<forall>ms\<in>set ts. ms div (1000 * 60) = w" using Cons.prems(2) by simp
  let ?c = "login_used q w t0 m"
  consider (none) "60 \<le> ?c" | (last) "?c = 59" | (both) "?c < 59" by linarith
  then show ?case
  proof cases
    case none
    then have "admitted site q (ms # ts) m = admitted site q ts m1"
      using run one(1) used by simp
    then show ?thesis using Cons.IH [OF srt rest one(2)] one(3) used none by simp
  next
    case last
    then have "admitted site q (ms # ts) m = admitted site q ts m2"
      using run one two used by (simp add: case_prod_beta m2_def)
    then show ?thesis using Cons.IH [OF srt rest two(2)] one(3) two(3) used last by simp
  next
    case both
    then have "admitted site q (ms # ts) m = 1 + admitted site q ts m2"
      using run one two used by (simp add: case_prod_beta m2_def)
    moreover have "(60 - ?c) div 2 = Suc ((60 - (?c + 2)) div 2)" using both by presburger
    ultimately show ?thesis using Cons.IH [OF srt rest two(2)] one(3) two(3) used by simp
  qed
qed simp

text \<open>
  The 60 requests a minute that are configured for the login page are 30: its limiter is registered
  for /login and for /login/*, the second pattern matches /login as well, and every request is counted
  twice. Of the GET requests of one address in one window the application lets through the first 30.
\<close>

theorem login_page_halved:
  assumes "routes_by_wildcard site" "sq_method q = ''GET''" "sq_path q = ''/login''"
    and "sorted (map (\<lambda>ms. ms div 1000) ts)" "\<forall>ms\<in>set ts. ms div (1000 * snd RATE_LIMIT_LOGIN) = w"
    and "\<forall>t. counter_view t m (rate_key ''login'' (env_ip (sq_env q)) w) = None"
  shows "admitted site q ts m = min (length ts) (fst RATE_LIMIT_LOGIN div 2)"
proof -
  have "login_sound q w 0 m" "login_used q w 0 m = 0"
    using assms(6) by (simp_all add: login_sound_def login_used_def window_sound_def window_used_def)
  with login_admitted [OF assms(1-3), of 0 ts w m] assms(4,5) show ?thesis
    by (simp add: RATE_LIMIT_LOGIN_def)
qed

definition fx_site :: auth_site where
  "fx_site = \<lparr>sx_matches = wildcard_match, sx_parse = (\<lambda>t. None), sx_is_email = (\<lambda>e. True),
     sx_jose = \<lparr>jose_kid = (\<lambda>t. None), jose_verify = (\<lambda>t k a opts. Jose_error [])\<rparr>, sx_key_text = (\<lambda>j. ''k''),
     sx_public_jwk = JObj [(''kid'', JStr ''kid1'')], sx_secure = True\<rparr>"

definition fx_page :: site_request where
  "fx_page = \<lparr>sq_method = ''GET'', sq_path = ''/login'', sq_query = (\<lambda>k. None), sq_authorization = None,
     sq_cookies = (\<lambda>k. None), sq_env = \<lparr>env_ip = ''1.1.1.1'', env_user_agent = []\<rparr>, sq_body = None\<rparr>"

theorem login_page_halved_witness:
  "admitted fx_site fx_page (replicate 31 5000) counter_empty = 30"
  using login_page_halved [of fx_site fx_page "replicate 31 5000" 0 counter_empty]
  by (simp add: fx_site_def fx_page_def routes_by_wildcard_def RATE_LIMIT_LOGIN_def counter_view_def counter_empty_def)

end
