(* ===== verification/Wire.thy ===== *)
theory Wire
  imports AuthApp
begin

text \<open>
  What one server writes and another reads: client credentials (\<open>encodeURIComponent\<close>, base64 and
  the Basic scheme), form bodies and the JSON documents of the authorization server. The writers are
  provider.ts and auth-admin-client.ts, the readers token.ts, the form validator and the schemas of
  provider.ts and packages/api-contract.
\<close>

section \<open>Percent encoding\<close>

definition ascii :: "string \<Rightarrow> bool" where
  "ascii s = list_all (\<lambda>c. of_char c < (128 :: nat)) s"

lemma hex_table: "map hex_value ''0123456789ABCDEF'' = map Some [0..<16]"
  by code_simp

lemma hex_roundtrip [simp]: "n < 16 \<Longrightarrow> hex_value (hex_digit n) = Some n"
proof -
  assume n: "n < 16"
  then have "hex_value (''0123456789ABCDEF'' ! n) = map hex_value ''0123456789ABCDEF'' ! n"
    by (subst nth_map) simp_all
  also have "\<dots> = Some n" using n by (simp only: hex_table) simp
  finally show ?thesis by (simp add: hex_digit_def)
qed

lemma percent_parts:
  fixes c :: char
  shows "(of_char c :: nat) div 16 < 16" "(of_char c :: nat) mod 16 < 16"
    "char_of (16 * ((of_char c :: nat) div 16) + of_char c mod 16) = c"
proof -
  show "(of_char c :: nat) div 16 < 16" using nat_of_char_less_256 [of c] by (simp add: less_mult_imp_div_less)
qed simp_all

lemma take_percent_byte:
  "take_escape (percent_byte c @ r) = Some (of_char c, r)"
  using percent_parts(1,2) [of c] by (simp add: percent_byte_def)

lemma uri_unreserved_percent: "\<not> uri_unreserved CHR ''%''"
  by code_simp

lemma decode_percent_byte:
  assumes "of_char c < (128 :: nat)"
  shows "decode_uri (percent_byte c @ r) = map_option (Cons c) (decode_uri r)"
proof -
  have "hd (percent_byte c @ r) = CHR ''%''" "percent_byte c @ r \<noteq> []" by (simp_all add: percent_byte_def)
  then obtain cs where cs: "percent_byte c @ r = CHR ''%'' # cs"
    by (cases "percent_byte c @ r") auto
  with take_percent_byte [of c r] assms show ?thesis
    by (subst decode_uri.simps) (simp add: utf8_tail_def utf8_ok_def fun_eq_iff cong: map_option_cong)
qed

lemma decode_uri_encode [simp]: "ascii s \<Longrightarrow> decode_uri (encode_uri s) = Some s"
proof (induction s)
  case Nil
  show ?case by (subst decode_uri.simps) (simp add: encode_uri_def)
next
  case (Cons c s)
  then have c: "of_char c < (128 :: nat)" and ih: "decode_uri (encode_uri s) = Some s"
    by (simp_all add: ascii_def)
  show ?case
  proof (cases "uri_unreserved c")
    case True
    then have "c \<noteq> CHR ''%''" using uri_unreserved_percent by auto
    then have "decode_uri (c # encode_uri s) = Some (c # s)"
      by (subst decode_uri.simps) (simp add: ih)
    then show ?thesis using True by (simp add: encode_uri_def)
  next
    case False
    then have "encode_uri (c # s) = percent_byte c @ encode_uri s" by (simp add: encode_uri_def)
    then show ?thesis by (simp add: decode_percent_byte [OF c] ih)
  qed
qed

lemma hex_digit_in: "n < 16 \<Longrightarrow> hex_digit n \<in> set ''0123456789ABCDEF''"
  by (simp add: hex_digit_def nth_mem del: set_simps)

lemma percent_byte_chars: "set (percent_byte c) \<subseteq> set ''%0123456789ABCDEF''"
  using hex_digit_in [OF percent_parts(1)] hex_digit_in [OF percent_parts(2)]
  by (auto simp: percent_byte_def)

lemma encode_uri_no_colon: "CHR '':'' \<notin> set (encode_uri s)"
proof -
  have "\<not> uri_unreserved CHR '':''" by code_simp
  then show ?thesis using percent_byte_chars by (fastforce simp: encode_uri_def)
qed

lemma encode_uri_empty [simp]: "encode_uri s = [] \<longleftrightarrow> s = []"
  by (cases s) (auto simp: encode_uri_def percent_byte_def)

section \<open>Basic credentials\<close>

lemma b64_value_std:
  "b64_value (if c = CHR ''-'' then CHR ''+'' else if c = CHR ''_'' then CHR ''/'' else c) = b64_value c"
proof -
  have "b64_value CHR ''+'' = b64_value CHR ''-''" "b64_value CHR ''/'' = b64_value CHR ''_''" by code_simp+
  then show ?thesis by simp
qed

lemma b64_decode_std [simp]: "b64url_decode (b64_encode bs) = bs"
proof -
  let ?tr = "\<lambda>c. if c = CHR ''-'' then CHR ''+'' else if c = CHR ''_'' then CHR ''/'' else c"
  let ?s = "map ?tr (b64url_encode bs)"
  have "CHR ''='' \<notin> set ?s" using b64url_no_pad [of bs] by auto
  then have "takeWhile (\<lambda>c. c \<noteq> CHR ''='') (b64_encode bs) = ?s"
    by (auto simp: b64_encode_def Let_def takeWhile_append takeWhile_eq_all_conv)
  moreover have "takeWhile (\<lambda>c. c \<noteq> CHR ''='') (b64url_encode bs) = b64url_encode bs"
    using b64url_no_pad [of bs] by (auto simp: takeWhile_eq_all_conv)
  moreover have "List.map_filter b64_value ?s = List.map_filter b64_value (b64url_encode bs)"
    by (simp add: List.map_filter_def comp_def b64_value_std filter_map del: if_split)
  ultimately show ?thesis
    using b64url_roundtrip [of bs] by (simp only: b64url_decode_def)
qed

definition basic_credentials :: "string \<Rightarrow> string \<Rightarrow> string" where
  "basic_credentials cid secret =
     ''Basic '' @ b64_encode (bytes_of_string (encode_uri cid @ '':'' @ encode_uri secret))"

text \<open>The client a pair of credentials names.\<close>

definition knows_client ::
  "('c, 'z) auth_env_scheme \<Rightarrow> identity_db \<Rightarrow> string \<Rightarrow> string \<Rightarrow> oidc_client \<Rightarrow> bool" where
  "knows_client env db cid secret client \<longleftrightarrow>
     cid \<noteq> [] \<and> ascii cid \<and> ascii secret \<and> findClient db cid = Some client \<and> oc_status client = Active \<and>
     verifySecretAgainstAny (sha256 env) secret (oc_secret_hashes client)"

lemma index_of_colon:
  "index_of '':'' (encode_uri cid @ CHR '':'' # r) = Some (length (encode_uri cid))"
  using index_of_skip [OF encode_uri_no_colon, of "[]" cid r] by simp

lemma basic_accepted:
  assumes "knows_client env db cid secret client"
  shows "authenticateClient env db (Some (basic_credentials cid secret)) = Some client"
  using assms index_of_colon [of cid "encode_uri secret"]
  by (simp add: authenticateClient_def basic_credentials_def knows_client_def Let_def)

section \<open>Form bodies\<close>

lemma percent_decode_plain:
  "c \<noteq> CHR ''%'' \<Longrightarrow> percent_decode (c # cs) = (if c = CHR ''+'' then CHR '' '' else c) # percent_decode cs"
  by (cases cs rule: list.exhaust; cases "tl cs") auto

lemma percent_decode_byte: "percent_decode (percent_byte c @ r) = c # percent_decode r"
  using percent_parts [of c] by (simp add: percent_byte_def)

lemma form_roundtrip [simp]: "percent_decode (form_encode s) = s"
proof (induction s)
  case (Cons c s)
  have "\<not> form_unreserved CHR ''%''" "\<not> form_unreserved CHR ''+''" by code_simp+
  then have "form_unreserved c \<Longrightarrow> c \<noteq> CHR ''%'' \<and> c \<noteq> CHR ''+''" by auto
  then show ?case
    using Cons by (auto simp: form_encode_def percent_decode_plain percent_decode_byte)
qed (simp add: form_encode_def)

lemma form_encode_chars: "CHR ''&'' \<notin> set (form_encode s)" "CHR ''='' \<notin> set (form_encode s)"
proof -
  have "\<not> form_unreserved CHR ''&''" "\<not> form_unreserved CHR ''=''" by code_simp+
  moreover have "CHR ''&'' \<notin> set (percent_byte c)" "CHR ''='' \<notin> set (percent_byte c)" for c
    using percent_byte_chars [of c] by auto
  ultimately show "CHR ''&'' \<notin> set (form_encode s)" "CHR ''='' \<notin> set (form_encode s)"
    by (auto simp: form_encode_def split: if_splits)
qed

lemma form_pair_encoded: "form_pair (form_encode k @ ''='' @ form_encode v) = (k, v)"
proof -
  have "index_of ''='' (form_encode k @ CHR ''='' # form_encode v) = Some (length (form_encode k))"
    using index_of_skip [OF form_encode_chars(2), of "[]" k "form_encode v"] by simp
  then show ?thesis by (simp add: form_pair_def)
qed

lemma form_decode_params [simp]: "form_decode (url_search_params ps) = ps"
proof (cases "ps = []")
  case False
  let ?w = "\<lambda>(k, v). form_encode k @ ''='' @ form_encode v"
  have "split_on CHR ''&'' (url_search_params ps) = map ?w ps"
    unfolding url_search_params_def
    by (rule split_on_join) (use False form_encode_chars in auto)
  moreover have "filter (\<lambda>p. p \<noteq> []) (map ?w ps) = map ?w ps" by (simp add: filter_id_conv split_def)
  ultimately show ?thesis
    by (simp only: form_decode_def map_map comp_def split_def form_pair_encoded prod.collapse) simp
qed (simp add: form_decode_def url_search_params_def)

section \<open>The authorization server on the network\<close>

text \<open>
  What a client that calls \<open>base @ path\<close> sends to the application, and what it reads back.
  \<open>caller\<close> is the environment the server records of the caller.
\<close>

definition received :: "string \<Rightarrow> request_environment \<Rightarrow> http_request \<Rightarrow> site_request option" where
  "received base caller rq =
     (if \<not> prefix base (rq_url rq) then None
      else (let target = drop (length base) (rq_url rq) in
        Some \<lparr>sq_method = rq_method rq,
              sq_path = (case index_of ''?'' target of None \<Rightarrow> target | Some i \<Rightarrow> take i target),
              sq_query = (case index_of ''?'' target of None \<Rightarrow> (\<lambda>_. None)
                          | Some i \<Rightarrow> form_of (form_decode (drop (i + 1) target))),
              sq_authorization = map_of (rq_headers rq) ''Authorization'', sq_cookies = (\<lambda>_. None),
              sq_env = caller, sq_body = rq_body rq\<rparr>))"

definition http_answer :: "site_answer \<Rightarrow> http_response" where
  "http_answer a =
     (case a of
        Route r \<Rightarrow> wire (fst r)
      | Screen _ \<Rightarrow> \<lparr>rs_status = 200, rs_www_authenticate = None, rs_content_type = Some ''text/html'', rs_json = None\<rparr>
      | Too_many_requests _ \<Rightarrow>
          \<lparr>rs_status = 429, rs_www_authenticate = None, rs_content_type = Some ''application/json'',
           rs_json = Some (JObj [(''error'', JStr ''too_many_requests'')])\<rparr>)"

definition auth_network ::
  "('c, 'z) auth_env_scheme \<Rightarrow> auth_site \<Rightarrow> string \<Rightarrow> request_environment \<Rightarrow> http_request \<Rightarrow> 'c auth_net \<Rightarrow>
   http_response option \<times> 'c auth_net" where
  "auth_network env site base caller rq n =
     (case received base caller rq of
        None \<Rightarrow> (None, n)
      | Some q \<Rightarrow> (let (a, n') = auth_app env site q n in (Some (http_answer a), n')))"

abbreviation verb_of :: "string \<Rightarrow> string \<Rightarrow> site_request \<Rightarrow> bool" where
  "verb_of v p q \<equiv> sq_method q = v \<and> sq_path q = p"

lemma back_channel_limiters:
  assumes "routes_by_wildcard site"
  shows "sq_path q = ''/.well-known/openid-configuration'' \<Longrightarrow> limiters_of site q = []"
    and "sq_path q = ''/token'' \<Longrightarrow> limiters_of site q = [on_any ''/token'' ''token'' RATE_LIMIT_TOKEN]"
    and "sq_path q = ''/revoke'' \<Longrightarrow> limiters_of site q = []"
    and "sq_path q = ''/admin/service-members'' \<Longrightarrow>
      limiters_of site q = [on_any ''/admin/*'' ''admin'' RATE_LIMIT_TOKEN]"
  using assms
  by (simp_all add: limiters_of_def auth_limiters_def on_any_def routes_by_wildcard_def wildcard_match_def)

text \<open>
  The BFF of a client in front of the authorization server: the discovery document is the server's,
  back-channel URLs are rewritten to its internal address.
\<close>

definition bff_wired ::
  "('c auth_net, 'y) bff_env_scheme \<Rightarrow> ('c, 'z) auth_env_scheme \<Rightarrow> auth_site \<Rightarrow> string \<Rightarrow> request_environment \<Rightarrow> bool" where
  "bff_wired benv aenv site base caller \<longleftrightarrow>
     http benv = auth_network aenv site base caller \<and> provider_issuer benv = issuer aenv \<and>
     backchannel_base benv = Some base \<and> routes_by_wildcard site \<and>
     (\<forall>path. rewrite_host benv (issuer aenv @ path) base = base @ path) \<and>
     (\<forall>path. is_url benv (issuer aenv @ path))"

definition server_discovery :: "('c, 'z) auth_env_scheme \<Rightarrow> discovery" where
  "server_discovery env =
     \<lparr>di_issuer = issuer env, di_authorization = issuer env @ ''/authorize'', di_token = issuer env @ ''/token'',
      di_jwks_uri = issuer env @ ''/jwks'', di_userinfo = Some (issuer env @ ''/userinfo''),
      di_revocation = Some (issuer env @ ''/revoke'')\<rparr>"

lemma discovery_read:
  assumes "\<And>path. ok (issuer env @ path)"
  shows "discoverySchema ok (discovery_document env) = Some (server_discovery env)"
  using assms assms [of "[]"]
  by (simp add: discoverySchema_def discovery_document_def server_discovery_def url_field_def optional_field_def
      json_field_def json_string_def)

lemma drop_base [simp]: "prefix base (base @ p)" "drop (length base) (base @ p) = p"
  by simp_all

section \<open>Token requests\<close>

definition quota_left :: "string \<Rightarrow> request_environment \<Rightarrow> 'c auth_net \<Rightarrow> bool" where
  "quota_left name caller n \<longleftrightarrow>
     fst (rateLimit name (fst RATE_LIMIT_TOKEN) (snd RATE_LIMIT_TOKEN) (an_wall n) (env_ip caller) (an_counters n))"

definition counted :: "string \<Rightarrow> request_environment \<Rightarrow> 'c auth_net \<Rightarrow> 'c auth_net" where
  "counted name caller n = n\<lparr>an_counters := snd (rateLimit name (fst RATE_LIMIT_TOKEN) (snd RATE_LIMIT_TOKEN)
     (an_wall n) (env_ip caller) (an_counters n))\<rparr>"

lemma token_app:
  assumes "routes_by_wildcard site" "verb_of ''POST'' ''/token'' q" "quota_left ''token'' (sq_env q) n"
  shows "auth_app env site q n =
    (let (r, s) = run_state (token_route env (sq_authorization q) (body_form q)) (an_state n)
     in (Route r, (counted ''token'' (sq_env q) n)\<lparr>an_state := s\<rparr>))"
proof -
  have "limiters_of site q = [on_any ''/token'' ''token'' RATE_LIMIT_TOKEN]"
    using back_channel_limiters [OF assms(1)] assms(2) by simp
  moreover have "map_of (routes_of env site q) ''/token'' = Some (token_route env (sq_authorization q) (body_form q))"
    using assms(2) by (simp add: routes_of_def post_routes_def Let_def)
  ultimately show ?thesis
    using assms(2,3)
    by (simp add: auth_app_def auth_routes_def on_any_def limit_subject_def quota_left_def counted_def
        case_prod_beta Let_def)
qed

definition provider_tokens_of :: "token_response \<Rightarrow> provider_tokens" where
  "provider_tokens_of r =
     \<lparr>pt_access = tr_access_token r, pt_expires_in = tr_expires_in r, pt_id = Some (tr_id_token r),
      pt_refresh = tr_refresh_token r\<rparr>"

lemma token_body_read:
  "0 < tr_expires_in r \<Longrightarrow> tokenResponseSchema (token_body r) = Some (provider_tokens_of r)"
  by (simp add: tokenResponseSchema_def token_body_def provider_tokens_of_def optional_field_def json_field_def
      json_string_def)

lemma issued_expires: "it_expires_in (fst (run_state (issueTokens env i) s)) = ACCESS_TOKEN_TTL_SECONDS"
  by (simp add: issueTokens_def run_simps case_prod_beta)

lemma exchange_expires:
  "fst (run_state (exchangeAuthorizationCode env client input) s) = Inr r \<Longrightarrow> 0 < tr_expires_in r"
  by (auto simp: exchangeAuthorizationCode_def Let_def exchange_unused_def case_prod_beta toResponse_def issued_expires
      ACCESS_TOKEN_TTL_SECONDS_def split: option.splits authorization_code.splits sum.splits)

lemma refresh_expires:
  "fst (run_state (refreshAccessToken env client v) s) = Inr r \<Longrightarrow> 0 < tr_expires_in r"
  by (auto simp: refreshAccessToken_def case_prod_beta toResponse_def issued_expires
      ACCESS_TOKEN_TTL_SECONDS_def split: consume_result.splits sum.splits if_splits)

lemma discovery_app:
  assumes "bff_wired benv aenv site base caller"
  shows "http benv (get_request (base @ ''/.well-known/openid-configuration'')) n =
    (Some (wire (Body 200 (Document (discovery_document aenv)))), n)"
proof -
  let ?p = "''/.well-known/openid-configuration''"
  have "index_of ''?'' ?p = None" by code_simp
  then obtain q where q: "received base caller (get_request (base @ ?p)) = Some q" "verb_of ''GET'' ?p q"
    by (simp add: received_def get_request_def)
  have "limiters_of site q = []"
    using back_channel_limiters(1) q(2) assms by (simp add: bff_wired_def)
  moreover have "map_of (routes_of aenv site q) ?p =
      Some (State_Monad.return (Body 200 (Document (discovery_document aenv)), []))"
    using q(2) by (simp add: routes_of_def get_routes_def Let_def)
  ultimately show ?thesis
    using assms q by (simp add: bff_wired_def auth_network_def auth_app_def auth_routes_def http_answer_def)
qed

lemma discovery_wired:
  assumes "bff_wired benv aenv site base caller"
    and "discovered s = None \<or> discovered s = Some (server_discovery aenv)"
  shows "run_state (getDiscovery benv) s =
    (Inr (server_discovery aenv), s\<lparr>discovered := Some (server_discovery aenv)\<rparr>)"
proof (cases "discovered s")
  case None
  have "discoverySchema (is_url benv) (discovery_document aenv) = Some (server_discovery aenv)"
    by (rule discovery_read) (use assms(1) in \<open>simp add: bff_wired_def\<close>)
  then show ?thesis
    using None assms(1) discovery_app [OF assms(1)]
    by (simp add: getDiscovery_def run_fetch toBackchannel_def bff_wired_def wire_def wire_status_def wire_body_def
        res_ok_def server_discovery_def [of aenv])
next
  case (Some d)
  then have "d = server_discovery aenv" "s\<lparr>discovered := Some (server_discovery aenv)\<rparr> = s" using assms(2) by auto
  then show ?thesis using Some by (simp add: getDiscovery_def)
qed

definition token_use_case ::
  "('c, 'z) auth_env_scheme \<Rightarrow> oidc_client \<Rightarrow> token_form \<Rightarrow> ('c, (token_response, token_error) result) auth_m" where
  "token_use_case env client tf =
     (case tf of Code_form input \<Rightarrow> exchangeAuthorizationCode env client input
      | Refresh_form value \<Rightarrow> refreshAccessToken env client value)"

lemma form_received:
  assumes "index_of ''?'' path = None"
  shows "\<exists>q. received base caller (form_request client (base @ path) form) = Some q \<and> verb_of ''POST'' path q \<and>
    sq_authorization q = Some (basic_credentials (sv_client_id client) (sv_secret client)) \<and>
    body_form q = form_of form \<and> sq_env q = caller"
  using assms
  by (simp add: received_def form_request_def formHeaders_def basic_credentials_def body_form_def)

lemma token_http:
  assumes wired: "bff_wired benv aenv site base caller"
    and known: "knows_client aenv (identity (an_state n)) (sv_client_id client) (sv_secret client) oc"
    and quota: "quota_left ''token'' caller n"
    and tf: "tokenFormSchema (form_of form) = Some tf"
  defines "u \<equiv> run_state (token_use_case aenv oc tf) (an_state n)"
  shows "http benv (form_request client (base @ ''/token'') form) n =
    (Some (wire (case fst u of Inl _ \<Rightarrow> Failure 400 ''invalid_grant'' | Inr r \<Rightarrow> Body 200 (Tokens_body r))),
     (counted ''token'' caller n)\<lparr>an_state := snd u\<rparr>)"
proof -
  have "index_of ''?'' ''/token'' = None" by code_simp
  from form_received [OF this, of base caller client form] obtain q where
    q: "received base caller (form_request client (base @ ''/token'') form) = Some q" "verb_of ''POST'' ''/token'' q"
      "sq_authorization q = Some (basic_credentials (sv_client_id client) (sv_secret client))"
      "body_form q = form_of form" "sq_env q = caller" by blast
  have "run_state (token_route aenv (sq_authorization q) (body_form q)) (an_state n) =
    ((case fst u of Inl _ \<Rightarrow> (Failure 400 ''invalid_grant'', []) | Inr r \<Rightarrow> (Body 200 (Tokens_body r), [])), snd u)"
    using q basic_accepted [OF known] tf
    by (simp add: token_route_def clientAuth_def u_def token_use_case_def case_prod_beta)
  with token_app [of site q n aenv] wired quota q show ?thesis
    by (simp add: bff_wired_def auth_network_def http_answer_def split: sum.split)
qed

lemma token_call:
  assumes wired: "bff_wired benv aenv site base caller"
    and disc: "discovered s = None \<or> discovered s = Some (server_discovery aenv)"
    and known: "knows_client aenv (identity (an_state (net s))) (sv_client_id client) (sv_secret client) oc"
    and quota: "quota_left ''token'' caller (net s)"
    and tf: "tokenFormSchema (form_of form) = Some tf"
  defines "u \<equiv> run_state (token_use_case aenv oc tf) (an_state (net s))"
  shows "run_state (tokenRequest benv client form) s =
    (map_sum (\<lambda>_. Invalid_grant) provider_tokens_of (fst u),
     s\<lparr>discovered := Some (server_discovery aenv),
       net := (counted ''token'' caller (net s))\<lparr>an_state := snd u\<rparr>\<rparr>)"
proof -
  have "toBackchannel benv (di_token (server_discovery aenv)) = base @ ''/token''"
    using wired by (simp add: toBackchannel_def bff_wired_def server_discovery_def)
  moreover have "0 < tr_expires_in r" if "fst u = Inr r" for r
    using that exchange_expires refresh_expires
    by (auto simp: u_def token_use_case_def split: token_form.splits)
  ultimately show ?thesis
    using token_http [OF wired known quota tf, folded u_def] token_body_read
    by (cases "fst u") (simp_all add: tokenRequest_def discovery_wired [OF wired disc] run_fetch wire_def wire_status_def
        wire_body_def res_ok_def)
qed

section \<open>Administration requests\<close>

text \<open>
  The API server's client of the administration API in front of the authorization server; the JSON
  texts of \<open>bodies\<close> are read back as they were written.
\<close>

definition admin_wired ::
  "('c auth_net, 'y) admin_client_scheme \<Rightarrow> ('c, 'z) auth_env_scheme \<Rightarrow> auth_site \<Rightarrow> request_environment \<Rightarrow> json set \<Rightarrow>
   bool" where
  "admin_wired c aenv site caller bodies \<longleftrightarrow>
     hc_fetch c = auth_network aenv site (hc_base_url c) caller \<and> routes_by_wildcard site \<and>
     (\<forall>j\<in>bodies. sx_parse site (hc_stringify c j) = Some j)"

lemma admin_app:
  assumes "routes_by_wildcard site" "sq_path q = ''/admin/service-members''" "quota_left ''admin'' (sq_env q) n"
    and "map_of (routes_of env site q) ''/admin/service-members'' = Some handler"
  shows "auth_app env site q n =
    (let (r, s) = run_state handler (an_state n) in (Route r, (counted ''admin'' (sq_env q) n)\<lparr>an_state := s\<rparr>))"
proof -
  have "limiters_of site q = [on_any ''/admin/*'' ''admin'' RATE_LIMIT_TOKEN]"
    using back_channel_limiters [OF assms(1)] assms(2) by simp
  then show ?thesis
    using assms(2-4)
    by (simp add: auth_app_def auth_routes_def on_any_def limit_subject_def quota_left_def counted_def
        case_prod_beta Let_def)
qed

definition admin_reply ::
  "('a \<Rightarrow> auth_answer) \<Rightarrow> ('a, service_member_error) result \<Rightarrow> auth_answer" where
  "admin_reply ok r = (case r of Inl e \<Rightarrow> respondMemberError e | Inr x \<Rightarrow> ok x)"

definition admin_error_of :: "service_member_error \<Rightarrow> auth_admin_error" where
  "admin_error_of e = (case e of Member_tenant_not_found \<Rightarrow> Tenant_not_found | Member_not_contracted \<Rightarrow> Not_contracted
     | Member_user_not_found \<Rightarrow> User_not_found)"

lemma admin_error_read:
  "\<not> res_ok (wire (respondMemberError e))"
  "admin_error (case Option.bind (rs_json (wire (respondMemberError e))) errorResponseSchema of
     Some code \<Rightarrow> code | None \<Rightarrow> d) = admin_error_of e"
  by (cases e; simp add: res_ok_def wire_def wire_status_def wire_body_def respondMemberError_def
      errorResponseSchema_def json_field_def json_string_def optional_field_def admin_error_def admin_error_of_def)+

text \<open>A request whose route is found is answered by it.\<close>

lemma admin_http:
  assumes wired: "admin_wired c aenv site caller bodies" "body \<in> bodies"
    and known: "knows_client aenv (identity (an_state n)) (hc_client_id c) (hc_secret c) oc"
    and quota: "quota_left ''admin'' caller n"
    and routed: "\<And>q. verb_of verb ''/admin/service-members'' q \<Longrightarrow> body_json site q = Some body \<Longrightarrow>
      sq_authorization q = Some (basic_credentials (hc_client_id c) (hc_secret c)) \<Longrightarrow>
      \<exists>handler. map_of (routes_of aenv site q) ''/admin/service-members'' = Some handler \<and>
        run_state handler (an_state n) = ((reply, cookies), s)"
  shows "run_state (admin_call c verb body) n =
    ((if res_ok (wire reply) then Inr (wire reply)
      else Inl (admin_error (case Option.bind (rs_json (wire reply)) errorResponseSchema of
        Some code \<Rightarrow> code | None \<Rightarrow> ''status '' @ digits (rs_status (wire reply))))),
     (counted ''admin'' caller n)\<lparr>an_state := s\<rparr>)"
proof -
  let ?rq = "\<lparr>rq_method = verb, rq_url = hc_base_url c @ ''/admin/service-members'', rq_headers = admin_headers c,
    rq_body = Some (hc_stringify c body)\<rparr>"
  have "index_of ''?'' ''/admin/service-members'' = None" by code_simp
  then have "\<exists>q. received (hc_base_url c) caller ?rq = Some q \<and> verb_of verb ''/admin/service-members'' q \<and>
    body_json site q = Some body \<and> sq_env q = caller \<and>
    sq_authorization q = Some (basic_credentials (hc_client_id c) (hc_secret c))"
    using wired by (simp add: received_def admin_headers_def basic_credentials_def body_json_def admin_wired_def)
  then obtain q where q: "received (hc_base_url c) caller ?rq = Some q" "verb_of verb ''/admin/service-members'' q"
    "body_json site q = Some body" "sq_env q = caller"
    "sq_authorization q = Some (basic_credentials (hc_client_id c) (hc_secret c))" by blast
  from routed [OF q(2,3,5)] obtain handler where
    h: "map_of (routes_of aenv site q) ''/admin/service-members'' = Some handler"
      "run_state handler (an_state n) = ((reply, cookies), s)" by blast
  have "hc_fetch c ?rq n = (Some (wire reply), (counted ''admin'' caller n)\<lparr>an_state := s\<rparr>)"
    using admin_app [of site q n aenv handler] wired quota q h
    by (simp add: admin_wired_def auth_network_def http_answer_def)
  then show ?thesis by (simp add: admin_call_def)
qed

definition invited_of :: "user \<Rightarrow> invited_user" where
  "invited_of u = \<lparr>iu_id = user_id u, iu_email = user_email u, iu_name = user_name u,
     iu_linked = (cognito_sub u \<noteq> None)\<rparr>"

lemma invited_read:
  "short_id (user_id u) \<Longrightarrow>
   inviteServiceMemberResponseSchema (JObj [(''user'', JObj (user_fields (toUserJson u)))]) = Some (invited_of u)"
  by (cases "user_name u") (simp_all add: inviteServiceMemberResponseSchema_def serviceMemberUserSchema_def
      user_fields_def toUserJson_def invited_of_def json_field_def json_string_def nullable_string_def nullable_def)

text \<open>An input the administration API accepts as it is.\<close>

definition clean_invitation :: "auth_site \<Rightarrow> string \<Rightarrow> string \<Rightarrow> string option \<Rightarrow> bool" where
  "clean_invitation site tenant email name \<longleftrightarrow>
     short_id tenant \<and> sx_is_email site email \<and> length email \<le> 254 \<and>
     (case name of None \<Rightarrow> True | Some n \<Rightarrow> js_trim n = n \<and> 1 \<le> length n \<and> length n \<le> 100)"

definition invitation_body :: "string \<Rightarrow> string \<Rightarrow> string option \<Rightarrow> json" where
  "invitation_body tenant email name = JObj ([(''tenant_id'', JStr tenant), (''email'', JStr email)] @
     (case name of None \<Rightarrow> [] | Some n \<Rightarrow> [(''name'', JStr n)]))"

lemma invitation_read:
  "clean_invitation site tenant email name \<Longrightarrow>
   inviteServiceMemberInputSchema (sx_is_email site) (invitation_body tenant email name) = Some (tenant, email, name)"
  by (cases name) (simp_all add: clean_invitation_def invitation_body_def inviteServiceMemberInputSchema_def
      id_field_def emailSchema_def optional_field_def personNameSchema_def json_field_def json_string_def)

lemma invite_call:
  assumes wired: "admin_wired c aenv site caller bodies" "invitation_body tenant email name \<in> bodies"
    and known: "knows_client aenv (identity (an_state n)) (hc_client_id c) (hc_secret c) oc"
    and quota: "quota_left ''admin'' caller n"
    and clean: "clean_invitation site tenant email name"
  defines "u \<equiv> run_state (inviteServiceMember aenv oc tenant email name) (an_state n)"
  assumes ids: "\<And>x. fst u = Inr x \<Longrightarrow> short_id (user_id x)"
  shows "run_state (http_invite c tenant email name) n =
    (Some (map_sum admin_error_of invited_of (fst u)), (counted ''admin'' caller n)\<lparr>an_state := snd u\<rparr>)"
proof -
  define reply where "reply = (case fst u of Inl e \<Rightarrow> respondMemberError e
    | Inr x \<Rightarrow> Body 201 (Member_user (toUserJson x)))"
  have "\<exists>handler. map_of (routes_of aenv site q) ''/admin/service-members'' = Some handler \<and>
      run_state handler (an_state n) = ((reply, []), snd u)"
    if "verb_of ''POST'' ''/admin/service-members'' q" "body_json site q = Some (invitation_body tenant email name)"
      "sq_authorization q = Some (basic_credentials (hc_client_id c) (hc_secret c))" for q
    using that basic_accepted [OF known] invitation_read [OF clean]
    by (simp add: routes_of_def post_routes_def Let_def admin_routes_def clientAuth_def case_prod_beta
        u_def reply_def split: sum.split)
  then have call: "run_state (admin_call c ''POST'' (invitation_body tenant email name)) n =
    ((if res_ok (wire reply) then Inr (wire reply)
      else Inl (admin_error (case Option.bind (rs_json (wire reply)) errorResponseSchema of
        Some code \<Rightarrow> code | None \<Rightarrow> ''status '' @ digits (rs_status (wire reply))))),
     (counted ''admin'' caller n)\<lparr>an_state := snd u\<rparr>)"
    by (intro admin_http [OF wired known quota])
  show ?thesis
  proof (cases "fst u")
    case (Inl e)
    then show ?thesis
      using call by (simp add: http_invite_def reply_def admin_error_read invitation_body_def)
  next
    case (Inr x)
    then show ?thesis
      using call invited_read [OF ids [OF Inr]]
      by (simp add: http_invite_def reply_def wire_def wire_status_def wire_body_def res_ok_def
          invitation_body_def)
  qed
qed

definition removal_body :: "string \<Rightarrow> string \<Rightarrow> json" where
  "removal_body tenant user = JObj [(''tenant_id'', JStr tenant), (''user_id'', JStr user)]"

lemma revoke_call:
  assumes wired: "admin_wired c aenv site caller bodies" "removal_body tenant user \<in> bodies"
    and known: "knows_client aenv (identity (an_state n)) (hc_client_id c) (hc_secret c) oc"
    and quota: "quota_left ''admin'' caller n"
    and ids: "short_id tenant" "short_id user"
  defines "u \<equiv> run_state (revokeServiceMember aenv oc tenant user) (an_state n)"
  shows "run_state (http_revoke c tenant user) n =
    (map_sum admin_error_of id (fst u), (counted ''admin'' caller n)\<lparr>an_state := snd u\<rparr>)"
proof -
  let ?body = "removal_body tenant user"
  define reply where "reply = (case fst u of Inl e \<Rightarrow> respondMemberError e | Inr x \<Rightarrow> Nothing 204)"
  have "revokeServiceMemberInputSchema ?body = Some (tenant, user)"
    using ids by (simp add: removal_body_def revokeServiceMemberInputSchema_def id_field_def json_field_def json_string_def)
  then have "\<exists>handler. map_of (routes_of aenv site q) ''/admin/service-members'' = Some handler \<and>
      run_state handler (an_state n) = ((reply, []), snd u)"
    if "verb_of ''DELETE'' ''/admin/service-members'' q" "body_json site q = Some ?body"
      "sq_authorization q = Some (basic_credentials (hc_client_id c) (hc_secret c))" for q
    using that basic_accepted [OF known]
    by (simp add: routes_of_def delete_routes_def admin_routes_def clientAuth_def case_prod_beta
        u_def reply_def split: sum.split)
  then have call: "run_state (admin_call c ''DELETE'' ?body) n =
    ((if res_ok (wire reply) then Inr (wire reply)
      else Inl (admin_error (case Option.bind (rs_json (wire reply)) errorResponseSchema of
        Some code \<Rightarrow> code | None \<Rightarrow> ''status '' @ digits (rs_status (wire reply))))),
     (counted ''admin'' caller n)\<lparr>an_state := snd u\<rparr>)"
    by (intro admin_http [OF wired known quota])
  show ?thesis
  proof (cases "fst u")
    case (Inl e)
    then show ?thesis using call by (simp add: http_revoke_def reply_def admin_error_read removal_body_def)
  next
    case (Inr x)
    then show ?thesis
      using call by (simp add: http_revoke_def reply_def wire_def wire_status_def wire_body_def res_ok_def removal_body_def)
  qed
qed

section \<open>What a client observes of a call\<close>

text \<open>
  An operation of the authorization server seen from a client: the result as the client reads it, and the
  state the server is left in.
\<close>

definition token_outcome ::
  "(token_response, token_error) result \<times> 'c auth_state \<Rightarrow> (provider_tokens, provider_error) result \<times> 'c auth_state" where
  "token_outcome u = (map_sum (\<lambda>_. Invalid_grant) provider_tokens_of (fst u), snd u)"

definition bff_view :: "'r \<times> 'c auth_net bff_state \<Rightarrow> 'r \<times> 'c auth_state" where
  "bff_view r = (fst r, an_state (net (snd r)))"

definition admin_view :: "'r \<times> 'c auth_net \<Rightarrow> 'r \<times> 'c auth_state" where
  "admin_view r = (fst r, an_state (snd r))"

definition admin_outcome ::
  "('a \<Rightarrow> 'b) \<Rightarrow> ('a, service_member_error) result \<times> 'c auth_state \<Rightarrow> ('b, auth_admin_error) result \<times> 'c auth_state" where
  "admin_outcome f u = (map_sum admin_error_of f (fst u), snd u)"

end
