(* ===== verification/Handshake.thy ===== *)
theory Handshake
  imports Wire BffRoutes
begin

text \<open>
  The two exchanges between the authorization server and a BFF that rest on signed tokens: the code
  callback, whose ID token becomes a tenant session, and the Back-Channel Logout, whose logout token ends
  the sessions of one sid. The BFF reaches the server through \<open>auth_network\<close>.
\<close>

section \<open>The server's keys at the BFF\<close>

definition server_keys :: "('c, 'y) bff_env_scheme \<Rightarrow> auth_site \<Rightarrow> jwks \<Rightarrow> bool" where
  "server_keys benv site ks \<longleftrightarrow> jwk_list (key_text benv) [sx_public_jwk site] = Some ks"

lemma jwks_app:
  assumes "bff_wired benv aenv site base caller"
  shows "http benv (get_request (base @ ''/jwks'')) n = (Some (wire (Body 200 (Document (toJwks [sx_public_jwk site])))), n)"
proof -
  have "index_of ''?'' ''/jwks'' = None" by code_simp
  then obtain q where q: "received base caller (get_request (base @ ''/jwks'')) = Some q" "verb_of ''GET'' ''/jwks'' q"
    by (simp add: received_def get_request_def)
  have "limiters_of site q = []"
    using q(2) assms
    by (simp add: bff_wired_def limiters_of_def auth_limiters_def on_any_def routes_by_wildcard_def wildcard_match_def)
  moreover have "map_of (routes_of aenv site q) ''/jwks'' =
      Some (State_Monad.return (Body 200 (Document (toJwks [sx_public_jwk site])), []))"
    using q(2) by (simp add: routes_of_def get_routes_def Let_def)
  ultimately show ?thesis
    using assms q by (simp add: bff_wired_def auth_network_def auth_app_def auth_routes_def http_answer_def)
qed

lemma jwks_fetched:
  assumes wired: "bff_wired benv aenv site base caller"
    and disc: "discovered s = None \<or> discovered s = Some (server_discovery aenv)"
    and keys: "server_keys benv site ks"
  shows "run_state (jwks_fetch benv) s = (Key_set ks, s\<lparr>discovered := Some (server_discovery aenv)\<rparr>)"
proof -
  have "toBackchannel benv (di_jwks_uri (server_discovery aenv)) = base @ ''/jwks''"
    using wired by (simp add: toBackchannel_def bff_wired_def server_discovery_def)
  moreover have "jwksSchema (key_text benv) (toJwks [sx_public_jwk site]) = Some ks"
    using keys unfolding server_keys_def jwksSchema_def toJwks_def by (simp add: json_field_def)
  ultimately show ?thesis
    using wired
    by (simp add: jwks_fetch_def discovery_wired [OF wired disc] run_fetch jwks_app [OF wired] wire_def wire_status_def
        wire_body_def res_ok_def)
qed

lemma server_keys_found:
  assumes wired: "bff_wired benv aenv site base caller"
    and disc: "discovered s = None \<or> discovered s = Some (server_discovery aenv)"
    and keys: "server_keys benv site ks"
    and known: "cached (key_source s) = None \<or> cached (key_source s) = Some ks"
  shows "fst (run_state (provider_jwks benv False) s) = Inr ks"
proof -
  obtain src where src: "jwks_get (bnow s) False (key_source s) = (fst (jwks_get (bnow s) False (key_source s)), src)"
    by (metis prod.collapse)
  have "run_state (jwks_fetch benv) (s\<lparr>key_source := src\<rparr>) =
    (Key_set ks, s\<lparr>key_source := src, discovered := Some (server_discovery aenv)\<rparr>)"
    using jwks_fetched [OF wired _ keys, of "s\<lparr>key_source := src\<rparr>"] disc by simp
  moreover have "fst (jwks_get (bnow s) False (key_source s)) = Serve c \<Longrightarrow> c = ks" for c
    using known by (auto simp: jwks_get_def fetch_or_join_def split: if_splits option.splits)
  ultimately show ?thesis
    using src
    by (cases "fst (jwks_get (bnow s) False (key_source s))") (auto simp: provider_jwks_def jwks_done_def Let_def)
qed

section \<open>Signed tokens\<close>

text \<open>
  What the servers rely on of RS256 for one token: a token signed with the server's key verifies under
  the key set that holds it when its issuer, its audience and its expiry fit the options.
\<close>

definition jose_accepts ::
  "'z jose_scheme \<Rightarrow> (jwt_header \<Rightarrow> json \<Rightarrow> string) \<Rightarrow> string \<Rightarrow> jwks \<Rightarrow> sign_options \<Rightarrow> bool" where
  "jose_accepts j sign kid ks o' \<longleftrightarrow>
     signJwt sign kid o' \<noteq> [] \<and> jose_kid j (signJwt sign kid o') = Some kid \<and> hasKid ks kid \<and>
     (\<forall>opts. vo_issuer opts = so_issuer o' \<and>
        (case vo_audience opts of None \<Rightarrow> True | Some a \<Rightarrow> a \<in> set (so_audience o')) \<and>
        vo_now opts - vo_tolerance opts < so_expires_at o' \<longrightarrow>
        jose_verify j (signJwt sign kid o') ks SIGNING_ALGORITHM opts = Jose_ok (JObj (jwt_claims o')))"

lemma token_verified:
  assumes wired: "bff_wired benv aenv site base caller"
    and disc: "discovered s = None \<or> discovered s = Some (server_discovery aenv)"
    and keys: "server_keys benv site ks"
    and known: "cached (key_source s) = None \<or> cached (key_source s) = Some ks"
    and jose: "jose_accepts (jose_of benv) (rs256 aenv) (signing_kid aenv) ks o'"
    and fits: "so_issuer o' = issuer aenv" "case audience of None \<Rightarrow> True | Some a \<Rightarrow> a \<in> set (so_audience o')"
      "bnow s < so_expires_at o' + DEFAULT_CLOCK_TOLERANCE_SECONDS"
  shows "fst (run_state (verify_token benv (signJwt (rs256 aenv) (signing_kid aenv) o') audience) s) =
    Inr (JObj (jwt_claims o'))"
proof -
  let ?token = "signJwt (rs256 aenv) (signing_kid aenv) o'"
  let ?opts = "\<lparr>vo_issuer = provider_issuer benv, vo_audience = audience, vo_now = bnow s,
    vo_tolerance = DEFAULT_CLOCK_TOLERANCE_SECONDS\<rparr>"
  have "jose_verify (jose_of benv) ?token ks SIGNING_ALGORITHM ?opts = Jose_ok (JObj (jwt_claims o'))"
    using jose fits wired by (simp add: jose_accepts_def bff_wired_def)
  then show ?thesis
    using jose server_keys_found [OF wired disc keys known]
    by (simp add: verify_token_def verifyJwtWithSource_def verifyJwt_def readJwtKid_def jose_accepts_def case_prod_beta)
qed

section \<open>Back-Channel Logout\<close>

lemma logout_claims_read:
  "read_logout_claims (JObj (jwt_claims (logout_token_options env t jti cid sid))) =
     Inr \<lparr>lo_sid = sid, lo_audience = cid\<rparr>"
  by (simp add: read_logout_claims_def jwt_claims_def logout_token_options_def has_logout_event_def LOGOUT_EVENT_def
      first_audience_def aud_json_def json_field_def json_string_def)

lemma logout_accepted:
  assumes wired: "bff_wired benv aenv site base caller"
    and disc: "discovered s = None \<or> discovered s = Some (server_discovery aenv)"
    and keys: "server_keys benv site ks"
    and known: "cached (key_source s) = None \<or> cached (key_source s) = Some ks"
    and jose: "jose_accepts (jose_of benv) (rs256 aenv) (signing_kid aenv) ks o'"
    and o': "o' = logout_token_options aenv t jti cid sid"
    and time: "bnow s < t + LOGOUT_TOKEN_TTL_SECONDS + DEFAULT_CLOCK_TOLERANCE_SECONDS"
    and client: "resolveClientById benv cid = Some sv"
  shows "\<exists>s1. session_part s1 = session_part s \<and>
    run_state (backchannel_logout benv (Some (signJwt (rs256 aenv) (signing_kid aenv) o'))) s =
      (Plain 200, snd (run_state (destroySessionsBySid sid) s1))"
proof -
  let ?token = "signJwt (rs256 aenv) (signing_kid aenv) o'"
  have "fst (run_state (verify_token benv ?token None) s) = Inr (JObj (jwt_claims o'))"
    by (rule token_verified [OF wired disc keys known jose]) (use time in \<open>simp_all add: o' logout_token_options_def\<close>)
  then have "fst (run_state (verifyLogoutToken benv ?token) s) = Inr \<lparr>lo_sid = sid, lo_audience = cid\<rparr>"
    by (simp add: verifyLogoutToken_def case_prod_beta o' logout_claims_read)
  moreover have "session_part (snd (run_state (verifyLogoutToken benv ?token) s)) = session_part s"
    by (rule keeps_run [OF keeps_verify_logout]) simp
  moreover have "?token \<noteq> []" using jose by (simp add: jose_accepts_def)
  ultimately show ?thesis
    using client by (intro exI [of _ "snd (run_state (verifyLogoutToken benv ?token) s)"])
      (simp add: backchannel_logout_def case_prod_beta)
qed

section \<open>The code callback\<close>

definition grant_token_input :: "oidc_client \<Rightarrow> code_grant \<Rightarrow> user \<Rightarrow> tenant \<Rightarrow> issue_tokens_input" where
  "grant_token_input client g u t =
     \<lparr>ii_client = client, ii_user = u, ii_scope = cg_scope g, ii_nonce = Some (cg_nonce g), ii_sid = cg_sid g,
      ii_tenant = t, ii_auth_time = cg_auth_time g\<rparr>"

definition exchange_input :: "'y client_config_scheme \<Rightarrow> string \<Rightarrow> string \<Rightarrow> code_exchange_input" where
  "exchange_input client code verifier =
     \<lparr>ce_code = code, ce_redirect_uri = cl_redirect_uri client, ce_code_verifier = verifier\<rparr>"

text \<open>A grant the token endpoint accepts: bound to the client and its verifier, its session still alive.\<close>

definition grant_usable ::
  "('c, 'z) auth_env_scheme \<Rightarrow> oidc_client \<Rightarrow> code_exchange_input \<Rightarrow> code_grant \<Rightarrow> user \<Rightarrow> tenant \<Rightarrow> 'c auth_state \<Rightarrow> bool" where
  "grant_usable env client input g u t a \<longleftrightarrow>
     code_value a (keyOf env (ce_code input)) = Some (Unused g) \<and> validateCodeBinding env g client input = Inr () \<and>
     sso_live a (cg_session g) \<noteq> None \<and> findUserById (identity a) (cg_user g) = Some u \<and>
     findTenantById (identity a) (cg_tenant g) = Some t"

lemma usable_exchange:
  assumes "grant_usable env client input g u t a"
  shows "\<exists>r. fst (run_state (exchangeAuthorizationCode env client input) a) = Inr r \<and>
    tr_id_token r = signJwt (rs256 env) (signing_kid env) (id_token_options env (now a) (grant_token_input client g u t))"
proof -
  have "tr_id_token (toResponse x y z) = it_id_token x" for x y z by (simp add: toResponse_def)
  moreover have "it_id_token (fst (run_state (issueTokens env i) s)) =
      signJwt (rs256 env) (signing_kid env) (id_token_options env (now s) i)" for i and s :: "'a auth_state"
    by (simp add: issueTokens_def run_simps case_prod_beta)
  ultimately show ?thesis
    using assms
    by (auto simp: grant_usable_def exchange_start exchange_unused_def case_prod_beta create_run grant_token_input_def)
qed

lemma id_claims:
  assumes "o' = id_token_options env now' (grant_token_input client g u t)"
  shows "json_field ''sub'' (JObj (jwt_claims o')) = Some (JStr (user_id u))"
    "json_field ''sid'' (JObj (jwt_claims o')) = Some (JStr (cg_sid g))"
    "json_field ''nonce'' (JObj (jwt_claims o')) = Some (JStr (cg_nonce g))"
    "json_field ''tenant_id'' (JObj (jwt_claims o')) = Some (JStr (tenant_id t))"
    "json_field ''tenant_slug'' (JObj (jwt_claims o')) = Some (JStr (tenant_slug t))"
  by (simp_all add: assms json_field_def jwt_claims_def id_token_options_def grant_token_input_def tenant_claims_def)

lemma session_established:
  assumes "run_state (establish_session env client sc tokens payload sub sid tid) s = (x, s')"
  shows "tn_user x = sub \<and> tn_sid x = sid \<and> tn_tenant x = tid \<and> tn_tenant_slug x = cl_tenant_slug client \<and>
    tn_refresh_token x = pt_refresh tokens \<and> kv_value (bnow s) (tenant_sessions s') (key_of x) = Some x"
proof -
  let ?ld = "run_state (loadSession client sc) s"
  let ?s2 = "snd (run_state (case fst ?ld of Some y \<Rightarrow> destroySession y | None \<Rightarrow> State_Monad.return ()) (snd ?ld))"
  have now: "bnow ?s2 = bnow s"
    using load_session_frame(1) [of client sc s] by (auto simp: destroy_session_run split: option.split)
  show ?thesis
    using assms now
    by (auto simp: establish_session_def case_prod_beta createSession_def Let_def run_bff_store run_bff_token
        SESSION_ABSOLUTE_SECONDS_def)
qed

lemma login_completes:
  assumes wired: "bff_wired benv aenv site base caller"
    and disc: "discovered s = None \<or> discovered s = Some (server_discovery aenv)"
    and keys: "server_keys benv site ks"
    and known: "cached (key_source s) = None \<or> cached (key_source s) = Some ks"
    and client: "knows_client aenv (identity (an_state (net s))) (sv_client_id client) (sv_secret client) oc"
      "oc_client_id oc = sv_client_id client"
    and quota: "quota_left ''token'' caller (net s)"
    and usable: "grant_usable aenv oc (exchange_input client code (pa_code_verifier p)) g u t (an_state (net s))"
    and fits: "cg_nonce g = pa_nonce p" "tenant_slug t = cl_tenant_slug client"
      "code \<noteq> []" "pa_code_verifier p \<noteq> []" "cl_redirect_uri client \<noteq> []"
    and jose: "jose_accepts (jose_of benv) (rs256 aenv) (signing_kid aenv) ks
      (id_token_options aenv (now (an_state (net s))) (grant_token_input oc g u t))"
    and clock: "bnow s < now (an_state (net s)) + ID_TOKEN_TTL_SECONDS + DEFAULT_CLOCK_TOLERANCE_SECONDS"
  shows "\<exists>x s'. run_state (callback_with_code benv client sc p code) s = ((Redirect (pa_return_to p), Some (tn_id x)), s') \<and>
    tn_user x = user_id u \<and> tn_sid x = cg_sid g \<and> tn_tenant x = tenant_id t \<and>
    tn_tenant_slug x = cl_tenant_slug client \<and> kv_value (bnow s) (tenant_sessions s') (key_of x) = Some x"
proof -
  let ?input = "exchange_input client code (pa_code_verifier p)"
  define o' where "o' = id_token_options aenv (now (an_state (net s))) (grant_token_input oc g u t)"
  let ?form = "[(''grant_type'', ''authorization_code''), (''code'', code), (''redirect_uri'', cl_redirect_uri client),
    (''code_verifier'', pa_code_verifier p)]"
  have form: "tokenFormSchema (form_of ?form) = Some (Code_form ?input)"
    using fits by (simp add: tokenFormSchema_def form_of_def min1_def exchange_input_def)
  obtain r where r: "fst (run_state (exchangeAuthorizationCode aenv oc ?input) (an_state (net s))) = Inr r"
      "tr_id_token r = signJwt (rs256 aenv) (signing_kid aenv) o'"
    using usable_exchange [OF usable] by (auto simp: o'_def)
  define s1 where "s1 = snd (run_state (exchangeCode benv client code (pa_code_verifier p)) s)"
  have ex: "run_state (exchangeCode benv client code (pa_code_verifier p)) s = (Inr (provider_tokens_of r), s1)"
    using token_call [OF wired disc client(1) quota form] r(1)
    by (simp add: exchangeCode_def s1_def token_use_case_def)
  have s1: "discovered s1 = Some (server_discovery aenv)" "key_source s1 = key_source s" "bnow s1 = bnow s"
    using token_call [OF wired disc client(1) quota form] by (simp_all add: s1_def exchangeCode_def)
  have ver: "fst (run_state (verify_token benv (tr_id_token r) (Some (sv_client_id client))) s1) = Inr (JObj (jwt_claims o'))"
    unfolding r(2)
    by (rule token_verified [OF wired _ keys _ jose [folded o'_def]])
       (use s1 known clock client(2) in \<open>simp_all add: o'_def id_token_options_def grant_token_input_def\<close>)
  define s2 where "s2 = snd (run_state (verify_token benv (tr_id_token r) (Some (sv_client_id client))) s1)"
  have s2: "bnow s2 = bnow s"
    using keeps_run [OF keeps_verify [OF blind_session_part], of benv "tr_id_token r" "Some (sv_client_id client)" s1] s1
    by (simp add: s2_def session_part_def)
  note claims = id_claims [OF o'_def]
  have idt: "run_state (verifyIdToken benv (tr_id_token r) client (pa_nonce p)) s1 = (Inr (JObj (jwt_claims o')), s2)"
    using ver claims fits(1) by (simp add: verifyIdToken_def case_prod_beta s2_def json_string_def)
  let ?est = "run_state (establish_session benv client sc (provider_tokens_of r) (JObj (jwt_claims o'))
    (user_id u) (cg_sid g) (tenant_id t)) s2"
  have "run_state (callback_with_code benv client sc p code) s =
      ((Redirect (pa_return_to p), Some (tn_id (fst ?est))), snd ?est)"
    using ex idt claims fits(2)
    by (simp add: callback_with_code_def provider_tokens_of_def session_claims_def json_string_def case_prod_beta)
  moreover note session_established [of benv client sc "provider_tokens_of r" "JObj (jwt_claims o')" "user_id u"
    "cg_sid g" "tenant_id t" s2 "fst ?est" "snd ?est"]
  ultimately show ?thesis using s2 by auto
qed

section \<open>A concrete pair of servers\<close>

definition fx_wire_oc :: oidc_client where
  "fx_wire_oc = fx_client\<lparr>oc_secret_hashes := [hashSecret (\<lambda>b. b) ''s3cret'']\<rparr>"

definition fx_wire_auth :: "unit auth_state" where
  "fx_wire_auth = fx_token_state\<lparr>identity := fx_db\<lparr>id_clients := [fx_wire_oc]\<rparr>\<rparr>"

definition fx_net :: "unit auth_net" where
  "fx_net = \<lparr>an_state = fx_wire_auth, an_counters = counter_empty, an_wall = 1010000\<rparr>"

definition fx_caller :: request_environment where
  "fx_caller = \<lparr>env_ip = ''10.0.0.9'', env_user_agent = ''bff''\<rparr>"

definition fx_wire_client :: client_config where
  "fx_wire_client = \<lparr>sv_client_id = ''crm'', sv_secret = ''s3cret'', sv_scopes = [''openid''],
     sv_api_base_url = ''http://crm-api'', sv_name = ''CRM'', cl_tenant_slug = ''acme'',
     cl_redirect_uri = ''https://acme.crm.jp/cb''\<rparr>"

definition fx_keys :: jwks where "fx_keys = [\<lparr>jwk_kid = Some ''kid1'', jwk_material = ''k''\<rparr>]"

definition fx_wired :: "sign_options \<Rightarrow> unit auth_net bff_env" where
  "fx_wired o' = \<lparr>provider_issuer = ''https://auth.jp'', backchannel_base = Some ''http://auth'',
     rewrite_host = (\<lambda>u b. b @ drop (length ''https://auth.jp'') u), is_url = (\<lambda>u. True),
     key_text = (\<lambda>j. ''k''),
     jose_of = \<lparr>jose_kid = (\<lambda>t. Some ''kid1''), jose_verify = (\<lambda>t k a opts. Jose_ok (JObj (jwt_claims o')))\<rparr>,
     resolveClient = (\<lambda>h. Some fx_wire_client), resolveClientById = (\<lambda>i. Some (service_config.truncate fx_wire_client)),
     b_random = (\<lambda>n k. bytes_of_string (digits n)), b_sha256 = (\<lambda>b. b), cookie_policy_secure = True,
     http = auth_network fx_env fx_site ''http://auth'' fx_caller, sleep = (\<lambda>n s. s)\<rparr>"

definition fx_wired_state :: "unit auth_net bff_state" where
  "fx_wired_state = \<lparr>bnow = 1010, tenant_sessions = kv_empty, sessions_by_sid = ss_empty, pre_auths = kv_empty,
     refresh_locks = kv_empty, rate_counters = counter_empty, discovered = None, key_source = jwks_source_new,
     net = fx_net, bdraws = 0\<rparr>"

definition fx_admin_client :: "(json \<Rightarrow> string) \<Rightarrow> auth_site \<Rightarrow> unit auth_net admin_client" where
  "fx_admin_client text site = \<lparr>hc_base_url = ''http://auth'', hc_client_id = ''crm'', hc_secret = ''s3cret'',
     hc_fetch = auth_network fx_env site ''http://auth'' fx_caller, hc_stringify = text\<rparr>"

lemma fx_bff_wired: "bff_wired (fx_wired o') fx_env fx_site ''http://auth'' fx_caller"
  by (simp add: bff_wired_def fx_wired_def fx_env_def fx_site_def routes_by_wildcard_def)

lemma fx_knows: "knows_client fx_env (identity (an_state fx_net)) ''crm'' ''s3cret'' fx_wire_oc"
  by (simp add: knows_client_def fx_net_def fx_wire_auth_def fx_wire_oc_def fx_db_def fx_client_def findClient_def
      ascii_def verifySecretAgainstAny_def verifySecret_hashSecret fx_env_def)

lemma fx_quota: "quota_left ''token'' fx_caller fx_net" "quota_left ''admin'' fx_caller fx_net"
  by (simp_all add: quota_left_def RATE_LIMIT_TOKEN_def rateLimit_def Let_def case_prod_beta fx_net_def
      mem_counter.incr_result counter_view_def counter_empty_def)

lemma fx_jose: "jose_accepts (jose_of (fx_wired o')) (rs256 fx_env) (signing_kid fx_env) fx_keys o'"
  by (simp add: jose_accepts_def fx_wired_def fx_env_def fx_keys_def signJwt_def hasKid_def)

lemma fx_server_keys: "server_keys (fx_wired o') fx_site fx_keys"
  by (simp add: server_keys_def fx_wired_def fx_site_def fx_keys_def json_field_def json_string_def)

lemma fx_wired_start: "discovered fx_wired_state = None" "cached (key_source fx_wired_state) = None"
    "net fx_wired_state = fx_net" "bnow fx_wired_state = 1010" "tenant_reach fx_wired_state"
  by (simp_all add: fx_wired_state_def jwks_source_new_def tenant_reach.start)

lemma fx_usable: "grant_usable fx_env fx_wire_oc
    (exchange_input fx_wire_client ''c'' (replicate 43 CHR ''a'')) fx_grant fx_user fx_tenant fx_wire_auth"
proof -
  let ?input = "exchange_input fx_wire_client ''c'' (replicate 43 CHR ''a'')"
  have "?input = fx_input"
    by (simp add: exchange_input_def fx_wire_client_def fx_input_def)
  moreover have "validateCodeBinding fx_env fx_grant fx_wire_oc fx_input = Inr ()"
    using fx_binding by (simp add: binding_ok_iff fx_wire_oc_def)
  moreover have "code_value fx_wire_auth (keyOf fx_env (ce_code fx_input)) = Some (Unused fx_grant)"
    using fx_grant_value by (simp add: fx_wire_auth_def code_value_def fx_input_def)
  moreover have "sso_live fx_wire_auth (cg_session fx_grant) = Some fx_session"
    using fx_lookups(1) sso_live_cong [of fx_wire_auth fx_token_state] by (simp add: fx_wire_auth_def fx_grant_def)
  moreover have "findUserById (identity fx_wire_auth) (cg_user fx_grant) = Some fx_user"
    "findTenantById (identity fx_wire_auth) (cg_tenant fx_grant) = Some fx_tenant"
    by (simp_all add: fx_wire_auth_def fx_grant_def findUserById_def findTenantById_def fx_db_def fx_user_def fx_tenant_def)
  ultimately show ?thesis by (simp add: grant_usable_def)
qed

end
