(* ===== verification/Pg.thy ===== *)
theory Pg
  imports Identity "HOL-Library.List_Lexorder" "HOL-Library.Char_ord" "HOL-Library.Product_Lexorder"
    "HOL-Library.Multiset"
begin

text \<open>
  packages/shared/src/pg.ts, the access to PostgreSQL: \<open>queryOne\<close>, \<open>queryRequired\<close> and \<open>queryAll\<close> run a
  statement and validate its rows with a zod schema; \<open>epochSecondsColumn\<close> and \<open>toTimestamp\<close> convert
  the TIMESTAMPTZ columns. A statement is an operation on the tables: it returns rows or is refused by
  a constraint of the DDL under db/, and a refused statement changes nothing. The adapters of the
  next theories translate their SQL text into such operations. A table is the list of its rows; the
  order of the list is the one in which an unordered SELECT happens to return them, so nothing is
  claimed about it. Times are milliseconds in a column and seconds in the application.
\<close>

section \<open>Outcomes of a statement\<close>

text \<open>
  The refusals: a primary key or unique index, a foreign key, a CHECK, a row-level security policy; then
  the errors of pg.ts itself, a row missing after RETURNING and a row its schema does not accept; and
  the wrapper of packages/api-core/src/infrastructure/db.ts.
\<close>

datatype pg_error = Unique_violation | Foreign_key_violation | Check_violation | Policy_violation
  | No_row | Bad_row | Tenant_transaction_failed pg_error

type_synonym ('db, 'a) sql = "'db \<Rightarrow> (pg_error + 'a) \<times> 'db"

definition sql_return :: "'a \<Rightarrow> ('db, 'a) sql" where
  "sql_return a = (\<lambda>db. (Inr a, db))"

definition sql_bind :: "('db, 'a) sql \<Rightarrow> ('a \<Rightarrow> ('db, 'b) sql) \<Rightarrow> ('db, 'b) sql" where
  "sql_bind q f = (\<lambda>db. case q db of (Inl e, db') \<Rightarrow> (Inl e, db') | (Inr a, db') \<Rightarrow> f a db')"

lemma sql_return_run [simp]: "sql_return a db = (Inr a, db)"
  by (simp add: sql_return_def)

lemma sql_bind_run [simp]:
  "sql_bind q f db = (case q db of (Inl e, db') \<Rightarrow> (Inl e, db') | (Inr a, db') \<Rightarrow> f a db')"
  by (simp add: sql_bind_def)

text \<open>What a statement that succeeds returns and leaves.\<close>

definition settled :: "(pg_error + 'a) \<times> 'db \<Rightarrow> 'a \<times> 'db" where
  "settled r = (projr (fst r), snd r)"

lemma settled_Inr [simp]: "settled (Inr a, db) = (a, db)"
  by (simp add: settled_def)

section \<open>pg.ts\<close>

definition queryOne :: "('row \<Rightarrow> 'a option) \<Rightarrow> ('db, 'row list) sql \<Rightarrow> ('db, 'a option) sql" where
  "queryOne parse q = sql_bind q (\<lambda>rows. \<lambda>db.
     case rows of
       [] \<Rightarrow> (Inr None, db)
     | first # _ \<Rightarrow> (case parse first of None \<Rightarrow> (Inl Bad_row, db) | Some v \<Rightarrow> (Inr (Some v), db)))"

definition queryRequired :: "('row \<Rightarrow> 'a option) \<Rightarrow> ('db, 'row list) sql \<Rightarrow> ('db, 'a) sql" where
  "queryRequired parse q = sql_bind (queryOne parse q) (\<lambda>row. \<lambda>db.
     case row of None \<Rightarrow> (Inl No_row, db) | Some v \<Rightarrow> (Inr v, db))"

definition queryAll :: "('row \<Rightarrow> 'a option) \<Rightarrow> ('db, 'row list) sql \<Rightarrow> ('db, 'a list) sql" where
  "queryAll parse q = sql_bind q (\<lambda>rows. \<lambda>db.
     case those (map parse rows) of None \<Rightarrow> (Inl Bad_row, db) | Some vs \<Rightarrow> (Inr vs, db))"

definition epochSecondsColumn :: "int \<Rightarrow> seconds" where "epochSecondsColumn ms = ms div 1000"

definition toTimestamp :: "seconds \<Rightarrow> int" where "toTimestamp s = s * 1000"

lemma timestamp_roundtrip [simp]: "epochSecondsColumn (toTimestamp s) = s"
  by (simp add: epochSecondsColumn_def toTimestamp_def)

lemma timestamp_mono [simp]: "toTimestamp a < toTimestamp b \<longleftrightarrow> a < b"
  by (simp add: toTimestamp_def)

text \<open>
  A deadline in whole seconds is passed on the millisecond clock exactly when it is passed on the clock of
  whole seconds.
\<close>

lemma deadline_in_seconds: "ms < toTimestamp d \<longleftrightarrow> epochSecondsColumn ms < d"
  by (auto simp: toTimestamp_def epochSecondsColumn_def)

section \<open>SELECT\<close>

definition select_rows :: "('db \<Rightarrow> 'row list) \<Rightarrow> ('row \<Rightarrow> bool) \<Rightarrow> ('db, 'row list) sql" where
  "select_rows tab cond = (\<lambda>db. (Inr (filter cond (tab db)), db))"

lemma those_map_Some: "(\<And>r. r \<in> set rows \<Longrightarrow> parse r = Some (f r)) \<Longrightarrow> those (map parse rows) = Some (map f rows)"
  by (induction rows) auto

lemma find_map: "List.find P (map f xs) = map_option f (List.find (\<lambda>x. P (f x)) xs)"
  by (induction xs) auto

lemma hd_filter_find: "(case filter P xs of [] \<Rightarrow> None | x # _ \<Rightarrow> Some x) = List.find P xs"
  by (induction xs) auto

text \<open>A statement that changes nothing and rows that their schema accepts: the two reads are total.\<close>

lemma queryOne_select:
  assumes "\<And>r. r \<in> set (tab db) \<Longrightarrow> cond r \<Longrightarrow> parse r = Some (f r)"
  shows "queryOne parse (select_rows tab cond) db = (Inr (map_option f (List.find cond (tab db))), db)"
proof (cases "filter cond (tab db)")
  case Nil
  then have "List.find cond (tab db) = None" using hd_filter_find [of cond "tab db"] by simp
  then show ?thesis using Nil by (simp add: queryOne_def select_rows_def)
next
  case (Cons r rs)
  have "r \<in> set (filter cond (tab db))" using Cons by simp
  then have "parse r = Some (f r)" using assms by simp
  moreover have "List.find cond (tab db) = Some r" using hd_filter_find [of cond "tab db"] Cons by simp
  ultimately show ?thesis using Cons by (simp add: queryOne_def select_rows_def)
qed

lemma queryAll_rows:
  assumes "q db = (Inr rows, db')" "\<And>r. r \<in> set rows \<Longrightarrow> parse r = Some (f r)"
  shows "queryAll parse q db = (Inr (map f rows), db')"
  using assms(1) those_map_Some [of rows parse f, OF assms(2)] by (simp add: queryAll_def)

lemma queryAll_select:
  assumes "\<And>r. r \<in> set (tab db) \<Longrightarrow> cond r \<Longrightarrow> parse r = Some (f r)"
  shows "queryAll parse (select_rows tab cond) db = (Inr (map f (filter cond (tab db))), db)"
  using assms by (intro queryAll_rows) (auto simp: select_rows_def)

section \<open>UPDATE\<close>

text \<open>\<open>UPDATE ... SET upd WHERE cond RETURNING ret\<close>, the constraints checked by the statement that uses it.\<close>

definition update_rows ::
  "('db \<Rightarrow> 'row list) \<Rightarrow> ('row list \<Rightarrow> 'db \<Rightarrow> 'db) \<Rightarrow> ('row \<Rightarrow> bool) \<Rightarrow> ('row \<Rightarrow> 'row) \<Rightarrow>
   ('row \<Rightarrow> 'ret) \<Rightarrow> ('db, 'ret list) sql" where
  "update_rows tab put cond upd ret = (\<lambda>db.
     (Inr (map ret (filter cond (tab db))), put (map (\<lambda>r. if cond r then upd r else r) (tab db)) db))"

text \<open>A key names at most one row, so an update or a lookup by it concerns one row.\<close>

lemma filter_key:
  "distinct (map k xs) \<Longrightarrow> filter (\<lambda>r. k r = i) xs = (case List.find (\<lambda>r. k r = i) xs of None \<Rightarrow> [] | Some r \<Rightarrow> [r])"
proof (induction xs)
  case (Cons x xs)
  then show ?case
  proof (cases "k x = i")
    case True
    then have "filter (\<lambda>r. k r = i) xs = []" using Cons.prems
      by (auto simp: filter_empty_conv) (metis image_eqI)
    then show ?thesis using True by simp
  qed simp
qed simp

lemma keys_kept: "(\<And>r. k (upd r) = k r) \<Longrightarrow> map k (map (\<lambda>r. if cond r then upd r else r) rows) = map k rows"
  by (induction rows) auto

lemma find_unique: "distinct (map k xs) \<Longrightarrow> x \<in> set xs \<Longrightarrow> List.find (\<lambda>r. k r = k x) xs = Some x"
  by (induction xs) (auto simp: image_iff)

lemma find_row:
  "distinct (map k xs) \<Longrightarrow> x \<in> set xs \<Longrightarrow> k x = i \<Longrightarrow> List.find (\<lambda>r. k r = i) xs = Some x"
  using find_unique by metis

lemma find_ex: "List.find P xs = None \<longleftrightarrow> \<not> list_ex P xs"
  by (simp add: find_None_iff' list_ex_iff)

lemma update_nobody: "\<not> list_ex P us \<Longrightarrow> map (\<lambda>r. if P r then f r else r) us = us"
  by (induction us) auto

lemma sort_short: "length xs \<le> 1 \<Longrightarrow> sort_key f xs = xs"
  by (cases xs) auto

lemma filter_conj: "filter (\<lambda>x. P x \<and> Q x) xs = filter Q (filter P xs)"
  by (induction xs) auto

lemma mset_replace:
  assumes "distinct (map k xs)" "x \<in> set xs"
  shows "mset (map (\<lambda>m. if k m = k x then y else m) xs) = mset (filter (\<lambda>m. k m \<noteq> k x) xs @ [y])"
  using assms
proof (induction xs)
  case (Cons z zs)
  then show ?case
  proof (cases "k z = k x")
    case True
    then have "\<forall>m\<in>set zs. k m \<noteq> k x" using Cons.prems(1) by (auto simp: image_iff)
    then have "map (\<lambda>m. if k m = k x then y else m) zs = zs" "filter (\<lambda>m. k m \<noteq> k x) zs = zs"
      by (auto intro: map_idI)
    then show ?thesis using True by simp
  qed auto
qed simp

lemma find_mset:
  assumes "mset xs = mset ys" "distinct (map k xs)"
  shows "List.find (\<lambda>r. k r = i) xs = List.find (\<lambda>r. k r = i) ys"
proof -
  have d: "distinct (map k ys)" using assms by (metis mset_eq_imp_distinct_iff mset_map)
  have "mset (filter (\<lambda>r. k r = i) xs) = mset (filter (\<lambda>r. k r = i) ys)" using assms(1) by (simp add: mset_filter)
  then show ?thesis
    unfolding filter_key [OF assms(2)] filter_key [OF d] by (auto split: option.splits)
qed

lemma sort_key_map: "sort_key f (map g xs) = map g (sort_key (\<lambda>x. f (g x)) xs)"
proof -
  have ins: "insort_key f (g x) (map g ys) = map g (insort_key (\<lambda>x. f (g x)) x ys)" for x ys
    by (induction ys) auto
  show ?thesis by (induction xs) (simp_all add: ins)
qed

lemma sort_key_cong: "(\<And>x y. x \<in> set xs \<Longrightarrow> y \<in> set xs \<Longrightarrow> f x \<le> f y \<longleftrightarrow> g x \<le> g y) \<Longrightarrow> sort_key f xs = sort_key g xs"
proof (induction xs)
  case (Cons x xs)
  have "insort_key f x ys = insort_key g x ys" if "set ys \<subseteq> set xs" for ys
    using that Cons.prems by (induction ys) auto
  moreover have "sort_key f xs = sort_key g xs" using Cons by auto
  ultimately show ?case by simp
qed simp

end
