(* ===== verification/PgIdentity.thy ===== *)
theory PgIdentity
  imports Pg
begin

text \<open>
  apps/auth-api/src/infrastructure/pg-identity-repository.ts over the tables of
  db/identity/init/002_identity.sql. The rows keep their text columns (a status is a string that a CHECK
  restricts), \<open>identity_constraints\<close> are the keys, checks and references of the DDL, and
  \<open>identity_of\<close> reads the tables as the memory repository of Identity: the reads agree with it, the
  writes that the constraints admit commute with it, and the others are refused and change nothing.
  Columns that no statement reads (created_at, updated_at) are left out.
\<close>

section \<open>The tables\<close>

record users_row =
  ur_id :: string
  ur_cognito_sub :: "string option"
  ur_email :: string
  ur_name :: "string option"
  ur_status :: string

record tenants_row =
  tr_id :: string
  tr_slug :: string
  tr_name :: string
  tr_status :: string

record clients_row =
  cr_id :: string
  cr_client_id :: string
  cr_name :: string
  cr_audience :: string
  cr_template :: string
  cr_scopes :: "string list"
  cr_backchannel :: "string option"
  cr_status :: string

record secrets_row =
  sr_client :: string
  sr_hash :: string
  sr_status :: string

record services_row =
  vr_tenant :: string
  vr_client :: string
  vr_status :: string

record members_row =
  mr_tenant :: string
  mr_client :: string
  mr_user :: string
  mr_status :: string

record mfa_row =
  fr_user :: string
  fr_method :: string
  fr_enrolled_at :: int

record pg_identity =
  pg_users :: "users_row list"
  pg_tenants :: "tenants_row list"
  pg_clients :: "clients_row list"
  pg_secrets :: "secrets_row list"
  pg_services :: "services_row list"
  pg_members :: "members_row list"
  pg_mfa :: "mfa_row list"

section \<open>The constraints of the DDL\<close>

definition active_text :: "string list" where "active_text = [''active'', ''disabled'']"

definition suspend_text :: "string list" where "suspend_text = [''active'', ''suspended'']"

definition users_constraints :: "users_row list \<Rightarrow> bool" where
  "users_constraints us = (distinct (map ur_id us) \<and> distinct (map ur_email us) \<and>
     distinct (map ur_cognito_sub (filter (\<lambda>u. ur_cognito_sub u \<noteq> None) us)) \<and>
     list_all (\<lambda>u. ur_status u \<in> set active_text) us)"

definition tenants_constraints :: "tenants_row list \<Rightarrow> bool" where
  "tenants_constraints ts = (distinct (map tr_id ts) \<and> distinct (map tr_slug ts) \<and>
     list_all (\<lambda>t. tr_status t \<in> set suspend_text) ts)"

definition clients_constraints :: "clients_row list \<Rightarrow> bool" where
  "clients_constraints cs = (distinct (map cr_id cs) \<and> distinct (map cr_client_id cs) \<and>
     list_all (\<lambda>c. cr_status c \<in> set active_text) cs)"

definition services_constraints :: "pg_identity \<Rightarrow> bool" where
  "services_constraints db = (distinct (map (\<lambda>v. (vr_tenant v, vr_client v)) (pg_services db)) \<and>
     list_all (\<lambda>v. vr_tenant v \<in> set (map tr_id (pg_tenants db)) \<and>
       vr_client v \<in> set (map cr_id (pg_clients db)) \<and> vr_status v \<in> set suspend_text) (pg_services db))"

definition member_key_of :: "members_row \<Rightarrow> string \<times> string \<times> string" where
  "member_key_of m = (mr_tenant m, mr_client m, mr_user m)"

definition members_constraints :: "pg_identity \<Rightarrow> bool" where
  "members_constraints db = (distinct (map member_key_of (pg_members db)) \<and>
     list_all (\<lambda>m. mr_user m \<in> set (map ur_id (pg_users db)) \<and>
       (mr_tenant m, mr_client m) \<in> set (map (\<lambda>v. (vr_tenant v, vr_client v)) (pg_services db)) \<and>
       mr_status m \<in> set active_text) (pg_members db))"

definition mfa_constraints :: "pg_identity \<Rightarrow> bool" where
  "mfa_constraints db = (distinct (map (\<lambda>f. (fr_user f, fr_method f)) (pg_mfa db)) \<and>
     list_all (\<lambda>f. fr_user f \<in> set (map ur_id (pg_users db)) \<and> fr_method f = ''totp'') (pg_mfa db))"

definition identity_constraints :: "pg_identity \<Rightarrow> bool" where
  "identity_constraints db = (users_constraints (pg_users db) \<and> tenants_constraints (pg_tenants db) \<and>
     clients_constraints (pg_clients db) \<and>
     list_all (\<lambda>s. sr_client s \<in> set (map cr_id (pg_clients db))) (pg_secrets db) \<and>
     services_constraints db \<and> members_constraints db \<and> mfa_constraints db)"

section \<open>The row schemas\<close>

definition active_status_schema :: "string \<Rightarrow> active_status option" where
  "active_status_schema s =
     (if s = ''active'' then Some Active else if s = ''disabled'' then Some Disabled else None)"

definition suspend_status_schema :: "string \<Rightarrow> suspend_status option" where
  "suspend_status_schema s =
     (if s = ''active'' then Some In_force else if s = ''suspended'' then Some Suspended else None)"

definition toUser :: "users_row \<Rightarrow> active_status \<Rightarrow> user" where
  "toUser r st = \<lparr>user_id = ur_id r, cognito_sub = ur_cognito_sub r, user_email = ur_email r,
     user_name = ur_name r, user_status = st\<rparr>"

definition userRow :: "users_row \<Rightarrow> user option" where
  "userRow r = map_option (toUser r) (active_status_schema (ur_status r))"

definition tenantRow :: "tenants_row \<Rightarrow> tenant option" where
  "tenantRow r = map_option (\<lambda>st. \<lparr>tenant_id = tr_id r, tenant_slug = tr_slug r, tenant_name = tr_name r,
     tenant_status = st\<rparr>) (suspend_status_schema (tr_status r))"

text \<open>A row of CLIENT_SELECT: the client with the aggregated hashes of its active secrets.\<close>

definition clientRow :: "clients_row \<times> string list \<Rightarrow> oidc_client option" where
  "clientRow = (\<lambda>(r, hashes). map_option (\<lambda>st. \<lparr>oc_id = cr_id r, oc_client_id = cr_client_id r,
     oc_name = cr_name r, oc_audience = cr_audience r, oc_redirect_template = cr_template r,
     oc_secret_hashes = hashes, oc_allowed_scopes = cr_scopes r, oc_status = st,
     oc_backchannel_uri = cr_backchannel r\<rparr>) (active_status_schema (cr_status r)))"

definition mfaMethodRow :: "mfa_row \<Rightarrow> (mfa_method \<times> seconds) option" where
  "mfaMethodRow r =
     (if fr_method r = ''totp'' then Some (Totp, epochSecondsColumn (fr_enrolled_at r)) else None)"

definition contractRow :: "services_row \<Rightarrow> suspend_status option" where
  "contractRow r = suspend_status_schema (vr_status r)"

definition membershipRow :: "members_row \<Rightarrow> active_status option" where
  "membershipRow r = active_status_schema (mr_status r)"

definition memberRow :: "users_row \<times> string \<Rightarrow> (user \<times> active_status) option" where
  "memberRow = (\<lambda>(r, st). Option.bind (userRow r) (\<lambda>u. map_option (Pair u) (active_status_schema st)))"

record portal_row =
  pr_tenant_id :: string
  pr_slug :: string
  pr_name :: string
  pr_status :: string
  pr_client_id :: string
  pr_client_name :: string
  pr_template :: string

definition portalRow :: "portal_row \<Rightarrow> (tenant \<times> portal_row) option" where
  "portalRow r = map_option (\<lambda>st. (\<lparr>tenant_id = pr_tenant_id r, tenant_slug = pr_slug r,
     tenant_name = pr_name r, tenant_status = st\<rparr>, r)) (suspend_status_schema (pr_status r))"

section \<open>Reads\<close>

definition active_hashes :: "pg_identity \<Rightarrow> string \<Rightarrow> string list" where
  "active_hashes db cid =
     map sr_hash (filter (\<lambda>s. sr_client s = cid \<and> sr_status s = ''active'') (pg_secrets db))"

definition CLIENT_SELECT :: "pg_identity \<Rightarrow> (clients_row \<times> string list) list" where
  "CLIENT_SELECT db = map (\<lambda>c. (c, active_hashes db (cr_id c))) (pg_clients db)"

definition pg_findClient :: "string \<Rightarrow> (pg_identity, oidc_client option) sql" where
  "pg_findClient cid = queryOne clientRow (select_rows CLIENT_SELECT (\<lambda>p. cr_client_id (fst p) = cid))"

definition pg_findClientById :: "string \<Rightarrow> (pg_identity, oidc_client option) sql" where
  "pg_findClientById i = queryOne clientRow (select_rows CLIENT_SELECT (\<lambda>p. cr_id (fst p) = i))"

text \<open>\<open>ORDER BY\<close> a text column: \<open>collate\<close> is the sort key of the database's collation.\<close>

definition pg_listClients :: "(string \<Rightarrow> string) \<Rightarrow> (pg_identity, oidc_client list) sql" where
  "pg_listClients collate = queryAll clientRow (\<lambda>db.
     (Inr (sort_key (\<lambda>p. collate (cr_client_id (fst p))) (CLIENT_SELECT db)), db))"

definition pg_listMfaMethods :: "string \<Rightarrow> (pg_identity, (mfa_method \<times> seconds) list) sql" where
  "pg_listMfaMethods uid = queryAll mfaMethodRow (\<lambda>db.
     (Inr (sort_key fr_enrolled_at (filter (\<lambda>f. fr_user f = uid) (pg_mfa db))), db))"

definition pg_findUser :: "(users_row \<Rightarrow> bool) \<Rightarrow> (pg_identity, user option) sql" where
  "pg_findUser cond = queryOne userRow (select_rows pg_users cond)"

definition pg_findUserByCognitoSub :: "string \<Rightarrow> (pg_identity, user option) sql" where
  "pg_findUserByCognitoSub sub = pg_findUser (\<lambda>u. ur_cognito_sub u = Some sub)"

definition pg_findUserByEmail :: "string \<Rightarrow> (pg_identity, user option) sql" where
  "pg_findUserByEmail email = pg_findUser (\<lambda>u. to_lower (ur_email u) = to_lower email)"

definition pg_findUserById :: "string \<Rightarrow> (pg_identity, user option) sql" where
  "pg_findUserById i = pg_findUser (\<lambda>u. ur_id u = i)"

definition pg_findTenantById :: "string \<Rightarrow> (pg_identity, tenant option) sql" where
  "pg_findTenantById i = queryOne tenantRow (select_rows pg_tenants (\<lambda>t. tr_id t = i))"

definition pg_findTenantsByIds :: "string list \<Rightarrow> (pg_identity, tenant list) sql" where
  "pg_findTenantsByIds is =
     (if is = [] then sql_return []
      else queryAll tenantRow (select_rows pg_tenants (\<lambda>t. tr_id t \<in> set is)))"

definition pg_findTenantBySlug :: "string \<Rightarrow> (pg_identity, tenant option) sql" where
  "pg_findTenantBySlug s = queryOne tenantRow (select_rows pg_tenants (\<lambda>t. tr_slug t = s))"

definition pg_findContract :: "string \<Rightarrow> string \<Rightarrow> (pg_identity, suspend_status option) sql" where
  "pg_findContract tid cid =
     queryOne contractRow (select_rows pg_services (\<lambda>v. vr_tenant v = tid \<and> vr_client v = cid))"

definition pg_findServiceMembership ::
  "string \<Rightarrow> string \<Rightarrow> string \<Rightarrow> (pg_identity, active_status option) sql" where
  "pg_findServiceMembership tid cid uid =
     queryOne membershipRow (select_rows pg_members (\<lambda>m. member_key_of m = (tid, cid, uid)))"

definition pg_listServiceMembers ::
  "(string \<Rightarrow> string) \<Rightarrow> string \<Rightarrow> string \<Rightarrow> (pg_identity, (user \<times> active_status) list) sql" where
  "pg_listServiceMembers collate tid cid = queryAll memberRow (\<lambda>db.
     (Inr (sort_key (\<lambda>(u, _). collate (ur_email u))
       (concat (map (\<lambda>m. map (\<lambda>u. (u, mr_status m)) (filter (\<lambda>u. ur_id u = mr_user m) (pg_users db)))
         (filter (\<lambda>m. mr_tenant m = tid \<and> mr_client m = cid) (pg_members db))))), db))"

text \<open>The joins of listPortalEntries, member by member, then the loop that groups the sorted rows.\<close>

definition portal_join :: "pg_identity \<Rightarrow> string \<Rightarrow> portal_row list" where
  "portal_join db uid =
     concat (map (\<lambda>m.
       concat (map (\<lambda>t.
         concat (map (\<lambda>s.
           map (\<lambda>c. \<lparr>pr_tenant_id = tr_id t, pr_slug = tr_slug t, pr_name = tr_name t,
               pr_status = tr_status t, pr_client_id = cr_client_id c, pr_client_name = cr_name c,
               pr_template = cr_template c\<rparr>)
             (filter (\<lambda>c. cr_id c = mr_client m \<and> cr_status c = ''active'') (pg_clients db)))
           (filter (\<lambda>s. vr_tenant s = mr_tenant m \<and> vr_client s = mr_client m \<and> vr_status s = ''active'')
             (pg_services db))))
         (filter (\<lambda>t. tr_id t = mr_tenant m \<and> tr_status t = ''active'') (pg_tenants db))))
       (filter (\<lambda>m. mr_user m = uid \<and> mr_status m = ''active'') (pg_members db)))"

definition portal_push ::
  "(string \<Rightarrow> string) \<Rightarrow> portal_entry list \<Rightarrow> tenant \<times> portal_row \<Rightarrow> portal_entry list" where
  "portal_push url_origin acc = (\<lambda>(t, r).
     let service = \<lparr>ps_client_id = pr_client_id r, ps_name = pr_client_name r,
           ps_origin = serviceOrigin url_origin (pr_template r) (pr_slug r)\<rparr>
     in if acc = [] \<or> tenant_id (pe_tenant (last acc)) \<noteq> pr_tenant_id r
        then acc @ [\<lparr>pe_tenant = t, pe_services = [service]\<rparr>]
        else butlast acc @ [(last acc)\<lparr>pe_services := pe_services (last acc) @ [service]\<rparr>])"

definition pg_listPortalEntries ::
  "(string \<Rightarrow> string) \<Rightarrow> (string \<Rightarrow> string) \<Rightarrow> string \<Rightarrow> (pg_identity, portal_entry list) sql" where
  "pg_listPortalEntries collate url_origin uid = sql_bind
     (queryAll portalRow (\<lambda>db.
       (Inr (sort_key (\<lambda>r. (collate (pr_slug r), collate (pr_client_id r))) (portal_join db uid)), db)))
     (\<lambda>rows. sql_return (foldl (portal_push url_origin) [] rows))"

section \<open>Writes\<close>

text \<open>\<open>INSERT\<close> with the unique indexes and references of the table; \<open>ON CONFLICT\<close> is tried first.\<close>

definition has_user :: "pg_identity \<Rightarrow> string \<Rightarrow> bool" where
  "has_user db uid = (uid \<in> set (map ur_id (pg_users db)))"

definition pg_recordMfaMethod :: "string \<Rightarrow> mfa_method \<Rightarrow> seconds \<Rightarrow> (pg_identity, unit) sql" where
  "pg_recordMfaMethod uid m at = (\<lambda>db.
     if list_ex (\<lambda>f. fr_user f = uid \<and> fr_method f = ''totp'') (pg_mfa db) then (Inr (), db)
     else if \<not> has_user db uid then (Inl Foreign_key_violation, db)
     else (Inr (), db\<lparr>pg_mfa := pg_mfa db @
       [\<lparr>fr_user = uid, fr_method = ''totp'', fr_enrolled_at = toTimestamp at\<rparr>]\<rparr>))"

definition user_clash :: "users_row \<Rightarrow> users_row \<Rightarrow> bool" where
  "user_clash r u = (ur_id u = ur_id r \<or> ur_email u = ur_email r \<or>
     ur_cognito_sub r \<noteq> None \<and> ur_cognito_sub u = ur_cognito_sub r)"

definition insert_user :: "users_row \<Rightarrow> (pg_identity, users_row list) sql" where
  "insert_user r = (\<lambda>db.
     if list_ex (user_clash r) (pg_users db) then (Inl Unique_violation, db)
     else (Inr [r], db\<lparr>pg_users := pg_users db @ [r]\<rparr>))"

definition new_users_row :: "new_user \<Rightarrow> users_row" where
  "new_users_row n = \<lparr>ur_id = nu_id n, ur_cognito_sub = nu_cognito_sub n, ur_email = nu_email n,
     ur_name = nu_name n, ur_status = ''active''\<rparr>"

definition pg_createUser :: "new_user \<Rightarrow> (pg_identity, user) sql" where
  "pg_createUser n = queryRequired userRow (insert_user (new_users_row n))"

definition unlinked :: "string \<Rightarrow> users_row \<Rightarrow> bool" where
  "unlinked uid u = (ur_id u = uid \<and> ur_cognito_sub u = None)"

definition update_cognito_sub :: "string \<Rightarrow> string \<Rightarrow> (pg_identity, users_row list) sql" where
  "update_cognito_sub uid sub = (\<lambda>db.
     if list_ex (unlinked uid) (pg_users db) \<and> list_ex (\<lambda>u. ur_cognito_sub u = Some sub) (pg_users db)
     then (Inl Unique_violation, db)
     else update_rows pg_users (\<lambda>us db. db\<lparr>pg_users := us\<rparr>) (unlinked uid)
       (\<lambda>u. u\<lparr>ur_cognito_sub := Some sub\<rparr>) (\<lambda>u. u\<lparr>ur_cognito_sub := Some sub\<rparr>) db)"

definition pg_linkCognitoSub :: "string \<Rightarrow> string \<Rightarrow> (pg_identity, user) sql" where
  "pg_linkCognitoSub uid sub = queryRequired userRow (update_cognito_sub uid sub)"

definition pg_upsertServiceMembership :: "string \<Rightarrow> string \<Rightarrow> string \<Rightarrow> (pg_identity, unit) sql" where
  "pg_upsertServiceMembership tid cid uid = (\<lambda>db.
     if list_ex (\<lambda>m. member_key_of m = (tid, cid, uid)) (pg_members db)
     then (Inr (), db\<lparr>pg_members := map (\<lambda>m. if member_key_of m = (tid, cid, uid)
       then m\<lparr>mr_status := ''active''\<rparr> else m) (pg_members db)\<rparr>)
     else if \<not> has_user db uid \<or> \<not> list_ex (\<lambda>v. vr_tenant v = tid \<and> vr_client v = cid) (pg_services db)
     then (Inl Foreign_key_violation, db)
     else (Inr (), db\<lparr>pg_members := pg_members db @
       [\<lparr>mr_tenant = tid, mr_client = cid, mr_user = uid, mr_status = ''active''\<rparr>]\<rparr>))"

definition pg_removeServiceMembership :: "string \<Rightarrow> string \<Rightarrow> string \<Rightarrow> (pg_identity, unit) sql" where
  "pg_removeServiceMembership tid cid uid = (\<lambda>db.
     (Inr (), db\<lparr>pg_members := filter (\<lambda>m. member_key_of m \<noteq> (tid, cid, uid)) (pg_members db)\<rparr>))"

section \<open>The tables read as the memory repository\<close>

definition active_of :: "string \<Rightarrow> active_status" where
  "active_of s = (if s = ''active'' then Active else Disabled)"

definition suspend_of :: "string \<Rightarrow> suspend_status" where
  "suspend_of s = (if s = ''active'' then In_force else Suspended)"

definition user_of :: "users_row \<Rightarrow> user" where "user_of r = toUser r (active_of (ur_status r))"

definition tenant_of :: "tenants_row \<Rightarrow> tenant" where
  "tenant_of r = \<lparr>tenant_id = tr_id r, tenant_slug = tr_slug r, tenant_name = tr_name r,
     tenant_status = suspend_of (tr_status r)\<rparr>"

definition client_of :: "clients_row \<times> string list \<Rightarrow> oidc_client" where
  "client_of = (\<lambda>(r, hashes). \<lparr>oc_id = cr_id r, oc_client_id = cr_client_id r, oc_name = cr_name r,
     oc_audience = cr_audience r, oc_redirect_template = cr_template r, oc_secret_hashes = hashes,
     oc_allowed_scopes = cr_scopes r, oc_status = active_of (cr_status r),
     oc_backchannel_uri = cr_backchannel r\<rparr>)"

definition contract_of :: "services_row \<Rightarrow> contract_row" where
  "contract_of v = \<lparr>ct_tenant = vr_tenant v, ct_client = vr_client v, ct_status = suspend_of (vr_status v)\<rparr>"

definition membership_of :: "members_row \<Rightarrow> membership_row" where
  "membership_of m = \<lparr>mb_tenant = mr_tenant m, mb_client = mr_client m, mb_user = mr_user m,
     mb_status = active_of (mr_status m)\<rparr>"

definition mfa_of :: "mfa_row \<Rightarrow> mfa_method \<times> seconds" where
  "mfa_of f = (Totp, epochSecondsColumn (fr_enrolled_at f))"

definition mfa_map :: "mfa_row list \<Rightarrow> string \<rightharpoonup> (mfa_method \<times> seconds) list" where
  "mfa_map fs uid = (case filter (\<lambda>f. fr_user f = uid) fs of [] \<Rightarrow> None | gs \<Rightarrow> Some (map mfa_of gs))"

definition identity_of :: "pg_identity \<Rightarrow> identity_db" where
  "identity_of db = \<lparr>id_clients = map client_of (CLIENT_SELECT db), id_tenants = map tenant_of (pg_tenants db),
     id_users = map user_of (pg_users db), id_contracts = map contract_of (pg_services db),
     id_memberships = map membership_of (pg_members db), id_mfa = mfa_map (pg_mfa db)\<rparr>"

lemma identity_of_simps [simp]:
  "id_clients (identity_of db) = map client_of (CLIENT_SELECT db)"
  "id_tenants (identity_of db) = map tenant_of (pg_tenants db)"
  "id_users (identity_of db) = map user_of (pg_users db)"
  "id_contracts (identity_of db) = map contract_of (pg_services db)"
  "id_memberships (identity_of db) = map membership_of (pg_members db)"
  "id_mfa (identity_of db) = mfa_map (pg_mfa db)"
  by (simp_all add: identity_of_def)

lemma active_parse: "s \<in> set active_text \<Longrightarrow> active_status_schema s = Some (active_of s)"
  by (auto simp: active_text_def active_status_schema_def active_of_def)

lemma suspend_parse: "s \<in> set suspend_text \<Longrightarrow> suspend_status_schema s = Some (suspend_of s)"
  by (auto simp: suspend_text_def suspend_status_schema_def suspend_of_def)

text \<open>What the constraints admit, the row schemas accept.\<close>

lemma user_parse: "identity_constraints db \<Longrightarrow> r \<in> set (pg_users db) \<Longrightarrow> userRow r = Some (user_of r)"
  by (auto simp: identity_constraints_def users_constraints_def userRow_def user_of_def active_parse list_all_iff)

lemma tenant_parse: "identity_constraints db \<Longrightarrow> r \<in> set (pg_tenants db) \<Longrightarrow> tenantRow r = Some (tenant_of r)"
  by (auto simp: identity_constraints_def tenants_constraints_def tenantRow_def tenant_of_def suspend_parse
      list_all_iff)

lemma client_parse: "identity_constraints db \<Longrightarrow> r \<in> set (CLIENT_SELECT db) \<Longrightarrow> clientRow r = Some (client_of r)"
  by (auto simp: identity_constraints_def clients_constraints_def clientRow_def client_of_def active_parse
      list_all_iff CLIENT_SELECT_def)

lemma contract_parse:
  "identity_constraints db \<Longrightarrow> v \<in> set (pg_services db) \<Longrightarrow> contractRow v = Some (suspend_of (vr_status v))"
  by (auto simp: identity_constraints_def services_constraints_def contractRow_def suspend_parse list_all_iff)

lemma membership_parse:
  "identity_constraints db \<Longrightarrow> m \<in> set (pg_members db) \<Longrightarrow> membershipRow m = Some (active_of (mr_status m))"
  by (auto simp: identity_constraints_def members_constraints_def membershipRow_def active_parse list_all_iff)

lemma mfa_parse: "identity_constraints db \<Longrightarrow> f \<in> set (pg_mfa db) \<Longrightarrow> mfaMethodRow f = Some (mfa_of f)"
  by (auto simp: identity_constraints_def mfa_constraints_def mfaMethodRow_def mfa_of_def list_all_iff)

section \<open>The lookups agree with the memory repository\<close>

lemma user_of_names [simp]: "user_id (user_of r) = ur_id r" "cognito_sub (user_of r) = ur_cognito_sub r"
  "user_email (user_of r) = ur_email r" "user_name (user_of r) = ur_name r"
  by (simp_all add: user_of_def toUser_def)

lemma tenant_of_names [simp]: "tenant_id (tenant_of r) = tr_id r" "tenant_slug (tenant_of r) = tr_slug r"
  by (simp_all add: tenant_of_def)

lemma client_of_names [simp]: "oc_client_id (client_of p) = cr_client_id (fst p)" "oc_id (client_of p) = cr_id (fst p)"
  by (simp_all add: client_of_def case_prod_beta)

lemma contract_of_names [simp]: "ct_tenant (contract_of v) = vr_tenant v" "ct_client (contract_of v) = vr_client v"
  "ct_status (contract_of v) = suspend_of (vr_status v)"
  by (simp_all add: contract_of_def)

lemma membership_of_names [simp]: "mb_tenant (membership_of m) = mr_tenant m"
  "mb_client (membership_of m) = mr_client m" "mb_user (membership_of m) = mr_user m"
  "mb_status (membership_of m) = active_of (mr_status m)"
  by (simp_all add: membership_of_def)

lemma same_membership_of: "same_membership t c u (membership_of m) \<longleftrightarrow> member_key_of m = (t, c, u)"
  by (simp add: same_membership_def member_key_of_def)

lemma pg_findUser_agrees:
  assumes "identity_constraints db" "\<And>r. cond r \<longleftrightarrow> P (user_of r)"
  shows "pg_findUser cond db = (Inr (List.find P (id_users (identity_of db))), db)"
proof -
  have "cond = (\<lambda>r. P (user_of r))" using assms(2) by auto
  then show ?thesis by (simp add: pg_findUser_def queryOne_select [OF user_parse [OF assms(1)]] find_map)
qed

lemma pg_user_lookups:
  assumes "identity_constraints db"
  shows
  "pg_findUserById i db = (Inr (findUserById (identity_of db) i), db)"
  "pg_findUserByCognitoSub sub db = (Inr (findUserByCognitoSub (identity_of db) sub), db)"
  "pg_findUserByEmail e db = (Inr (findUserByEmail (identity_of db) e), db)"
  unfolding pg_findUserById_def pg_findUserByCognitoSub_def pg_findUserByEmail_def findUserById_def
    findUserByCognitoSub_def findUserByEmail_def by (rule pg_findUser_agrees [OF assms], simp)+

lemma pg_client_lookups:
  assumes "identity_constraints db"
  shows
  "pg_findClient cid db = (Inr (findClient (identity_of db) cid), db)"
  "pg_findClientById i db = (Inr (findClientById (identity_of db) i), db)"
  by (simp_all add: pg_findClient_def pg_findClientById_def findClient_def findClientById_def
      queryOne_select [OF client_parse [OF assms]] find_map case_prod_beta)

lemma pg_tenant_lookups:
  assumes "identity_constraints db"
  shows
  "pg_findTenantById i db = (Inr (findTenantById (identity_of db) i), db)"
  "pg_findTenantBySlug s db = (Inr (findTenantBySlug (identity_of db) s), db)"
  by (simp_all add: pg_findTenantById_def pg_findTenantBySlug_def findTenantById_def findTenantBySlug_def
      queryOne_select [OF tenant_parse [OF assms]] find_map)

lemma pg_tenants_by_ids: "identity_constraints db \<Longrightarrow>
  pg_findTenantsByIds is db = (Inr (findTenantsByIds (identity_of db) is), db)"
  by (simp add: pg_findTenantsByIds_def findTenantsByIds_def queryAll_select [OF tenant_parse]
      filter_map o_def)

lemma pg_contract_lookup: "identity_constraints db \<Longrightarrow>
  pg_findContract t c db = (Inr (findContract (identity_of db) t c), db)"
  by (simp add: pg_findContract_def findContract_def queryOne_select [OF contract_parse] find_map
      option.map_comp o_def)

lemma pg_membership_lookup: "identity_constraints db \<Longrightarrow>
  pg_findServiceMembership t c u db = (Inr (findServiceMembership (identity_of db) t c u), db)"
  by (simp add: pg_findServiceMembership_def findServiceMembership_def
      queryOne_select [OF membership_parse] find_map same_membership_of option.map_comp o_def)

section \<open>The writes commute with the memory repository\<close>

lemma totp_rows:
  assumes "identity_constraints db"
  shows "length (filter (\<lambda>f. fr_user f = uid) (pg_mfa db)) \<le> 1"
    and "list_ex (\<lambda>f. fr_user f = uid \<and> fr_method f = ''totp'') (pg_mfa db) \<longleftrightarrow>
      filter (\<lambda>f. fr_user f = uid) (pg_mfa db) \<noteq> []"
proof -
  have totp: "\<forall>f\<in>set (pg_mfa db). fr_method f = ''totp''"
    and key: "distinct (map (\<lambda>f. (fr_user f, fr_method f)) (pg_mfa db))"
    using assms by (auto simp: identity_constraints_def mfa_constraints_def list_all_iff)
  have "filter (\<lambda>f. fr_user f = uid) (pg_mfa db) =
      filter (\<lambda>f. (fr_user f, fr_method f) = (uid, ''totp'')) (pg_mfa db)"
    using totp by (intro filter_cong) auto
  then show "length (filter (\<lambda>f. fr_user f = uid) (pg_mfa db)) \<le> 1"
    using filter_key [OF key, of "(uid, ''totp'')"] by (simp split: option.split)
  show "list_ex (\<lambda>f. fr_user f = uid \<and> fr_method f = ''totp'') (pg_mfa db) \<longleftrightarrow>
      filter (\<lambda>f. fr_user f = uid) (pg_mfa db) \<noteq> []"
    using totp by (auto simp: list_ex_iff filter_empty_conv)
qed

lemma listMfa_of: "listMfaMethods (identity_of db) uid = map mfa_of (filter (\<lambda>f. fr_user f = uid) (pg_mfa db))"
  by (simp add: listMfaMethods_def mfa_map_def split: list.split)

lemma pg_mfa_lookup:
  assumes "identity_constraints db"
  shows "pg_listMfaMethods uid db = (Inr (listMfaMethods (identity_of db) uid), db)"
  unfolding pg_listMfaMethods_def listMfa_of
  by (subst queryAll_rows [where rows = "filter (\<lambda>f. fr_user f = uid) (pg_mfa db)" and f = mfa_of])
    (use mfa_parse [OF assms] sort_short [OF totp_rows(1) [OF assms]] in auto)

text \<open>Two databases that differ at most in the order of their assignments.\<close>

definition same_identity :: "identity_db \<Rightarrow> identity_db \<Rightarrow> bool" where
  "same_identity a b = (id_clients a = id_clients b \<and> id_tenants a = id_tenants b \<and> id_users a = id_users b \<and>
     id_contracts a = id_contracts b \<and> mset (id_memberships a) = mset (id_memberships b) \<and> id_mfa a = id_mfa b)"

datatype identity_write = Record_mfa string seconds | Create_user new_user | Link_sub string string
  | Assign string string string | Unassign string string string

fun pg_write :: "identity_write \<Rightarrow> (pg_identity, unit) sql" where
  "pg_write (Record_mfa uid at) = pg_recordMfaMethod uid Totp at"
| "pg_write (Create_user n) = sql_bind (pg_createUser n) (\<lambda>_. sql_return ())"
| "pg_write (Link_sub uid sub) = sql_bind (pg_linkCognitoSub uid sub) (\<lambda>_. sql_return ())"
| "pg_write (Assign t c u) = pg_upsertServiceMembership t c u"
| "pg_write (Unassign t c u) = pg_removeServiceMembership t c u"

fun memory_write :: "identity_write \<Rightarrow> identity_db \<Rightarrow> identity_db" where
  "memory_write (Record_mfa uid at) db = recordMfaMethod uid Totp at db"
| "memory_write (Create_user n) db = snd (createUser n db)"
| "memory_write (Link_sub uid sub) db = snd (linkCognitoSub uid sub db)"
| "memory_write (Assign t c u) db = upsertServiceMembership t c u db"
| "memory_write (Unassign t c u) db = removeServiceMembership t c u db"

lemma same_identity_refl [simp]: "same_identity a a"
  by (simp add: same_identity_def)

lemma same_identity_trans: "same_identity a b \<Longrightarrow> same_identity b c \<Longrightarrow> same_identity a c"
  by (simp add: same_identity_def)

lemma memory_write_cong: "same_identity a b \<Longrightarrow> same_identity (memory_write w a) (memory_write w b)"
  by (cases w) (auto simp: same_identity_def recordMfaMethod_def createUser_def linkCognitoSub_def findUserById_def
      upsertServiceMembership_def removeServiceMembership_def Let_def mset_filter split: option.split)

lemma record_mfa_refines:
  assumes ok: "identity_constraints db" and run: "pg_recordMfaMethod uid Totp at db = (Inr r, db')"
  shows "identity_constraints db' \<and> identity_of db' = recordMfaMethod uid Totp at (identity_of db)"
proof (cases "filter (\<lambda>f. fr_user f = uid) (pg_mfa db)")
  case Nil
  let ?f = "\<lparr>fr_user = uid, fr_method = ''totp'', fr_enrolled_at = toTimestamp at\<rparr>"
  have none: "\<forall>f\<in>set (pg_mfa db). fr_user f \<noteq> uid" using Nil by (simp add: filter_empty_conv)
  then have db': "has_user db uid" "db' = db\<lparr>pg_mfa := pg_mfa db @ [?f]\<rparr>"
    using run totp_rows(2) [OF ok, of uid] Nil by (auto simp: pg_recordMfaMethod_def split: if_splits)
  have "mfa_map (pg_mfa db @ [?f]) = (mfa_map (pg_mfa db))(uid \<mapsto> [(Totp, at)])"
    using Nil by (auto simp: fun_eq_iff mfa_map_def mfa_of_def)
  moreover have "identity_constraints db'"
    using ok db' none by (auto simp: identity_constraints_def mfa_constraints_def services_constraints_def
        members_constraints_def has_user_def)
  moreover have "mfa_map (pg_mfa db) uid = None" using Nil by (simp add: mfa_map_def)
  ultimately show ?thesis
    by (simp add: db' recordMfaMethod_def) (simp add: identity_of_def CLIENT_SELECT_def active_hashes_def db')
next
  case (Cons f fs)
  then have "db' = db" using run totp_rows(2) [OF ok, of uid] by (simp add: pg_recordMfaMethod_def)
  then show ?thesis using ok Cons by (simp add: recordMfaMethod_def mfa_map_def mfa_of_def)
qed

lemma put_user_fresh: "user_id u \<notin> set (map user_id us) \<Longrightarrow> put_user u us = us @ [u]"
  by (induction us) auto

lemma create_user_refines:
  assumes ok: "identity_constraints db" and run: "pg_createUser n db = (Inr u, db')"
  shows "identity_constraints db' \<and> (u, identity_of db') = createUser n (identity_of db)"
proof -
  have fresh: "\<forall>v\<in>set (pg_users db). \<not> user_clash (new_users_row n) v"
    and db': "db' = db\<lparr>pg_users := pg_users db @ [new_users_row n]\<rparr>" and u: "u = user_of (new_users_row n)"
    using run by (auto simp: pg_createUser_def queryRequired_def queryOne_def insert_user_def list_ex_iff
        userRow_def user_of_def new_users_row_def active_status_schema_def active_of_def split: if_splits)
  have "identity_constraints db'"
    using ok fresh
    by (auto simp: db' identity_constraints_def users_constraints_def mfa_constraints_def services_constraints_def
        members_constraints_def user_clash_def new_users_row_def active_text_def list_all_iff)
  moreover have "put_user u (map user_of (pg_users db)) = map user_of (pg_users db) @ [u]"
    using fresh by (intro put_user_fresh) (auto simp: u user_clash_def)
  moreover have "u = \<lparr>user_id = nu_id n, cognito_sub = nu_cognito_sub n, user_email = nu_email n,
      user_name = nu_name n, user_status = Active\<rparr>"
    by (simp add: u user_of_def toUser_def new_users_row_def active_of_def)
  ultimately show ?thesis
    by (simp add: createUser_def Let_def) (simp add: identity_of_def CLIENT_SELECT_def active_hashes_def db' u)
qed

lemma put_user_map:
  assumes "distinct (map ur_id us)" "v \<in> set us" "ur_id (upd v) = ur_id v"
  shows "put_user (user_of (upd v)) (map user_of us) =
    map (\<lambda>r. user_of (if ur_id r = ur_id v then upd r else r)) us"
  using assms
proof (induction us)
  case (Cons a us)
  show ?case
  proof (cases "ur_id a = ur_id v")
    case True
    then have others: "\<forall>r\<in>set us. ur_id r \<noteq> ur_id v" using Cons.prems(1) by (auto simp: image_iff)
    then have "a = v" using Cons.prems(2) by auto
    moreover have "map (\<lambda>r. user_of (if ur_id r = ur_id v then upd r else r)) us = map user_of us"
      using others by (intro map_cong) auto
    ultimately show ?thesis using Cons.prems(3) by simp
  next
    case False
    then show ?thesis using Cons by auto
  qed
qed simp

lemma constraint_rows:
  assumes "identity_constraints db"
  shows "distinct (map ur_id (pg_users db))" "distinct (map ur_email (pg_users db))"
    "distinct (map ur_cognito_sub (filter (\<lambda>u. ur_cognito_sub u \<noteq> None) (pg_users db)))"
    "distinct (map tr_id (pg_tenants db))" "distinct (map tr_slug (pg_tenants db))"
    "distinct (map cr_id (pg_clients db))" "distinct (map cr_client_id (pg_clients db))"
    "distinct (map (\<lambda>v. (vr_tenant v, vr_client v)) (pg_services db))"
    "distinct (map member_key_of (pg_members db))"
  using assms by (simp_all add: identity_constraints_def users_constraints_def tenants_constraints_def
      clients_constraints_def services_constraints_def members_constraints_def)

lemma distinct_after_link:
  assumes "distinct (map ur_id us)" "distinct (map ur_cognito_sub (filter (\<lambda>u. ur_cognito_sub u \<noteq> None) us))"
    "\<forall>u\<in>set us. ur_cognito_sub u \<noteq> Some sub"
  shows "distinct (map ur_cognito_sub (filter (\<lambda>u. ur_cognito_sub u \<noteq> None)
    (map (\<lambda>u. if unlinked uid u then u\<lparr>ur_cognito_sub := Some sub\<rparr> else u) us)))"
  using assms
proof (induction us)
  case (Cons u us)
  show ?case
  proof (cases "unlinked uid u")
    case True
    then have "map (\<lambda>u. if unlinked uid u then u\<lparr>ur_cognito_sub := Some sub\<rparr> else u) us = us"
      using Cons.prems(1) by (intro map_idI) (auto simp: unlinked_def image_iff)
    then show ?thesis using Cons.prems True by (auto split: if_splits)
  next
    case False
    let ?f = "\<lambda>u. if unlinked uid u then u\<lparr>ur_cognito_sub := Some sub\<rparr> else u"
    have "ur_cognito_sub u \<notin> ur_cognito_sub ` set (filter (\<lambda>u. ur_cognito_sub u \<noteq> None) (map ?f us))"
      if some: "ur_cognito_sub u \<noteq> None"
    proof
      assume "ur_cognito_sub u \<in> ur_cognito_sub ` set (filter (\<lambda>u. ur_cognito_sub u \<noteq> None) (map ?f us))"
      then obtain x where x: "x \<in> set us" "ur_cognito_sub u = ur_cognito_sub (?f x)" by auto
      then have "ur_cognito_sub u = ur_cognito_sub x" using Cons.prems(3) by (simp split: if_splits)
      then have "ur_cognito_sub u \<in> set (map ur_cognito_sub (filter (\<lambda>u. ur_cognito_sub u \<noteq> None) us))"
        using x(1) some by (simp del: not_None_eq)
      then show False using Cons.prems(2) some by simp
    qed
    moreover have "distinct (map ur_cognito_sub (filter (\<lambda>u. ur_cognito_sub u \<noteq> None) (map ?f us)))"
      using Cons.prems by (intro Cons.IH) (auto split: if_splits)
    ultimately show ?thesis using False by (cases "ur_cognito_sub u = None") auto
  qed
qed simp

lemma link_sub_refines:
  assumes ok: "identity_constraints db" and run: "pg_linkCognitoSub uid sub db = (Inr u, db')"
  shows "identity_constraints db' \<and> (Some u, identity_of db') = linkCognitoSub uid sub (identity_of db)"
proof -
  let ?upd = "\<lambda>r. r\<lparr>ur_cognito_sub := Some sub\<rparr>"
  let ?rows = "filter (unlinked uid) (pg_users db)"
  note keys = constraint_rows [OF ok]
  obtain v where v: "v \<in> set (pg_users db)" "unlinked uid v"
    and free: "\<forall>r\<in>set (pg_users db). ur_cognito_sub r \<noteq> Some sub"
    and db': "db' = db\<lparr>pg_users := map (\<lambda>r. if unlinked uid r then ?upd r else r) (pg_users db)\<rparr>"
    and u: "userRow (?upd v) = Some u"
  proof (cases ?rows)
    case Nil
    then show ?thesis using run by (auto simp: pg_linkCognitoSub_def queryRequired_def queryOne_def
          update_cognito_sub_def update_rows_def list_ex_iff split: if_splits)
  next
    case (Cons v vs)
    then have "v \<in> set ?rows" by simp
    then have v: "v \<in> set (pg_users db)" "unlinked uid v" by auto
    then have "list_ex (unlinked uid) (pg_users db)" by (auto simp: list_ex_iff)
    then show ?thesis using run v Cons
      by (intro that [of v]) (auto simp: pg_linkCognitoSub_def queryRequired_def queryOne_def
          update_cognito_sub_def update_rows_def list_ex_iff split: if_splits option.splits)
  qed
  have uv: "u = user_of (?upd v)"
    using user_parse [OF ok v(1)] u by (simp add: userRow_def user_of_def toUser_def)
  have id: "ur_id v = uid" "ur_cognito_sub v = None" using v(2) by (auto simp: unlinked_def)
  have only: "unlinked uid r \<longleftrightarrow> ur_id r = uid" if "r \<in> set (pg_users db)" for r
    using that v keys(1) id by (auto simp: unlinked_def distinct_map inj_on_def)
  have ids: "map ur_id (pg_users db') = map ur_id (pg_users db)" "map ur_email (pg_users db') = map ur_email (pg_users db)"
    by (simp_all add: db' o_def if_distrib cong: if_cong)
  have "distinct (map ur_id (pg_users db'))" "distinct (map ur_email (pg_users db'))"
    unfolding ids by (rule keys)+
  then have "identity_constraints db'"
    using ok ids(1) distinct_after_link [OF keys(1,3) free, of uid]
    by (auto simp: db' identity_constraints_def users_constraints_def mfa_constraints_def services_constraints_def
        members_constraints_def list_all_iff)
  moreover have "map user_of (pg_users db') = put_user u (map user_of (pg_users db))"
    using put_user_map [OF keys(1) v(1), of ?upd] only by (simp add: uv id db')
  moreover have "findUserById (identity_of db) uid = Some (user_of v)"
    using find_unique [OF keys(1) v(1)] by (simp add: findUserById_def find_map id)
  moreover have "u = (user_of v)\<lparr>cognito_sub := Some sub\<rparr>"
    by (simp add: uv user_of_def toUser_def)
  ultimately show ?thesis
    by (simp add: linkCognitoSub_def Let_def) (simp add: identity_of_def CLIENT_SELECT_def active_hashes_def db')
qed

lemma assigned_map:
  "map membership_of (map (\<lambda>m. if member_key_of m = (t, c, u) then m\<lparr>mr_status := ''active''\<rparr> else m) ms) =
   map (\<lambda>m. if same_membership t c u m then \<lparr>mb_tenant = t, mb_client = c, mb_user = u, mb_status = Active\<rparr> else m)
     (map membership_of ms)"
  unfolding map_map
  by (rule map_cong [OF refl]) (auto simp: same_membership_def membership_of_def member_key_of_def active_of_def)

lemma membership_keys: "map (\<lambda>m. (mb_tenant m, mb_client m, mb_user m)) (map membership_of ms) = map member_key_of ms"
  by (simp add: member_key_of_def)

lemma assign_refines:
  assumes ok: "identity_constraints db" and run: "pg_upsertServiceMembership t c u db = (Inr r, db')"
  shows "identity_constraints db' \<and> same_identity (identity_of db') (upsertServiceMembership t c u (identity_of db))"
proof (cases "list_ex (\<lambda>m. member_key_of m = (t, c, u)) (pg_members db)")
  case True
  let ?ms = "map (\<lambda>m. if member_key_of m = (t, c, u) then m\<lparr>mr_status := ''active''\<rparr> else m) (pg_members db)"
  have db': "db' = db\<lparr>pg_members := ?ms\<rparr>" using run True by (simp add: pg_upsertServiceMembership_def)
  have keys: "map member_key_of ?ms = map member_key_of (pg_members db)"
    by (rule keys_kept) (simp add: member_key_of_def)
  have "distinct (map member_key_of ?ms)" unfolding keys by (rule constraint_rows(9) [OF ok])
  then have "identity_constraints db'"
    using ok by (auto simp: db' identity_constraints_def members_constraints_def mfa_constraints_def
        services_constraints_def active_text_def list_all_iff)
  moreover obtain x where x: "x \<in> set (pg_members db)" "member_key_of x = (t, c, u)"
    using True by (auto simp: list_ex_iff)
  let ?y = "\<lparr>mb_tenant = t, mb_client = c, mb_user = u, mb_status = Active\<rparr>"
  have "mset (map membership_of ?ms) =
      mset (filter (\<lambda>m. \<not> same_membership t c u m) (map membership_of (pg_members db)) @ [?y])"
  proof -
    have d: "distinct (map (\<lambda>m. (mb_tenant m, mb_client m, mb_user m)) (map membership_of (pg_members db)))"
      using constraint_rows(9) [OF ok] by (simp only: membership_keys)
    have k: "(mb_tenant m, mb_client m, mb_user m) = (mb_tenant (membership_of x), mb_client (membership_of x),
        mb_user (membership_of x)) \<longleftrightarrow> same_membership t c u m" for m
      using x(2) by (auto simp: same_membership_def member_key_of_def)
    show ?thesis
      using mset_replace [OF d, of "membership_of x" ?y] x(1) unfolding k assigned_map by simp
  qed
  ultimately show ?thesis
    by (simp add: same_identity_def upsertServiceMembership_def db' CLIENT_SELECT_def active_hashes_def
        del: map_map mset_map mset_append)
next
  case False
  let ?m = "\<lparr>mr_tenant = t, mr_client = c, mr_user = u, mr_status = ''active''\<rparr>"
  have known: "has_user db u" "list_ex (\<lambda>v. vr_tenant v = t \<and> vr_client v = c) (pg_services db)"
    and db': "db' = db\<lparr>pg_members := pg_members db @ [?m]\<rparr>"
    using run False by (auto simp: pg_upsertServiceMembership_def split: if_splits)
  have "identity_constraints db'"
    using ok False known by (auto simp: db' identity_constraints_def members_constraints_def mfa_constraints_def
        services_constraints_def has_user_def active_text_def member_key_of_def list_all_iff list_ex_iff)
  moreover have "filter (\<lambda>m. \<not> same_membership t c u m) (map membership_of (pg_members db)) =
      map membership_of (pg_members db)"
    using False by (auto simp: filter_id_conv same_membership_of list_ex_iff)
  moreover have "membership_of ?m = \<lparr>mb_tenant = t, mb_client = c, mb_user = u, mb_status = Active\<rparr>"
    by (simp add: membership_of_def active_of_def)
  ultimately show ?thesis
    by (simp add: same_identity_def upsertServiceMembership_def) (simp add: db' CLIENT_SELECT_def active_hashes_def)
qed

lemma unassign_refines:
  assumes ok: "identity_constraints db" and run: "pg_removeServiceMembership t c u db = (Inr r, db')"
  shows "identity_constraints db' \<and> identity_of db' = removeServiceMembership t c u (identity_of db)"
proof -
  have db': "db' = db\<lparr>pg_members := filter (\<lambda>m. member_key_of m \<noteq> (t, c, u)) (pg_members db)\<rparr>"
    using run by (simp add: pg_removeServiceMembership_def)
  have "identity_constraints db'"
    using ok by (auto simp: db' identity_constraints_def members_constraints_def mfa_constraints_def
        services_constraints_def distinct_map_filter list_all_iff)
  then show ?thesis
    by (simp add: removeServiceMembership_def)
      (simp add: identity_of_def CLIENT_SELECT_def active_hashes_def db' filter_map o_def same_membership_of)
qed

section \<open>Runs of writes\<close>

text \<open>Which writes the tables refuse, in terms of the memory repository.\<close>

fun refused :: "identity_db \<Rightarrow> identity_write \<Rightarrow> bool" where
  "refused m (Record_mfa uid at) \<longleftrightarrow> listMfaMethods m uid = [] \<and> findUserById m uid = None"
| "refused m (Create_user n) \<longleftrightarrow> findUserById m (nu_id n) \<noteq> None \<or>
     list_ex (\<lambda>u. user_email u = nu_email n) (id_users m) \<or>
     (case nu_cognito_sub n of None \<Rightarrow> False | Some sub \<Rightarrow> findUserByCognitoSub m sub \<noteq> None)"
| "refused m (Link_sub uid sub) \<longleftrightarrow>
     (case findUserById m uid of None \<Rightarrow> True
      | Some u \<Rightarrow> cognito_sub u \<noteq> None \<or> findUserByCognitoSub m sub \<noteq> None)"
| "refused m (Assign t c u) \<longleftrightarrow> findServiceMembership m t c u = None \<and>
     (findUserById m u = None \<or> findContract m t c = None)"
| "refused m (Unassign t c u) \<longleftrightarrow> False"

lemma has_user_iff: "has_user db u \<longleftrightarrow> findUserById (identity_of db) u \<noteq> None"
  by (auto simp: has_user_def findUserById_def find_ex list_ex_iff)

lemma create_refused_iff: "list_ex (user_clash (new_users_row n)) (pg_users db) \<longleftrightarrow> refused (identity_of db) (Create_user n)"
  by (auto simp: list_ex_iff user_clash_def new_users_row_def findUserById_def findUserByCognitoSub_def
      find_None_iff' split: option.split)

lemma unlinked_iff:
  assumes "identity_constraints db"
  shows "list_ex (unlinked uid) (pg_users db) \<longleftrightarrow>
    (case findUserById (identity_of db) uid of None \<Rightarrow> False | Some u \<Rightarrow> cognito_sub u = None)"
proof (cases "List.find (\<lambda>r. ur_id r = uid) (pg_users db)")
  case None
  moreover have "\<not> list_ex (unlinked uid) (pg_users db)"
    using None by (auto simp: find_None_iff' list_ex_iff unlinked_def)
  ultimately show ?thesis by (simp add: findUserById_def find_map)
next
  case (Some v)
  then have v: "v \<in> set (pg_users db)" "ur_id v = uid" using find_Some_iff' [OF Some] by auto
  have "unlinked uid r \<longleftrightarrow> r = v \<and> ur_cognito_sub v = None" if "r \<in> set (pg_users db)" for r
    using that v constraint_rows(1) [OF assms] by (auto simp: unlinked_def distinct_map inj_on_def)
  then show ?thesis using Some v by (auto simp: findUserById_def find_map list_ex_iff)
qed

lemma sub_taken_iff:
  "list_ex (\<lambda>u. ur_cognito_sub u = Some sub) (pg_users db) \<longleftrightarrow> findUserByCognitoSub (identity_of db) sub \<noteq> None"
  by (simp add: findUserByCognitoSub_def find_map find_ex)

lemma assigned_iff:
  "list_ex (\<lambda>m. member_key_of m = (t, c, u)) (pg_members db) \<longleftrightarrow>
   findServiceMembership (identity_of db) t c u \<noteq> None"
  by (simp add: findServiceMembership_def find_map find_ex same_membership_of)

lemma contract_iff:
  "list_ex (\<lambda>v. vr_tenant v = t \<and> vr_client v = c) (pg_services db) \<longleftrightarrow> findContract (identity_of db) t c \<noteq> None"
  by (simp add: findContract_def find_map find_ex)

lemma pg_linkCognitoSub_refused:
  assumes ok: "identity_constraints db" and "refused (identity_of db) (Link_sub uid sub)"
  shows "\<exists>e. pg_linkCognitoSub uid sub db = (Inl e, db)"
proof (cases "list_ex (unlinked uid) (pg_users db)")
  case True
  then have "list_ex (\<lambda>u. ur_cognito_sub u = Some sub) (pg_users db)"
    using assms unlinked_iff [OF ok, of uid] by (auto simp: sub_taken_iff split: option.splits)
  then show ?thesis using True
    by (simp add: pg_linkCognitoSub_def queryRequired_def queryOne_def update_cognito_sub_def)
next
  case False
  then have "filter (unlinked uid) (pg_users db) = []" by (auto simp: list_ex_iff filter_empty_conv)
  then show ?thesis using False update_nobody [OF False]
    by (simp add: pg_linkCognitoSub_def queryRequired_def queryOne_def update_cognito_sub_def update_rows_def)
qed

lemma pg_linkCognitoSub_accepted:
  assumes ok: "identity_constraints db" and free: "\<not> refused (identity_of db) (Link_sub uid sub)"
  shows "\<exists>u db'. pg_linkCognitoSub uid sub db = (Inr u, db')"
proof -
  have ex: "list_ex (unlinked uid) (pg_users db)"
    and no: "\<not> list_ex (\<lambda>u. ur_cognito_sub u = Some sub) (pg_users db)"
    using free unlinked_iff [OF ok, of uid] by (auto simp: sub_taken_iff split: option.splits)
  obtain v vs where v: "filter (unlinked uid) (pg_users db) = v # vs"
    using ex by (cases "filter (unlinked uid) (pg_users db)") (auto simp: list_ex_iff filter_empty_conv)
  then have "v \<in> set (pg_users db)" by (metis filter_eq_ConsD in_set_conv_decomp)
  then have "userRow v = Some (user_of v)" by (rule user_parse [OF ok])
  then have "userRow (v\<lparr>ur_cognito_sub := Some sub\<rparr>) \<noteq> None" by (auto simp: userRow_def)
  then show ?thesis using v no
    by (auto simp: pg_linkCognitoSub_def queryRequired_def queryOne_def update_cognito_sub_def update_rows_def)
qed

lemma pg_createUser_run:
  "pg_createUser n db = (if list_ex (user_clash (new_users_row n)) (pg_users db) then (Inl Unique_violation, db)
     else (Inr (user_of (new_users_row n)), db\<lparr>pg_users := pg_users db @ [new_users_row n]\<rparr>))"
  by (simp add: pg_createUser_def queryRequired_def queryOne_def insert_user_def userRow_def user_of_def
      new_users_row_def active_status_schema_def active_of_def)

lemma pg_write_refused_iff:
  assumes ok: "identity_constraints db"
  shows "(\<exists>e. pg_write w db = (Inl e, db)) \<longleftrightarrow> refused (identity_of db) w"
    and "\<not> refused (identity_of db) w \<Longrightarrow> \<exists>db'. pg_write w db = (Inr (), db')"
proof -
  have "refused (identity_of db) w \<Longrightarrow> \<exists>e. pg_write w db = (Inl e, db)"
    and accepted: "\<not> refused (identity_of db) w \<Longrightarrow> \<exists>db'. pg_write w db = (Inr (), db')"
  proof (atomize (full), cases w)
    case (Record_mfa uid at)
    then show "(refused (identity_of db) w \<longrightarrow> (\<exists>e. pg_write w db = (Inl e, db))) \<and>
        (\<not> refused (identity_of db) w \<longrightarrow> (\<exists>db'. pg_write w db = (Inr (), db')))"
      using totp_rows(2) [OF ok, of uid] by (auto simp: pg_recordMfaMethod_def has_user_iff listMfa_of)
  next
    case (Create_user n)
    then show "(refused (identity_of db) w \<longrightarrow> (\<exists>e. pg_write w db = (Inl e, db))) \<and>
        (\<not> refused (identity_of db) w \<longrightarrow> (\<exists>db'. pg_write w db = (Inr (), db')))"
      using create_refused_iff [of n db] by (auto simp: pg_createUser_run simp del: refused.simps)
  next
    case (Link_sub uid sub)
    then show "(refused (identity_of db) w \<longrightarrow> (\<exists>e. pg_write w db = (Inl e, db))) \<and>
        (\<not> refused (identity_of db) w \<longrightarrow> (\<exists>db'. pg_write w db = (Inr (), db')))"
      using pg_linkCognitoSub_refused [OF ok, of uid sub] pg_linkCognitoSub_accepted [OF ok, of uid sub]
      by (auto simp del: refused.simps)
  next
    case (Assign t c u)
    then show "(refused (identity_of db) w \<longrightarrow> (\<exists>e. pg_write w db = (Inl e, db))) \<and>
        (\<not> refused (identity_of db) w \<longrightarrow> (\<exists>db'. pg_write w db = (Inr (), db')))"
      by (auto simp: pg_upsertServiceMembership_def has_user_iff assigned_iff contract_iff)
  qed (simp add: pg_removeServiceMembership_def)
  then show "(\<exists>e. pg_write w db = (Inl e, db)) \<longleftrightarrow> refused (identity_of db) w"
    by (metis Inl_Inr_False Pair_inject)
  show "\<not> refused (identity_of db) w \<Longrightarrow> \<exists>db'. pg_write w db = (Inr (), db')" by (rule accepted)
qed

lemma pg_write_refines:
  assumes "identity_constraints db" "pg_write w db = (Inr (), db')"
  shows "identity_constraints db' \<and> same_identity (identity_of db') (memory_write w (identity_of db))"
proof (cases w)
  case (Record_mfa uid at)
  then show ?thesis using assms record_mfa_refines [OF assms(1), of uid at] by auto
next
  case (Create_user n)
  then show ?thesis using assms create_user_refines [OF assms(1), of n]
    by (auto split: prod.splits sum.splits) (metis same_identity_refl snd_conv)
next
  case (Link_sub uid sub)
  then show ?thesis using assms link_sub_refines [OF assms(1), of uid sub]
    by (auto split: prod.splits sum.splits) (metis same_identity_refl snd_conv)
next
  case (Assign t c u)
  then show ?thesis using assms assign_refines [OF assms(1), of t c u] by auto
next
  case (Unassign t c u)
  then show ?thesis using assms unassign_refines [OF assms(1), of t c u] by auto
qed

fun pg_writes :: "identity_write list \<Rightarrow> (pg_identity, unit) sql" where
  "pg_writes [] = sql_return ()"
| "pg_writes (w # ws) = sql_bind (pg_write w) (\<lambda>_. pg_writes ws)"

definition memory_writes :: "identity_write list \<Rightarrow> identity_db \<Rightarrow> identity_db" where
  "memory_writes ws = fold memory_write ws"

lemma memory_writes_cong: "same_identity a b \<Longrightarrow> same_identity (memory_writes ws a) (memory_writes ws b)"
  unfolding memory_writes_def by (induction ws arbitrary: a b) (auto intro: memory_write_cong)

lemma pg_writes_refine:
  assumes "identity_constraints db" "pg_writes ws db = (Inr (), db')"
  shows "identity_constraints db' \<and> same_identity (identity_of db') (memory_writes ws (identity_of db))"
  using assms
proof (induction ws arbitrary: db)
  case (Cons w ws)
  obtain db1 where w: "pg_write w db = (Inr (), db1)" and ws: "pg_writes ws db1 = (Inr (), db')"
    using Cons.prems(2) by (auto split: prod.splits sum.splits)
  have "identity_constraints db1" "same_identity (identity_of db1) (memory_write w (identity_of db))"
    using pg_write_refines [OF Cons.prems(1) w] by auto
  then show ?case
    using Cons.IH [OF _ ws] memory_writes_cong [of "identity_of db1" "memory_write w (identity_of db)" ws]
    by (auto simp: memory_writes_def intro: same_identity_trans)
qed (simp add: memory_writes_def)

section \<open>Lists: the same rows, in the order of the query\<close>

lemma concat_map_cong: "(\<And>x. x \<in> set xs \<Longrightarrow> f x = g x) \<Longrightarrow> concat (map f xs) = concat (map g xs)"
  by (induction xs) auto

lemma concat_map_filter: "concat (map f (filter P xs)) = concat (map (\<lambda>x. if P x then f x else []) xs)"
  by (induction xs) auto

definition members_join :: "pg_identity \<Rightarrow> string \<Rightarrow> string \<Rightarrow> (users_row \<times> string) list" where
  "members_join db tid cid =
     concat (map (\<lambda>m. map (\<lambda>u. (u, mr_status m)) (filter (\<lambda>u. ur_id u = mr_user m) (pg_users db)))
       (filter (\<lambda>m. mr_tenant m = tid \<and> mr_client m = cid) (pg_members db)))"

definition member_of :: "users_row \<times> string \<Rightarrow> user \<times> active_status" where
  "member_of p = (user_of (fst p), active_of (snd p))"

lemma members_join_of:
  assumes "identity_constraints db"
  shows "map member_of (members_join db tid cid) = listServiceMembers (identity_of db) tid cid"
proof -
  have one: "filter (\<lambda>u. ur_id u = i) (pg_users db) =
      (case List.find (\<lambda>u. ur_id u = i) (pg_users db) of None \<Rightarrow> [] | Some u \<Rightarrow> [u])" for i
    by (rule filter_key [OF constraint_rows(1) [OF assms]])
  show ?thesis
    by (auto simp: members_join_def listServiceMembers_def map_concat filter_map o_def one findUserById_def find_map
        member_of_def intro!: concat_map_cong split: option.splits)
qed

lemma members_join_parse:
  assumes "identity_constraints db" "p \<in> set (members_join db tid cid)"
  shows "memberRow p = Some (member_of p)"
proof -
  obtain u m where p: "p = (u, mr_status m)" "u \<in> set (pg_users db)" "m \<in> set (pg_members db)"
    using assms(2) by (auto simp: members_join_def)
  then show ?thesis
    using user_parse [OF assms(1)] membership_parse [OF assms(1)]
    by (simp add: memberRow_def member_of_def membershipRow_def)
qed

lemma pg_listServiceMembers_run:
  assumes "identity_constraints db"
  shows "pg_listServiceMembers collate tid cid db =
    (Inr (map member_of (sort_key (\<lambda>p. collate (ur_email (fst p))) (members_join db tid cid))), db)"
  unfolding pg_listServiceMembers_def
  by (rule queryAll_rows) (use members_join_parse [OF assms] in \<open>auto simp: members_join_def case_prod_beta'\<close>)

lemma pg_members_listed:
  assumes "identity_constraints db"
  obtains ms where "pg_listServiceMembers collate tid cid db = (Inr ms, db)"
    "mset ms = mset (listServiceMembers (identity_of db) tid cid)"
    "sorted (map (\<lambda>(u, _). collate (user_email u)) ms)"
proof
  let ?rows = "sort_key (\<lambda>p. collate (ur_email (fst p))) (members_join db tid cid)"
  show "pg_listServiceMembers collate tid cid db = (Inr (map member_of ?rows), db)"
    by (rule pg_listServiceMembers_run [OF assms])
  show "mset (map member_of ?rows) = mset (listServiceMembers (identity_of db) tid cid)"
    by (simp flip: members_join_of [OF assms])
  have "map (\<lambda>(u, _). collate (user_email u)) (map member_of ?rows) = map (\<lambda>p. collate (ur_email (fst p))) ?rows"
    by (simp add: member_of_def)
  then show "sorted (map (\<lambda>(u, _). collate (user_email u)) (map member_of ?rows))"
    by (metis sorted_sort_key)
qed

text \<open>The portal: a row of the join is one service, or none.\<close>

definition portal_row_of :: "pg_identity \<Rightarrow> members_row \<Rightarrow> portal_row list" where
  "portal_row_of db m =
     (case (List.find (\<lambda>t. tr_id t = mr_tenant m) (pg_tenants db),
        List.find (\<lambda>v. (vr_tenant v, vr_client v) = (mr_tenant m, mr_client m)) (pg_services db),
        List.find (\<lambda>c. cr_id c = mr_client m) (pg_clients db)) of
        (Some t, Some v, Some c) \<Rightarrow>
          if tr_status t = ''active'' \<and> vr_status v = ''active'' \<and> cr_status c = ''active''
          then [\<lparr>pr_tenant_id = tr_id t, pr_slug = tr_slug t, pr_name = tr_name t, pr_status = tr_status t,
                 pr_client_id = cr_client_id c, pr_client_name = cr_name c, pr_template = cr_template c\<rparr>]
          else []
      | _ \<Rightarrow> [])"

lemma portal_join_rows:
  assumes "identity_constraints db"
  shows "portal_join db uid = concat (map (portal_row_of db)
    (filter (\<lambda>m. mr_user m = uid \<and> mr_status m = ''active'') (pg_members db)))"
proof -
  note keys = constraint_rows [OF assms]
  have t: "filter (\<lambda>t. tr_id t = i \<and> tr_status t = ''active'') (pg_tenants db) =
      (case List.find (\<lambda>t. tr_id t = i) (pg_tenants db) of None \<Rightarrow> [] | Some t \<Rightarrow> filter (\<lambda>t. tr_status t = ''active'') [t])" for i
    unfolding filter_conj filter_key [OF keys(4)] by (simp split: option.split)
  have v: "filter (\<lambda>s. vr_tenant s = i \<and> vr_client s = j \<and> vr_status s = ''active'') (pg_services db) =
      (case List.find (\<lambda>v. (vr_tenant v, vr_client v) = (i, j)) (pg_services db) of None \<Rightarrow> []
       | Some v \<Rightarrow> filter (\<lambda>v. vr_status v = ''active'') [v])" for i j
  proof -
    have "filter (\<lambda>s. vr_tenant s = i \<and> vr_client s = j \<and> vr_status s = ''active'') (pg_services db) =
        filter (\<lambda>s. vr_status s = ''active'') (filter (\<lambda>s. (vr_tenant s, vr_client s) = (i, j)) (pg_services db))"
      by (simp add: conj_assoc)
    then show ?thesis unfolding filter_key [OF keys(8)] by (simp split: option.split)
  qed
  have c: "filter (\<lambda>c. cr_id c = i \<and> cr_status c = ''active'') (pg_clients db) =
      (case List.find (\<lambda>c. cr_id c = i) (pg_clients db) of None \<Rightarrow> [] | Some c \<Rightarrow> filter (\<lambda>c. cr_status c = ''active'') [c])" for i
    unfolding filter_conj filter_key [OF keys(6)] by (simp split: option.split)
  show ?thesis
    unfolding portal_join_def t v c portal_row_of_def
    by (rule concat_map_cong) (auto split: option.splits)
qed

text \<open>The loop groups sorted rows into one entry per tenant, in the order of the rows.\<close>

definition service_of :: "(string \<Rightarrow> string) \<Rightarrow> portal_row \<Rightarrow> portal_service" where
  "service_of url_origin r = \<lparr>ps_client_id = pr_client_id r, ps_name = pr_client_name r,
     ps_origin = serviceOrigin url_origin (pr_template r) (pr_slug r)\<rparr>"

definition entry_of :: "(string \<Rightarrow> string) \<Rightarrow> (tenant \<times> portal_row) list \<Rightarrow> tenant \<Rightarrow> portal_entry" where
  "entry_of url_origin rows t =
     \<lparr>pe_tenant = t, pe_services = map (\<lambda>p. service_of url_origin (snd p)) (filter (\<lambda>p. fst p = t) rows)\<rparr>"

lemma remdups_adj_strict:
  fixes key :: "'a \<Rightarrow> 'b::linorder"
  shows "inj_on key (set ts) \<Longrightarrow> sorted (map key ts) \<Longrightarrow> sorted_wrt (\<lambda>a b. key a < key b) (remdups_adj ts)"
proof (induction ts rule: remdups_adj.induct)
  case (3 x y xs)
  show ?case
  proof (cases "x = y")
    case True
    then show ?thesis using 3 by simp
  next
    case False
    have "key x < key z" if "z \<in> set (y # xs)" for z
    proof -
      have "key x \<le> key y" "key y \<le> key z" using "3.prems"(2) that by auto
      moreover have "key x \<noteq> key y" using inj_onD [OF "3.prems"(1), of x y] False by auto
      ultimately show ?thesis by simp
    qed
    then show ?thesis using 3 False by simp
  qed
qed simp_all

lemma remdups_adj_grouped:
  "inj_on key (set ts) \<Longrightarrow> sorted (map key ts) \<Longrightarrow> distinct (remdups_adj ts)"
  using remdups_adj_strict [of key ts] by (metis distinct_map sorted_wrt_map strict_sorted_iff)

lemma portal_grouped:
  assumes "inj_on key (set (map fst rows))" "sorted (map key (map fst rows))"
    "inj_on tenant_id (set (map fst rows))" "\<And>p. p \<in> set rows \<Longrightarrow> pr_tenant_id (snd p) = tenant_id (fst p)"
  shows "foldl (portal_push url_origin) [] rows = map (entry_of url_origin rows) (remdups_adj (map fst rows))"
  using assms
proof (induction rows rule: rev_induct)
  case (snoc x rows)
  obtain t r where x: "x = (t, r)" by fastforce
  have id: "pr_tenant_id r = tenant_id t" using snoc.prems(4) [of x] x by simp
  have ih: "foldl (portal_push url_origin) [] rows = map (entry_of url_origin rows) (remdups_adj (map fst rows))"
    using snoc.prems by (intro snoc.IH) (auto simp: sorted_append inj_on_def)
  show ?case
  proof (cases rows rule: rev_cases)
    case Nil
    then show ?thesis by (simp add: x portal_push_def entry_of_def service_of_def)
  next
    case (snoc ys y)
    define ts where "ts = map fst rows"
    have ts: "ts = map fst ys @ [fst y]" by (simp add: ts_def snoc)
    have us: "remdups_adj ts \<noteq> []" "last (remdups_adj ts) = fst y" by (simp_all add: ts)
    have two: "remdups_adj (ts @ [t]) = remdups_adj ts @ (if fst y = t then [] else [t])"
      using remdups_adj_append_two [of "map fst ys" "fst y" t] by (simp add: ts)
    have inj: "inj_on key (set (ts @ [t]))" and ord: "sorted (map key (ts @ [t]))"
      and idinj: "inj_on tenant_id (set (ts @ [t]))"
      using snoc.prems(1-3) by (simp_all add: ts_def x)
    have push: "foldl (portal_push url_origin) [] (rows @ [x]) =
        portal_push url_origin (map (entry_of url_origin rows) (remdups_adj ts)) (t, r)"
      by (simp add: ih x ts_def)
    have last_entry: "last (map (entry_of url_origin rows) (remdups_adj ts)) = entry_of url_origin rows (fst y)"
      using us by (simp add: last_map)
    show ?thesis
    proof (cases "fst y = t")
      case True
      have "distinct (remdups_adj ts)"
        using inj ord by (intro remdups_adj_grouped [of key]) (auto simp: sorted_append inj_on_def)
      moreover obtain vs where vs: "remdups_adj ts = vs @ [t]"
        using us True by (metis append_butlast_last_id)
      ultimately have "t \<notin> set vs" by simp
      then have same: "map (entry_of url_origin rows) vs = map (entry_of url_origin (rows @ [x])) vs"
        by (auto simp: entry_of_def x)
      have e: "remdups_adj (map fst (rows @ [x])) = vs @ [t]" using two vs True by (simp add: ts_def x)
      have "foldl (portal_push url_origin) [] (rows @ [x]) =
          portal_push url_origin (map (entry_of url_origin rows) vs @ [entry_of url_origin rows t]) (t, r)"
        using push vs by simp
      also have "\<dots> = map (entry_of url_origin rows) vs @ [entry_of url_origin (rows @ [x]) t]"
        by (simp add: portal_push_def entry_of_def service_of_def id x)
      also have "\<dots> = map (entry_of url_origin (rows @ [x])) (remdups_adj (map fst (rows @ [x])))"
        unfolding e same by simp
      finally show ?thesis .
    next
      case False
      have "t \<notin> set ts"
      proof
        assume "t \<in> set ts"
        then have "key t \<le> key (fst y)" "key (fst y) \<le> key t" using ord by (auto simp: ts sorted_append)
        then have "t = fst y" by (intro inj_onD [OF inj]) (auto simp: ts)
        with False show False by simp
      qed
      then have same: "map (entry_of url_origin rows) (remdups_adj ts) = map (entry_of url_origin (rows @ [x])) (remdups_adj ts)"
        and none: "filter (\<lambda>p. fst p = t) rows = []"
        by (auto simp: entry_of_def x ts_def filter_empty_conv)
      have new: "entry_of url_origin (rows @ [x]) t = \<lparr>pe_tenant = t, pe_services = [service_of url_origin r]\<rparr>"
        using none by (simp add: entry_of_def x)
      have e: "remdups_adj (map fst (rows @ [x])) = remdups_adj ts @ [t]" using two False by (simp add: ts_def x)
      have "tenant_id (fst y) \<noteq> tenant_id t" using inj_onD [OF idinj, of "fst y" t] False by (auto simp: ts)
      then have other: "tenant_id (pe_tenant (last (map (entry_of url_origin rows) (remdups_adj ts)))) \<noteq> pr_tenant_id r"
        unfolding last_entry by (simp add: entry_of_def id)
      have "map (entry_of url_origin (rows @ [x])) (remdups_adj (map fst (rows @ [x]))) =
          map (entry_of url_origin rows) (remdups_adj ts) @ [\<lparr>pe_tenant = t, pe_services = [service_of url_origin r]\<rparr>]"
        unfolding e unfolding same by (simp add: new)
      then show ?thesis
        unfolding push by (simp only: portal_push_def Let_def prod.case other service_of_def simp_thms if_True)
    qed
  qed
qed simp

text \<open>The rows of one tenant are the services that the memory repository lists for it.\<close>

lemma filter_concat_map: "filter P (concat (map f xs)) = concat (map (\<lambda>x. filter P (f x)) xs)"
  by (induction xs) auto

lemma portal_row_tenant: "r \<in> set (portal_row_of db m) \<Longrightarrow> pr_tenant_id r = mr_tenant m"
  by (auto simp: portal_row_of_def dest!: find_Some_iff' sym [of "Some _"] split: option.splits if_splits)

lemma portal_services_of:
  assumes ok: "identity_constraints db" and t: "t \<in> set (pg_tenants db)" "tr_status t = ''active''"
  shows "map (service_of url_origin) (filter (\<lambda>r. pr_tenant_id r = tr_id t) (portal_join db uid)) =
    portal_services url_origin (identity_of db) uid (tenant_of t)"
proof -
  have here: "List.find (\<lambda>x. tr_id x = tr_id t) (pg_tenants db) = Some t"
    by (rule find_row [OF constraint_rows(4) [OF ok] t(1) refl])
  have row: "map (service_of url_origin) (filter (\<lambda>r. pr_tenant_id r = tr_id t) (portal_row_of db m)) =
      (if mr_tenant m = tr_id t then
         (case findContract (identity_of db) (tr_id t) (mr_client m) of
            Some In_force \<Rightarrow>
              (case findClientById (identity_of db) (mr_client m) of
                 Some c \<Rightarrow> if oc_status c \<noteq> Active then []
                   else [\<lparr>ps_client_id = oc_client_id c, ps_name = oc_name c,
                          ps_origin = serviceOrigin url_origin (oc_redirect_template c) (tr_slug t)\<rparr>]
               | None \<Rightarrow> [])
          | _ \<Rightarrow> [])
       else [])" for m
  proof (cases "mr_tenant m = tr_id t")
    case True
    have c: "findClientById (identity_of db) (mr_client m) =
        map_option client_of (map_option (\<lambda>c. (c, active_hashes db (cr_id c)))
          (List.find (\<lambda>c. cr_id c = mr_client m) (pg_clients db)))"
      by (simp add: findClientById_def CLIENT_SELECT_def find_map option.map_comp o_def)
    have v: "findContract (identity_of db) (tr_id t) (mr_client m) =
        map_option (\<lambda>v. suspend_of (vr_status v))
          (List.find (\<lambda>v. (vr_tenant v, vr_client v) = (mr_tenant m, mr_client m)) (pg_services db))"
      using True by (simp add: findContract_def find_map option.map_comp o_def)
    show ?thesis
      using True here t(2) unfolding c v portal_row_of_def
      by (auto simp: service_of_def client_of_def active_of_def suspend_of_def split: option.split)
  next
    case False
    then show ?thesis using portal_row_tenant [of _ db m] by (auto simp: filter_empty_conv)
  qed
  have act: "active_of s = Active \<longleftrightarrow> s = ''active''" for s by (simp add: active_of_def)
  have "map (service_of url_origin) (filter (\<lambda>r. pr_tenant_id r = tr_id t) (portal_join db uid)) =
      concat (map (\<lambda>m. map (service_of url_origin) (filter (\<lambda>r. pr_tenant_id r = tr_id t) (portal_row_of db m)))
        (filter (\<lambda>m. mr_user m = uid \<and> mr_status m = ''active'') (pg_members db)))"
    by (simp add: portal_join_rows [OF ok] filter_concat_map map_concat o_def)
  also have "\<dots> = portal_services url_origin (identity_of db) uid (tenant_of t)"
    unfolding row portal_services_def
    by (simp add: filter_map o_def act concat_map_filter if_distrib conj_ac cong: if_cong)
      (rule concat_map_cong, auto split: option.splits suspend_status.splits)
  finally show ?thesis .
qed

definition portal_rows :: "(string \<Rightarrow> string) \<Rightarrow> pg_identity \<Rightarrow> string \<Rightarrow> portal_row list" where
  "portal_rows collate db uid =
     sort_key (\<lambda>r. (collate (pr_slug r), collate (pr_client_id r))) (portal_join db uid)"

definition portal_tenant :: "portal_row \<Rightarrow> tenant" where
  "portal_tenant r = \<lparr>tenant_id = pr_tenant_id r, tenant_slug = pr_slug r, tenant_name = pr_name r,
     tenant_status = suspend_of (pr_status r)\<rparr>"

lemma portal_join_tenant:
  assumes "identity_constraints db" "r \<in> set (portal_join db uid)"
  obtains t where "t \<in> set (pg_tenants db)" "tr_status t = ''active''" "portal_tenant r = tenant_of t"
    "pr_tenant_id r = tr_id t" "pr_slug r = tr_slug t"
proof -
  obtain m where "r \<in> set (portal_row_of db m)" using assms(2) by (auto simp: portal_join_rows [OF assms(1)])
  then show thesis
    by (auto simp: portal_row_of_def portal_tenant_def tenant_of_def dest!: find_Some_iff' sym [of "Some _"]
        split: option.splits if_splits intro!: that)
qed

lemma pg_listPortalEntries_run:
  assumes ok: "identity_constraints db"
  shows "pg_listPortalEntries collate url_origin uid db =
    (Inr (foldl (portal_push url_origin) [] (map (\<lambda>r. (portal_tenant r, r)) (portal_rows collate db uid))), db)"
proof -
  have "portalRow r = Some (portal_tenant r, r)" if "r \<in> set (portal_rows collate db uid)" for r
  proof -
    have r: "r \<in> set (portal_join db uid)" using that by (simp add: portal_rows_def)
    obtain m where "r \<in> set (portal_row_of db m)" using r by (auto simp: portal_join_rows [OF ok])
    then have "pr_status r = ''active''" by (auto simp: portal_row_of_def split: option.splits if_splits)
    then show ?thesis by (simp add: portalRow_def portal_tenant_def suspend_status_schema_def suspend_of_def)
  qed
  then have "queryAll portalRow (\<lambda>db. (Inr (portal_rows collate db uid), db)) db =
      (Inr (map (\<lambda>r. (portal_tenant r, r)) (portal_rows collate db uid)), db)"
    by (intro queryAll_rows) auto
  then show ?thesis by (simp add: pg_listPortalEntries_def portal_rows_def)
qed

lemma tenant_names_unique:
  assumes "identity_constraints db" "s \<in> set (pg_tenants db)" "t \<in> set (pg_tenants db)"
  shows "tr_id s = tr_id t \<longleftrightarrow> s = t" "tr_slug s = tr_slug t \<longleftrightarrow> s = t"
  using constraint_rows(4,5) [OF assms(1)] assms(2,3) by (auto simp: distinct_map inj_on_def)

lemma portal_slugs:
  assumes ok: "identity_constraints db" and "inj collate"
  shows "sorted (map (\<lambda>t. collate (tenant_slug t)) (map portal_tenant (portal_rows collate db uid))) \<and>
    inj_on (\<lambda>t. collate (tenant_slug t)) (set (map portal_tenant (portal_rows collate db uid)))"
proof
  have "sorted (map (\<lambda>r. (collate (pr_slug r), collate (pr_client_id r))) (portal_rows collate db uid))"
    by (simp add: portal_rows_def)
  then have "sorted (map (\<lambda>r. collate (pr_slug r)) (portal_rows collate db uid))"
    by (auto simp: sorted_map elim!: sorted_wrt_mono_rel [rotated])
  then show "sorted (map (\<lambda>t. collate (tenant_slug t)) (map portal_tenant (portal_rows collate db uid)))"
    by (simp add: portal_tenant_def o_def)
  show "inj_on (\<lambda>t. collate (tenant_slug t)) (set (map portal_tenant (portal_rows collate db uid)))"
  proof (rule inj_onI)
    fix x y assume "x \<in> set (map portal_tenant (portal_rows collate db uid))"
      "y \<in> set (map portal_tenant (portal_rows collate db uid))"
    then obtain r s where rs: "r \<in> set (portal_join db uid)" "s \<in> set (portal_join db uid)"
      "x = portal_tenant r" "y = portal_tenant s" by (auto simp: portal_rows_def)
    obtain t where t: "t \<in> set (pg_tenants db)" "x = tenant_of t" using portal_join_tenant [OF ok rs(1)] rs(3) by metis
    obtain v where v: "v \<in> set (pg_tenants db)" "y = tenant_of v" using portal_join_tenant [OF ok rs(2)] rs(4) by metis
    show "collate (tenant_slug x) = collate (tenant_slug y) \<Longrightarrow> x = y"
      using tenant_names_unique(2) [OF ok t(1) v(1)] t(2) v(2) injD [OF assms(2)] by auto
  qed
qed

lemma portal_ids_unique:
  assumes ok: "identity_constraints db"
  shows "inj_on tenant_id (set (map portal_tenant (portal_rows collate db uid)))"
proof (rule inj_onI)
  fix x y assume "x \<in> set (map portal_tenant (portal_rows collate db uid))"
    "y \<in> set (map portal_tenant (portal_rows collate db uid))"
  then obtain r s where rs: "r \<in> set (portal_join db uid)" "s \<in> set (portal_join db uid)"
    "x = portal_tenant r" "y = portal_tenant s" by (auto simp: portal_rows_def)
  obtain t where t: "t \<in> set (pg_tenants db)" "x = tenant_of t" using portal_join_tenant [OF ok rs(1)] rs(3) by metis
  obtain v where v: "v \<in> set (pg_tenants db)" "y = tenant_of v" using portal_join_tenant [OF ok rs(2)] rs(4) by metis
  show "tenant_id x = tenant_id y \<Longrightarrow> x = y"
    using tenant_names_unique(1) [OF ok t(1) v(1)] t(2) v(2) by auto
qed

lemma portal_entries_of_rows:
  assumes ok: "identity_constraints db" and "inj collate"
  shows "pg_listPortalEntries collate url_origin uid db =
    (Inr (map (entry_of url_origin (map (\<lambda>r. (portal_tenant r, r)) (portal_rows collate db uid)))
      (remdups_adj (map portal_tenant (portal_rows collate db uid)))), db)"
proof -
  let ?rows = "map (\<lambda>r. (portal_tenant r, r)) (portal_rows collate db uid)"
  have fst: "map fst ?rows = map portal_tenant (portal_rows collate db uid)" by simp
  have "foldl (portal_push url_origin) [] ?rows = map (entry_of url_origin ?rows) (remdups_adj (map fst ?rows))"
  proof (rule portal_grouped [of "\<lambda>t. collate (tenant_slug t)"])
    show "pr_tenant_id (snd p) = tenant_id (fst p)" if "p \<in> set ?rows" for p
      using that by (auto simp: portal_tenant_def)
  qed (use portal_slugs [OF assms] portal_ids_unique [OF ok] in \<open>simp_all only: fst\<close>)
  then show ?thesis unfolding fst by (simp only: pg_listPortalEntries_run [OF ok])
qed

section \<open>The seeded database\<close>

text \<open>db/identity/init/003_seed.sql, ids and URLs shortened.\<close>

definition seed_member :: "string \<Rightarrow> string \<Rightarrow> string \<Rightarrow> members_row" where
  "seed_member t c u = \<lparr>mr_tenant = t, mr_client = c, mr_user = u, mr_status = ''active''\<rparr>"

definition seed_client :: "string \<Rightarrow> string \<Rightarrow> clients_row" where
  "seed_client i n = \<lparr>cr_id = i, cr_client_id = n, cr_name = n, cr_audience = n,
     cr_template = ''http://{tenant}.'' @ n, cr_scopes = SUPPORTED_SCOPES, cr_backchannel = None,
     cr_status = ''active''\<rparr>"

definition pg_seed :: pg_identity where
  "pg_seed = \<lparr>
     pg_users = [\<lparr>ur_id = ''ALICE'', ur_cognito_sub = Some ''sub-alice'', ur_email = ''alice@example.com'',
         ur_name = Some ''Alice'', ur_status = ''active''\<rparr>,
       \<lparr>ur_id = ''BOB'', ur_cognito_sub = Some ''sub-bob'', ur_email = ''bob@example.com'',
         ur_name = Some ''Bob'', ur_status = ''active''\<rparr>],
     pg_tenants = [\<lparr>tr_id = ''TANAKA'', tr_slug = ''tanaka'', tr_name = ''Tanaka Inc.'', tr_status = ''active''\<rparr>,
       \<lparr>tr_id = ''SUZUKI'', tr_slug = ''suzuki'', tr_name = ''Suzuki Ltd.'', tr_status = ''active''\<rparr>],
     pg_clients = [seed_client ''CRM'' ''crm'', seed_client ''CMS'' ''cms''],
     pg_secrets = [\<lparr>sr_client = ''CRM'', sr_hash = ''h1'', sr_status = ''active''\<rparr>,
       \<lparr>sr_client = ''CMS'', sr_hash = ''h2'', sr_status = ''active''\<rparr>],
     pg_services = [\<lparr>vr_tenant = ''TANAKA'', vr_client = ''CRM'', vr_status = ''active''\<rparr>,
       \<lparr>vr_tenant = ''TANAKA'', vr_client = ''CMS'', vr_status = ''active''\<rparr>,
       \<lparr>vr_tenant = ''SUZUKI'', vr_client = ''CRM'', vr_status = ''active''\<rparr>],
     pg_members = [seed_member ''TANAKA'' ''CRM'' ''ALICE'', seed_member ''TANAKA'' ''CMS'' ''ALICE'',
       seed_member ''SUZUKI'' ''CRM'' ''ALICE'', seed_member ''SUZUKI'' ''CRM'' ''BOB''],
     pg_mfa = []\<rparr>"

lemma pg_seed_ok: "identity_constraints pg_seed"
  by (simp add: identity_constraints_def users_constraints_def tenants_constraints_def clients_constraints_def
      services_constraints_def members_constraints_def mfa_constraints_def pg_seed_def seed_member_def
      seed_client_def member_key_of_def active_text_def suspend_text_def)

definition seed_writes :: "identity_write list" where
  "seed_writes = [Create_user \<lparr>nu_id = ''DAVE'', nu_cognito_sub = None, nu_email = ''dave@example.com'', nu_name = None\<rparr>,
     Assign ''SUZUKI'' ''CRM'' ''DAVE'', Link_sub ''DAVE'' ''sub-dave'', Record_mfa ''DAVE'' 7,
     Unassign ''SUZUKI'' ''CRM'' ''BOB'']"

lemma seed_run: "pg_writes seed_writes pg_seed = (Inr (), snd (pg_writes seed_writes pg_seed))"
  by (simp add: seed_writes_def pg_seed_def seed_member_def seed_client_def pg_createUser_run user_clash_def
      new_users_row_def pg_upsertServiceMembership_def has_user_def member_key_of_def pg_linkCognitoSub_def
      queryRequired_def queryOne_def update_cognito_sub_def update_rows_def unlinked_def userRow_def
      active_status_schema_def pg_recordMfaMethod_def pg_removeServiceMembership_def)

section \<open>Properties\<close>

definition assignment_key :: "membership_row \<Rightarrow> string \<times> string \<times> string" where
  "assignment_key m = (mb_tenant m, mb_client m, mb_user m)"

lemma same_lookups:
  assumes "same_identity a b" "distinct (map assignment_key (id_memberships a))"
  shows "findServiceMembership a t c u = findServiceMembership b t c u"
proof -
  have "same_membership t c u = (\<lambda>m. assignment_key m = (t, c, u))"
    by (auto simp: fun_eq_iff same_membership_def assignment_key_def)
  then show ?thesis
    using find_mset [OF _ assms(2), of "id_memberships b" "(t, c, u)"] assms(1)
    by (simp add: findServiceMembership_def same_identity_def)
qed

lemma assignment_keys: "identity_constraints db \<Longrightarrow> distinct (map assignment_key (id_memberships (identity_of db)))"
  using constraint_rows(9) [of db] by (simp add: assignment_key_def o_def member_key_of_def [abs_def])





text \<open>
  Every row that the schema admits is accepted by the row schema that validates it when it is read, before
  and after any run of writes: no read of the repository ends in a validation error.
\<close>

theorem stored_rows_are_typed:
  assumes "identity_constraints db" "pg_writes ws db = (Inr (), db')"
  shows "list_all (\<lambda>r. userRow r \<noteq> None) (pg_users db') \<and> list_all (\<lambda>r. tenantRow r \<noteq> None) (pg_tenants db') \<and>
    list_all (\<lambda>r. clientRow r \<noteq> None) (CLIENT_SELECT db') \<and>
    list_all (\<lambda>r. contractRow r \<noteq> None) (pg_services db') \<and>
    list_all (\<lambda>r. membershipRow r \<noteq> None) (pg_members db') \<and> list_all (\<lambda>r. mfaMethodRow r \<noteq> None) (pg_mfa db')"
proof -
  have ok: "identity_constraints db'" using pg_writes_refine [OF assms] by auto
  show ?thesis
    using user_parse [OF ok] tenant_parse [OF ok] client_parse [OF ok] contract_parse [OF ok]
      membership_parse [OF ok] mfa_parse [OF ok] by (simp add: list_all_iff)
qed

theorem stored_rows_are_typed_witness:
  "list_all (\<lambda>r. userRow r \<noteq> None) (pg_users (snd (pg_writes seed_writes pg_seed)))"
  using stored_rows_are_typed [OF pg_seed_ok seed_run] by blast

lemma portal_row_entry:
  assumes ok: "identity_constraints db" and "r \<in> set (portal_rows collate db uid)"
    and e_def: "e = entry_of url_origin (map (\<lambda>r. (portal_tenant r, r)) (portal_rows collate db uid)) (portal_tenant r)"
  shows "mset (pe_services e) = mset (portal_services url_origin (identity_of db) uid (portal_tenant r))"
    and "sorted (map (\<lambda>s. collate (ps_client_id s)) (pe_services e))"
    and "portal_services url_origin (identity_of db) uid (portal_tenant r) \<noteq> []"
    and "portal_tenant r \<in> set (id_tenants (identity_of db)) \<and> tenant_status (portal_tenant r) = In_force"
proof -
  let ?own = "filter (\<lambda>x. pr_tenant_id x = pr_tenant_id r) (portal_rows collate db uid)"
  have set: "set (portal_rows collate db uid) = set (portal_join db uid)" by (simp add: portal_rows_def)
  have r: "r \<in> set (portal_join db uid)" using assms(2) set by simp
  obtain t where t: "t \<in> set (pg_tenants db)" "tr_status t = ''active''" "portal_tenant r = tenant_of t"
    "pr_tenant_id r = tr_id t" "pr_slug r = tr_slug t"
    by (rule portal_join_tenant [OF ok r])
  have same: "portal_tenant x = portal_tenant r \<longleftrightarrow> pr_tenant_id x = pr_tenant_id r"
    and slug: "pr_tenant_id x = pr_tenant_id r \<Longrightarrow> pr_slug x = pr_slug r"
    if "x \<in> set (portal_rows collate db uid)" for x
  proof -
    have "x \<in> set (portal_join db uid)" using that set by simp
    then obtain v where v: "v \<in> set (pg_tenants db)" "portal_tenant x = tenant_of v" "pr_tenant_id x = tr_id v"
      "pr_slug x = tr_slug v" by (rule portal_join_tenant [OF ok])
    then show "portal_tenant x = portal_tenant r \<longleftrightarrow> pr_tenant_id x = pr_tenant_id r"
      and "pr_tenant_id x = pr_tenant_id r \<Longrightarrow> pr_slug x = pr_slug r"
      using tenant_names_unique(1) [OF ok v(1) t(1)] t
      by (auto simp: portal_tenant_def) (metis tenant_of_names(1))
  qed
  have services: "pe_services e = map (service_of url_origin) ?own"
  proof -
    have "filter (\<lambda>x. portal_tenant x = portal_tenant r) (portal_rows collate db uid) = ?own"
      using same by (intro filter_cong) auto
    then show ?thesis by (simp add: e_def entry_of_def filter_map o_def)
  qed
  have own: "mset ?own = mset (filter (\<lambda>x. pr_tenant_id x = tr_id t) (portal_join db uid))"
    by (simp add: portal_rows_def mset_filter t(4))
  show m: "mset (pe_services e) = mset (portal_services url_origin (identity_of db) uid (portal_tenant r))"
    unfolding t(3) portal_services_of [OF ok t(1,2), symmetric] services mset_map own ..
  show "portal_services url_origin (identity_of db) uid (portal_tenant r) \<noteq> []"
  proof -
    have "r \<in> set ?own" using assms(2) by simp
    then have "pe_services e \<noteq> []" unfolding services by force
    then show ?thesis using m by (metis mset_zero_iff)
  qed
  show "portal_tenant r \<in> set (id_tenants (identity_of db)) \<and> tenant_status (portal_tenant r) = In_force"
  proof
    show "portal_tenant r \<in> set (id_tenants (identity_of db))" unfolding t(3) using t(1) by simp
    show "tenant_status (portal_tenant r) = In_force" unfolding t(3) by (simp add: tenant_of_def suspend_of_def t(2))
  qed
  have "sorted (map (\<lambda>r. (collate (pr_slug r), collate (pr_client_id r))) ?own)"
    unfolding portal_rows_def by (rule sorted_filter) simp
  then have "sorted (map (\<lambda>r. collate (pr_client_id r)) ?own)"
    unfolding sorted_map using slug by (elim sorted_wrt_mono_rel [rotated]) auto
  then show "sorted (map (\<lambda>s. collate (ps_client_id s)) (pe_services e))"
    unfolding services by (simp add: service_of_def o_def)
qed

text \<open>
  The portal of a user, built by one join and a loop that starts a new entry whenever the tenant of the
  row changes, has exactly one entry for each active tenant in which the user has a service to enter, with
  exactly the services the memory repository lists for it; tenants come in the order of their slugs and the
  services of a tenant in the order of their client ids.
\<close>

theorem portal_from_tables:
  assumes ok: "identity_constraints db" and "inj collate"
  shows "\<exists>es. pg_listPortalEntries collate url_origin uid db = (Inr es, db) \<and>
    sorted_wrt (\<lambda>a b. collate (tenant_slug (pe_tenant a)) < collate (tenant_slug (pe_tenant b))) es \<and>
    list_all (\<lambda>e. sorted (map (\<lambda>s. collate (ps_client_id s)) (pe_services e))) es \<and>
    (\<lambda>e. (pe_tenant e, mset (pe_services e))) ` set es =
      (\<lambda>e. (pe_tenant e, mset (pe_services e))) ` set (listPortalEntries url_origin (identity_of db) uid)"
proof -
  let ?R = "portal_rows collate db uid" and ?obs = "\<lambda>e. (pe_tenant e, mset (pe_services e))"
  let ?entry = "entry_of url_origin (map (\<lambda>r. (portal_tenant r, r)) ?R)"
  let ?es = "map ?entry (remdups_adj (map portal_tenant ?R))"
  have "sorted (map (\<lambda>t. collate (tenant_slug t)) (map portal_tenant ?R)) \<and>
      inj_on (\<lambda>t. collate (tenant_slug t)) (set (map portal_tenant ?R))"
    by (rule portal_slugs [OF ok assms(2)])
  then have slugs: "sorted_wrt (\<lambda>a b. collate (tenant_slug a) < collate (tenant_slug b)) (remdups_adj (map portal_tenant ?R))"
    by (intro remdups_adj_strict) simp_all
  have pt: "pe_tenant (?entry t) = t" for t by (simp add: entry_of_def)
  have "?obs ` set ?es = (\<lambda>t. (t, mset (portal_services url_origin (identity_of db) uid t))) ` set (map portal_tenant ?R)"
  proof -
    have "?obs (?entry t) = (t, mset (portal_services url_origin (identity_of db) uid t))"
      if "t \<in> set (map portal_tenant ?R)" for t
      using that portal_row_entry(1) [OF ok _ refl] by (auto simp only: pt set_map image_iff)
    then show ?thesis unfolding set_map [of ?entry] remdups_adj_set image_image by (intro image_cong refl) blast
  qed
  also have "\<dots> = ?obs ` set (listPortalEntries url_origin (identity_of db) uid)"
  proof -
    have "t \<in> portal_tenant ` set ?R"
      if a: "t \<in> set (id_tenants (identity_of db))" "tenant_status t = In_force"
        "portal_services url_origin (identity_of db) uid t \<noteq> []" for t
    proof -
      obtain v where v: "v \<in> set (pg_tenants db)" "t = tenant_of v" "tr_status v = ''active''"
        using a(1,2) by (auto simp: tenant_of_def suspend_of_def split: if_splits)
      have "filter (\<lambda>r. pr_tenant_id r = tr_id v) (portal_join db uid) \<noteq> []"
        using portal_services_of [OF ok v(1,3), of url_origin uid] a(3) v(2) by auto
      then obtain r where r: "r \<in> set (portal_join db uid)" "pr_tenant_id r = tr_id v"
        unfolding filter_empty_conv by blast
      obtain w where w: "w \<in> set (pg_tenants db)" "portal_tenant r = tenant_of w" "pr_tenant_id r = tr_id w"
        by (rule portal_join_tenant [OF ok r(1)])
      have "w = v" using tenant_names_unique(1) [OF ok w(1) v(1)] r(2) w(3) by simp
      then have "t = portal_tenant r" using v(2) w(2) by simp
      moreover have "r \<in> set ?R" using r(1) by (simp add: portal_rows_def)
      ultimately show ?thesis by (rule image_eqI)
    qed
    then have "portal_tenant ` set ?R = {t \<in> set (id_tenants (identity_of db)). tenant_status t = In_force \<and>
        portal_services url_origin (identity_of db) uid t \<noteq> []}"
      using portal_row_entry(3,4) [OF ok _ refl] by (auto simp del: identity_of_simps)
    moreover have "set (listPortalEntries url_origin (identity_of db) uid) =
        (\<lambda>t. \<lparr>pe_tenant = t, pe_services = portal_services url_origin (identity_of db) uid t\<rparr>) `
          {t \<in> set (id_tenants (identity_of db)). tenant_status t = In_force \<and>
            portal_services url_origin (identity_of db) uid t \<noteq> []}"
      by (auto simp: listPortalEntries_def Let_def split: if_splits)
    ultimately show ?thesis by (simp add: image_image)
  qed
  finally have "?obs ` set ?es = ?obs ` set (listPortalEntries url_origin (identity_of db) uid)" .
  moreover have "list_all (\<lambda>e. sorted (map (\<lambda>s. collate (ps_client_id s)) (pe_services e))) ?es"
    using portal_row_entry(2) [OF ok _ refl] by (auto simp: list_all_iff)
  moreover have "sorted_wrt (\<lambda>a b. collate (tenant_slug (pe_tenant a)) < collate (tenant_slug (pe_tenant b))) ?es"
    using slugs by (simp add: sorted_wrt_map pt)
  ultimately show ?thesis using portal_entries_of_rows [OF assms] by blast
qed

theorem portal_from_tables_witness:
  "\<exists>es. pg_listPortalEntries id (\<lambda>u. u) ''BOB'' pg_seed = (Inr es, pg_seed) \<and>
     (\<lambda>e. (pe_tenant e, mset (pe_services e))) ` set es =
       (\<lambda>e. (pe_tenant e, mset (pe_services e))) ` set (listPortalEntries (\<lambda>u. u) (identity_of pg_seed) ''BOB'')"
  using portal_from_tables [OF pg_seed_ok inj_on_id, of "\<lambda>u. u" "''BOB''"] by blast

end
