(* ===== verification/PgSession.thy ===== *)
theory PgSession
  imports PgIdentity
begin

text \<open>
  apps/auth-api/src/infrastructure/pg-session-repository.ts and pg-audit-repository.ts over the tables
  auth_sessions, auth_session_clients and audit_events of db/identity/init/002_identity.sql. Every operation
  of the session repository agrees with the memory repository of Identity; \<open>now_ms\<close> is the database's
  \<open>now()\<close>, which takes the place of the application's clock in the list of active sessions.
\<close>

section \<open>The tables\<close>

record sessions_row =
  nr_id :: string
  nr_user :: string
  nr_ip :: string
  nr_agent :: string
  nr_created_at :: int
  nr_last_seen_at :: int
  nr_revoked_at :: "int option"
  nr_reason :: "string option"

record session_clients_row =
  kr_session :: string
  kr_client :: string
  kr_tenant :: string
  kr_first_seen_at :: int
  kr_last_seen_at :: int

record audit_row =
  ar_id :: string
  ar_occurred_at :: int
  ar_kind :: audit_kind
  ar_user :: "string option"
  ar_session :: "string option"
  ar_tenant :: "string option"
  ar_client :: "string option"
  ar_ip :: "string option"
  ar_agent :: "string option"
  ar_detail :: "(string \<times> json) list"

record pg_session_db =
  pg_identity_tables :: pg_identity
  pg_sessions :: "sessions_row list"
  pg_session_clients :: "session_clients_row list"
  pg_audit :: "audit_row list"

definition reason_text :: "revoke_reason \<Rightarrow> string" where
  "reason_text r = (case r of Global_logout \<Rightarrow> ''global_logout'' | User_revoked \<Rightarrow> ''user_revoked'')"

definition reason_schema :: "string \<Rightarrow> revoke_reason option" where
  "reason_schema s = (if s = ''global_logout'' then Some Global_logout
     else if s = ''user_revoked'' then Some User_revoked else None)"

definition client_key :: "session_clients_row \<Rightarrow> string \<times> string \<times> string" where
  "client_key k = (kr_session k, kr_client k, kr_tenant k)"

text \<open>Keys, the references, the two CHECKs on the revocation columns.\<close>

definition session_constraints :: "pg_session_db \<Rightarrow> bool" where
  "session_constraints db = (distinct (map nr_id (pg_sessions db)) \<and>
     list_all (\<lambda>n. has_user (pg_identity_tables db) (nr_user n) \<and>
       (nr_revoked_at n = None \<longleftrightarrow> nr_reason n = None) \<and>
       (case nr_reason n of None \<Rightarrow> True | Some r \<Rightarrow> reason_schema r \<noteq> None)) (pg_sessions db) \<and>
     distinct (map client_key (pg_session_clients db)) \<and>
     list_all (\<lambda>k. kr_session k \<in> set (map nr_id (pg_sessions db)) \<and>
       kr_client k \<in> set (map cr_id (pg_clients (pg_identity_tables db))) \<and>
       kr_tenant k \<in> set (map tr_id (pg_tenants (pg_identity_tables db)))) (pg_session_clients db))"

text \<open>The application writes whole seconds.\<close>

definition whole :: "int \<Rightarrow> bool" where "whole ms = (toTimestamp (epochSecondsColumn ms) = ms)"

definition whole_seconds :: "pg_session_db \<Rightarrow> bool" where
  "whole_seconds db = list_all (\<lambda>n. whole (nr_last_seen_at n) \<and> whole (nr_created_at n)) (pg_sessions db)"

section \<open>The row schemas\<close>

definition sessionRow :: "sessions_row \<Rightarrow> auth_session_record option" where
  "sessionRow n = map_option (\<lambda>reason. \<lparr>as_id = nr_id n, as_user = nr_user n, as_ip = nr_ip n,
       as_user_agent = nr_agent n, as_created_at = epochSecondsColumn (nr_created_at n),
       as_last_seen_at = epochSecondsColumn (nr_last_seen_at n),
       as_revoked_at = map_option epochSecondsColumn (nr_revoked_at n), as_revoke_reason = reason\<rparr>)
     (case nr_reason n of None \<Rightarrow> Some None | Some r \<Rightarrow> map_option Some (reason_schema r))"

definition sessionClientRow :: "session_clients_row \<Rightarrow> session_client_entry option" where
  "sessionClientRow k = Some \<lparr>sc_session = kr_session k, sc_client = kr_client k, sc_tenant = kr_tenant k,
     sc_first_seen_at = epochSecondsColumn (kr_first_seen_at k),
     sc_last_seen_at = epochSecondsColumn (kr_last_seen_at k)\<rparr>"

definition environmentRow :: "string \<times> string \<Rightarrow> request_environment option" where
  "environmentRow = (\<lambda>(ip, agent). Some \<lparr>env_ip = ip, env_user_agent = agent\<rparr>)"

section \<open>PgSessionRepository\<close>

abbreviation put_sessions :: "sessions_row list \<Rightarrow> pg_session_db \<Rightarrow> pg_session_db" where
  "put_sessions ns db \<equiv> db\<lparr>pg_sessions := ns\<rparr>"

definition pg_create ::
  "string \<Rightarrow> string \<Rightarrow> request_environment \<Rightarrow> seconds \<Rightarrow> seconds \<Rightarrow> (pg_session_db, unit) sql" where
  "pg_create sid uid e created seen = (\<lambda>db.
     if sid \<in> set (map nr_id (pg_sessions db)) then (Inl Unique_violation, db)
     else if \<not> has_user (pg_identity_tables db) uid then (Inl Foreign_key_violation, db)
     else (Inr (), put_sessions (pg_sessions db @
       [\<lparr>nr_id = sid, nr_user = uid, nr_ip = env_ip e, nr_agent = env_user_agent e,
         nr_created_at = toTimestamp created, nr_last_seen_at = toTimestamp seen, nr_revoked_at = None,
         nr_reason = None\<rparr>]) db))"

text \<open>The UPDATE joins the row with a snapshot of itself and returns the snapshot's environment.\<close>

definition pg_touch ::
  "string \<Rightarrow> request_environment \<Rightarrow> seconds \<Rightarrow> (pg_session_db, request_environment option) sql" where
  "pg_touch sid e at = queryOne environmentRow
     (update_rows pg_sessions put_sessions (\<lambda>n. nr_id n = sid)
       (\<lambda>n. n\<lparr>nr_ip := env_ip e, nr_agent := env_user_agent e, nr_last_seen_at := toTimestamp at\<rparr>)
       (\<lambda>old. (nr_ip old, nr_agent old)))"

definition pg_recordClient :: "string \<Rightarrow> string \<Rightarrow> string \<Rightarrow> seconds \<Rightarrow> (pg_session_db, unit) sql" where
  "pg_recordClient sid cid tid at = (\<lambda>db.
     if list_ex (\<lambda>k. client_key k = (sid, cid, tid)) (pg_session_clients db)
     then (Inr (), db\<lparr>pg_session_clients := map (\<lambda>k. if client_key k = (sid, cid, tid)
       then k\<lparr>kr_last_seen_at := toTimestamp at\<rparr> else k) (pg_session_clients db)\<rparr>)
     else if sid \<notin> set (map nr_id (pg_sessions db)) \<or>
       cid \<notin> set (map cr_id (pg_clients (pg_identity_tables db))) \<or>
       tid \<notin> set (map tr_id (pg_tenants (pg_identity_tables db)))
     then (Inl Foreign_key_violation, db)
     else (Inr (), db\<lparr>pg_session_clients := pg_session_clients db @
       [\<lparr>kr_session = sid, kr_client = cid, kr_tenant = tid, kr_first_seen_at = toTimestamp at,
         kr_last_seen_at = toTimestamp at\<rparr>]\<rparr>))"

definition pg_markRevoked :: "string \<Rightarrow> revoke_reason \<Rightarrow> seconds \<Rightarrow> (pg_session_db, unit) sql" where
  "pg_markRevoked sid reason at = sql_bind
     (update_rows pg_sessions put_sessions (\<lambda>n. nr_id n = sid \<and> nr_revoked_at n = None)
       (\<lambda>n. n\<lparr>nr_revoked_at := Some (toTimestamp at), nr_reason := Some (reason_text reason)\<rparr>) (\<lambda>_. ()))
     (\<lambda>_. sql_return ())"

definition attachClients :: "auth_session_record list \<Rightarrow> (pg_session_db, session_with_clients list) sql" where
  "attachClients sessions =
     (if sessions = [] then sql_return []
      else sql_bind (queryAll sessionClientRow
          (select_rows pg_session_clients (\<lambda>k. kr_session k \<in> set (map as_id sessions))))
        (\<lambda>es. sql_return (map (\<lambda>s. (s, filter (\<lambda>e. sc_session e = as_id s) es)) sessions)))"

definition active_row :: "int \<Rightarrow> string \<Rightarrow> sessions_row \<Rightarrow> bool" where
  "active_row now_ms uid n = (nr_user n = uid \<and> nr_revoked_at n = None \<and>
     nr_last_seen_at n > now_ms - toTimestamp SSO_SESSION_IDLE_SECONDS \<and>
     nr_created_at n > now_ms - toTimestamp SSO_SESSION_ABSOLUTE_SECONDS)"

definition pg_listActiveByUser :: "int \<Rightarrow> string \<Rightarrow> (pg_session_db, session_with_clients list) sql" where
  "pg_listActiveByUser now_ms uid = sql_bind
     (queryAll sessionRow (\<lambda>db.
       (Inr (sort_key (\<lambda>n. - nr_last_seen_at n) (filter (active_row now_ms uid) (pg_sessions db))), db)))
     attachClients"

definition pg_findWithClients :: "string \<Rightarrow> (pg_session_db, session_with_clients option) sql" where
  "pg_findWithClients sid = sql_bind
     (queryOne sessionRow (select_rows pg_sessions (\<lambda>n. nr_id n = sid)))
     (\<lambda>session. case session of
        None \<Rightarrow> sql_return None
      | Some s \<Rightarrow> sql_bind (attachClients [s])
          (\<lambda>withClients. sql_return (case withClients of [] \<Rightarrow> None | w # _ \<Rightarrow> Some w)))"

section \<open>PgAuditRepository\<close>

text \<open>Every column but the key is written as it is; the detail column holds the JSON of the detail.\<close>

definition audit_row_of :: "audit_event \<Rightarrow> audit_row" where
  "audit_row_of ev = \<lparr>ar_id = ae_id ev, ar_occurred_at = toTimestamp (ae_occurred_at ev), ar_kind = ae_kind ev,
     ar_user = ae_user ev, ar_session = ae_session ev, ar_tenant = ae_tenant ev, ar_client = ae_client ev,
     ar_ip = ae_ip ev, ar_agent = ae_user_agent ev, ar_detail = ae_detail ev\<rparr>"

definition pg_record_audit :: "audit_event \<Rightarrow> (pg_session_db, unit) sql" where
  "pg_record_audit ev = (\<lambda>db.
     if ae_id ev \<in> set (map ar_id (pg_audit db)) then (Inl Unique_violation, db)
     else (Inr (), db\<lparr>pg_audit := pg_audit db @ [audit_row_of ev]\<rparr>))"

section \<open>The tables read as the memory repository\<close>

definition session_of :: "sessions_row \<Rightarrow> auth_session_record" where
  "session_of n = \<lparr>as_id = nr_id n, as_user = nr_user n, as_ip = nr_ip n, as_user_agent = nr_agent n,
     as_created_at = epochSecondsColumn (nr_created_at n),
     as_last_seen_at = epochSecondsColumn (nr_last_seen_at n),
     as_revoked_at = map_option epochSecondsColumn (nr_revoked_at n),
     as_revoke_reason = Option.bind (nr_reason n) reason_schema\<rparr>"

definition entry_client :: "session_clients_row \<Rightarrow> session_client_entry" where
  "entry_client k = \<lparr>sc_session = kr_session k, sc_client = kr_client k, sc_tenant = kr_tenant k,
     sc_first_seen_at = epochSecondsColumn (kr_first_seen_at k),
     sc_last_seen_at = epochSecondsColumn (kr_last_seen_at k)\<rparr>"

definition sessions_of :: "pg_session_db \<Rightarrow> session_db" where
  "sessions_of db = \<lparr>sd_sessions = map session_of (pg_sessions db),
     sd_clients = map entry_client (pg_session_clients db)\<rparr>"

lemma sessions_of_simps [simp]: "sd_sessions (sessions_of db) = map session_of (pg_sessions db)"
  "sd_clients (sessions_of db) = map entry_client (pg_session_clients db)"
  by (simp_all add: sessions_of_def)

lemma session_of_names [simp]: "as_id (session_of n) = nr_id n" "as_user (session_of n) = nr_user n"
  "as_last_seen_at (session_of n) = epochSecondsColumn (nr_last_seen_at n)"
  "as_created_at (session_of n) = epochSecondsColumn (nr_created_at n)"
  "as_revoked_at (session_of n) = map_option epochSecondsColumn (nr_revoked_at n)"
  "as_ip (session_of n) = nr_ip n" "as_user_agent (session_of n) = nr_agent n"
  by (simp_all add: session_of_def)

lemma reason_roundtrip [simp]: "reason_schema (reason_text r) = Some r"
  by (cases r) (simp_all add: reason_schema_def reason_text_def)

lemma session_parse: "session_constraints db \<Longrightarrow> n \<in> set (pg_sessions db) \<Longrightarrow> sessionRow n = Some (session_of n)"
  by (cases "nr_reason n") (auto simp: session_constraints_def sessionRow_def session_of_def list_all_iff
      dest!: bspec [of "set (pg_sessions db)" _ n])

lemma client_entry_parse: "sessionClientRow k = Some (entry_client k)"
  by (simp add: sessionClientRow_def entry_client_def)

lemma find_session_of:
  "find_session (sessions_of db) sid = map_option session_of (List.find (\<lambda>n. nr_id n = sid) (pg_sessions db))"
  by (simp add: find_session_def find_map)

text \<open>Replacing the row of a key in place is an UPDATE by that key.\<close>

lemma put_session_map:
  assumes "distinct (map nr_id ns)" "List.find (\<lambda>n. nr_id n = sid) ns = Some n" "as_id s = sid"
    "s = session_of (upd n)"
  shows "put_session s (map session_of ns) = map session_of (map (\<lambda>n. if nr_id n = sid then upd n else n) ns)"
  using assms
proof (induction ns)
  case (Cons x ns)
  show ?case
  proof (cases "nr_id x = sid")
    case True
    then have "map (\<lambda>n. if nr_id n = sid then upd n else n) ns = ns"
      using Cons.prems(1) by (intro map_idI) (auto simp: image_iff)
    then show ?thesis using True Cons.prems by simp
  next
    case False
    then show ?thesis using Cons by simp
  qed
qed simp

lemma put_session_fresh: "as_id s \<notin> set (map as_id ss) \<Longrightarrow> put_session s ss = ss @ [s]"
  by (induction ss) auto

section \<open>The operations agree with the memory repository\<close>

lemma session_keys:
  assumes "session_constraints db"
  shows "distinct (map nr_id (pg_sessions db))" "distinct (map client_key (pg_session_clients db))"
  using assms by (simp_all add: session_constraints_def)

lemma create_refines:
  assumes ok: "session_constraints db" "whole_seconds db" and run: "pg_create sid uid e c a db = (Inr r, db')"
  shows "session_constraints db' \<and> whole_seconds db' \<and> sessions_of db' = sd_create sid uid e c a (sessions_of db)"
proof -
  let ?n = "\<lparr>nr_id = sid, nr_user = uid, nr_ip = env_ip e, nr_agent = env_user_agent e,
    nr_created_at = toTimestamp c, nr_last_seen_at = toTimestamp a, nr_revoked_at = None, nr_reason = None\<rparr>"
  have fresh: "sid \<notin> set (map nr_id (pg_sessions db))" and u: "has_user (pg_identity_tables db) uid"
    and db': "db' = put_sessions (pg_sessions db @ [?n]) db"
    using run by (auto simp: pg_create_def split: if_splits)
  have "put_session (session_of ?n) (map session_of (pg_sessions db)) = map session_of (pg_sessions db) @ [session_of ?n]"
    using fresh by (intro put_session_fresh) auto
  then have "sessions_of db' = sd_create sid uid e c a (sessions_of db)"
    by (simp add: sd_create_def) (simp add: sessions_of_def db' session_of_def)
  moreover have "session_constraints db' \<and> whole_seconds db'"
    using ok fresh u by (auto simp: db' session_constraints_def whole_seconds_def whole_def list_all_iff)
  ultimately show ?thesis by simp
qed

lemma update_session_constraints:
  assumes ok: "session_constraints db" and n: "List.find (\<lambda>n. nr_id n = sid) (pg_sessions db) = Some n"
    and upd: "nr_id (upd n) = sid" "nr_user (upd n) = nr_user n"
      "nr_revoked_at (upd n) = None \<longleftrightarrow> nr_reason (upd n) = None"
      "case nr_reason (upd n) of None \<Rightarrow> True | Some r \<Rightarrow> reason_schema r \<noteq> None"
  shows "session_constraints (put_sessions (map (\<lambda>x. if nr_id x = sid then upd x else x) (pg_sessions db)) db)"
proof -
  let ?ns = "map (\<lambda>x. if nr_id x = sid then upd x else x) (pg_sessions db)"
  have n': "n \<in> set (pg_sessions db)" "nr_id n = sid" using find_Some_iff' [OF n] by auto
  have only: "x = n" if "x \<in> set (pg_sessions db)" "nr_id x = sid" for x
    using that n' session_keys(1) [OF ok] by (auto simp: distinct_map inj_on_def)
  have ids: "map nr_id ?ns = map nr_id (pg_sessions db)" using only upd(1) by auto
  have "has_user (pg_identity_tables db) (nr_user x) \<and> (nr_revoked_at x = None \<longleftrightarrow> nr_reason x = None) \<and>
      (case nr_reason x of None \<Rightarrow> True | Some r \<Rightarrow> reason_schema r \<noteq> None)" if x: "x \<in> set ?ns" for x
  proof -
    obtain y where y: "y \<in> set (pg_sessions db)" "x = (if nr_id y = sid then upd y else y)" using x by auto
    show ?thesis
    proof (cases "nr_id y = sid")
      case True
      then show ?thesis using y only [OF y(1)] upd ok n'(1) by (auto simp: session_constraints_def list_all_iff)
    next
      case False
      then show ?thesis using y ok by (auto simp: session_constraints_def list_all_iff)
    qed
  qed
  then show ?thesis
    using ok session_keys [OF ok] by (simp add: session_constraints_def list_all_iff ids del: map_map)
qed

lemma touch_refines:
  assumes ok: "session_constraints db" "whole_seconds db" and run: "pg_touch sid e at db = (Inr r, db')"
  shows "session_constraints db' \<and> whole_seconds db' \<and> (r, sessions_of db') = sd_touch sid e at (sessions_of db)"
proof (cases "List.find (\<lambda>n. nr_id n = sid) (pg_sessions db)")
  case None
  then have "\<not> list_ex (\<lambda>n. nr_id n = sid) (pg_sessions db)" by (simp add: find_ex)
  then show ?thesis
    using run ok None update_nobody [of "\<lambda>n. nr_id n = sid" "pg_sessions db"]
      filter_key [OF session_keys(1) [OF ok(1)], of sid]
    by (simp add: pg_touch_def queryOne_def update_rows_def sd_touch_def find_session_of)
next
  case (Some n)
  let ?upd = "\<lambda>n. n\<lparr>nr_ip := env_ip e, nr_agent := env_user_agent e, nr_last_seen_at := toTimestamp at\<rparr>"
  have n: "n \<in> set (pg_sessions db)" "nr_id n = sid" using find_Some_iff' [OF Some] by auto
  have db': "db' = put_sessions (map (\<lambda>n. if nr_id n = sid then ?upd n else n) (pg_sessions db)) db"
    and r: "r = Some \<lparr>env_ip = nr_ip n, env_user_agent = nr_agent n\<rparr>"
    using run Some filter_key [OF session_keys(1) [OF ok(1)], of sid]
    by (auto simp: pg_touch_def queryOne_def update_rows_def environmentRow_def)
  have "session_constraints db'"
    unfolding db' using ok(1) n by (intro update_session_constraints [OF ok(1) Some])
      (auto simp: session_constraints_def list_all_iff)
  moreover have "whole_seconds db'" using ok(2) by (auto simp: db' whole_seconds_def whole_def list_all_iff)
  moreover have "(r, sessions_of db') = sd_touch sid e at (sessions_of db)"
    using put_session_map [OF session_keys(1) [OF ok(1)] Some, of "session_of (?upd n)" ?upd] n Some
    by (simp add: sd_touch_def find_session_of r) (simp add: sessions_of_def db' session_of_def)
  ultimately show ?thesis by simp
qed

lemma revoke_refines:
  assumes ok: "session_constraints db" "whole_seconds db" and run: "pg_markRevoked sid reason at db = (Inr r, db')"
  shows "session_constraints db' \<and> whole_seconds db' \<and> sessions_of db' = sd_mark_revoked sid reason at (sessions_of db)"
proof -
  let ?cond = "\<lambda>n. nr_id n = sid \<and> nr_revoked_at n = None"
  let ?upd = "\<lambda>n. n\<lparr>nr_revoked_at := Some (toTimestamp at), nr_reason := Some (reason_text reason)\<rparr>"
  have db': "db' = put_sessions (map (\<lambda>n. if ?cond n then ?upd n else n) (pg_sessions db)) db"
    using run by (simp add: pg_markRevoked_def update_rows_def)
  show ?thesis
  proof (cases "list_ex ?cond (pg_sessions db)")
    case False
    then have "db' = db" using update_nobody [OF False, of ?upd] by (simp add: db')
    moreover have "sd_mark_revoked sid reason at (sessions_of db) = sessions_of db"
      using False by (auto simp: sd_mark_revoked_def find_session_of list_ex_iff split: option.split dest!: find_Some_iff')
    ultimately show ?thesis using ok by simp
  next
    case True
    then obtain n where n: "n \<in> set (pg_sessions db)" "nr_id n = sid" "nr_revoked_at n = None"
      by (auto simp: list_ex_iff)
    have Some: "List.find (\<lambda>n. nr_id n = sid) (pg_sessions db) = Some n"
      by (rule find_row [OF session_keys(1) [OF ok(1)] n(1,2)])
    have only: "?cond x \<longleftrightarrow> nr_id x = sid" if "x \<in> set (pg_sessions db)" for x
      using that n session_keys(1) [OF ok(1)] by (auto simp: distinct_map inj_on_def)
    have rows: "map (\<lambda>n. if ?cond n then ?upd n else n) (pg_sessions db) =
        map (\<lambda>n. if nr_id n = sid then ?upd n else n) (pg_sessions db)"
      using only by (intro map_cong refl) auto
    have "session_constraints db'"
      unfolding db' rows using n by (intro update_session_constraints [OF ok(1) Some]) auto
    moreover have "whole_seconds db'" using ok(2) by (auto simp: db' whole_seconds_def whole_def list_all_iff)
    moreover have "sessions_of db' = sd_mark_revoked sid reason at (sessions_of db)"
      using put_session_map [OF session_keys(1) [OF ok(1)] Some, of "session_of (?upd n)" ?upd] n
      unfolding db' rows
      by (simp add: sd_mark_revoked_def find_session_of Some) (simp add: sessions_of_def session_of_def)
    ultimately show ?thesis by simp
  qed
qed

lemma touch_client_map:
  "distinct (map client_key ks) \<Longrightarrow> list_ex (\<lambda>k. client_key k = (sid, cid, tid)) ks \<Longrightarrow>
   touch_client sid cid tid at (map entry_client ks) =
     map entry_client (map (\<lambda>k. if client_key k = (sid, cid, tid) then k\<lparr>kr_last_seen_at := toTimestamp at\<rparr> else k) ks)"
proof (induction ks)
  case (Cons k ks)
  have same: "same_client sid cid tid (entry_client k) \<longleftrightarrow> client_key k = (sid, cid, tid)"
    by (simp add: same_client_def entry_client_def client_key_def)
  show ?case
  proof (cases "client_key k = (sid, cid, tid)")
    case True
    then have "map (\<lambda>k. if client_key k = (sid, cid, tid) then k\<lparr>kr_last_seen_at := toTimestamp at\<rparr> else k) ks = ks"
      using Cons.prems(1) by (intro map_idI) (auto simp: image_iff)
    then show ?thesis using True same by (simp add: entry_client_def)
  next
    case False
    then show ?thesis using Cons same by simp
  qed
qed simp

lemma touch_client_fresh:
  "\<not> list_ex (\<lambda>k. client_key k = (sid, cid, tid)) ks \<Longrightarrow>
   touch_client sid cid tid at (map entry_client ks) = map entry_client ks @
     [\<lparr>sc_session = sid, sc_client = cid, sc_tenant = tid, sc_first_seen_at = at, sc_last_seen_at = at\<rparr>]"
  by (induction ks) (auto simp: same_client_def entry_client_def client_key_def)

lemma record_client_refines:
  assumes ok: "session_constraints db" "whole_seconds db" and run: "pg_recordClient sid cid tid at db = (Inr r, db')"
  shows "session_constraints db' \<and> whole_seconds db' \<and> sessions_of db' = sd_record_client sid cid tid at (sessions_of db)"
proof (cases "list_ex (\<lambda>k. client_key k = (sid, cid, tid)) (pg_session_clients db)")
  case True
  let ?ks = "map (\<lambda>k. if client_key k = (sid, cid, tid) then k\<lparr>kr_last_seen_at := toTimestamp at\<rparr> else k) (pg_session_clients db)"
  have db': "db' = db\<lparr>pg_session_clients := ?ks\<rparr>" using run True by (simp add: pg_recordClient_def)
  have "map client_key ?ks = map client_key (pg_session_clients db)" by (rule keys_kept) (simp add: client_key_def)
  then have "distinct (map client_key ?ks)" by (simp only: session_keys(2) [OF ok(1)])
  then have "session_constraints db' \<and> whole_seconds db'"
    using ok by (auto simp: db' session_constraints_def whole_seconds_def list_all_iff)
  then show ?thesis
    using touch_client_map [OF session_keys(2) [OF ok(1)] True]
    by (simp add: sd_record_client_def del: map_map) (simp add: sessions_of_def db')
next
  case False
  let ?k = "\<lparr>kr_session = sid, kr_client = cid, kr_tenant = tid, kr_first_seen_at = toTimestamp at,
    kr_last_seen_at = toTimestamp at\<rparr>"
  have db': "db' = db\<lparr>pg_session_clients := pg_session_clients db @ [?k]\<rparr>"
    and known: "sid \<in> set (map nr_id (pg_sessions db))" "cid \<in> set (map cr_id (pg_clients (pg_identity_tables db)))"
      "tid \<in> set (map tr_id (pg_tenants (pg_identity_tables db)))"
    using run False by (auto simp: pg_recordClient_def split: if_splits)
  have "client_key ?k \<notin> set (map client_key (pg_session_clients db))"
    using False by (auto simp: list_ex_iff client_key_def)
  then have "session_constraints db' \<and> whole_seconds db'"
    using ok known by (simp add: db' session_constraints_def whole_seconds_def)
  moreover have "sessions_of db' = sd_record_client sid cid tid at (sessions_of db)"
    using touch_client_fresh [OF False, of at]
    by (simp add: sd_record_client_def) (simp add: sessions_of_def db' entry_client_def)
  ultimately show ?thesis by simp
qed

section \<open>Reads\<close>

lemma attach_run:
  assumes "\<And>s. s \<in> set ss \<Longrightarrow> as_id s \<in> S"
  shows "attachClients ss db = (Inr (map (with_clients (sessions_of db)) ss), db)"
proof (cases "ss = []")
  case False
  have "queryAll sessionClientRow (select_rows pg_session_clients (\<lambda>k. kr_session k \<in> set (map as_id ss))) db =
      (Inr (map entry_client (filter (\<lambda>k. kr_session k \<in> set (map as_id ss)) (pg_session_clients db))), db)"
    by (rule queryAll_select) (rule client_entry_parse)
  moreover have "filter (\<lambda>e. sc_session e = as_id s)
      (map entry_client (filter (\<lambda>k. kr_session k \<in> set (map as_id ss)) (pg_session_clients db))) =
      filter (\<lambda>c. sc_session c = as_id s) (sd_clients (sessions_of db))" if "s \<in> set ss" for s
    using that by (auto simp: filter_map o_def entry_client_def intro!: arg_cong [of _ _ "map _"] filter_cong)
  ultimately show ?thesis
    using False by (simp add: attachClients_def with_clients_def del: sessions_of_simps)
qed (simp add: attachClients_def)

lemma find_with_clients_run:
  assumes "session_constraints db"
  shows "pg_findWithClients sid db = (Inr (sd_find_with_clients sid (sessions_of db)), db)"
  using attach_run [of _ UNIV db]
  by (simp add: pg_findWithClients_def queryOne_select [OF session_parse [OF assms]] sd_find_with_clients_def
      find_session_of split: option.split)

text \<open>Idle and absolute limit on the millisecond clock of the database and on the clock in seconds.\<close>

lemma limit_iff: "whole ms \<Longrightarrow> ms > now_ms - toTimestamp d \<longleftrightarrow> epochSecondsColumn ms + d > epochSecondsColumn now_ms"
proof -
  assume "whole ms"
  then have ms: "ms = toTimestamp (epochSecondsColumn ms)" by (simp add: whole_def)
  have "ms > now_ms - toTimestamp d \<longleftrightarrow> now_ms < toTimestamp (epochSecondsColumn ms + d)"
    by (subst ms) (auto simp: toTimestamp_def algebra_simps)
  then show ?thesis by (simp add: deadline_in_seconds)
qed

lemma active_row_iff:
  assumes "whole_seconds db" "n \<in> set (pg_sessions db)"
  shows "active_row now_ms uid n \<longleftrightarrow>
    as_user (session_of n) = uid \<and> session_active (epochSecondsColumn now_ms) (session_of n)"
proof -
  have w: "whole (nr_last_seen_at n)" "whole (nr_created_at n)"
    using assms by (auto simp: whole_seconds_def list_all_iff)
  show ?thesis by (simp add: active_row_def session_active_def limit_iff [OF w(1)] limit_iff [OF w(2)])
qed

lemma list_active_run:
  assumes "session_constraints db" "whole_seconds db"
  shows "pg_listActiveByUser now_ms uid db =
    (Inr (sd_list_active (epochSecondsColumn now_ms) uid (sessions_of db)), db)"
proof -
  let ?rows = "sort_key (\<lambda>n. - nr_last_seen_at n) (filter (active_row now_ms uid) (pg_sessions db))"
  have "queryAll sessionRow (\<lambda>db. (Inr (sort_key (\<lambda>n. - nr_last_seen_at n) (filter (active_row now_ms uid) (pg_sessions db))), db)) db =
      (Inr (map session_of ?rows), db)"
    by (rule queryAll_rows) (use session_parse [OF assms(1)] in auto)
  moreover have "?rows = sort_key (\<lambda>n. - as_last_seen_at (session_of n)) (filter (active_row now_ms uid) (pg_sessions db))"
  proof (rule sort_key_cong)
    fix x y assume "x \<in> set (filter (active_row now_ms uid) (pg_sessions db))"
      "y \<in> set (filter (active_row now_ms uid) (pg_sessions db))"
    then have "whole (nr_last_seen_at x)" "whole (nr_last_seen_at y)"
      using assms(2) by (auto simp: whole_seconds_def list_all_iff)
    then show "- nr_last_seen_at x \<le> - nr_last_seen_at y \<longleftrightarrow>
        - as_last_seen_at (session_of x) \<le> - as_last_seen_at (session_of y)"
      by (auto simp: whole_def toTimestamp_def epochSecondsColumn_def)
  qed
  moreover have "filter (\<lambda>s. as_user s = uid \<and> session_active (epochSecondsColumn now_ms) s) (map session_of (pg_sessions db)) =
      map session_of (filter (active_row now_ms uid) (pg_sessions db))"
    using active_row_iff [OF assms(2)] by (auto simp: filter_map o_def intro!: arg_cong [of _ _ "map _"] filter_cong)
  ultimately show ?thesis
    using attach_run [of _ UNIV db]
    by (simp add: pg_listActiveByUser_def sd_list_active_def sort_key_map)
qed

section \<open>Runs\<close>

datatype session_write = Create_session string string request_environment seconds seconds
  | Touch_session string request_environment seconds
  | Record_session_client string string string seconds
  | Revoke_session string revoke_reason seconds

fun pg_session_write :: "session_write \<Rightarrow> (pg_session_db, unit) sql" where
  "pg_session_write (Create_session sid uid e c a) = pg_create sid uid e c a"
| "pg_session_write (Touch_session sid e a) = sql_bind (pg_touch sid e a) (\<lambda>_. sql_return ())"
| "pg_session_write (Record_session_client sid cid tid a) = pg_recordClient sid cid tid a"
| "pg_session_write (Revoke_session sid r a) = pg_markRevoked sid r a"

fun memory_session_write :: "session_write \<Rightarrow> session_db \<Rightarrow> session_db" where
  "memory_session_write (Create_session sid uid e c a) db = sd_create sid uid e c a db"
| "memory_session_write (Touch_session sid e a) db = snd (sd_touch sid e a db)"
| "memory_session_write (Record_session_client sid cid tid a) db = sd_record_client sid cid tid a db"
| "memory_session_write (Revoke_session sid r a) db = sd_mark_revoked sid r a db"

fun pg_session_writes :: "session_write list \<Rightarrow> (pg_session_db, unit) sql" where
  "pg_session_writes [] = sql_return ()"
| "pg_session_writes (w # ws) = sql_bind (pg_session_write w) (\<lambda>_. pg_session_writes ws)"

lemma pg_session_write_refines:
  assumes ok: "session_constraints db" "whole_seconds db" and run: "pg_session_write w db = (Inr (), db')"
  shows "session_constraints db' \<and> whole_seconds db' \<and> sessions_of db' = memory_session_write w (sessions_of db)"
proof (cases w)
  case (Create_session sid uid e c a)
  then show ?thesis using create_refines [OF ok] run by auto
next
  case (Touch_session sid e a)
  then obtain r where r: "pg_touch sid e a db = (Inr r, db')" using run by (auto split: prod.splits sum.splits)
  show ?thesis using touch_refines [OF ok r] by (auto simp: Touch_session intro: sym dest: arg_cong [of _ _ snd])
next
  case (Record_session_client sid cid tid a)
  then show ?thesis using record_client_refines [OF ok] run by auto
next
  case (Revoke_session sid r a)
  then show ?thesis using revoke_refines [OF ok] run by auto
qed

lemma pg_session_writes_refine:
  assumes "session_constraints db" "whole_seconds db" "pg_session_writes ws db = (Inr (), db')"
  shows "session_constraints db' \<and> whole_seconds db' \<and> sessions_of db' = fold memory_session_write ws (sessions_of db)"
  using assms
proof (induction ws arbitrary: db)
  case (Cons w ws)
  obtain db1 where w: "pg_session_write w db = (Inr (), db1)" and ws: "pg_session_writes ws db1 = (Inr (), db')"
    using Cons.prems(3) by (auto split: prod.splits sum.splits)
  show ?case using pg_session_write_refines [OF Cons.prems(1,2) w] Cons.IH [OF _ _ ws] by simp
qed simp


definition seed_sessions :: pg_session_db where
  "seed_sessions = \<lparr>pg_identity_tables = pg_seed, pg_sessions = [], pg_session_clients = [], pg_audit = []\<rparr>"

definition seed_environment :: request_environment where
  "seed_environment = \<lparr>env_ip = ''ip'', env_user_agent = ''ua''\<rparr>"

definition seed_session_writes :: "session_write list" where
  "seed_session_writes = [Create_session ''s1'' ''ALICE'' seed_environment 10 10,
     Create_session ''s2'' ''ALICE'' seed_environment 20 20, Record_session_client ''s1'' ''CRM'' ''TANAKA'' 25,
     Touch_session ''s1'' seed_environment 30, Revoke_session ''s2'' User_revoked 40]"


end
