(* ===== verification/PgMembers.thy ===== *)
theory PgMembers
  imports Pg ApiMembers
begin

text \<open>
  packages/api-core/src/infrastructure: \<open>withTenant\<close> (db.ts), the transaction in which every statement of a
  service runs with its tenant in \<open>app.tenant_id\<close>, and the PostgreSQL member repository
  (pg-member-repository.ts) over the tables members and permission_overrides of db/crm/init/002_schema.sql
  and db/cms/init/002_schema.sql. Row-level security filters what a statement sees by the tenant of the
  transaction and refuses a row of another tenant; \<open>roles\<close> is the CHECK on the role column and \<open>now\<close> the
  start of the transaction.
\<close>

section \<open>db.ts\<close>

text \<open>An error rolls the transaction back and is thrown on, wrapped.\<close>

definition withTenant :: "string \<Rightarrow> (string \<Rightarrow> ('db, 'a) sql) \<Rightarrow> ('db, 'a) sql" where
  "withTenant t fn = (\<lambda>db.
     case fn t db of
       (Inr a, db') \<Rightarrow> (Inr a, db')
     | (Inl e, _) \<Rightarrow> (Inl (Tenant_transaction_failed e), db))"

lemma withTenant_Inr [simp]: "fn t db = (Inr a, db') \<Longrightarrow> withTenant t fn db = (Inr a, db')"
  and withTenant_Inl [simp]: "fn t db = (Inl e, db') \<Longrightarrow> withTenant t fn db = (Inl (Tenant_transaction_failed e), db)"
  by (simp_all add: withTenant_def)

text \<open>Whatever fails in a tenant's transaction, the tables are as before.\<close>

lemma withTenant_atomic: "withTenant t fn db = (Inl e, db') \<Longrightarrow> db' = db"
  by (auto simp: withTenant_def split: prod.splits sum.splits)

section \<open>The tables\<close>

record pm_row =
  pm_tenant :: string
  pm_user :: string
  pm_email :: "string option"
  pm_name :: "string option"
  pm_role :: string
  pm_status :: string
  pm_created_at :: int

record vo_row =
  vo_tenant :: string
  vo_user :: string
  vo_permission :: string
  vo_effect :: string

record pg_members_db =
  pg_member_rows :: "pm_row list"
  pg_override_rows :: "vo_row list"

definition pm_key :: "pm_row \<Rightarrow> string \<times> string" where "pm_key r = (pm_tenant r, pm_user r)"

definition vo_key :: "vo_row \<Rightarrow> string \<times> string \<times> string" where
  "vo_key r = (vo_tenant r, vo_user r, vo_permission r)"

definition member_status_schema :: "string \<Rightarrow> member_status option" where
  "member_status_schema s =
     (if s = ''active'' then Some Member_active else if s = ''disabled'' then Some Member_disabled else None)"

definition member_status_text :: "member_status \<Rightarrow> string" where
  "member_status_text st = (case st of Member_active \<Rightarrow> ''active'' | Member_disabled \<Rightarrow> ''disabled'')"

definition effect_schema :: "string \<Rightarrow> permission_effect option" where
  "effect_schema s = (if s = ''allow'' then Some Allow else if s = ''deny'' then Some Deny else None)"

definition effect_text :: "permission_effect \<Rightarrow> string" where
  "effect_text e = (case e of Allow \<Rightarrow> ''allow'' | Deny \<Rightarrow> ''deny'')"

definition pg_members_ok :: "string list \<Rightarrow> pg_members_db \<Rightarrow> bool" where
  "pg_members_ok roles db = (distinct (map pm_key (pg_member_rows db)) \<and>
     list_all (\<lambda>r. pm_role r \<in> set roles \<and> member_status_schema (pm_status r) \<noteq> None) (pg_member_rows db) \<and>
     distinct (map vo_key (pg_override_rows db)) \<and>
     list_all (\<lambda>v. (vo_tenant v, vo_user v) \<in> set (map pm_key (pg_member_rows db)) \<and>
       effect_schema (vo_effect v) \<noteq> None) (pg_override_rows db))"

section \<open>PgMemberRepository\<close>

text \<open>The schema name is part of every statement; only an identifier is accepted.\<close>

definition identifier_char :: "char \<Rightarrow> bool" where "identifier_char c = (is_lower c \<or> c = CHR ''_'')"

definition schema_name_ok :: "string \<Rightarrow> bool" where
  "schema_name_ok s = (case s of [] \<Rightarrow> False
     | c # cs \<Rightarrow> identifier_char c \<and> list_all (\<lambda>x. identifier_char x \<or> is_digit x) cs)"

definition pgMemberRow :: "pm_row \<Rightarrow> member option" where
  "pgMemberRow r = map_option (\<lambda>st. \<lparr>m_tenant = pm_tenant r, m_user = pm_user r, m_email = pm_email r,
     m_name = pm_name r, m_role = pm_role r, m_status = st\<rparr>) (member_status_schema (pm_status r))"

definition pgOverrideRow :: "vo_row \<Rightarrow> permission_override option" where
  "pgOverrideRow r = map_option (\<lambda>e. \<lparr>po_permission = vo_permission r, po_effect = e\<rparr>)
     (effect_schema (vo_effect r))"

text \<open>\<open>cur\<close> is the transaction's \<open>app.tenant_id\<close>: the policies hide every row of another tenant.\<close>

definition selectMember :: "string \<Rightarrow> string \<Rightarrow> string \<Rightarrow> (pg_members_db, pm_row list) sql" where
  "selectMember t u cur = select_rows pg_member_rows (\<lambda>r. pm_tenant r = cur \<and> pm_tenant r = t \<and> pm_user r = u)"

definition pg_find_member :: "string \<Rightarrow> string \<Rightarrow> (pg_members_db, member option) sql" where
  "pg_find_member t u = withTenant t (\<lambda>cur. queryOne pgMemberRow (selectMember t u cur))"

definition pg_select_overrides ::
  "(string \<Rightarrow> string) \<Rightarrow> string \<Rightarrow> string \<Rightarrow> string \<Rightarrow> (pg_members_db, permission_override list) sql" where
  "pg_select_overrides collate t u cur = queryAll pgOverrideRow (\<lambda>db.
     (Inr (sort_key (\<lambda>r. collate (vo_permission r))
       (filter (\<lambda>r. vo_tenant r = cur \<and> vo_tenant r = t \<and> vo_user r = u) (pg_override_rows db))), db))"

definition pg_findWithOverrides ::
  "(string \<Rightarrow> string) \<Rightarrow> string \<Rightarrow> string \<Rightarrow> (pg_members_db, (member \<times> permission_override list) option) sql" where
  "pg_findWithOverrides collate t u = withTenant t (\<lambda>cur.
     sql_bind (queryOne pgMemberRow (selectMember t u cur)) (\<lambda>m.
       case m of
         None \<Rightarrow> sql_return None
       | Some member \<Rightarrow> sql_bind (pg_select_overrides collate t u cur) (\<lambda>ovs. sql_return (Some (member, ovs)))))"

definition pg_list_members :: "string \<Rightarrow> (pg_members_db, member list) sql" where
  "pg_list_members t = withTenant t (\<lambda>cur. queryAll pgMemberRow (\<lambda>db.
     (Inr (sort_key pm_created_at (filter (\<lambda>r. pm_tenant r = cur \<and> pm_tenant r = t) (pg_member_rows db))), db)))"

definition upserted :: "member \<Rightarrow> pm_row \<Rightarrow> pm_row" where
  "upserted m r = r\<lparr>pm_email := or_else (m_email m) (pm_email r), pm_name := or_else (m_name m) (pm_name r),
     pm_role := m_role m, pm_status := member_status_text (m_status m)\<rparr>"

definition inserted :: "int \<Rightarrow> member \<Rightarrow> pm_row" where
  "inserted now m = \<lparr>pm_tenant = m_tenant m, pm_user = m_user m, pm_email = m_email m, pm_name = m_name m,
     pm_role = m_role m, pm_status = member_status_text (m_status m), pm_created_at = now\<rparr>"

definition upsert_statement :: "string list \<Rightarrow> int \<Rightarrow> member \<Rightarrow> string \<Rightarrow> (pg_members_db, pm_row list) sql" where
  "upsert_statement roles now m cur = (\<lambda>db.
     let k = (m_tenant m, m_user m) in
     if m_tenant m \<noteq> cur then (Inl Policy_violation, db)
     else if m_role m \<notin> set roles then (Inl Check_violation, db)
     else if list_ex (\<lambda>r. pm_key r = k) (pg_member_rows db)
     then (Inr (map (upserted m) (filter (\<lambda>r. pm_key r = k) (pg_member_rows db))),
       db\<lparr>pg_member_rows := map (\<lambda>r. if pm_key r = k then upserted m r else r) (pg_member_rows db)\<rparr>)
     else (Inr [inserted now m], db\<lparr>pg_member_rows := pg_member_rows db @ [inserted now m]\<rparr>))"

definition pg_upsert_member :: "string list \<Rightarrow> int \<Rightarrow> member \<Rightarrow> (pg_members_db, member) sql" where
  "pg_upsert_member roles now m =
     withTenant (m_tenant m) (\<lambda>cur. queryRequired pgMemberRow (upsert_statement roles now m cur))"

text \<open>\<open>ON DELETE CASCADE\<close> takes the overrides of a deleted member with it.\<close>

definition pg_remove_member :: "string \<Rightarrow> string \<Rightarrow> (pg_members_db, unit) sql" where
  "pg_remove_member t u = withTenant t (\<lambda>cur. \<lambda>db.
     (Inr (), db\<lparr>pg_member_rows := filter (\<lambda>r. \<not> (pm_tenant r = cur \<and> pm_key r = (t, u))) (pg_member_rows db),
       pg_override_rows := filter (\<lambda>v. \<not> (vo_tenant v = cur \<and> (vo_tenant v, vo_user v) = (t, u))) (pg_override_rows db)\<rparr>))"

definition delete_overrides :: "string \<Rightarrow> string \<Rightarrow> string \<Rightarrow> (pg_members_db, unit) sql" where
  "delete_overrides t u cur = (\<lambda>db.
     (Inr (), db\<lparr>pg_override_rows :=
       filter (\<lambda>v. \<not> (vo_tenant v = cur \<and> (vo_tenant v, vo_user v) = (t, u))) (pg_override_rows db)\<rparr>))"

definition override_row_of :: "string \<Rightarrow> string \<Rightarrow> permission_override \<Rightarrow> vo_row" where
  "override_row_of t u ov =
     \<lparr>vo_tenant = t, vo_user = u, vo_permission = po_permission ov, vo_effect = effect_text (po_effect ov)\<rparr>"

text \<open>One INSERT of all overrides: the policy, the primary key and the reference are checked for the whole of it.\<close>

definition insert_overrides ::
  "string \<Rightarrow> string \<Rightarrow> permission_override list \<Rightarrow> string \<Rightarrow> (pg_members_db, unit) sql" where
  "insert_overrides t u ovs cur = (\<lambda>db.
     let rows = map (override_row_of t u) ovs in
     if t \<noteq> cur then (Inl Policy_violation, db)
     else if \<not> distinct (map vo_key (pg_override_rows db @ rows)) then (Inl Unique_violation, db)
     else if (t, u) \<notin> set (map pm_key (pg_member_rows db)) then (Inl Foreign_key_violation, db)
     else (Inr (), db\<lparr>pg_override_rows := pg_override_rows db @ rows\<rparr>))"

definition pg_replace_overrides ::
  "string \<Rightarrow> string \<Rightarrow> permission_override list \<Rightarrow> (pg_members_db, unit) sql" where
  "pg_replace_overrides t u ovs = withTenant t (\<lambda>cur.
     sql_bind (delete_overrides t u cur) (\<lambda>_.
       if ovs = [] then sql_return () else insert_overrides t u ovs cur))"

section \<open>The reads under the constraints\<close>

definition member_status_of :: "string \<Rightarrow> member_status" where
  "member_status_of s = (if s = ''active'' then Member_active else Member_disabled)"

definition pm_member :: "pm_row \<Rightarrow> member" where
  "pm_member r = \<lparr>m_tenant = pm_tenant r, m_user = pm_user r, m_email = pm_email r, m_name = pm_name r,
     m_role = pm_role r, m_status = member_status_of (pm_status r)\<rparr>"

definition vo_override :: "vo_row \<Rightarrow> permission_override" where
  "vo_override r = \<lparr>po_permission = vo_permission r, po_effect = (if vo_effect r = ''allow'' then Allow else Deny)\<rparr>"

definition pg_lookup ::
  "(string \<Rightarrow> string) \<Rightarrow> string \<Rightarrow> string \<Rightarrow> pg_members_db \<Rightarrow> (member \<times> permission_override list) option" where
  "pg_lookup collate t u db = map_option
     (\<lambda>r. (pm_member r, map vo_override (sort_key (\<lambda>r. collate (vo_permission r))
       (filter (\<lambda>v. (vo_tenant v, vo_user v) = (t, u)) (pg_override_rows db)))))
     (List.find (\<lambda>r. pm_key r = (t, u)) (pg_member_rows db))"

lemma status_texts [simp]: "member_status_schema (member_status_text st) = Some st"
  "member_status_of (member_status_text st) = st"
  by (cases st; simp add: member_status_schema_def member_status_text_def member_status_of_def)+

lemma effect_texts [simp]: "effect_schema (effect_text e) = Some e"
  by (cases e) (simp_all add: effect_schema_def effect_text_def)

lemma vo_override_of [simp]: "vo_override (override_row_of t u ov) = ov"
  by (cases "po_effect ov") (simp_all add: vo_override_def override_row_of_def effect_text_def)

lemma pm_parse: "pg_members_ok roles db \<Longrightarrow> r \<in> set (pg_member_rows db) \<Longrightarrow> pgMemberRow r = Some (pm_member r)"
  by (auto simp: pg_members_ok_def list_all_iff pgMemberRow_def pm_member_def member_status_schema_def
      member_status_of_def split: if_splits)

lemma vo_parse: "pg_members_ok roles db \<Longrightarrow> r \<in> set (pg_override_rows db) \<Longrightarrow> pgOverrideRow r = Some (vo_override r)"
  by (auto simp: pg_members_ok_def list_all_iff pgOverrideRow_def vo_override_def effect_schema_def split: if_splits)

lemma own_cond: "(\<lambda>r. pm_tenant r = t \<and> pm_user r = u) = (\<lambda>r. pm_key r = (t, u))"
  by (auto simp: pm_key_def)

lemma pg_find_member_run:
  assumes "pg_members_ok roles db"
  shows "pg_find_member t u db = (Inr (map_option fst (pg_lookup collate t u db)), db)"
  unfolding pg_find_member_def selectMember_def
  by (rule withTenant_Inr)
    (simp add: own_cond queryOne_select [OF pm_parse [OF assms]] pg_lookup_def option.map_comp o_def)

lemma pg_findWithOverrides_run:
  assumes ok: "pg_members_ok roles db"
  shows "pg_findWithOverrides collate t u db = (Inr (pg_lookup collate t u db), db)"
proof -
  have "pg_select_overrides collate t u t db =
      (Inr (map vo_override (sort_key (\<lambda>r. collate (vo_permission r))
        (filter (\<lambda>v. (vo_tenant v, vo_user v) = (t, u)) (pg_override_rows db)))), db)"
    unfolding pg_select_overrides_def by (rule queryAll_rows) (use vo_parse [OF ok] in auto)
  then show ?thesis
    unfolding pg_findWithOverrides_def selectMember_def
    by (intro withTenant_Inr)
      (simp add: own_cond queryOne_select [OF pm_parse [OF ok]] pg_lookup_def split: option.split)
qed

definition pg_members_of :: "string \<Rightarrow> pg_members_db \<Rightarrow> member list" where
  "pg_members_of t db =
     map pm_member (sort_key pm_created_at (filter (\<lambda>r. pm_tenant r = t) (pg_member_rows db)))"

lemma pg_list_members_run:
  assumes "pg_members_ok roles db"
  shows "pg_list_members t db = (Inr (pg_members_of t db), db)"
  unfolding pg_list_members_def pg_members_of_def
  by (rule withTenant_Inr, rule queryAll_rows) (use pm_parse [OF assms] in auto)

section \<open>The writes under the constraints\<close>

lemma find_update:
  assumes "\<And>r. k (f r) = k r"
  shows "List.find (\<lambda>r. k r = i) (map (\<lambda>r. if k r = j then f r else r) rows) =
    (if i = j then map_option f (List.find (\<lambda>r. k r = i) rows) else List.find (\<lambda>r. k r = i) rows)"
  by (induction rows) (auto simp: assms)

lemma find_filter_key:
  "List.find (\<lambda>r. k r = i) (filter (\<lambda>r. k r \<noteq> j) rows) = (if i = j then None else List.find (\<lambda>r. k r = i) rows)"
  by (induction rows) auto

lemma row_keys [simp]: "pm_key (upserted m r) = pm_key r" "pm_key (inserted now m) = (m_tenant m, m_user m)"
  by (simp_all add: pm_key_def upserted_def inserted_def)

lemma upsert_run:
  assumes ok: "pg_members_ok roles db" and role: "m_role m \<in> set roles"
  shows "pg_upsert_member roles now m db =
    (case List.find (\<lambda>r. pm_key r = (m_tenant m, m_user m)) (pg_member_rows db) of
       Some r \<Rightarrow> (Inr (pm_member (upserted m r)), db\<lparr>pg_member_rows :=
         map (\<lambda>r. if pm_key r = (m_tenant m, m_user m) then upserted m r else r) (pg_member_rows db)\<rparr>)
     | None \<Rightarrow> (Inr (pm_member (inserted now m)), db\<lparr>pg_member_rows := pg_member_rows db @ [inserted now m]\<rparr>))"
proof -
  let ?k = "(m_tenant m, m_user m)"
  have keys: "distinct (map pm_key (pg_member_rows db))" using ok by (simp add: pg_members_ok_def)
  have parse: "pgMemberRow (upserted m r) = Some (pm_member (upserted m r))"
    "pgMemberRow (inserted now m) = Some (pm_member (inserted now m))" for r
    by (simp_all add: pgMemberRow_def pm_member_def upserted_def inserted_def)
  show ?thesis
  proof (cases "List.find (\<lambda>r. pm_key r = ?k) (pg_member_rows db)")
    case None
    then have "\<not> list_ex (\<lambda>r. pm_key r = ?k) (pg_member_rows db)" by (simp add: find_ex)
    then show ?thesis
      using None role parse by (simp add: pg_upsert_member_def withTenant_def upsert_statement_def queryRequired_def queryOne_def)
  next
    case (Some r)
    then have "list_ex (\<lambda>r. pm_key r = ?k) (pg_member_rows db)"
      using find_ex [of "\<lambda>r. pm_key r = ?k" "pg_member_rows db"] by simp
    then show ?thesis
      using Some role parse filter_key [OF keys, of ?k] by (simp add: pg_upsert_member_def withTenant_def upsert_statement_def queryRequired_def queryOne_def)
  qed
qed

lemma pm_member_upserted:
  "pm_member (upserted m r) = m\<lparr>m_email := or_else (m_email m) (pm_email r), m_name := or_else (m_name m) (pm_name r)\<rparr>"
  if "pm_key r = (m_tenant m, m_user m)"
  using that by (simp add: pm_member_def upserted_def pm_key_def)

lemma or_else_None [simp]: "or_else x None = x"
  by (simp add: or_else_def split: option.split)

lemma pm_member_display [simp]: "m_email (pm_member r) = pm_email r" "m_name (pm_member r) = pm_name r"
  by (simp_all add: pm_member_def)

lemma pm_member_inserted: "pm_member (inserted now m) = m"
  by (simp add: pm_member_def inserted_def)

lemma remove_run: "pg_remove_member t u db =
   (Inr (), db\<lparr>pg_member_rows := filter (\<lambda>r. pm_key r \<noteq> (t, u)) (pg_member_rows db),
      pg_override_rows := filter (\<lambda>v. (vo_tenant v, vo_user v) \<noteq> (t, u)) (pg_override_rows db)\<rparr>)"
  unfolding pg_remove_member_def by (rule withTenant_Inr) (auto simp: pm_key_def intro!: filter_cong)

abbreviation others :: "string \<Rightarrow> string \<Rightarrow> pg_members_db \<Rightarrow> vo_row list" where
  "others t u db \<equiv> filter (\<lambda>v. (vo_tenant v, vo_user v) \<noteq> (t, u)) (pg_override_rows db)"

lemma replaced_distinct:
  assumes ok: "pg_members_ok roles db" and ovs: "distinct (map po_permission ovs)"
  shows "distinct (map vo_key (others t u db @ map (override_row_of t u) ovs))"
  using ok ovs by (auto simp: pg_members_ok_def distinct_map_filter vo_key_def override_row_of_def o_def distinct_map inj_on_def)

lemma replace_run:
  assumes ok: "pg_members_ok roles db" and ovs: "distinct (map po_permission ovs)"
  shows "pg_replace_overrides t u ovs db =
    (if ovs = [] then (Inr (), db\<lparr>pg_override_rows := others t u db\<rparr>)
     else if (t, u) \<in> set (map pm_key (pg_member_rows db))
     then (Inr (), db\<lparr>pg_override_rows := others t u db @ map (override_row_of t u) ovs\<rparr>)
     else (Inl (Tenant_transaction_failed Foreign_key_violation), db))"
proof -
  have "filter (\<lambda>v. \<not> (vo_tenant v = t \<and> (vo_tenant v, vo_user v) = (t, u))) (pg_override_rows db) = others t u db"
    by (auto intro!: filter_cong)
  then show ?thesis
    using replaced_distinct [OF assms, of t u] by (auto simp: pg_replace_overrides_def withTenant_def delete_overrides_def insert_overrides_def Let_def)
qed

lemma ok_upsert:
  assumes ok: "pg_members_ok roles db" and role: "m_role m \<in> set roles"
  shows "pg_members_ok roles (snd (pg_upsert_member roles now m db))"
proof (cases "List.find (\<lambda>r. pm_key r = (m_tenant m, m_user m)) (pg_member_rows db)")
  case None
  then show ?thesis
    using assms None [unfolded find_None_iff'] unfolding upsert_run [OF assms] None option.case snd_conv pg_members_ok_def
    by (auto simp: list_all_iff) (auto simp: inserted_def)
next
  case (Some r)
  let ?rows = "map (\<lambda>r. if pm_key r = (m_tenant m, m_user m) then upserted m r else r) (pg_member_rows db)"
  have keys: "map pm_key ?rows = map pm_key (pg_member_rows db)" by (rule keys_kept) simp
  have sel: "pg_member_rows (db\<lparr>pg_member_rows := ?rows\<rparr>) = ?rows"
    "pg_override_rows (db\<lparr>pg_member_rows := ?rows\<rparr>) = pg_override_rows db" by simp_all
  have "list_all (\<lambda>r. pm_role r \<in> set roles \<and> member_status_schema (pm_status r) \<noteq> None) ?rows"
    using assms by (auto simp: pg_members_ok_def list_all_iff upserted_def)
  then show ?thesis
    using ok unfolding upsert_run [OF assms] Some option.case snd_conv pg_members_ok_def sel keys by blast
qed

lemma ok_remove: "pg_members_ok roles db \<Longrightarrow> pg_members_ok roles (snd (pg_remove_member t u db))"
  by (force simp: remove_run pg_members_ok_def distinct_map_filter list_all_iff)

lemma ok_replace:
  assumes ok: "pg_members_ok roles db" and ovs: "distinct (map po_permission ovs)"
  shows "pg_members_ok roles (snd (pg_replace_overrides t u ovs db))"
proof -
  have "distinct (map vo_key (others t u db))" using ok by (simp add: pg_members_ok_def distinct_map_filter)
  then show ?thesis
    using ok replaced_distinct [OF ok ovs, of t u]
    by (simp add: replace_run [OF assms] pg_members_ok_def del: map_append)
      (auto simp: list_all_iff override_row_of_def)
qed

lemma pg_lookup_upsert:
  assumes ok: "pg_members_ok roles db" and role: "m_role m \<in> set roles"
  shows "pg_lookup collate t u (snd (pg_upsert_member roles now m db)) =
    (if t = m_tenant m \<and> u = m_user m
     then Some (projr (fst (pg_upsert_member roles now m db)),
       case pg_lookup collate t u db of None \<Rightarrow> [] | Some (_, ovs) \<Rightarrow> ovs)
     else pg_lookup collate t u db)"
proof (cases "List.find (\<lambda>r. pm_key r = (m_tenant m, m_user m)) (pg_member_rows db)")
  case None
  have stray: "filter (\<lambda>v. (vo_tenant v, vo_user v) = (m_tenant m, m_user m)) (pg_override_rows db) = []"
    using ok None by (force simp: pg_members_ok_def find_None_iff' list_all_iff filter_empty_conv)
  show ?thesis
    using None stray unfolding upsert_run [OF assms]
    by (auto simp: pg_lookup_def find_append split: option.splits)
next
  case (Some r)
  show ?thesis
    using Some unfolding upsert_run [OF assms]
    by (auto simp: pg_lookup_def find_update split: option.splits)
qed

lemma pg_lookup_replace:
  assumes ok: "pg_members_ok roles db" and ovs: "distinct (map po_permission ovs)"
  shows "pg_lookup collate t u (snd (pg_replace_overrides s v ovs db)) =
    (if t = s \<and> u = v then map_option (\<lambda>(m, _). (m, sort_key (\<lambda>ov. collate (po_permission ov)) ovs)) (pg_lookup collate t u db)
     else pg_lookup collate t u db)"
proof (cases "List.find (\<lambda>r. pm_key r = (t, u)) (pg_member_rows db)")
  case None
  then show ?thesis using replace_run [OF assms, of s v] by (auto simp: pg_lookup_def)
next
  case (Some r)
  then have mem: "(t, u) \<in> set (map pm_key (pg_member_rows db))" using find_Some_iff' [OF Some] by force
  have rows: "map vo_override (sort_key (\<lambda>r. collate (vo_permission r)) (map (override_row_of t u) ovs)) =
      sort_key (\<lambda>ov. collate (po_permission ov)) ovs"
    by (simp add: sort_key_map o_def) (simp add: override_row_of_def)
  let ?db' = "snd (pg_replace_overrides s v ovs db)"
  have members: "pg_member_rows ?db' = pg_member_rows db" by (simp add: replace_run [OF assms])
  have F: "filter (\<lambda>x. (vo_tenant x, vo_user x) = (t, u)) (pg_override_rows ?db') =
      (if t = s \<and> u = v then map (override_row_of t u) ovs
       else filter (\<lambda>x. (vo_tenant x, vo_user x) = (t, u)) (pg_override_rows db))"
  proof (cases "t = s \<and> u = v")
    case True
    then show ?thesis using mem by (auto simp: replace_run [OF assms] filter_empty_conv filter_id_conv override_row_of_def)
  next
    case False
    then have "filter (\<lambda>x. (vo_tenant x, vo_user x) = (t, u)) (map (override_row_of s v) ovs) = []"
      and "filter (\<lambda>x. (vo_tenant x, vo_user x) = (t, u)) (others s v db) =
        filter (\<lambda>x. (vo_tenant x, vo_user x) = (t, u)) (pg_override_rows db)"
      by (auto simp: override_row_of_def filter_empty_conv intro!: filter_cong)
    then show ?thesis using False unfolding replace_run [OF assms] by (simp only: if_split filter_append) auto
  qed
  show ?thesis
    unfolding pg_lookup_def members F Some
    using rows by (cases "t = s \<and> u = v") (simp_all only: simp_thms option.map if_True if_False prod.case)
qed

lemma pg_lookup_remove:
  "pg_lookup collate t u (snd (pg_remove_member s v db)) = (if t = s \<and> u = v then None else pg_lookup collate t u db)"
proof (cases "t = s \<and> u = v")
  case True
  then show ?thesis by (simp add: remove_run pg_lookup_def find_filter_key)
next
  case False
  then have "filter (\<lambda>x. (vo_tenant x, vo_user x) = (t, u)) (others s v db) =
      filter (\<lambda>x. (vo_tenant x, vo_user x) = (t, u)) (pg_override_rows db)"
    by (auto intro!: filter_cong)
  then show ?thesis using False by (auto simp: remove_run pg_lookup_def find_filter_key)
qed

section \<open>The contract of the repository\<close>

lemma pg_lookup_own: "pg_lookup collate t u db = Some (m, ovs) \<Longrightarrow> m_tenant m = t \<and> m_user m = u"
  by (auto simp: pg_lookup_def pm_member_def pm_key_def dest!: find_Some_iff')

lemma pg_members_of_iff:
  assumes ok: "pg_members_ok roles db"
  shows "m \<in> set (pg_members_of t db) \<longleftrightarrow> (\<exists>u ovs. pg_lookup collate t u db = Some (m, ovs))"
proof
  assume "m \<in> set (pg_members_of t db)"
  then obtain r where r: "r \<in> set (pg_member_rows db)" "pm_tenant r = t" "m = pm_member r"
    by (auto simp: pg_members_of_def)
  then have "List.find (\<lambda>x. pm_key x = (t, pm_user r)) (pg_member_rows db) = Some r"
    using ok by (intro find_row [where k = pm_key]) (simp_all add: pg_members_ok_def pm_key_def [of r])
  then show "\<exists>u ovs. pg_lookup collate t u db = Some (m, ovs)" using r(3) by (auto simp: pg_lookup_def)
next
  assume "\<exists>u ovs. pg_lookup collate t u db = Some (m, ovs)"
  then show "m \<in> set (pg_members_of t db)"
    by (auto simp: pg_lookup_def pg_members_of_def pm_key_def dest!: find_Some_iff')
qed

interpretation pg_members: member_repository "pg_lookup collate" pg_members_of
  "\<lambda>m db. settled (pg_upsert_member roles now m db)" "\<lambda>t u db. snd (pg_remove_member t u db)"
  "\<lambda>t u ovs db. snd (pg_replace_overrides t u ovs db)" "pg_members_ok roles" plain_id
  "\<lambda>m. m_role m \<in> set roles" "\<lambda>ovs. distinct (map po_permission ovs)" "sort_key (\<lambda>ov. collate (po_permission ov))"
  for collate :: "string \<Rightarrow> string" and roles now
proof
  fix db t and m :: member
  assume "pg_members_ok roles db"
  then show "m \<in> set (pg_members_of t db) \<longleftrightarrow> (\<exists>u ovs. pg_lookup collate t u db = Some (m, ovs))"
    by (rule pg_members_of_iff)
next
  fix db and m :: member
  assume "pg_members_ok roles db" "m_role m \<in> set roles"
  then show "fst (settled (pg_upsert_member roles now m db)) =
      m\<lparr>m_email := or_else (m_email m) (Option.bind (pg_lookup collate (m_tenant m) (m_user m) db) (m_email \<circ> fst)),
        m_name := or_else (m_name m) (Option.bind (pg_lookup collate (m_tenant m) (m_user m) db) (m_name \<circ> fst))\<rparr>"
    by (cases "List.find (\<lambda>r. pm_key r = (m_tenant m, m_user m)) (pg_member_rows db)")
      (auto simp: upsert_run pg_lookup_def pm_member_inserted pm_member_upserted dest: find_Some_iff')
next
  fix db t u and m :: member
  assume "pg_members_ok roles db" "m_role m \<in> set roles"
  then show "pg_lookup collate t u (snd (settled (pg_upsert_member roles now m db))) =
      (if t = m_tenant m \<and> u = m_user m
       then Some (fst (settled (pg_upsert_member roles now m db)),
         case pg_lookup collate t u db of None \<Rightarrow> [] | Some (_, ovs) \<Rightarrow> ovs)
       else pg_lookup collate t u db)"
    by (simp add: settled_def pg_lookup_upsert)
qed (simp_all add: pg_lookup_own pg_lookup_remove pg_lookup_replace ok_remove ok_replace settled_def ok_upsert)

interpretation member_stores: member_repositories findWithOverrides list_members upsert_member remove_member
  replace_overrides members_wf plain_id "\<lambda>_. True" "\<lambda>_. True" "\<lambda>ovs. ovs"
  "pg_lookup collate" pg_members_of
  "\<lambda>m db. settled (pg_upsert_member roles now m db)" "\<lambda>t u db. snd (pg_remove_member t u db)"
  "\<lambda>t u ovs db. snd (pg_replace_overrides t u ovs db)" "pg_members_ok roles"
  "\<lambda>m. m_role m \<in> set roles" "\<lambda>ovs. distinct (map po_permission ovs)" "sort_key (\<lambda>ov. collate (po_permission ov))"
  for collate :: "string \<Rightarrow> string" and roles now ..

section \<open>Runs of writes\<close>

datatype member_write = Upsert_member member | Remove_member string string
  | Replace_overrides string string "permission_override list"

fun memory_member_write :: "member_write \<Rightarrow> member_store \<Rightarrow> member_store" where
  "memory_member_write (Upsert_member m) db = snd (upsert_member m db)"
| "memory_member_write (Remove_member t u) db = remove_member t u db"
| "memory_member_write (Replace_overrides t u ovs) db = replace_overrides t u ovs db"

fun pg_member_write :: "string list \<Rightarrow> int \<Rightarrow> member_write \<Rightarrow> (pg_members_db, unit) sql" where
  "pg_member_write roles now (Upsert_member m) = sql_bind (pg_upsert_member roles now m) (\<lambda>_. sql_return ())"
| "pg_member_write roles now (Remove_member t u) = pg_remove_member t u"
| "pg_member_write roles now (Replace_overrides t u ovs) = pg_replace_overrides t u ovs"

text \<open>
  The writes the use cases make: of a tenant with a ULID, with a role of the service, and overrides only
  for a member that exists; that no permission occurs twice is what the table asks for.
\<close>

fun member_write_ok :: "string list \<Rightarrow> member_write \<Rightarrow> member_store \<Rightarrow> bool" where
  "member_write_ok roles (Upsert_member m) db \<longleftrightarrow> plain_id (m_tenant m) \<and> m_role m \<in> set roles"
| "member_write_ok roles (Remove_member t u) db \<longleftrightarrow> plain_id t"
| "member_write_ok roles (Replace_overrides t u ovs) db \<longleftrightarrow>
     plain_id t \<and> findWithOverrides t u db \<noteq> None \<and> distinct (map po_permission ovs)"

fun member_writes_ok :: "string list \<Rightarrow> (int \<times> member_write) list \<Rightarrow> member_store \<Rightarrow> bool" where
  "member_writes_ok roles [] db \<longleftrightarrow> True"
| "member_writes_ok roles ((now, w) # ws) db \<longleftrightarrow>
     member_write_ok roles w db \<and> member_writes_ok roles ws (memory_member_write w db)"

fun pg_member_writes :: "string list \<Rightarrow> (int \<times> member_write) list \<Rightarrow> (pg_members_db, unit) sql" where
  "pg_member_writes roles [] = sql_return ()"
| "pg_member_writes roles ((now, w) # ws) = sql_bind (pg_member_write roles now w) (\<lambda>_. pg_member_writes roles ws)"

definition in_step ::
  "(string \<Rightarrow> string) \<Rightarrow> string list \<Rightarrow> member_store \<Rightarrow> pg_members_db \<Rightarrow> bool" where
  "in_step collate roles m db \<longleftrightarrow> members_wf m \<and> pg_members_ok roles db \<and>
     members_agree plain_id (\<lambda>t u. findWithOverrides t u m) (\<lambda>t u. pg_lookup collate t u db)"

lemma in_step_write:
  assumes "in_step collate roles m db" and w: "member_write_ok roles w m"
  shows "\<exists>db'. pg_member_write roles now w db = (Inr (), db') \<and> in_step collate roles (memory_member_write w m) db'"
proof -
  have wf: "members_wf m" and ok: "pg_members_ok roles db"
    and agree: "members_agree plain_id (\<lambda>t u. findWithOverrides t u m) (\<lambda>t u. pg_lookup collate t u db)"
    using assms(1) by (auto simp: in_step_def)
  show ?thesis
  proof (cases w)
    case (Upsert_member x)
    then have x: "plain_id (m_tenant x)" "m_role x \<in> set roles" using w by auto
    have "in_step collate roles (snd (upsert_member x m)) (snd (pg_upsert_member roles now x db))"
      using member_stores.agree_upsert(2) [OF wf ok x(1) _ x(2) agree] members_wf_upsert [OF wf x(1)]
        ok_upsert [OF ok x(2)]
      by (simp add: in_step_def settled_def)
    moreover have "\<exists>v db'. pg_upsert_member roles now x db = (Inr v, db')"
      using x by (auto simp: upsert_run [OF ok] split: option.split)
    ultimately show ?thesis by (auto simp: Upsert_member)
  next
    case (Remove_member t u)
    then show ?thesis
      using w member_stores.agree_remove [OF wf ok _ agree, of t u] members_wf_remove [OF wf, of t u] ok_remove [OF ok, of t u]
      by (simp add: in_step_def) (simp add: remove_run)
  next
    case (Replace_overrides t u ovs)
    then have x: "plain_id t" "findWithOverrides t u m \<noteq> None" "distinct (map po_permission ovs)" using w by auto
    have "same_lookup (findWithOverrides t u m) (pg_lookup collate t u db)"
      using agree x(1) by (simp add: members_agree_def)
    then have "pg_lookup collate t u db \<noteq> None" using x(2) by auto
    then have "(t, u) \<in> set (map pm_key (pg_member_rows db))"
      by (force simp: pg_lookup_def dest!: find_Some_iff')
    then have "\<exists>db'. pg_replace_overrides t u ovs db = (Inr (), db')" by (simp add: replace_run [OF ok x(3)])
    moreover have "in_step collate roles (replace_overrides t u ovs m) (snd (pg_replace_overrides t u ovs db))"
      using member_stores.agree_replace [OF wf ok x(1) _ x(3) agree, of u] members_wf_replace [OF wf x(2)]
        ok_replace [OF ok x(3)]
      by (simp add: in_step_def)
    ultimately show ?thesis by (auto simp: Replace_overrides)
  qed
qed

lemma in_step_writes:
  "in_step collate roles m db \<Longrightarrow> member_writes_ok roles ws m \<Longrightarrow>
   \<exists>db'. pg_member_writes roles ws db = (Inr (), db') \<and> in_step collate roles (fold (memory_member_write \<circ> snd) ws m) db'"
proof (induction ws arbitrary: m db)
  case (Cons nw ws)
  obtain now w where nw: "nw = (now, w)" by fastforce
  obtain db1 where "pg_member_write roles now w db = (Inr (), db1)" "in_step collate roles (memory_member_write w m) db1"
    using in_step_write [OF Cons.prems(1), of w now] Cons.prems(2) nw by auto
  then show ?case using Cons.IH [of "memory_member_write w m" db1] Cons.prems(2) nw by auto
qed auto

section \<open>Properties\<close>

lemma same_permissions:
  assumes "set ovs = set ovs'"
  shows "resolvePermissions sd role ovs = resolvePermissions sd role ovs'"
proof -
  have "allowed ovs = allowed ovs'" "denied ovs = denied ovs'"
    using assms by (auto simp: fun_eq_iff allowed_def denied_def list_ex_iff)
  then show ?thesis by (auto simp: mem_resolvePermissions)
qed

text \<open>
  C33: The PostgreSQL member repository keeps step with the memory repository. From states in agreement, any run
  of writes the use cases make (roles of the service, overrides for members that exist, no permission twice) is
  accepted, and afterwards every member is found with the same role, status and display data, and the
  overrides read from the table resolve to the same effective permissions.
\<close>

theorem pg_members_keep_step:
  assumes "in_step collate roles m db" "member_writes_ok roles ws m" "plain_id t"
    and "m' = fold (memory_member_write \<circ> snd) ws m"
  shows "\<exists>db'. pg_member_writes roles ws db = (Inr (), db') \<and>
    pg_find_member t u db' = (Inr (find_member t u m'), db') \<and>
    (case findWithOverrides t u m' of
       None \<Rightarrow> pg_findWithOverrides collate t u db' = (Inr None, db')
     | Some (x, ovs) \<Rightarrow> \<exists>ovs'. pg_findWithOverrides collate t u db' = (Inr (Some (x, ovs')), db') \<and>
         resolvePermissions sd (m_role x) ovs' = resolvePermissions sd (m_role x) ovs)"
proof -
  obtain db' where run: "pg_member_writes roles ws db = (Inr (), db')" and step: "in_step collate roles m' db'"
    using in_step_writes [OF assms(1,2)] assms(4) by auto
  have ok: "pg_members_ok roles db'" using step by (simp add: in_step_def)
  note reads = pg_find_member_run [OF ok, of t u collate] pg_findWithOverrides_run [OF ok, of collate t u]
  have "same_lookup (findWithOverrides t u m') (pg_lookup collate t u db')"
    using step assms(3) by (simp add: in_step_def members_agree_def)
  then show ?thesis
  proof (rule same_lookup_cases)
    assume "findWithOverrides t u m' = None" "pg_lookup collate t u db' = None"
    then show ?thesis using run reads by (simp add: find_member_lookup)
  next
    fix x ovs ovs' assume "findWithOverrides t u m' = Some (x, ovs)" "pg_lookup collate t u db' = Some (x, ovs')"
      "set ovs = set ovs'"
    then show ?thesis using run reads same_permissions [of ovs' ovs sd "m_role x"] by (simp add: find_member_lookup)
  qed
qed

definition seed_members :: pg_members_db where
  "seed_members = \<lparr>
     pg_member_rows = [\<lparr>pm_tenant = ''SUZUKI'', pm_user = ''ALICE'', pm_email = Some ''a@x'', pm_name = None,
       pm_role = ''viewer'', pm_status = ''active'', pm_created_at = 0\<rparr>],
     pg_override_rows = [\<lparr>vo_tenant = ''SUZUKI'', vo_user = ''ALICE'', vo_permission = ''end_users:unmask'',
       vo_effect = ''allow''\<rparr>]\<rparr>"

definition seed_member_store :: member_store where
  "seed_member_store = member_store_new
     [\<lparr>m_tenant = ''SUZUKI'', m_user = ''ALICE'', m_email = Some ''a@x'', m_name = None, m_role = ''viewer'',
       m_status = Member_active\<rparr>]
     [(''SUZUKI'', ''ALICE'', \<lparr>po_permission = ''end_users:unmask'', po_effect = Allow\<rparr>)]"

definition seed_roles :: "string list" where "seed_roles = [''owner'', ''admin'', ''member'', ''viewer'']"

lemma seed_members_ok: "pg_members_ok seed_roles seed_members"
  by (simp add: pg_members_ok_def seed_members_def seed_roles_def pm_key_def vo_key_def member_status_schema_def
      effect_schema_def)

lemma seed_in_step: "in_step collate seed_roles seed_member_store seed_members"
proof -
  have key: "member_key ''SUZUKI'' ''ALICE'' = member_key t u \<longleftrightarrow> t = ''SUZUKI'' \<and> u = ''ALICE''" if "plain_id t" for t u
    using member_key_inj [of t "''SUZUKI''" u "''ALICE''"] that by (auto simp: plain_id_def)
  have "members_wf seed_member_store"
    by (auto simp: members_wf_def seed_member_store_def member_store_new_def plain_id_def split: if_splits)
  moreover have "members_agree plain_id (\<lambda>t u. findWithOverrides t u seed_member_store) (\<lambda>t u. pg_lookup collate t u seed_members)"
    unfolding members_agree_def
  proof (intro allI impI)
    fix t u assume "plain_id t"
    then show "same_lookup (findWithOverrides t u seed_member_store) (pg_lookup collate t u seed_members)"
      by (auto simp: findWithOverrides_def seed_member_store_def member_store_new_def pg_lookup_def seed_members_def
          pm_key_def key eq_commute [of "member_key t u"] pm_member_def vo_override_def member_status_of_def)
  qed
  ultimately show ?thesis using seed_members_ok by (simp add: in_step_def)
qed

definition seed_member_writes :: "(int \<times> member_write) list" where
  "seed_member_writes = [
     (5, Replace_overrides ''SUZUKI'' ''ALICE'' [\<lparr>po_permission = ''members:manage'', po_effect = Allow\<rparr>,
        \<lparr>po_permission = ''end_users:read'', po_effect = Deny\<rparr>]),
     (6, Upsert_member \<lparr>m_tenant = ''SUZUKI'', m_user = ''BOB'', m_email = None, m_name = None, m_role = ''admin'',
        m_status = Member_active\<rparr>),
     (7, Remove_member ''SUZUKI'' ''BOB'')]"

theorem pg_members_keep_step_witness:
  "\<exists>db'. pg_member_writes seed_roles seed_member_writes seed_members = (Inr (), db') \<and>
     pg_find_member ''SUZUKI'' ''BOB'' db' =
       (Inr (find_member ''SUZUKI'' ''BOB'' (fold (memory_member_write \<circ> snd) seed_member_writes seed_member_store)), db')"
proof -
  have ok: "member_writes_ok seed_roles seed_member_writes seed_member_store"
    by (simp add: seed_member_writes_def seed_member_store_def seed_roles_def member_store_new_def plain_id_def
        findWithOverrides_def)
  have "plain_id ''SUZUKI''" by (simp add: plain_id_def)
  then show ?thesis using pg_members_keep_step [OF seed_in_step [of id] ok _ refl, of "''SUZUKI''" "''BOB''"] by blast
qed

text \<open>
  A request body that names one permission twice, once allowed and once denied, is accepted by the contract
  of PUT /v1/members/:id/permissions and by the memory repository; the primary key of the table refuses the
  insertion, so the transaction is rolled back and the request fails although nothing tells the client why.
\<close>

theorem duplicate_override_fails:
  assumes "isPermission sd p" "pg_members_ok roles db"
  shows "permissionsSchema sd (JObj [(''overrides'', JArr [
        JObj [(''permission'', JStr p), (''effect'', JStr ''allow'')],
        JObj [(''permission'', JStr p), (''effect'', JStr ''deny'')]])]) =
      Some [\<lparr>po_permission = p, po_effect = Allow\<rparr>, \<lparr>po_permission = p, po_effect = Deny\<rparr>] \<and>
    pg_replace_overrides t u [\<lparr>po_permission = p, po_effect = Allow\<rparr>, \<lparr>po_permission = p, po_effect = Deny\<rparr>] db =
      (Inl (Tenant_transaction_failed Unique_violation), db)"
proof
  show "permissionsSchema sd (JObj [(''overrides'', JArr [
        JObj [(''permission'', JStr p), (''effect'', JStr ''allow'')],
        JObj [(''permission'', JStr p), (''effect'', JStr ''deny'')]])]) =
      Some [\<lparr>po_permission = p, po_effect = Allow\<rparr>, \<lparr>po_permission = p, po_effect = Deny\<rparr>]"
    using assms(1) by (simp add: permissionsSchema_def overrideSchema_def json_field_def json_string_def)
  show "pg_replace_overrides t u [\<lparr>po_permission = p, po_effect = Allow\<rparr>, \<lparr>po_permission = p, po_effect = Deny\<rparr>] db =
      (Inl (Tenant_transaction_failed Unique_violation), db)"
    by (simp add: pg_replace_overrides_def withTenant_def delete_overrides_def insert_overrides_def Let_def
        vo_key_def override_row_of_def)
qed

theorem duplicate_override_fails_witness:
  "pg_replace_overrides ''SUZUKI'' ''ALICE''
     [\<lparr>po_permission = ''members:read'', po_effect = Allow\<rparr>, \<lparr>po_permission = ''members:read'', po_effect = Deny\<rparr>]
     seed_members = (Inl (Tenant_transaction_failed Unique_violation), seed_members)"
  using duplicate_override_fails [of "\<lparr>sd_roles = seed_roles, sd_default_role = ''viewer'', sd_permissions = [],
      sd_role_permissions = []\<rparr>" "''members:read''", OF _ seed_members_ok]
  by (simp add: isPermission_def allPermissions_def MEMBER_PERMISSIONS_def)

end
