(* ===== verification/PgRows.thy ===== *)
theory PgRows
  imports PgMembers CrmApi CmsApi
begin

text \<open>
  The PostgreSQL repositories of the services: end users
  (apps/crm-api/src/end-users/infrastructure/pg-end-user-repository.ts, table crm.end_users) and posts
  (apps/cms-api/src/posts/infrastructure/pg-post-repository.ts, table cms.posts). Both tables have a global id as
  primary key, a tenant and the time of creation; the statements they share are defined and analysed once.
  \<open>now\<close> is the start of the transaction and \<open>visible\<close> a tenant's rows in the order of their creation, the
  abstract state that \<open>rows_spec\<close> of TenantRows acts on.
\<close>

section \<open>Statements on a table of rows with an id, a tenant and a time\<close>

type_synonym 'r table = "'r list"

text \<open>The condition of every statement: the policy on \<open>cur\<close>, then the text's \<open>tenant_id = $1 AND id = $2\<close>.\<close>

definition own_id :: "('r \<Rightarrow> string) \<Rightarrow> ('r \<Rightarrow> string) \<Rightarrow> string \<Rightarrow> string \<Rightarrow> string \<Rightarrow> 'r \<Rightarrow> bool" where
  "own_id key owner t i cur r = (owner r = cur \<and> owner r = t \<and> key r = i)"

definition insert_row :: "('r \<Rightarrow> string) \<Rightarrow> ('r \<Rightarrow> string) \<Rightarrow> 'r \<Rightarrow> string \<Rightarrow> ('r table, 'r list) sql" where
  "insert_row key owner r cur = (\<lambda>rows.
     if owner r \<noteq> cur then (Inl Policy_violation, rows)
     else if list_ex (\<lambda>x. key x = key r) rows then (Inl Unique_violation, rows)
     else (Inr [r], rows @ [r]))"

definition update_row ::
  "('r \<Rightarrow> string) \<Rightarrow> ('r \<Rightarrow> string) \<Rightarrow> string \<Rightarrow> string \<Rightarrow> ('r \<Rightarrow> 'r) \<Rightarrow> string \<Rightarrow> ('r table, 'r list) sql" where
  "update_row key owner t i upd cur =
     update_rows (\<lambda>rows. rows) (\<lambda>rows _. rows) (own_id key owner t i cur) upd upd"

text \<open>A DELETE and its \<open>rowCount\<close>.\<close>

definition delete_row ::
  "('r \<Rightarrow> string) \<Rightarrow> ('r \<Rightarrow> string) \<Rightarrow> string \<Rightarrow> string \<Rightarrow> string \<Rightarrow> ('r table, nat) sql" where
  "delete_row key owner t i cur = (\<lambda>rows.
     (Inr (length (filter (own_id key owner t i cur) rows)), filter (\<lambda>r. \<not> own_id key owner t i cur r) rows))"

definition visible :: "('r \<Rightarrow> string) \<Rightarrow> ('r \<Rightarrow> int) \<Rightarrow> string \<Rightarrow> 'r table \<Rightarrow> 'r list" where
  "visible owner created t rows = sort_key created (filter (\<lambda>r. owner r = t) rows)"

lemma sort_key_last:
  assumes "\<And>x. x \<in> set xs \<Longrightarrow> f x \<le> f r"
  shows "sort_key f (xs @ [r]) = sort_key f xs @ [r]"
proof -
  have ins: "insort_key f x (ys @ [r]) = insort_key f x ys @ [r]" if "f x \<le> f r" for x ys
    using that by (induction ys) auto
  show ?thesis using assms by (induction xs) (auto simp: ins)
qed

section \<open>A request on one tenant's rows\<close>

fun pg_rows_step ::
  "('db, 'r list) sql \<Rightarrow> (string \<Rightarrow> ('db, 'r option) sql) \<Rightarrow> (string \<Rightarrow> 'i \<Rightarrow> ('db, 'r) sql) \<Rightarrow>
   (string \<Rightarrow> 'p \<Rightarrow> ('db, 'r option) sql) \<Rightarrow> (string \<Rightarrow> ('db, bool) sql) \<Rightarrow> ('i, 'p) rows_request \<Rightarrow>
   ('db, 'r rows_reply) sql" where
  "pg_rows_step lst fnd crt upd rmv Rows_list = sql_bind lst (\<lambda>rs. sql_return (Rows rs))"
| "pg_rows_step lst fnd crt upd rmv (Rows_get i) = sql_bind (fnd i) (\<lambda>r. sql_return (Row r))"
| "pg_rows_step lst fnd crt upd rmv (Rows_create i x) = sql_bind (crt i x) (\<lambda>r. sql_return (Row (Some r)))"
| "pg_rows_step lst fnd crt upd rmv (Rows_update i p) = sql_bind (upd i p) (\<lambda>r. sql_return (Row r))"
| "pg_rows_step lst fnd crt upd rmv (Rows_delete i) = sql_bind (rmv i) (\<lambda>b. sql_return (Gone b))"

section \<open>The contract of such a table\<close>

text \<open>
  \<open>h\<close> is what the row schema makes of a row, \<open>mk now\<close> the row an INSERT writes and \<open>patch now\<close> what an UPDATE
  does to it; \<open>tidy\<close> is what the order of the list needs.
\<close>

definition ordered :: "bool \<Rightarrow> 'r list \<Rightarrow> 'r list" where
  "ordered newest_first rs = (if newest_first then rev rs else rs)"

definition list_order :: "bool \<Rightarrow> 'r rows_reply \<Rightarrow> 'r rows_reply" where
  "list_order newest_first reply = (case reply of Rows rs \<Rightarrow> Rows (ordered newest_first rs) | _ \<Rightarrow> reply)"

lemma list_order_map: "map_rows_reply f (list_order nf r) = list_order nf (map_rows_reply f r)"
  by (cases r) (simp_all add: list_order_def ordered_def rev_map)

definition before :: "('r \<Rightarrow> int) \<Rightarrow> int \<Rightarrow> 'r table \<Rightarrow> bool" where
  "before created now rows = (\<forall>r\<in>set rows. created r < now)"

locale stamped_table =
  fixes key owner :: "'r \<Rightarrow> string" and created :: "'r \<Rightarrow> int" and parse :: "'r \<Rightarrow> 'd option" and h :: "'r \<Rightarrow> 'd"
    and mk :: "int \<Rightarrow> string \<Rightarrow> string \<Rightarrow> 'i \<Rightarrow> 'r" and patch :: "int \<Rightarrow> 'p \<Rightarrow> 'r \<Rightarrow> 'r" and tidy :: "'r table \<Rightarrow> bool"
  assumes parse: "parse r = Some (h r)"
    and mk_names: "key (mk now t i x) = i" "owner (mk now t i x) = t" "created (mk now t i x) = now"
    and patch_names: "key (patch now p r) = key r" "owner (patch now p r) = owner r" "created (patch now p r) = created r"
    and tidy_insert: "tidy rows \<Longrightarrow> before created (created r) rows \<Longrightarrow> tidy (rows @ [r])"
    and tidy_update: "tidy rows \<Longrightarrow> tidy (map (\<lambda>r. if P r then patch now p r else r) rows)"
    and tidy_delete: "tidy rows \<Longrightarrow> tidy (filter P rows)"
begin

abbreviation rows_ok :: "'r table \<Rightarrow> bool" where "rows_ok rows \<equiv> distinct (map key rows) \<and> tidy rows"

abbreviation vis :: "string \<Rightarrow> 'r table \<Rightarrow> 'r list" where "vis \<equiv> visible owner created"

lemma find_visible:
  assumes "distinct (map key rows)"
  shows "List.find (\<lambda>r. key r = i) (vis t rows) = List.find (own_id key owner t i t) rows"
proof -
  have "distinct (map key (filter (\<lambda>r. owner r = t) rows))" using assms by (rule distinct_map_filter)
  then have "List.find (\<lambda>r. key r = i) (filter (\<lambda>r. owner r = t) rows) = List.find (\<lambda>r. key r = i) (vis t rows)"
    by (intro find_mset) (simp_all add: visible_def)
  moreover have "List.find (\<lambda>r. key r = i) (filter (\<lambda>r. owner r = t) rows) = List.find (own_id key owner t i t) rows"
    by (induction rows) (auto simp: own_id_def)
  ultimately show ?thesis by simp
qed

lemma own_once:
  assumes "distinct (map key rows)"
  shows "filter (own_id key owner t i t) rows =
    (case List.find (own_id key owner t i t) rows of None \<Rightarrow> [] | Some r \<Rightarrow> [r])"
proof -
  have "filter (own_id key owner t i t) rows = filter (\<lambda>r. owner r = t) (filter (\<lambda>r. key r = i) rows)"
    by (auto simp: own_id_def intro!: filter_cong)
  moreover have "List.find (own_id key owner t i t) rows =
      (case filter (own_id key owner t i t) rows of [] \<Rightarrow> None | r # _ \<Rightarrow> Some r)"
    by (simp add: hd_filter_find)
  ultimately show ?thesis unfolding filter_key [OF assms] by (auto split: option.splits)
qed

lemma visible_insert:
  assumes "before created (created r) rows"
  shows "vis s (rows @ [r]) = (if s = owner r then vis s rows @ [r] else vis s rows)"
  using assms sort_key_last [of "filter (\<lambda>x. owner x = owner r) rows" created r]
  by (auto simp: visible_def before_def order.strict_implies_order)

lemma visible_update:
  "vis s (map (\<lambda>r. if own_id key owner t i t r then patch now p r else r) rows) =
    (if s = t then map (\<lambda>r. if key r = i then patch now p r else r) (vis t rows) else vis s rows)"
proof -
  let ?u = "\<lambda>r. if own_id key owner t i t r then patch now p r else r"
  have owner: "owner (?u r) = owner r" and created: "created (?u r) = created r" for r
    by (simp_all add: patch_names)
  have "vis s (map ?u rows) = map ?u (vis s rows)"
    unfolding visible_def filter_map o_def owner sort_key_map created ..
  also have "\<dots> = (if s = t then map (\<lambda>r. if key r = i then patch now p r else r) (vis t rows) else vis s rows)"
    by (auto simp: own_id_def visible_def intro!: map_cong map_idI)
  finally show ?thesis .
qed

lemma visible_delete:
  "vis s (filter (\<lambda>r. \<not> own_id key owner t i t r) rows) =
    (if s = t then filter (\<lambda>r. key r \<noteq> i) (vis t rows) else vis s rows)"
  by (auto simp: visible_def filter_sort own_id_def intro!: arg_cong [of _ _ "sort_key created"] filter_cong)

text \<open>The five statements in their transaction.\<close>

lemma find_statement:
  "withTenant t (\<lambda>cur. queryOne parse (select_rows (\<lambda>rows. rows) (own_id key owner t i cur))) rows =
   (Inr (map_option h (List.find (own_id key owner t i t) rows)), rows)"
  by (rule withTenant_Inr, subst queryOne_select [where f = h]) (simp_all add: parse)

lemma create_statement:
  "i \<notin> key ` set rows \<Longrightarrow>
   withTenant t (\<lambda>cur. queryRequired parse (insert_row key owner (mk now t i x) cur)) rows =
   (Inr (h (mk now t i x)), rows @ [mk now t i x])"
  by (rule withTenant_Inr)
    (auto simp: queryRequired_def queryOne_def insert_row_def parse mk_names list_ex_iff image_iff)

lemma update_statement:
  "distinct (map key rows) \<Longrightarrow>
   withTenant t (\<lambda>cur. queryOne parse (update_row key owner t i (patch now p) cur)) rows =
   (Inr (map_option (\<lambda>r. h (patch now p r)) (List.find (own_id key owner t i t) rows)),
    map (\<lambda>r. if own_id key owner t i t r then patch now p r else r) rows)"
  by (rule withTenant_Inr)
    (simp add: queryOne_def update_row_def update_rows_def own_once parse split: option.split)

lemma remove_statement:
  "withTenant t (\<lambda>cur. sql_bind (delete_row key owner t i cur) (\<lambda>n. sql_return (n > 0))) rows =
   (Inr (filter (own_id key owner t i t) rows \<noteq> []), filter (\<lambda>r. \<not> own_id key owner t i t r) rows)"
  by (rule withTenant_Inr) (simp add: delete_row_def)

definition statement_step :: "('r table, 'd list) sql \<Rightarrow> int \<Rightarrow> string \<Rightarrow> ('i, 'p) rows_request \<Rightarrow> ('r table, 'd rows_reply) sql" where
  "statement_step lst now t = pg_rows_step lst
     (\<lambda>i. withTenant t (\<lambda>cur. queryOne parse (select_rows (\<lambda>rows. rows) (own_id key owner t i cur))))
     (\<lambda>i x. withTenant t (\<lambda>cur. queryRequired parse (insert_row key owner (mk now t i x) cur)))
     (\<lambda>i p. withTenant t (\<lambda>cur. queryOne parse (update_row key owner t i (patch now p) cur)))
     (\<lambda>i. withTenant t (\<lambda>cur. sql_bind (delete_row key owner t i cur) (\<lambda>n. sql_return (n > 0))))"

text \<open>A request in a tenant's transaction is the specification's step on the rows it sees.\<close>

lemma step_spec:
  assumes ok: "rows_ok rows" and fresh: "creates_fresh (\<lambda>rows. key ` set rows) rq rows"
    and clock: "before created now rows" and lst: "lst rows = (Inr (map h (ordered nf (vis t rows))), rows)"
  obtains reply rows' where "statement_step lst now t rq rows = (Inr (map_rows_reply h (list_order nf reply)), rows')"
    "(reply, vis t rows') = rows_spec key (mk now t) (patch now) rq (vis t rows)"
    "\<forall>s. s \<noteq> t \<longrightarrow> vis s rows' = vis s rows" "rows_ok rows'"
    "\<forall>r\<in>set rows'. created r \<le> now"
proof (cases rq)
  case Rows_list
  then show ?thesis
    using that [of "Rows (vis t rows)" rows] ok clock lst
    by (force simp: statement_step_def list_order_def before_def)
next
  case (Rows_get i)
  then show ?thesis
    using that [of "Row (List.find (own_id key owner t i t) rows)" rows] ok clock
    by (force simp: statement_step_def list_order_def before_def find_statement find_visible)
next
  case (Rows_create i x)
  have i: "i \<notin> key ` set rows" using fresh Rows_create by (simp add: creates_fresh_def)
  have "before created (created (mk now t i x)) rows" using clock by (simp add: mk_names)
  note new = visible_insert [OF this] tidy_insert [OF _ this]
  show ?thesis
    using that [of "Row (Some (mk now t i x))" "rows @ [mk now t i x]"] ok clock i new
    by (force simp: statement_step_def list_order_def Rows_create create_statement mk_names before_def)
next
  case (Rows_update i p)
  let ?rows = "map (\<lambda>r. if own_id key owner t i t r then patch now p r else r) rows"
  let ?found = "List.find (own_id key owner t i t) rows"
  have "distinct (map key ?rows)" using ok by (subst keys_kept) (simp_all add: patch_names)
  moreover have "created r \<le> now" if "r \<in> set ?rows" for r
    using that clock by (auto simp: before_def patch_names order.strict_implies_order)
  ultimately show ?thesis
    using that [of "Row (map_option (patch now p) ?found)" ?rows] ok tidy_update [of rows]
    by (simp add: statement_step_def list_order_def Rows_update update_statement visible_update find_visible
        option.map_comp o_def del: map_map)
next
  case (Rows_delete i)
  let ?rows = "filter (\<lambda>r. \<not> own_id key owner t i t r) rows"
  have "list_ex (\<lambda>r. key r = i) (vis t rows) \<longleftrightarrow> filter (own_id key owner t i t) rows \<noteq> []"
    by (auto simp: list_ex_iff visible_def own_id_def filter_empty_conv)
  then show ?thesis
    using that [of "Gone (filter (own_id key owner t i t) rows \<noteq> [])" ?rows] clock ok
    by (simp add: statement_step_def list_order_def Rows_delete remove_statement visible_delete tidy_delete
        distinct_map_filter before_def order.strict_implies_order)
qed

end

section \<open>PgEndUserRepository\<close>

record pg_end_user = end_user +
  eu_created_at :: int

definition eu_of :: "pg_end_user \<Rightarrow> end_user" where "eu_of r = end_user.truncate r"

definition endUserRow :: "pg_end_user \<Rightarrow> end_user option" where "endUserRow r = Some (eu_of r)"

definition pg_eu_list :: "string \<Rightarrow> (pg_end_user table, end_user list) sql" where
  "pg_eu_list t = withTenant t (\<lambda>cur. queryAll endUserRow (\<lambda>rows.
     (Inr (sort_key eu_created_at (filter (\<lambda>r. eu_tenant r = cur \<and> eu_tenant r = t) rows)), rows)))"

definition pg_eu_find :: "string \<Rightarrow> string \<Rightarrow> (pg_end_user table, end_user option) sql" where
  "pg_eu_find t i = withTenant t (\<lambda>cur. queryOne endUserRow (select_rows (\<lambda>rows. rows) (own_id eu_id eu_tenant t i cur)))"

definition pg_eu_row :: "int \<Rightarrow> string \<Rightarrow> string \<Rightarrow> end_user_input \<Rightarrow> pg_end_user" where
  "pg_eu_row now t i x = end_user.extend (eu_row t i x) (pg_end_user.fields now)"

definition pg_eu_create ::
  "int \<Rightarrow> string \<Rightarrow> string \<Rightarrow> end_user_input \<Rightarrow> (pg_end_user table, end_user) sql" where
  "pg_eu_create now t i x = withTenant t (\<lambda>cur.
     queryRequired endUserRow (insert_row eu_id eu_tenant (pg_eu_row now t i x) cur))"

text \<open>\<open>COALESCE($n, column)\<close>: a field the patch does not have is NULL.\<close>

definition coalesce :: "'a option \<Rightarrow> 'a \<Rightarrow> 'a" where
  "coalesce v old = (case v of None \<Rightarrow> old | Some x \<Rightarrow> x)"

definition pg_eu_patched :: "end_user_patch \<Rightarrow> pg_end_user \<Rightarrow> pg_end_user" where
  "pg_eu_patched p r = r\<lparr>eu_name := coalesce (ep_name p) (eu_name r), eu_email := coalesce (ep_email p) (eu_email r),
     eu_phone := coalesce (ep_phone p) (eu_phone r), eu_note := coalesce (ep_note p) (eu_note r)\<rparr>"

definition pg_eu_update ::
  "string \<Rightarrow> string \<Rightarrow> end_user_patch \<Rightarrow> (pg_end_user table, end_user option) sql" where
  "pg_eu_update t i p = withTenant t (\<lambda>cur. queryOne endUserRow (update_row eu_id eu_tenant t i (pg_eu_patched p) cur))"

definition pg_eu_remove :: "string \<Rightarrow> string \<Rightarrow> (pg_end_user table, bool) sql" where
  "pg_eu_remove t i = withTenant t (\<lambda>cur. sql_bind (delete_row eu_id eu_tenant t i cur) (\<lambda>n. sql_return (n > 0)))"

section \<open>PgPostRepository\<close>

record pg_post =
  pq_id :: string
  pq_tenant :: string
  pq_title :: string
  pq_body :: string
  pq_author :: string
  pq_created_at :: int
  pq_updated_at :: int

text \<open>\<open>iso_text\<close> stands for \<open>Date.prototype.toISOString\<close>.\<close>

definition post_of :: "(int \<Rightarrow> string) \<Rightarrow> pg_post \<Rightarrow> post" where
  "post_of iso_text r = \<lparr>p_id = pq_id r, p_tenant = pq_tenant r, p_title = pq_title r, p_body = pq_body r,
     p_author = pq_author r, p_created_at = iso_text (pq_created_at r), p_updated_at = iso_text (pq_updated_at r)\<rparr>"

definition postRow :: "(int \<Rightarrow> string) \<Rightarrow> pg_post \<Rightarrow> post option" where "postRow iso_text r = Some (post_of iso_text r)"

definition pg_post_list :: "(int \<Rightarrow> string) \<Rightarrow> string \<Rightarrow> (pg_post table, post list) sql" where
  "pg_post_list iso_text t = withTenant t (\<lambda>cur. queryAll (postRow iso_text) (\<lambda>rows.
     (Inr (sort_key (\<lambda>r. - pq_created_at r) (filter (\<lambda>r. pq_tenant r = cur \<and> pq_tenant r = t) rows)), rows)))"

definition pg_post_find :: "(int \<Rightarrow> string) \<Rightarrow> string \<Rightarrow> string \<Rightarrow> (pg_post table, post option) sql" where
  "pg_post_find iso_text t i = withTenant t (\<lambda>cur.
     queryOne (postRow iso_text) (select_rows (\<lambda>rows. rows) (own_id pq_id pq_tenant t i cur)))"

definition pg_post_row :: "int \<Rightarrow> string \<Rightarrow> string \<Rightarrow> string \<times> post_input \<Rightarrow> pg_post" where
  "pg_post_row now t i x = \<lparr>pq_id = i, pq_tenant = t, pq_title = pi_title (snd x), pq_body = pi_body (snd x),
     pq_author = fst x, pq_created_at = now, pq_updated_at = now\<rparr>"

definition pg_post_create ::
  "(int \<Rightarrow> string) \<Rightarrow> int \<Rightarrow> string \<Rightarrow> string \<Rightarrow> string \<times> post_input \<Rightarrow> (pg_post table, post) sql" where
  "pg_post_create iso_text now t i x = withTenant t (\<lambda>cur.
     queryRequired (postRow iso_text) (insert_row pq_id pq_tenant (pg_post_row now t i x) cur))"

text \<open>The trigger posts_touch_updated_at sets \<open>updated_at\<close>.\<close>

definition pg_post_patched :: "int \<Rightarrow> post_patch \<Rightarrow> pg_post \<Rightarrow> pg_post" where
  "pg_post_patched now p r = r\<lparr>pq_title := coalesce (pp_title p) (pq_title r),
     pq_body := coalesce (pp_body p) (pq_body r), pq_updated_at := now\<rparr>"

definition pg_post_update ::
  "(int \<Rightarrow> string) \<Rightarrow> int \<Rightarrow> string \<Rightarrow> string \<Rightarrow> post_patch \<Rightarrow> (pg_post table, post option) sql" where
  "pg_post_update iso_text now t i p = withTenant t (\<lambda>cur.
     queryOne (postRow iso_text) (update_row pq_id pq_tenant t i (pg_post_patched now p) cur))"

definition pg_post_remove :: "string \<Rightarrow> string \<Rightarrow> (pg_post table, bool) sql" where
  "pg_post_remove t i = withTenant t (\<lambda>cur. sql_bind (delete_row pq_id pq_tenant t i cur) (\<lambda>n. sql_return (n > 0)))"

section \<open>A memory repository and a table side by side\<close>

text \<open>A view of the rows that commutes with creation and patch carries the specification along.\<close>

lemma rows_spec_map:
  assumes "\<And>r. key' (h r) = key r" "\<And>i x. h (mk i x) = mk' i x" "\<And>p r. h (patch p r) = patch' p (h r)"
  shows "rows_spec key' mk' patch' rq (map h rs) = map_prod (map_rows_reply h) (map h) (rows_spec key mk patch rq rs)"
  by (cases rq) (auto simp: assms find_map option.map_comp o_def list_ex_iff filter_map)

type_synonym ('i, 'p) tenant_request = "int \<times> string \<times> ('i, 'p) rows_request"

fun memory_replies ::
  "(string \<Rightarrow> ('i, 'p) rows_request \<Rightarrow> 'db \<Rightarrow> 'd rows_reply \<times> 'db) \<Rightarrow> ('i, 'p) tenant_request list \<Rightarrow> 'db \<Rightarrow>
   'd rows_reply list \<times> 'db" where
  "memory_replies step [] db = ([], db)"
| "memory_replies step ((now, t, rq) # rqs) db =
     (let (a, db1) = step t rq db; (as, db2) = memory_replies step rqs db1 in (a # as, db2))"

fun table_replies ::
  "(int \<Rightarrow> string \<Rightarrow> ('i, 'p) rows_request \<Rightarrow> ('db, 'd rows_reply) sql) \<Rightarrow> ('i, 'p) tenant_request list \<Rightarrow> 'db \<Rightarrow>
   (pg_error + 'd rows_reply) list \<times> 'db" where
  "table_replies step [] db = ([], db)"
| "table_replies step ((now, t, rq) # rqs) db =
     (let (a, db1) = step now t rq db; (as, db2) = table_replies step rqs db1 in (a # as, db2))"

text \<open>Ids are fresh (ULIDs) when a row is created.\<close>

fun fresh_ids ::
  "(string \<Rightarrow> ('i, 'p) rows_request \<Rightarrow> 'db \<Rightarrow> 'd rows_reply \<times> 'db) \<Rightarrow> ('db \<Rightarrow> string set) \<Rightarrow>
   ('i, 'p) tenant_request list \<Rightarrow> 'db \<Rightarrow> bool" where
  "fresh_ids step ids [] db = True"
| "fresh_ids step ids ((now, t, rq) # rqs) db =
     (creates_fresh ids rq db \<and> fresh_ids step ids rqs (snd (step t rq db)))"

locale row_stores =
  m: tenant_rows lst fnd crt upd rmv mkey mmk mpatch ids wf +
  s: stamped_table key owner created parse h mk patch tidy
  for lst :: "string \<Rightarrow> 'db \<Rightarrow> 'd list" and fnd crt upd rmv and mkey :: "'d \<Rightarrow> string"
    and mmk :: "string \<Rightarrow> string \<Rightarrow> 'i \<Rightarrow> 'd" and mpatch :: "'p \<Rightarrow> 'd \<Rightarrow> 'd" and ids :: "'db \<Rightarrow> string set" and wf
    and key owner :: "'r \<Rightarrow> string" and created :: "'r \<Rightarrow> int" and parse :: "'r \<Rightarrow> 'd option" and h :: "'r \<Rightarrow> 'd"
    and mk :: "int \<Rightarrow> string \<Rightarrow> string \<Rightarrow> 'i \<Rightarrow> 'r" and patch :: "int \<Rightarrow> 'p \<Rightarrow> 'r \<Rightarrow> 'r" and tidy +
  fixes u :: "'d \<Rightarrow> 'd"
  assumes u_key: "mkey (u d) = mkey d" and h_key: "mkey (h r) = key r"
    and u_mk: "u (h (mk now t i x)) = u (mmk t i x)"
    and u_mpatch: "u (mpatch p d) = mpatch p (u d)" and u_patch: "u (h (patch now p r)) = mpatch p (u (h r))"
    and ids_rows: "wf db \<Longrightarrow> ids db = (\<Union>t. mkey ` set (lst t db))"
begin

definition agree :: "'db \<Rightarrow> 'r table \<Rightarrow> bool" where
  "agree db rows \<longleftrightarrow> wf db \<and> s.rows_ok rows \<and>
     (\<forall>t. map u (lst t db) = map (\<lambda>r. u (h r)) (s.vis t rows))"

lemma agree_ids: "agree db rows \<Longrightarrow> ids db = key ` set rows"
proof -
  assume a: "agree db rows"
  have "mkey ` set (lst t db) = key ` set (s.vis t rows)" for t
  proof -
    have "map u (lst t db) = map (\<lambda>r. u (h r)) (s.vis t rows)" using a by (simp add: agree_def)
    then have "map mkey (map u (lst t db)) = map mkey (map (\<lambda>r. u (h r)) (s.vis t rows))" by simp
    then have "map mkey (lst t db) = map key (s.vis t rows)" by (simp add: o_def u_key h_key)
    then show ?thesis by (metis set_map)
  qed
  moreover have "(\<Union>t. key ` set (s.vis t rows)) = key ` set rows" by (auto simp: visible_def)
  ultimately show ?thesis using a ids_rows [of db] by (simp add: agree_def)
qed

lemma agree_step:
  assumes agree: "agree db rows" and fresh: "creates_fresh ids rq db" and clock: "before created now rows"
    and lst': "lst' rows = (Inr (map h (ordered nf (s.vis t rows))), rows)"
  obtains reply' rows' where "s.statement_step lst' now t rq rows = (Inr reply', rows')"
    "map_rows_reply u reply' = list_order nf (map_rows_reply u (fst (rows_step lst fnd crt upd rmv t rq db)))"
    "agree (snd (rows_step lst fnd crt upd rmv t rq db)) rows'" "\<forall>r\<in>set rows'. created r \<le> now"
proof -
  let ?m = "rows_step lst fnd crt upd rmv t rq db"
  have ok: "s.rows_ok rows" and wf: "wf db" and eq: "\<And>t. map u (lst t db) = map (\<lambda>r. u (h r)) (s.vis t rows)"
    using agree by (auto simp: agree_def)
  have fresh': "creates_fresh (\<lambda>rows. key ` set rows) rq rows"
    using fresh agree_ids [OF agree] by (simp add: creates_fresh_def split: rows_request.splits)
  obtain reply rows' where run: "s.statement_step lst' now t rq rows = (Inr (map_rows_reply h (list_order nf reply)), rows')"
    and spec: "(reply, s.vis t rows') = rows_spec key (mk now t) (patch now) rq (s.vis t rows)"
    and others: "\<forall>v. v \<noteq> t \<longrightarrow> s.vis v rows' = s.vis v rows"
    and ok': "s.rows_ok rows'" and time: "\<forall>r\<in>set rows'. created r \<le> now"
    by (rule s.step_spec [where lst = lst' and nf = nf, OF ok fresh' clock lst'])
  have mspec: "(fst ?m, lst t (snd ?m)) = rows_spec mkey (mmk t) mpatch rq (lst t db)"
    by (rule m.step_refines [OF wf fresh])
  have "map_prod (map_rows_reply (\<lambda>r. u (h r))) (map (\<lambda>r. u (h r))) (reply, s.vis t rows') =
      rows_spec mkey (\<lambda>i x. u (mmk t i x)) mpatch rq (map (\<lambda>r. u (h r)) (s.vis t rows))"
    unfolding spec by (rule rows_spec_map [symmetric]) (simp_all add: u_key h_key u_mk u_patch)
  also have "\<dots> = rows_spec mkey (\<lambda>i x. u (mmk t i x)) mpatch rq (map u (lst t db))" by (simp only: eq)
  also have "\<dots> = map_prod (map_rows_reply u) (map u) (fst ?m, lst t (snd ?m))"
    unfolding mspec by (rule rows_spec_map) (simp_all add: u_key u_mpatch)
  finally have both: "map_rows_reply (\<lambda>r. u (h r)) reply = map_rows_reply u (fst ?m)"
    "map (\<lambda>r. u (h r)) (s.vis t rows') = map u (lst t (snd ?m))" by simp_all
  have "agree (snd ?m) rows'"
    unfolding agree_def
  proof (intro conjI allI)
    show "wf (snd ?m)" by (rule m.step_wf [OF wf])
    show "map u (lst v (snd ?m)) = map (\<lambda>r. u (h r)) (s.vis v rows')" for v
      using both(2) eq [of v] others m.step_isolated [OF wf fresh, of v t] by (cases "v = t") simp_all
  qed (use ok' in simp_all)
  moreover have "map_rows_reply u (map_rows_reply h (list_order nf reply)) = list_order nf (map_rows_reply u (fst ?m))"
    using both(1) by (simp add: rows_reply.map_comp o_def list_order_map)
  ultimately show thesis using that run time by blast
qed

text \<open>A run of requests of any tenants: the same answers, lists in the table's order.\<close>

lemma agree_run:
  assumes "agree db rows" "fresh_ids (rows_step lst fnd crt upd rmv) ids rqs db"
    "sorted_wrt (<) (map fst rqs)" "\<And>r now. r \<in> set rows \<Longrightarrow> now \<in> set (map fst rqs) \<Longrightarrow> created r < now"
    and lst': "\<And>t rows. s.rows_ok rows \<Longrightarrow> lst' t rows = (Inr (map h (ordered nf (s.vis t rows))), rows)"
  shows "map (map_sum id (map_rows_reply u)) (fst (table_replies (\<lambda>now t. s.statement_step (lst' t) now t) rqs rows)) =
      map (\<lambda>a. Inr (list_order nf (map_rows_reply u a))) (fst (memory_replies (rows_step lst fnd crt upd rmv) rqs db)) \<and>
    agree (snd (memory_replies (rows_step lst fnd crt upd rmv) rqs db))
      (snd (table_replies (\<lambda>now t. s.statement_step (lst' t) now t) rqs rows))"
  using assms(1-4)
proof (induction rqs arbitrary: db rows)
  case (Cons req rqs)
  obtain now t rq where req: "req = (now, t, rq)" by (cases req) auto
  have ok: "s.rows_ok rows" using Cons.prems(1) by (simp add: agree_def)
  have pre: "creates_fresh ids rq db" "before created now rows"
    using Cons.prems(2,4) by (simp_all add: before_def req)
  obtain reply' rows' where run: "s.statement_step (lst' t) now t rq rows = (Inr reply', rows')"
    and reply: "map_rows_reply u reply' = list_order nf (map_rows_reply u (fst (rows_step lst fnd crt upd rmv t rq db)))"
    and next': "agree (snd (rows_step lst fnd crt upd rmv t rq db)) rows'"
    and time: "\<forall>r\<in>set rows'. created r \<le> now"
    by (rule agree_step [where lst' = "lst' t" and nf = nf, OF Cons.prems(1) pre lst' [OF ok]])
  have "created r < later" if "r \<in> set rows'" "later \<in> set (map fst rqs)" for r later
    using bspec [OF time that(1)] Cons.prems(3) that(2) by (fastforce simp: req)
  then show ?case
    using Cons.IH [OF next'] Cons.prems(2,3) run reply by (simp add: req case_prod_beta)
qed simp

end

section \<open>The end users' two repositories\<close>

definition pg_eu_step ::
  "int \<Rightarrow> string \<Rightarrow> (end_user_input, end_user_patch) rows_request \<Rightarrow> (pg_end_user table, end_user rows_reply) sql" where
  "pg_eu_step now t = pg_rows_step (pg_eu_list t) (pg_eu_find t) (pg_eu_create now t) (pg_eu_update t) (pg_eu_remove t)"

lemma eu_of_row: "eu_of (pg_eu_row now t i x) = eu_row t i x"
  by (simp add: eu_of_def pg_eu_row_def eu_row_def end_user.defs pg_end_user.defs)

lemma eu_of_patched: "eu_of (pg_eu_patched p r) = eu_patched p (eu_of r)"
  by (simp add: eu_of_def pg_eu_patched_def eu_patched_def coalesce_def end_user.defs split: option.split)

lemma eu_of_names [simp]: "eu_id (eu_of r) = eu_id r" "eu_tenant (eu_of r) = eu_tenant r"
  by (simp_all add: eu_of_def end_user.defs)

lemma pg_eu_names [simp]: "eu_created_at (pg_eu_row now t i x) = now" "eu_id (pg_eu_row now t i x) = i"
  "eu_tenant (pg_eu_row now t i x) = t" "eu_id (pg_eu_patched p r) = eu_id r"
  "eu_tenant (pg_eu_patched p r) = eu_tenant r" "eu_created_at (pg_eu_patched p r) = eu_created_at r"
  by (simp_all add: pg_eu_row_def pg_eu_patched_def eu_row_def end_user.defs pg_end_user.defs)

lemma keyed_ids: "keyed key db \<Longrightarrow> fst ` set db = (\<Union>t. key ` {x \<in> snd ` set db. owner x = t})"
  by (force simp: keyed_def)

interpretation eu_stores: row_stores eu_list eu_find eu_create eu_update eu_remove eu_id eu_row eu_patched
  "\<lambda>db. fst ` set db" "keyed eu_id" eu_id eu_tenant eu_created_at endUserRow eu_of pg_eu_row "\<lambda>_. pg_eu_patched"
  "\<lambda>_. True" "\<lambda>u. u"
  by unfold_locales
    (auto simp: endUserRow_def eu_of_row eu_of_patched eu_list_def keyed_ids [where owner = eu_tenant])

lemma pg_eu_step_run: "pg_eu_step now t = eu_stores.s.statement_step (pg_eu_list t) now t"
  by (simp add: pg_eu_step_def eu_stores.s.statement_step_def pg_eu_find_def [abs_def] pg_eu_create_def [abs_def]
      pg_eu_update_def [abs_def] pg_eu_remove_def [abs_def])

lemma pg_eu_list_run: "pg_eu_list t rows = (Inr (map eu_of (ordered False (visible eu_tenant eu_created_at t rows))), rows)"
  unfolding pg_eu_list_def
  by (rule withTenant_Inr) (simp add: queryAll_def endUserRow_def ordered_def visible_def those_map_Some)

definition eu_agree :: "end_user_db \<Rightarrow> pg_end_user table \<Rightarrow> bool" where
  "eu_agree db rows \<longleftrightarrow> keyed eu_id db \<and> distinct (map eu_id rows) \<and>
     (\<forall>t. eu_list t db = map eu_of (visible eu_tenant eu_created_at t rows))"

lemma list_order_False [simp]: "list_order False = (\<lambda>r. r)"
  by (intro ext) (simp add: list_order_def ordered_def split: rows_reply.split)



section \<open>The posts' two repositories\<close>

definition pg_post_step ::
  "(int \<Rightarrow> string) \<Rightarrow> int \<Rightarrow> string \<Rightarrow> (string \<times> post_input, post_patch) rows_request \<Rightarrow>
   (pg_post table, post rows_reply) sql" where
  "pg_post_step iso_text now t = pg_rows_step (pg_post_list iso_text t) (pg_post_find iso_text t)
     (pg_post_create iso_text now t) (pg_post_update iso_text now t) (pg_post_remove t)"

text \<open>A post without its times: the memory repository writes a fixed one and never moves \<open>updatedAt\<close>.\<close>

definition untimed :: "post \<Rightarrow> post" where "untimed p = p\<lparr>p_created_at := [], p_updated_at := []\<rparr>"

lemma untimed_names [simp]: "p_id (untimed p) = p_id p" "p_tenant (untimed p) = p_tenant p"
  by (simp_all add: untimed_def)

lemma pg_post_names [simp]: "p_id (post_of iso_text r) = pq_id r" "p_tenant (post_of iso_text r) = pq_tenant r"
  "pq_id (pg_post_row now t i x) = i" "pq_tenant (pg_post_row now t i x) = t"
  "pq_created_at (pg_post_row now t i x) = now" "pq_id (pg_post_patched now p r) = pq_id r"
  "pq_tenant (pg_post_patched now p r) = pq_tenant r" "pq_created_at (pg_post_patched now p r) = pq_created_at r"
  by (simp_all add: post_of_def pg_post_row_def pg_post_patched_def)

lemma untimed_row: "untimed (post_of iso_text (pg_post_row now t i x)) = untimed (post_row t i x)"
  by (simp add: untimed_def post_of_def pg_post_row_def post_row_def)

lemma untimed_patched: "untimed (post_of iso_text (pg_post_patched now p r)) = post_patched p (untimed (post_of iso_text r))"
  by (simp add: untimed_def post_of_def pg_post_patched_def post_patched_def coalesce_def split: option.split)

lemma patched_untimed: "untimed (post_patched p q) = post_patched p (untimed q)"
  by (cases q) (simp add: untimed_def post_patched_def split: option.split)

abbreviation "distinct_times rows \<equiv> distinct (map pq_created_at rows)"

interpretation post_stores: row_stores post_list post_find post_create post_update post_remove p_id post_row post_patched
  "\<lambda>db. fst ` set db" "keyed p_id" pq_id pq_tenant pq_created_at "postRow iso_text" "post_of iso_text"
  pg_post_row pg_post_patched "\<lambda>rows. distinct (map pq_created_at rows)" untimed for iso_text
proof unfold_locales
  fix rows :: "pg_post table" and P now p
  assume d: "distinct_times rows"
  show "distinct_times (map (\<lambda>r. if P r then pg_post_patched now p r else r) rows)"
    using d by (subst keys_kept) simp_all
  show "distinct_times (filter P rows)" using d by (rule distinct_map_filter)
next
  fix rows :: "pg_post table" and r :: pg_post
  assume "distinct_times rows" "before pq_created_at (pq_created_at r) rows"
  then show "distinct_times (rows @ [r])" by (auto simp: before_def)
qed (auto simp: postRow_def untimed_row untimed_patched patched_untimed post_list_def keyed_ids [where owner = p_tenant])

lemma sort_key_newest:
  fixes f :: "'a \<Rightarrow> int"
  assumes "distinct (map f xs)"
  shows "sort_key (\<lambda>x. - f x) xs = rev (sort_key f xs)"
proof (rule sort_key_inj_key_eq)
  show "inj_on (\<lambda>x. - f x) (set xs)" using assms by (auto simp: distinct_map inj_on_def)
  have "sorted_wrt (\<lambda>x y. f x \<le> f y) (sort_key f xs)" using sorted_sort_key [of f xs] by (simp add: sorted_map)
  then show "sorted (map (\<lambda>x. - f x) (rev (sort_key f xs)))" by (simp add: sorted_map sorted_wrt_rev)
qed simp

lemma pg_post_list_run:
  assumes "distinct_times rows"
  shows "pg_post_list iso_text t rows =
    (Inr (map (post_of iso_text) (ordered True (visible pq_tenant pq_created_at t rows))), rows)"
  unfolding pg_post_list_def
  by (rule withTenant_Inr)
    (simp add: queryAll_def postRow_def ordered_def visible_def those_map_Some sort_key_newest distinct_map_filter [OF assms])

lemma pg_post_step_run: "pg_post_step iso_text now t = post_stores.s.statement_step iso_text (pg_post_list iso_text t) now t"
  by (simp add: pg_post_step_def post_stores.s.statement_step_def pg_post_find_def [abs_def] pg_post_create_def [abs_def]
      pg_post_update_def [abs_def] pg_post_remove_def [abs_def])

definition post_agree :: "(int \<Rightarrow> string) \<Rightarrow> post_db \<Rightarrow> pg_post table \<Rightarrow> bool" where
  "post_agree iso_text db rows \<longleftrightarrow> keyed p_id db \<and> distinct (map pq_id rows) \<and> distinct_times rows \<and>
     (\<forall>t. map untimed (post_list t db) = map (\<lambda>r. untimed (post_of iso_text r)) (visible pq_tenant pq_created_at t rows))"

text \<open>Under the same conditions as for end users, PgPostRepository and MemoryPostRepository give the same
  answers up to the two times of a post, with one difference: PostgreSQL answers a list newest first
  (\<open>ORDER BY created_at DESC\<close>), the map in the order of insertion. The posts kept agree afterwards.\<close>
theorem post_replies_agree:
  assumes "post_agree iso_text db rows" "fresh_ids post_step (\<lambda>db. fst ` set db) rqs db" "sorted_wrt (<) (map fst rqs)"
    "\<And>r now. r \<in> set rows \<Longrightarrow> now \<in> set (map fst rqs) \<Longrightarrow> pq_created_at r < now"
  shows "map (map_sum id (map_rows_reply untimed)) (fst (table_replies (pg_post_step iso_text) rqs rows)) =
      map (\<lambda>a. Inr (list_order True (map_rows_reply untimed a))) (fst (memory_replies post_step rqs db)) \<and>
    post_agree iso_text (snd (memory_replies post_step rqs db)) (snd (table_replies (pg_post_step iso_text) rqs rows))"
proof -
  have agree: "post_stores.agree iso_text db rows = post_agree iso_text db rows" for db rows
    by (simp add: post_stores.agree_def post_agree_def)
  have "pg_post_step iso_text = (\<lambda>now t. post_stores.s.statement_step iso_text (pg_post_list iso_text t) now t)"
    by (intro ext) (simp add: pg_post_step_run)
  then show ?thesis
    using post_stores.agree_run [where lst' = "pg_post_list iso_text" and iso_text = iso_text, unfolded agree,
      OF assms pg_post_list_run] by simp
qed

lemma post_replies_agree_witness:
  "let x = (''sub'', \<lparr>pi_title = ''a'', pi_body = ''A''\<rparr>); y = (''sub'', \<lparr>pi_title = ''b'', pi_body = ''B''\<rparr>);
       rqs = [(1, ''acme'', Rows_create ''1'' x), (2, ''acme'', Rows_create ''2'' y), (3, ''acme'', Rows_list)];
       iso_text = (\<lambda>n::int. ''1970'') in
   map (map_sum id (map_rows_reply untimed)) (fst (table_replies (pg_post_step iso_text) rqs [])) =
     map (\<lambda>a. Inr (list_order True (map_rows_reply untimed a))) (fst (memory_replies post_step rqs [])) \<and>
   fst (memory_replies post_step rqs []) =
     [Row (Some (post_row ''acme'' ''1'' x)), Row (Some (post_row ''acme'' ''2'' y)),
      Rows [post_row ''acme'' ''1'' x, post_row ''acme'' ''2'' y]]"
proof -
  define x where "x = (''sub'', \<lparr>pi_title = ''a'', pi_body = ''A''\<rparr>)"
  define y where "y = (''sub'', \<lparr>pi_title = ''b'', pi_body = ''B''\<rparr>)"
  define rqs where "rqs = [(1::int, ''acme'', Rows_create ''1'' x), (2, ''acme'', Rows_create ''2'' y),
    (3, ''acme'', Rows_list :: (string \<times> post_input, post_patch) rows_request)]"
  define iso_text where "iso_text = (\<lambda>n::int. ''1970'')"
  note rows = post_create_def post_list_def post_row_def
  have "post_agree iso_text [] []" by (simp add: post_agree_def post_list_def visible_def)
  moreover have "fresh_ids post_step (\<lambda>db. fst ` set db) rqs []"
    by (simp add: rqs_def creates_fresh_def rows)
  ultimately have "map (map_sum id (map_rows_reply untimed)) (fst (table_replies (pg_post_step iso_text) rqs [])) =
     map (\<lambda>a. Inr (list_order True (map_rows_reply untimed a))) (fst (memory_replies post_step rqs []))"
    using post_replies_agree [of iso_text "[]" "[]" rqs] by (simp add: rqs_def)
  moreover have "fst (memory_replies post_step rqs []) =
     [Row (Some (post_row ''acme'' ''1'' x)), Row (Some (post_row ''acme'' ''2'' y)),
      Rows [post_row ''acme'' ''1'' x, post_row ''acme'' ''2'' y]]"
    by (simp add: rqs_def rows x_def y_def)
  ultimately show ?thesis unfolding rqs_def x_def y_def iso_text_def by (simp only: Let_def simp_thms)
qed

end
