(* ===== verification/CognitoSdk.thy ===== *)
theory CognitoSdk
  imports MockCognito Jwks
begin

text \<open>
  apps/auth-api/src/infrastructure/cognito-sdk.ts: the adapter of the Cognito port used in production.
  What it calls is a parameter: \<open>send\<close> of the AWS client (one reply or one exception per command), the
  functions of cognito-srp-helper, jose, and the answers of Cognito's JWKS endpoint. The state holds
  Cognito's side (\<open>sdk_world\<close>), the RemoteJwksSource of Jwks, the clock, the log and the number of random
  draws. An exception is a value of \<open>thrown\<close>, which the catch clauses turn into an error of the port.
\<close>

section \<open>The AWS client and cognito-srp-helper\<close>

datatype thrown = Error_named string | Not_an_error

record initiate_input =
  ii_client :: string
  ii_flow :: string
  ii_parameters :: "(string \<times> string) list"

record challenge_input =
  ci_client :: string
  ci_name :: string
  ci_session :: "string option"
  ci_responses :: "(string \<times> string) list"

datatype sdk_command = Initiate_auth initiate_input | Respond_to_challenge challenge_input
  | Associate_software_token string | Verify_software_token string string
  | Set_mfa_preference string bool bool | Revoke_token string string string

record authentication_result =
  xr_access :: "string option"
  xr_id :: "string option"
  xr_refresh :: "string option"
  xr_expires_in :: "int option"

text \<open>The fields the adapter reads of any of the outputs; each output has some of them.\<close>

record sdk_reply =
  re_challenge :: "string option"
  re_parameters :: "(string \<times> string) list option"
  re_session :: "string option"
  re_result :: "authentication_result option"
  re_secret :: "string option"
  re_status :: "string option"

record ('x, 'y) srp_helper =
  createSecretHash :: "string \<Rightarrow> string \<Rightarrow> string \<Rightarrow> string"
  createSrpSession :: "nat \<Rightarrow> string \<Rightarrow> string \<Rightarrow> string \<Rightarrow> bool \<Rightarrow> thrown + 'x"
  wrapInitiateAuth :: "'x \<Rightarrow> initiate_input \<Rightarrow> thrown + initiate_input"
  signSrpSession :: "seconds \<Rightarrow> 'x \<Rightarrow> string \<Rightarrow> (string \<times> string) list \<Rightarrow> thrown + 'y"
  wrapAuthChallenge :: "'y \<Rightarrow> challenge_input \<Rightarrow> thrown + challenge_input"

record sdk_config =
  sf_region :: string
  sf_pool :: string
  sf_client :: string
  sf_secret :: string

record ('w, 'x, 'y) sdk =
  sdk_config :: sdk_config
  sdk_send :: "sdk_command \<Rightarrow> 'w \<Rightarrow> (thrown + sdk_reply) \<times> 'w"
  sdk_srp :: "('x, 'y) srp_helper"
  sdk_jose :: jose
  sdk_keys :: "'w \<Rightarrow> jwks_response"

record 'w sdk_state =
  sdk_now :: seconds
  sdk_world :: 'w
  sdk_source :: jwks_source
  sdk_log :: "(string \<times> string) list"
  sdk_draws :: nat

type_synonym ('w, 'a) sdk_m = "('w sdk_state, 'a) state"

text \<open>A computation that may throw, and the catch clause around it.\<close>

definition or_throw :: "('w, thrown + 'a) sdk_m \<Rightarrow> ('a \<Rightarrow> ('w, thrown + 'b) sdk_m) \<Rightarrow> ('w, thrown + 'b) sdk_m" where
  "or_throw m f = do { r \<leftarrow> m; case r of Inl ex \<Rightarrow> State_Monad.return (Inl ex) | Inr v \<Rightarrow> f v }"

definition answer :: "('a, 'e) result \<Rightarrow> ('w, thrown + ('a, 'e) result) sdk_m" where
  "answer r = State_Monad.return (Inr r)"

definition try_catch ::
  "('w, thrown + ('a, 'e) result) sdk_m \<Rightarrow> (thrown \<Rightarrow> ('w, 'e) sdk_m) \<Rightarrow> ('w, ('a, 'e) result) sdk_m" where
  "try_catch m handler = do {
     r \<leftarrow> m;
     case r of Inr v \<Rightarrow> State_Monad.return v
     | Inl ex \<Rightarrow> do { e \<leftarrow> handler ex; State_Monad.return (Inl e) }
   }"

definition send :: "('w, 'x, 'y) sdk \<Rightarrow> sdk_command \<Rightarrow> ('w, thrown + sdk_reply) sdk_m" where
  "send x c = State (\<lambda>s. let (r, w) = sdk_send x c (sdk_world s) in (r, s\<lparr>sdk_world := w\<rparr>))"

definition log_error :: "string \<Rightarrow> string \<Rightarrow> ('w, unit) sdk_m" where
  "log_error text detail = modifies (\<lambda>s. s\<lparr>sdk_log := sdk_log s @ [(text, detail)]\<rparr>)"

lemma send_run [run_simps]: "run_state (send x c) s =
    (fst (sdk_send x c (sdk_world s)), s\<lparr>sdk_world := snd (sdk_send x c (sdk_world s))\<rparr>)"
  by (simp add: send_def case_prod_beta)

lemma or_throw_run [run_simps]: "run_state (or_throw m f) s =
    (case run_state m s of (Inl ex, s') \<Rightarrow> (Inl ex, s') | (Inr v, s') \<Rightarrow> run_state (f v) s')"
  by (simp add: or_throw_def State_Monad.bind_def case_prod_beta split: sum.split prod.split)

lemma answer_run [run_simps]: "run_state (answer r) s = (Inr r, s)"
  by (simp add: answer_def)

lemma try_catch_run [run_simps]: "run_state (try_catch m handler) s =
    (case run_state m s of (Inr v, s') \<Rightarrow> (v, s') | (Inl ex, s') \<Rightarrow> apfst Inl (run_state (handler ex) s'))"
  by (simp add: try_catch_def State_Monad.bind_def case_prod_beta apfst_def map_prod_def split: sum.split prod.split)

section \<open>Errors\<close>

definition errorName :: "thrown \<Rightarrow> string" where
  "errorName ex = (case ex of Error_named n \<Rightarrow> n | Not_an_error \<Rightarrow> ''unknown'')"

definition mapMfaError :: "thrown \<Rightarrow> ('w, cognito_mfa_error) sdk_m" where
  "mapMfaError ex =
     (if errorName ex \<in> {''CodeMismatchException'', ''EnableSoftwareTokenMFAException''}
      then State_Monad.return Code_mismatch
      else if errorName ex \<in> {''NotAuthorizedException'', ''ExpiredCodeException''}
      then State_Monad.return Session_expired
      else do {
        _ \<leftarrow> log_error ''cognito mfa call failed'' (errorName ex);
        State_Monad.return (Mfa_unavailable (errorName ex))
      })"

definition mapCognitoError :: "thrown \<Rightarrow> ('w, cognito_auth_error) sdk_m" where
  "mapCognitoError ex =
     (if errorName ex \<in> {''NotAuthorizedException'', ''UserNotFoundException''}
      then State_Monad.return Invalid_credentials
      else if errorName ex = ''UserNotConfirmedException'' then State_Monad.return User_not_confirmed
      else if errorName ex = ''PasswordResetRequiredException'' then State_Monad.return Password_reset_required
      else do {
        _ \<leftarrow> log_error ''cognito call failed'' (errorName ex);
        State_Monad.return (Auth_unavailable (errorName ex))
      })"

section \<open>toAuthenticated\<close>

definition cognito_issuer :: "sdk_config \<Rightarrow> string" where
  "cognito_issuer cf = ''https://cognito-idp.'' @ sf_region cf @ ''.amazonaws.com/'' @ sf_pool cf"

definition cognito_options :: "sdk_config \<Rightarrow> seconds \<Rightarrow> verify_options" where
  "cognito_options cf t = \<lparr>vo_issuer = cognito_issuer cf, vo_audience = Some (sf_client cf), vo_now = t,
     vo_tolerance = DEFAULT_CLOCK_TOLERANCE_SECONDS\<rparr>"

text \<open>\<open>this.jwks\<close>, asked at the time of the call; a fetch it starts ends with the endpoint's answer.\<close>

definition cognito_jwks :: "('w, 'x, 'y) sdk \<Rightarrow> bool \<Rightarrow> ('w, (jwks, jwks_error) result) sdk_m" where
  "cognito_jwks x force = State (\<lambda>s.
     let (r, src) = run_state (jwks_source_get (sdk_now s) (sdk_keys x (sdk_world s)) force) (sdk_source s)
     in (r, s\<lparr>sdk_source := src\<rparr>))"

definition verify_error_kind :: "verify_error \<Rightarrow> string" where
  "verify_error_kind e = (case e of Expired \<Rightarrow> ''expired'' | Invalid_token _ \<Rightarrow> ''invalid_token''
     | Jwks_unavailable _ \<Rightarrow> ''jwks_unavailable'')"

definition verify_id_token :: "('w, 'x, 'y) sdk \<Rightarrow> string \<Rightarrow> ('w, (json, verify_error) result) sdk_m" where
  "verify_id_token x token = do {
     t \<leftarrow> reads sdk_now;
     verifyJwtWithSource (sdk_jose x) (cognito_jwks x) token (cognito_options (sdk_config x) t)
   }"

definition claims_of ::
  "authentication_result \<Rightarrow> string \<Rightarrow> string \<Rightarrow> string \<Rightarrow> seconds \<Rightarrow> json \<Rightarrow>
   (cognito_authenticated, cognito_auth_error) result" where
  "claims_of r access token refresh t claims =
     (case (json_field ''token_use'' claims, json_string (json_field ''sub'' claims),
            json_string (json_field ''email'' claims)) of
        (Some (JStr use), Some sub, Some email) \<Rightarrow>
          if use \<noteq> ''id'' then Inl (Auth_unavailable ''id token claims incomplete'')
          else Inr \<lparr>ca_sub = sub, ca_email = email, ca_name = json_string (json_field ''name'' claims),
            ca_tokens = \<lparr>ck_access = access, ck_id = token, ck_refresh = refresh,
              ck_expires_at = t + (case xr_expires_in r of Some n \<Rightarrow> n | None \<Rightarrow> 3600)\<rparr>\<rparr>
      | _ \<Rightarrow> Inl (Auth_unavailable ''id token claims incomplete''))"

definition toAuthenticated ::
  "('w, 'x, 'y) sdk \<Rightarrow> authentication_result \<Rightarrow>
   ('w, (cognito_authenticated, cognito_auth_error) result) sdk_m" where
  "toAuthenticated x r =
     (case (xr_access r, xr_id r, xr_refresh r) of
        (Some access, Some token, Some refresh) \<Rightarrow> do {
          verified \<leftarrow> verify_id_token x token;
          case verified of
            Inl e \<Rightarrow> do {
              _ \<leftarrow> log_error ''cognito id token verification failed'' (verify_error_kind e);
              State_Monad.return (Inl (Auth_unavailable ''id token verification failed''))
            }
          | Inr claims \<Rightarrow> do {
              t \<leftarrow> reads sdk_now;
              State_Monad.return (claims_of r access token refresh t claims)
            }
        }
      | _ \<Rightarrow> State_Monad.return (Inl (Auth_unavailable ''tokens missing in authentication result'')))"

section \<open>authenticate\<close>

definition new_srp_session :: "('w, 'x, 'y) sdk \<Rightarrow> credentials \<Rightarrow> ('w, thrown + 'x) sdk_m" where
  "new_srp_session x cr = State (\<lambda>s.
     (createSrpSession (sdk_srp x) (sdk_draws s) (cr_username cr) (cr_password cr) (sf_pool (sdk_config x)) False,
      s\<lparr>sdk_draws := sdk_draws s + 1\<rparr>))"

definition secret_hash :: "('w, 'x, 'y) sdk \<Rightarrow> string \<Rightarrow> string" where
  "secret_hash x username =
     createSecretHash (sdk_srp x) username (sf_client (sdk_config x)) (sf_secret (sdk_config x))"

definition srp_a_request :: "('w, 'x, 'y) sdk \<Rightarrow> string \<Rightarrow> initiate_input" where
  "srp_a_request x username = \<lparr>ii_client = sf_client (sdk_config x), ii_flow = ''USER_SRP_AUTH'',
     ii_parameters = [(''CHALLENGE_NAME'', ''SRP_A''), (''SECRET_HASH'', secret_hash x username),
       (''USERNAME'', username)]\<rparr>"

definition verifier_request :: "('w, 'x, 'y) sdk \<Rightarrow> string \<Rightarrow> string option \<Rightarrow> challenge_input" where
  "verifier_request x username session = \<lparr>ci_client = sf_client (sdk_config x), ci_name = ''PASSWORD_VERIFIER'',
     ci_session = session, ci_responses = [(''SECRET_HASH'', secret_hash x username), (''USERNAME'', username)]\<rparr>"

definition signed_session ::
  "('w, 'x, 'y) sdk \<Rightarrow> 'x \<Rightarrow> (string \<times> string) list \<Rightarrow> ('w, thrown + 'y) sdk_m" where
  "signed_session x srp ps = reads (\<lambda>s. signSrpSession (sdk_srp x) (sdk_now s) srp ''PASSWORD_VERIFIER'' ps)"

text \<open>What the answer to the password makes of the login.\<close>

definition after_password ::
  "('w, 'x, 'y) sdk \<Rightarrow> string \<Rightarrow> sdk_reply \<Rightarrow>
   ('w, thrown + (cognito_outcome, cognito_auth_error) result) sdk_m" where
  "after_password x username responded =
     (case re_challenge responded of
        Some ch \<Rightarrow>
          if ch = ''SOFTWARE_TOKEN_MFA'' then
            answer (case re_session responded of
              None \<Rightarrow> Inl (Auth_unavailable ''mfa session missing'')
            | Some session \<Rightarrow> Inr (Totp_required session username))
          else answer (Inl (Challenge_required ch))
      | None \<Rightarrow>
          (case re_result responded of
             None \<Rightarrow> answer (Inl (Auth_unavailable ''no authentication result''))
           | Some r \<Rightarrow> do {
               authenticated \<leftarrow> toAuthenticated x r;
               answer (case authenticated of Inl e \<Rightarrow> Inl e | Inr a \<Rightarrow> Inr (Authenticated a))
             }))"

definition sdk_authenticate ::
  "('w, 'x, 'y) sdk \<Rightarrow> credentials \<Rightarrow> ('w, (cognito_outcome, cognito_auth_error) result) sdk_m" where
  "sdk_authenticate x cr = try_catch
     (or_throw (new_srp_session x cr) (\<lambda>srp.
      or_throw (State_Monad.return (wrapInitiateAuth (sdk_srp x) srp (srp_a_request x (cr_username cr)))) (\<lambda>request.
      or_throw (send x (Initiate_auth request)) (\<lambda>initiated.
        if re_challenge initiated \<noteq> Some ''PASSWORD_VERIFIER'' then
          answer (Inl (Challenge_required (case re_challenge initiated of None \<Rightarrow> ''unknown'' | Some n \<Rightarrow> n)))
        else case re_parameters initiated of
          None \<Rightarrow> answer (Inl (Auth_unavailable ''challenge parameters missing''))
        | Some ps \<Rightarrow>
            or_throw (signed_session x srp ps) (\<lambda>signed.
            or_throw (State_Monad.return (wrapAuthChallenge (sdk_srp x) signed
              (verifier_request x (cr_username cr) (re_session initiated)))) (\<lambda>challenge.
            or_throw (send x (Respond_to_challenge challenge)) (after_password x (cr_username cr))))))))
     mapCognitoError"

section \<open>The other operations of the port\<close>

definition totp_response :: "('w, 'x, 'y) sdk \<Rightarrow> string \<Rightarrow> string \<Rightarrow> string \<Rightarrow> sdk_command" where
  "totp_response x username session code = Respond_to_challenge \<lparr>ci_client = sf_client (sdk_config x),
     ci_name = ''SOFTWARE_TOKEN_MFA'', ci_session = Some session,
     ci_responses = [(''USERNAME'', username), (''SOFTWARE_TOKEN_MFA_CODE'', code),
       (''SECRET_HASH'', secret_hash x username)]\<rparr>"

definition sdk_respondToTotp ::
  "('w, 'x, 'y) sdk \<Rightarrow> string \<Rightarrow> string \<Rightarrow> string \<Rightarrow>
   ('w, (cognito_authenticated, cognito_mfa_error) result) sdk_m" where
  "sdk_respondToTotp x username session code = try_catch
     (or_throw (send x (totp_response x username session code)) (\<lambda>responded.
        case re_result responded of
          None \<Rightarrow> answer (Inl (Mfa_unavailable ''no authentication result''))
        | Some r \<Rightarrow> do {
            authenticated \<leftarrow> toAuthenticated x r;
            answer (case authenticated of
              Inl e \<Rightarrow> Inl (Mfa_unavailable (auth_error_kind e)) | Inr a \<Rightarrow> Inr a)
          }))
     mapMfaError"

definition sdk_associateSoftwareToken ::
  "('w, 'x, 'y) sdk \<Rightarrow> string \<Rightarrow> ('w, (string, cognito_mfa_error) result) sdk_m" where
  "sdk_associateSoftwareToken x access = try_catch
     (or_throw (send x (Associate_software_token access)) (\<lambda>r. answer (case re_secret r of
        None \<Rightarrow> Inl (Mfa_unavailable ''secret code missing'') | Some secret \<Rightarrow> Inr secret)))
     mapMfaError"

definition sdk_verifySoftwareToken ::
  "('w, 'x, 'y) sdk \<Rightarrow> string \<Rightarrow> string \<Rightarrow> ('w, (unit, cognito_mfa_error) result) sdk_m" where
  "sdk_verifySoftwareToken x access code = try_catch
     (or_throw (send x (Verify_software_token access code)) (\<lambda>r. answer
        (if re_status r \<noteq> Some ''SUCCESS'' then Inl Code_mismatch else Inr ())))
     mapMfaError"

definition sdk_enableTotp :: "('w, 'x, 'y) sdk \<Rightarrow> string \<Rightarrow> ('w, (unit, cognito_mfa_error) result) sdk_m" where
  "sdk_enableTotp x access = try_catch
     (or_throw (send x (Set_mfa_preference access True True)) (\<lambda>_. answer (Inr ()))) mapMfaError"

definition sdk_revokeRefreshToken :: "('w, 'x, 'y) sdk \<Rightarrow> string \<Rightarrow> ('w, (unit, string) result) sdk_m" where
  "sdk_revokeRefreshToken x token = try_catch
     (or_throw (send x (Revoke_token (sf_client (sdk_config x)) (sf_secret (sdk_config x)) token))
       (\<lambda>_. answer (Inr ())))
     (\<lambda>ex. State_Monad.return (errorName ex))"

text \<open>The adapter in the environment of the use cases.\<close>

definition sdk_env :: "('w, 'x, 'y) sdk \<Rightarrow> ('w sdk_state, 'z) auth_env_scheme \<Rightarrow> ('w sdk_state, 'z) auth_env_scheme" where
  "sdk_env x env =
     env\<lparr>cg_authenticate := \<lambda>cr. run_state (sdk_authenticate x cr),
         cg_respond := \<lambda>u se c. run_state (sdk_respondToTotp x u se c),
         cg_associate := \<lambda>t. run_state (sdk_associateSoftwareToken x t),
         cg_verify := \<lambda>t c. run_state (sdk_verifySoftwareToken x t c),
         cg_enable := \<lambda>t. run_state (sdk_enableTotp x t),
         cg_revoke := \<lambda>t s. apfst is_ok (run_state (sdk_revokeRefreshToken x t) s)\<rparr>"

section \<open>What an identity rests on\<close>

lemma jwks_source_get_keys:
  assumes "run_state (jwks_source_get t response force) src = (Inr keys, src')"
  shows "(cached src = Some keys \<or> response = Key_set keys) \<and>
    (cached src' = cached src \<or> (\<exists>ks. cached src' = Some ks \<and> response = Key_set ks))"
  using assms
  by (auto simp: jwks_source_get_def jwks_get_def fetch_or_join_def jwks_done_def jwks_fallback_def Let_def
      split: if_splits option.splits jwks_response.splits prod.splits)

lemma cognito_jwks_run:
  "run_state (cognito_jwks x force) s =
    (fst (run_state (jwks_source_get (sdk_now s) (sdk_keys x (sdk_world s)) force) (sdk_source s)),
     s\<lparr>sdk_source := snd (run_state (jwks_source_get (sdk_now s) (sdk_keys x (sdk_world s)) force) (sdk_source s))\<rparr>)"
  by (simp add: cognito_jwks_def case_prod_beta)

lemma cognito_jwks_keys:
  assumes "run_state (cognito_jwks x force) s = (Inr keys, s')"
  shows "(cached (sdk_source s) = Some keys \<or> sdk_keys x (sdk_world s) = Key_set keys) \<and>
    (cached (sdk_source s') = cached (sdk_source s) \<or>
     (\<exists>ks. cached (sdk_source s') = Some ks \<and> sdk_keys x (sdk_world s) = Key_set ks)) \<and>
    sdk_world s' = sdk_world s \<and> sdk_now s' = sdk_now s"
proof -
  let ?get = "run_state (jwks_source_get (sdk_now s) (sdk_keys x (sdk_world s)) force) (sdk_source s)"
  have "?get = (Inr keys, sdk_source s')" and s': "s' = s\<lparr>sdk_source := snd ?get\<rparr>"
    using assms unfolding cognito_jwks_run by (auto simp: prod_eq_iff)
  from jwks_source_get_keys [OF this(1)] s' show ?thesis by simp
qed

text \<open>Keys Cognito published: cached by the source, or the endpoint's answer now.\<close>

definition published :: "('w, 'x, 'y) sdk \<Rightarrow> 'w sdk_state \<Rightarrow> jwks \<Rightarrow> bool" where
  "published x s keys = (cached (sdk_source s) = Some keys \<or> sdk_keys x (sdk_world s) = Key_set keys)"

lemma verify_id_token_keys:
  assumes "run_state (verify_id_token x token) s = (Inr payload, s')"
  shows "\<exists>keys. published x s keys \<and>
    jose_verify (sdk_jose x) token keys SIGNING_ALGORITHM (cognito_options (sdk_config x) (sdk_now s)) = Jose_ok payload"
proof -
  obtain kid where kid: "readJwtKid (sdk_jose x) token = Some kid"
    using assms by (auto simp: verify_id_token_def verifyJwtWithSource_def State_Monad.bind_def split: option.splits)
  obtain c s1 where c: "run_state (cognito_jwks x False) s = (c, s1)" by fastforce
  obtain keys where first: "c = Inr keys"
    using assms kid c
    by (auto simp: verify_id_token_def verifyJwtWithSource_def State_Monad.bind_def split: sum.splits)
  have verified: "\<And>ks. verifyJwt (sdk_jose x) token ks (cognito_options (sdk_config x) (sdk_now s)) = Inr payload \<Longrightarrow>
      jose_verify (sdk_jose x) token ks SIGNING_ALGORITHM (cognito_options (sdk_config x) (sdk_now s)) = Jose_ok payload"
    by (simp add: verifyJwt_def split: jose_outcome.splits)
  show ?thesis
  proof (cases "hasKid keys kid")
    case True
    then have "verifyJwt (sdk_jose x) token keys (cognito_options (sdk_config x) (sdk_now s)) = Inr payload"
      using assms kid c first by (simp add: verify_id_token_def verifyJwtWithSource_def State_Monad.bind_def)
    then show ?thesis using cognito_jwks_keys [OF c [unfolded first]] verified by (auto simp: published_def)
  next
    case False
    obtain c2 s2 where c2: "run_state (cognito_jwks x True) s1 = (c2, s2)" by fastforce
    obtain ks where "c2 = Inr ks"
      and "verifyJwt (sdk_jose x) token ks (cognito_options (sdk_config x) (sdk_now s)) = Inr payload"
      using assms kid c first c2 False
      by (auto simp: verify_id_token_def verifyJwtWithSource_def State_Monad.bind_def split: sum.splits)
    then show ?thesis
      using cognito_jwks_keys [OF c [unfolded first]] cognito_jwks_keys [OF c2 [unfolded \<open>c2 = Inr ks\<close>]] verified
      by (auto simp: published_def)
  qed
qed

text \<open>
  Cognito vouches for an identity: the tokens are those of its answer, and the claims are those of the ID
  token, which a published key verifies for this pool and this client.
\<close>

definition vouches :: "('w, 'x, 'y) sdk \<Rightarrow> 'w sdk_state \<Rightarrow> authentication_result \<Rightarrow> cognito_authenticated \<Rightarrow> bool" where
  "vouches x s r a \<longleftrightarrow>
     xr_access r = Some (ck_access (ca_tokens a)) \<and> xr_id r = Some (ck_id (ca_tokens a)) \<and>
     xr_refresh r = Some (ck_refresh (ca_tokens a)) \<and>
     (\<exists>keys payload. published x s keys \<and>
        jose_verify (sdk_jose x) (ck_id (ca_tokens a)) keys ''RS256'' (cognito_options (sdk_config x) (sdk_now s)) =
          Jose_ok payload \<and>
        json_field ''token_use'' payload = Some (JStr ''id'') \<and>
        json_field ''sub'' payload = Some (JStr (ca_sub a)) \<and> json_field ''email'' payload = Some (JStr (ca_email a)))"

lemma json_string_is: "json_string j = Some v \<longleftrightarrow> j = Some (JStr v)"
  by (auto simp: json_string_def split: option.splits json.splits)

lemma claims_of_Inr:
  assumes "claims_of r access token refresh t claims = Inr a"
  shows "json_field ''token_use'' claims = Some (JStr ''id'')" "json_field ''sub'' claims = Some (JStr (ca_sub a))"
    "json_field ''email'' claims = Some (JStr (ca_email a))" "ck_access (ca_tokens a) = access"
    "ck_id (ca_tokens a) = token" "ck_refresh (ca_tokens a) = refresh"
  using assms by (auto simp: claims_of_def json_string_is split: option.splits json.splits if_splits)

lemma toAuthenticated_vouched:
  assumes "run_state (toAuthenticated x r) s = (Inr a, s')"
  shows "vouches x s r a"
proof -
  obtain access token refresh where r: "xr_access r = Some access" "xr_id r = Some token" "xr_refresh r = Some refresh"
    using assms by (auto simp: toAuthenticated_def split: option.splits)
  obtain v s1 where v: "run_state (verify_id_token x token) s = (v, s1)" by fastforce
  obtain payload where payload: "v = Inr payload" and claims: "claims_of r access token refresh (sdk_now s1) payload = Inr a"
    using assms r v by (cases v) (auto simp: toAuthenticated_def State_Monad.bind_def case_prod_beta)
  show ?thesis
    using verify_id_token_keys [OF v [unfolded payload]] claims_of_Inr [OF claims] r
    by (auto simp: vouches_def SIGNING_ALGORITHM_def)
qed

lemma cognito_jwks_world: "sdk_world (snd (run_state (cognito_jwks x force) s)) = sdk_world s"
  by (simp add: cognito_jwks_run)

lemma verify_id_token_world: "sdk_world (snd (run_state (verify_id_token x token) s)) = sdk_world s"
  by (simp add: verify_id_token_def verifyJwtWithSource_def State_Monad.bind_def case_prod_beta cognito_jwks_world
      split: option.split sum.split)

lemma toAuthenticated_world: "sdk_world (snd (run_state (toAuthenticated x r) s)) = sdk_world s"
  by (simp add: toAuthenticated_def State_Monad.bind_def case_prod_beta log_error_def verify_id_token_world
      split: option.split sum.split)

section \<open>The two ways to an identity\<close>

lemma respond_vouched:
  assumes "run_state (sdk_respondToTotp x u se code) s = (Inr a, s')"
  shows "\<exists>responded r. fst (sdk_send x (totp_response x u se code) (sdk_world s)) = Inr responded \<and>
    re_result responded = Some r \<and>
    vouches x (s\<lparr>sdk_world := snd (sdk_send x (totp_response x u se code) (sdk_world s))\<rparr>) r a \<and>
    sdk_world s' = snd (sdk_send x (totp_response x u se code) (sdk_world s))"
proof -
  obtain reply w where sent: "sdk_send x (totp_response x u se code) (sdk_world s) = (reply, w)" by fastforce
  obtain responded where responded: "reply = Inr responded"
    using assms sent by (cases reply) (auto simp: sdk_respondToTotp_def run_simps apfst_def map_prod_def split: prod.splits)
  obtain r where r: "re_result responded = Some r"
    using assms sent responded by (cases "re_result responded") (auto simp: sdk_respondToTotp_def run_simps)
  obtain v s1 where v: "run_state (toAuthenticated x r) (s\<lparr>sdk_world := w\<rparr>) = (v, s1)" by fastforce
  have "v = Inr a" "s' = s1"
    using assms sent responded r v by (auto simp: sdk_respondToTotp_def run_simps State_Monad.bind_def split: sum.splits)
  then show ?thesis
    using toAuthenticated_vouched [of x r "s\<lparr>sdk_world := w\<rparr>" a s1] toAuthenticated_world [of x r "s\<lparr>sdk_world := w\<rparr>"]
    by (auto simp: sent responded r v)
qed

lemma after_password_vouched:
  assumes "run_state (after_password x u responded) s = (Inr (Inr (Authenticated a)), s')"
  shows "\<exists>r. re_challenge responded = None \<and> re_result responded = Some r \<and> vouches x s r a"
proof -
  have no_challenge: "re_challenge responded = None"
    using assms by (auto simp: after_password_def run_simps split: option.splits if_splits)
  then obtain r where r: "re_result responded = Some r"
    using assms by (cases "re_result responded") (auto simp: after_password_def run_simps)
  obtain v s1 where v: "run_state (toAuthenticated x r) s = (v, s1)" by fastforce
  have "v = Inr a"
    using assms no_challenge r v by (auto simp: after_password_def run_simps State_Monad.bind_def split: sum.splits)
  then show ?thesis using toAuthenticated_vouched v no_challenge r by blast
qed

lemma vouches_draws [simp]: "vouches x (s\<lparr>sdk_world := w, sdk_draws := n\<rparr>) = vouches x (s\<lparr>sdk_world := w\<rparr>)"
  "vouches x (s\<lparr>sdk_draws := n, sdk_world := w\<rparr>) = vouches x (s\<lparr>sdk_world := w\<rparr>)"
  by (intro ext; simp add: vouches_def published_def)+

text \<open>A password is only ever enough through the two requests, and an answer without a further challenge.\<close>

lemma authenticate_vouched:
  assumes "run_state (sdk_authenticate x cr) s = (Inr (Authenticated a), s')"
  shows "\<exists>ii w y challenge session responded r. w = snd (sdk_send x (Initiate_auth ii) (sdk_world s)) \<and>
    wrapAuthChallenge (sdk_srp x) y (verifier_request x (cr_username cr) session) = Inr challenge \<and>
    fst (sdk_send x (Respond_to_challenge challenge) w) = Inr responded \<and>
    re_challenge responded = None \<and> re_result responded = Some r \<and>
    vouches x (s\<lparr>sdk_world := snd (sdk_send x (Respond_to_challenge challenge) w)\<rparr>) r a"
  using assms
  by (auto simp: sdk_authenticate_def run_simps new_srp_session_def signed_session_def apfst_def map_prod_def
      split: sum.splits prod.splits if_splits option.splits dest!: after_password_vouched) metis

section \<open>Properties of the adapter\<close>


text \<open>\<open>hide_user\<close> makes of the exception for an unknown user the one for a wrong password.\<close>

definition hide_user :: "thrown \<Rightarrow> thrown" where
  "hide_user ex = (if ex = Error_named ''UserNotFoundException'' then Error_named ''NotAuthorizedException'' else ex)"

definition hide_users :: "('w, 'x, 'y) sdk \<Rightarrow> ('w, 'x, 'y) sdk" where
  "hide_users x = x\<lparr>sdk_send := \<lambda>c w. apfst (map_sum hide_user id) (sdk_send x c w)\<rparr>"

lemma mapCognitoError_hide: "mapCognitoError (hide_user ex) = mapCognitoError ex"
  by (cases ex) (simp_all add: hide_user_def mapCognitoError_def errorName_def)

lemma cognito_jwks_hide: "cognito_jwks (hide_users x) = cognito_jwks x"
  by (intro ext) (simp add: hide_users_def cognito_jwks_def)

lemma hide_users_simps [simp]: "sdk_jose (hide_users x) = sdk_jose x" "sdk_config (hide_users x) = sdk_config x"
  "sdk_srp (hide_users x) = sdk_srp x"
  "sdk_send (hide_users x) c w = (map_sum hide_user id (fst (sdk_send x c w)), snd (sdk_send x c w))"
  by (simp_all add: hide_users_def apfst_def map_prod_def case_prod_beta)

lemma verify_id_token_hide: "verify_id_token (hide_users x) = verify_id_token x"
  by (intro ext) (simp add: verify_id_token_def cognito_jwks_hide)

lemma toAuthenticated_hide: "toAuthenticated (hide_users x) = toAuthenticated x"
  by (intro ext) (simp only: toAuthenticated_def verify_id_token_hide)

lemma after_password_hide: "after_password (hide_users x) = after_password x"
  by (intro ext) (simp only: after_password_def toAuthenticated_hide)

lemma requests_hide: "srp_a_request (hide_users x) u = srp_a_request x u"
  "verifier_request (hide_users x) u session = verifier_request x u session"
  "new_srp_session (hide_users x) cr = new_srp_session x cr" "signed_session (hide_users x) = signed_session x"
  by (simp_all add: srp_a_request_def verifier_request_def secret_hash_def new_srp_session_def
      signed_session_def [abs_def])

text \<open>Whether Cognito reports an unknown user or a wrong password, the adapter gives the same answer and
  leaves the same log: a login does not tell which user names exist.\<close>
theorem unknown_users_look_alike:
  "run_state (sdk_authenticate (hide_users x) cr) s = run_state (sdk_authenticate x cr) s"
  by (simp add: sdk_authenticate_def run_simps requests_hide after_password_hide mapCognitoError_hide
      split: sum.split prod.split option.split)

lemma handlers_world [simp]: "sdk_world (snd (run_state (mapMfaError ex) s)) = sdk_world s"
  "sdk_world (snd (run_state (mapCognitoError ex) s)) = sdk_world s"
  by (simp_all add: mapMfaError_def mapCognitoError_def log_error_def State_Monad.bind_def)

lemma after_password_world [simp]: "sdk_world (snd (run_state (after_password x u r) s)) = sdk_world s"
  by (simp add: after_password_def run_simps State_Monad.bind_def case_prod_beta toAuthenticated_world
      split: option.split)

text \<open>Each operation of the two moves Cognito's state by its own requests only.\<close>

lemma sdk_kept:
  assumes "\<And>ci w. P w \<Longrightarrow> P (snd (sdk_send x (Respond_to_challenge ci) w))"
    "\<And>ii w. P w \<Longrightarrow> P (snd (sdk_send x (Initiate_auth ii) w))" "P (sdk_world s)"
  shows "P (sdk_world (snd (run_state (sdk_authenticate x cr) s)))"
    "P (sdk_world (snd (run_state (sdk_respondToTotp x u se c) s)))"
  using assms
  by (simp_all add: sdk_authenticate_def sdk_respondToTotp_def run_simps new_srp_session_def signed_session_def
      totp_response_def State_Monad.bind_def case_prod_beta toAuthenticated_world split: option.split sum.split)

section \<open>The contract of the port\<close>

text \<open>
  What Cognito documents: an account with a registered authenticator never gets past its password without
  a challenge, logging in does not remove the registration, and the Session of a SOFTWARE_TOKEN_MFA
  challenge is of one user and spent by the answer that succeeds; and that wrapAuthChallenge adds to the request
  without touching its challenge or user name.
\<close>

definition documented :: "('w, 'x, 'y) sdk \<Rightarrow> ('w \<Rightarrow> string \<Rightarrow> bool) \<Rightarrow> ('w \<Rightarrow> string \<Rightarrow> string \<Rightarrow> bool) \<Rightarrow> bool" where
  "documented x registered open_session \<longleftrightarrow>
     (\<forall>w ci u r. registered w u \<and> ci_name ci = ''PASSWORD_VERIFIER'' \<and> map_of (ci_responses ci) ''USERNAME'' = Some u \<and>
        fst (sdk_send x (Respond_to_challenge ci) w) = Inr r \<longrightarrow> re_challenge r \<noteq> None) \<and>
     (\<forall>w ci ii u. registered w u \<longrightarrow> registered (snd (sdk_send x (Respond_to_challenge ci) w)) u \<and>
        registered (snd (sdk_send x (Initiate_auth ii) w)) u) \<and>
     (\<forall>w ci u se r. ci_name ci = ''SOFTWARE_TOKEN_MFA'' \<and> ci_session ci = Some se \<and>
        map_of (ci_responses ci) ''USERNAME'' = Some u \<and> fst (sdk_send x (Respond_to_challenge ci) w) = Inr r \<and>
        re_result r \<noteq> None \<longrightarrow>
        open_session w u se \<and> \<not> open_session (snd (sdk_send x (Respond_to_challenge ci) w)) u se) \<and>
     (\<forall>y ci ci'. wrapAuthChallenge (sdk_srp x) y ci = Inr ci' \<longrightarrow> ci_name ci' = ci_name ci \<and>
        map_of (ci_responses ci') ''USERNAME'' = map_of (ci_responses ci) ''USERNAME'')"

lemma cognito_documentedD:
  assumes "documented x registered open_session"
  shows "registered w u \<Longrightarrow> ci_name ci = ''PASSWORD_VERIFIER'' \<Longrightarrow> map_of (ci_responses ci) ''USERNAME'' = Some u \<Longrightarrow>
      fst (sdk_send x (Respond_to_challenge ci) w) = Inr r \<Longrightarrow> re_challenge r \<noteq> None"
    and "registered w u \<Longrightarrow> registered (snd (sdk_send x (Respond_to_challenge ci) w)) u"
    and "registered w u \<Longrightarrow> registered (snd (sdk_send x (Initiate_auth ii) w)) u"
    and "ci_name ci = ''SOFTWARE_TOKEN_MFA'' \<Longrightarrow> ci_session ci = Some se \<Longrightarrow>
      map_of (ci_responses ci) ''USERNAME'' = Some u \<Longrightarrow> fst (sdk_send x (Respond_to_challenge ci) w) = Inr r \<Longrightarrow>
      re_result r \<noteq> None \<Longrightarrow>
      open_session w u se \<and> \<not> open_session (snd (sdk_send x (Respond_to_challenge ci) w)) u se"
    and "wrapAuthChallenge (sdk_srp x) y ci = Inr ci' \<Longrightarrow> ci_name ci' = ci_name ci \<and>
      map_of (ci_responses ci') ''USERNAME'' = map_of (ci_responses ci) ''USERNAME''"
  using assms unfolding documented_def by metis+

text \<open>C36: Where Cognito behaves as documented, the adapter keeps the contract the login rests on (the one the
  mock adapter keeps): a registered account is never authenticated by its password alone, logging in leaves it
  registered, and a challenge is answered successfully once.\<close>
theorem sdk_keeps_second_factor:
  assumes "documented x registered open_session"
  shows "second_factor (\<lambda>s. registered (sdk_world s)) (\<lambda>s. open_session (sdk_world s))
    (\<lambda>cr. run_state (sdk_authenticate x cr)) (\<lambda>u se c. run_state (sdk_respondToTotp x u se c))"
proof
  fix s :: "'a sdk_state" and cr :: credentials and a
  assume reg: "registered (sdk_world s) (cr_username cr)"
  show "fst (run_state (sdk_authenticate x cr) s) \<noteq> Inr (Authenticated a)"
  proof
    assume "fst (run_state (sdk_authenticate x cr) s) = Inr (Authenticated a)"
    then obtain s' where "run_state (sdk_authenticate x cr) s = (Inr (Authenticated a), s')" by (metis prod.collapse)
    from authenticate_vouched [OF this] obtain ii w y challenge session responded
      where w: "w = snd (sdk_send x (Initiate_auth ii) (sdk_world s))"
        and wrapped: "wrapAuthChallenge (sdk_srp x) y (verifier_request x (cr_username cr) session) = Inr challenge"
        and sent: "fst (sdk_send x (Respond_to_challenge challenge) w) = Inr responded"
        and none: "re_challenge responded = None" by blast
    have "ci_name challenge = ''PASSWORD_VERIFIER''" "map_of (ci_responses challenge) ''USERNAME'' = Some (cr_username cr)"
      using cognito_documentedD(5) [OF assms wrapped] by (simp_all add: verifier_request_def)
    moreover have "registered w (cr_username cr)" using cognito_documentedD(3) [OF assms reg] by (simp add: w)
    ultimately show False using cognito_documentedD(1) [OF assms _ _ _ sent] none by blast
  qed
next
  fix s :: "'a sdk_state" and n :: string and cr :: credentials and u se c :: string
  assume reg: "registered (sdk_world s) n"
  have kept: "registered w n \<Longrightarrow> registered (snd (sdk_send x (Respond_to_challenge ci) w)) n"
    "registered w n \<Longrightarrow> registered (snd (sdk_send x (Initiate_auth ii) w)) n" for w ci ii
    using cognito_documentedD(2,3) [OF assms] by blast+
  show "registered (sdk_world (snd (run_state (sdk_authenticate x cr) s))) n \<and>
    registered (sdk_world (snd (run_state (sdk_respondToTotp x u se c) s))) n"
    using sdk_kept [where P = "\<lambda>w. registered w n", OF kept reg] by blast
next
  fix s :: "'a sdk_state" and u se c :: string and a
  assume "fst (run_state (sdk_respondToTotp x u se c) s) = Inr a"
  then obtain s' where run: "run_state (sdk_respondToTotp x u se c) s = (Inr a, s')" by (metis prod.collapse)
  from respond_vouched [OF run] obtain responded r
    where sent: "fst (sdk_send x (totp_response x u se c) (sdk_world s)) = Inr responded"
      and r: "re_result responded = Some r" and w: "sdk_world s' = snd (sdk_send x (totp_response x u se c) (sdk_world s))"
    by blast
  have "open_session (sdk_world s) u se \<and>
      \<not> open_session (snd (sdk_send x (totp_response x u se c) (sdk_world s))) u se"
    unfolding totp_response_def
    by (rule cognito_documentedD(4) [OF assms, where r = responded]) (use sent r in \<open>simp_all add: totp_response_def\<close>)
  then show "open_session (sdk_world s) u se \<and>
      \<not> open_session (sdk_world (snd (run_state (sdk_respondToTotp x u se c) s))) u se"
    by (simp add: run w)
qed

text \<open>The fixture: a pool with one registered user, ann, and one open session of a challenge at a time.\<close>

definition fx_reply :: sdk_reply where
  "fx_reply = \<lparr>re_challenge = None, re_parameters = None, re_session = None, re_result = None, re_secret = None,
     re_status = None\<rparr>"

definition fx_pool :: "sdk_command \<Rightarrow> string option \<Rightarrow> (thrown + sdk_reply) \<times> string option" where
  "fx_pool c w = (case c of
     Initiate_auth _ \<Rightarrow>
       (Inr (fx_reply\<lparr>re_challenge := Some ''PASSWORD_VERIFIER'', re_parameters := Some [], re_session := Some ''s1''\<rparr>), w)
   | Respond_to_challenge ci \<Rightarrow>
       if map_of (ci_responses ci) ''USERNAME'' \<noteq> Some ''ann'' then (Inl (Error_named ''UserNotFoundException''), w)
       else if ci_name ci = ''PASSWORD_VERIFIER''
       then (Inr (fx_reply\<lparr>re_challenge := Some ''SOFTWARE_TOKEN_MFA'', re_session := Some ''s2''\<rparr>), Some ''s2'')
       else if w = None \<or> w \<noteq> ci_session ci then (Inl (Error_named ''NotAuthorizedException''), w)
       else (Inr (fx_reply\<lparr>re_result := Some \<lparr>xr_access = Some ''a'', xr_id = Some ''i'', xr_refresh = Some ''r'',
         xr_expires_in = None\<rparr>\<rparr>), None)
   | _ \<Rightarrow> (Inl (Error_named ''NotAuthorizedException''), w))"

definition fx_sdk :: "(string option, unit, unit) sdk" where
  "fx_sdk = \<lparr>sdk_config = \<lparr>sf_region = ''ap'', sf_pool = ''p'', sf_client = ''c'', sf_secret = ''k''\<rparr>,
     sdk_send = fx_pool,
     sdk_srp = \<lparr>createSecretHash = (\<lambda>u c k. ''h''), createSrpSession = (\<lambda>n u p pool h. Inr ()),
       wrapInitiateAuth = (\<lambda>y ii. Inr ii), signSrpSession = (\<lambda>t y n ps. Inr ()), wrapAuthChallenge = (\<lambda>y ci. Inr ci)\<rparr>,
     sdk_jose = \<lparr>jose_kid = (\<lambda>t. Some ''k1''), jose_verify = (\<lambda>t ks alg o'. Jose_ok (JObj
       [(''token_use'', JStr ''id''), (''sub'', JStr ''s''), (''email'', JStr ''a@x.jp'')]))\<rparr>,
     sdk_keys = (\<lambda>w. Key_set [\<lparr>jwk_kid = Some ''k1'', jwk_material = ''m''\<rparr>])\<rparr>"

definition fx_sdk_state :: "string option sdk_state" where
  "fx_sdk_state = \<lparr>sdk_now = 100, sdk_world = None, sdk_source = jwks_source_new, sdk_log = [], sdk_draws = 0\<rparr>"

lemma fx_documented: "documented fx_sdk (\<lambda>w u. u = ''ann'') (\<lambda>w u se. u = ''ann'' \<and> w = Some se)"
  by (auto simp: documented_def fx_sdk_def fx_pool_def fx_reply_def split: if_splits)

text \<open>A login of ann in this pool: the password gives a challenge, its answer the identity.\<close>

lemma fx_login:
  "fst (run_state (sdk_authenticate fx_sdk \<lparr>cr_username = ''ann'', cr_password = ''pw''\<rparr>) fx_sdk_state) =
     Inr (Totp_required ''s2'' ''ann'')"
  "is_ok (fst (run_state (sdk_respondToTotp fx_sdk ''ann'' ''s2'' ''000000'') (fx_sdk_state\<lparr>sdk_world := Some ''s2''\<rparr>)))"
  by (simp_all add: sdk_authenticate_def sdk_respondToTotp_def run_simps new_srp_session_def signed_session_def
      fx_sdk_def fx_pool_def fx_reply_def fx_sdk_state_def after_password_def srp_a_request_def verifier_request_def
      totp_response_def secret_hash_def toAuthenticated_def verify_id_token_def verifyJwtWithSource_def
      State_Monad.bind_def cognito_jwks_run readJwtKid_def jwks_source_get_def jwks_get_def jwks_source_new_def
      fetch_or_join_def jwks_done_def hasKid_def verifyJwt_def claims_of_def json_field_def json_string_def Let_def)

lemma sdk_keeps_second_factor_witness:
  "second_factor (\<lambda>s. (\<lambda>u. u = ''ann'')) (\<lambda>s u se. u = ''ann'' \<and> sdk_world s = Some se)
     (\<lambda>cr. run_state (sdk_authenticate fx_sdk cr)) (\<lambda>u se c. run_state (sdk_respondToTotp fx_sdk u se c)) \<and>
   is_ok (fst (run_state (sdk_respondToTotp fx_sdk ''ann'' ''s2'' ''000000'') (fx_sdk_state\<lparr>sdk_world := Some ''s2''\<rparr>)))"
  using sdk_keeps_second_factor [OF fx_documented] fx_login(2) by simp

end
