(* ===== verification/RedisStore.thy ===== *)
theory RedisStore
  imports KvStore
begin

text \<open>
  packages/shared/src/redis-store.ts and store-factory.ts: the same three stores kept in Redis. The server is a
  parameter, one \<open>call\<close> per command; \<open>redis_doc\<close> writes down what the documentation of the commands used says of
  a reply and of the keys, and \<open>redis_documented\<close> is the hypothesis that the server does this. A MULTI block is
  its commands in a row, since nothing runs between them. \<open>enc\<close> and \<open>dec\<close> stand for JSON.stringify and
  JSON.parse. The stores of a process share one server and differ by their prefix.
\<close>

section \<open>The commands\<close>

datatype redis_value = Text string | Integer int | Elements "string list"

datatype redis_command = GET string | SET_EX string string seconds | SET_KEEPTTL_XX string string
  | SET_EX_NX string string seconds | DEL string | GETDEL string | SADD string string | SREM string string
  | SMEMBERS string | INCR string | EXPIRE string seconds | EXPIRE_NX string seconds

datatype redis_reply = Null | OK | Bulk string | Number int | Bulks "string list" | Error_reply

text \<open>A key's value and the time it expires at, where it has one.\<close>

type_synonym redis_keys = "string \<rightharpoonup> redis_value \<times> seconds option"

definition lives :: "seconds \<Rightarrow> redis_value \<times> seconds option \<Rightarrow> bool" where
  "lives t x = (case snd x of None \<Rightarrow> True | Some e \<Rightarrow> t < e)"

definition aged :: "seconds \<Rightarrow> redis_keys \<Rightarrow> redis_keys" where
  "aged t m = (\<lambda>k. case m k of None \<Rightarrow> None | Some x \<Rightarrow> if lives t x then Some x else None)"

definition expire :: "string \<Rightarrow> seconds \<Rightarrow> redis_keys \<Rightarrow> redis_keys" where
  "expire k e m = (case m k of None \<Rightarrow> m | Some (v, _) \<Rightarrow> m(k \<mapsto> (v, Some e)))"

fun redis_doc :: "seconds \<Rightarrow> redis_command \<Rightarrow> redis_keys \<Rightarrow> redis_reply \<times> redis_keys" where
  "redis_doc t (GET k) m =
     (case m k of None \<Rightarrow> Null | Some (Text s, _) \<Rightarrow> Bulk s | Some _ \<Rightarrow> Error_reply, m)"
| "redis_doc t (SET_EX k s n) m = (OK, m(k \<mapsto> (Text s, Some (t + n))))"
| "redis_doc t (SET_KEEPTTL_XX k s) m =
     (case m k of None \<Rightarrow> (Null, m) | Some (_, e) \<Rightarrow> (OK, m(k \<mapsto> (Text s, e))))"
| "redis_doc t (SET_EX_NX k s n) m =
     (case m k of None \<Rightarrow> (OK, m(k \<mapsto> (Text s, Some (t + n)))) | Some _ \<Rightarrow> (Null, m))"
| "redis_doc t (DEL k) m = (Number (if m k = None then 0 else 1), m(k := None))"
| "redis_doc t (GETDEL k) m =
     (case m k of None \<Rightarrow> (Null, m) | Some (Text s, _) \<Rightarrow> (Bulk s, m(k := None)) | Some _ \<Rightarrow> (Error_reply, m))"
| "redis_doc t (SADD k x) m =
     (case m k of None \<Rightarrow> (Number 1, m(k \<mapsto> (Elements [x], None)))
      | Some (Elements xs, e) \<Rightarrow>
          if x \<in> set xs then (Number 0, m) else (Number 1, m(k \<mapsto> (Elements (xs @ [x]), e)))
      | Some _ \<Rightarrow> (Error_reply, m))"
| "redis_doc t (SREM k x) m =
     (case m k of None \<Rightarrow> (Number 0, m)
      | Some (Elements xs, e) \<Rightarrow>
          (Number (if x \<in> set xs then 1 else 0),
           m(k := if filter (\<lambda>y. y \<noteq> x) xs = [] then None else Some (Elements (filter (\<lambda>y. y \<noteq> x) xs), e)))
      | Some _ \<Rightarrow> (Error_reply, m))"
| "redis_doc t (SMEMBERS k) m =
     (case m k of None \<Rightarrow> Bulks [] | Some (Elements xs, _) \<Rightarrow> Bulks xs | Some _ \<Rightarrow> Error_reply, m)"
| "redis_doc t (INCR k) m =
     (case m k of None \<Rightarrow> (Number 1, m(k \<mapsto> (Integer 1, None)))
      | Some (Integer n, e) \<Rightarrow> (Number (n + 1), m(k \<mapsto> (Integer (n + 1), e)))
      | Some _ \<Rightarrow> (Error_reply, m))"
| "redis_doc t (EXPIRE k n) m = (Number (if m k = None then 0 else 1), expire k (t + n) m)"
| "redis_doc t (EXPIRE_NX k n) m =
     (case m k of Some (_, None) \<Rightarrow> (Number 1, expire k (t + n) m) | _ \<Rightarrow> (Number 0, m))"

text \<open>The order of the members in a reply is not documented.\<close>

definition same_reply :: "redis_reply \<Rightarrow> redis_reply \<Rightarrow> bool" where
  "same_reply a b = (case (a, b) of (Bulks xs, Bulks ys) \<Rightarrow> set xs = set ys | _ \<Rightarrow> a = b)"

type_synonym 'r redis = "seconds \<Rightarrow> redis_command \<Rightarrow> 'r \<Rightarrow> redis_reply \<times> 'r"

definition redis_documented :: "'r redis \<Rightarrow> (seconds \<Rightarrow> 'r \<Rightarrow> redis_keys) \<Rightarrow> bool" where
  "redis_documented call content \<longleftrightarrow>
     (\<forall>t c r. same_reply (fst (call t c r)) (fst (redis_doc t c (content t r)))) \<and>
     (\<forall>t c r. content t (snd (call t c r)) = aged t (snd (redis_doc t c (content t r)))) \<and>
     (\<forall>t t' r. t \<le> t' \<longrightarrow> content t' r = aged t' (content t r))"

section \<open>The three stores\<close>

text \<open>What a command that went wrong raises.\<close>

datatype redis_failure = Reply_error | Bad_json

definition redis_ttl :: "seconds \<Rightarrow> seconds" where "redis_ttl n = max 1 n"

definition store_key :: "string \<Rightarrow> string \<Rightarrow> string" where "store_key ns k = ns @ '':'' @ k"

definition parsed :: "(string \<Rightarrow> 'v option) \<Rightarrow> redis_reply \<Rightarrow> redis_failure + 'v option" where
  "parsed dec reply = (case reply of Null \<Rightarrow> Inr None
     | Bulk s \<Rightarrow> (case dec s of None \<Rightarrow> Inl Bad_json | Some v \<Rightarrow> Inr (Some v)) | _ \<Rightarrow> Inl Reply_error)"

definition said_ok :: "redis_reply \<Rightarrow> redis_failure + bool" where
  "said_ok reply = (case reply of OK \<Rightarrow> Inr True | Error_reply \<Rightarrow> Inl Reply_error | _ \<Rightarrow> Inr False)"

definition finished :: "redis_reply \<Rightarrow> redis_failure + unit" where
  "finished reply = (if reply = Error_reply then Inl Reply_error else Inr ())"

definition redis_get ::
  "'r redis \<Rightarrow> (string \<Rightarrow> 'v option) \<Rightarrow> string \<Rightarrow> seconds \<Rightarrow> string \<Rightarrow> 'r \<Rightarrow> (redis_failure + 'v option) \<times> 'r" where
  "redis_get call dec ns t k r = apfst (parsed dec) (call t (GET (store_key ns k)) r)"

definition redis_set ::
  "'r redis \<Rightarrow> ('v \<Rightarrow> string) \<Rightarrow> string \<Rightarrow> seconds \<Rightarrow> string \<Rightarrow> 'v \<Rightarrow> seconds \<Rightarrow> 'r \<Rightarrow> (redis_failure + unit) \<times> 'r" where
  "redis_set call enc ns t k v n r = apfst finished (call t (SET_EX (store_key ns k) (enc v) (redis_ttl n)) r)"

definition redis_update ::
  "'r redis \<Rightarrow> ('v \<Rightarrow> string) \<Rightarrow> string \<Rightarrow> seconds \<Rightarrow> string \<Rightarrow> 'v \<Rightarrow> 'r \<Rightarrow> (redis_failure + bool) \<times> 'r" where
  "redis_update call enc ns t k v r = apfst said_ok (call t (SET_KEEPTTL_XX (store_key ns k) (enc v)) r)"

definition redis_delete :: "'r redis \<Rightarrow> string \<Rightarrow> seconds \<Rightarrow> string \<Rightarrow> 'r \<Rightarrow> (redis_failure + unit) \<times> 'r" where
  "redis_delete call ns t k r = apfst finished (call t (DEL (store_key ns k)) r)"

definition redis_getAndDelete ::
  "'r redis \<Rightarrow> (string \<Rightarrow> 'v option) \<Rightarrow> string \<Rightarrow> seconds \<Rightarrow> string \<Rightarrow> 'r \<Rightarrow> (redis_failure + 'v option) \<times> 'r" where
  "redis_getAndDelete call dec ns t k r = apfst (parsed dec) (call t (GETDEL (store_key ns k)) r)"

definition redis_setIfAbsent ::
  "'r redis \<Rightarrow> ('v \<Rightarrow> string) \<Rightarrow> string \<Rightarrow> seconds \<Rightarrow> string \<Rightarrow> 'v \<Rightarrow> seconds \<Rightarrow> 'r \<Rightarrow> (redis_failure + bool) \<times> 'r" where
  "redis_setIfAbsent call enc ns t k v n r =
     apfst said_ok (call t (SET_EX_NX (store_key ns k) (enc v) (redis_ttl n)) r)"

text \<open>
  \<open>multi().a().b().exec()\<close>: the replies of both commands; an error of one is an entry of the result, which
  RedisSetStore does not look at.
\<close>

definition multi :: "'r redis \<Rightarrow> seconds \<Rightarrow> redis_command \<Rightarrow> redis_command \<Rightarrow> 'r \<Rightarrow> (redis_reply \<times> redis_reply) \<times> 'r" where
  "multi call t a b r = (let (x, r1) = call t a r; (y, r2) = call t b r1 in ((x, y), r2))"

definition redis_add :: "'r redis \<Rightarrow> string \<Rightarrow> seconds \<Rightarrow> string \<Rightarrow> string \<Rightarrow> seconds \<Rightarrow> 'r \<Rightarrow> (redis_failure + unit) \<times> 'r" where
  "redis_add call ns t k x n r = apfst (\<lambda>_. Inr ())
     (multi call t (SADD (store_key ns k) x) (EXPIRE (store_key ns k) (redis_ttl n)) r)"

definition redis_remove :: "'r redis \<Rightarrow> string \<Rightarrow> seconds \<Rightarrow> string \<Rightarrow> string \<Rightarrow> 'r \<Rightarrow> (redis_failure + unit) \<times> 'r" where
  "redis_remove call ns t k x r = apfst finished (call t (SREM (store_key ns k) x) r)"

definition redis_members :: "'r redis \<Rightarrow> string \<Rightarrow> seconds \<Rightarrow> string \<Rightarrow> 'r \<Rightarrow> (redis_failure + string list) \<times> 'r" where
  "redis_members call ns t k r =
     apfst (\<lambda>reply. case reply of Bulks xs \<Rightarrow> Inr xs | _ \<Rightarrow> Inl Reply_error) (call t (SMEMBERS (store_key ns k)) r)"

text \<open>\<open>results?.[0]?.[1]\<close> is undefined where INCR failed, and \<open>Number(count ?? 0)\<close> then 0.\<close>

definition redis_increment :: "'r redis \<Rightarrow> string \<Rightarrow> seconds \<Rightarrow> string \<Rightarrow> seconds \<Rightarrow> 'r \<Rightarrow> int \<times> 'r" where
  "redis_increment call ns t k n r = apfst (\<lambda>(count, _). case count of Number c \<Rightarrow> c | _ \<Rightarrow> 0)
     (multi call t (INCR (store_key ns k)) (EXPIRE_NX (store_key ns k) (redis_ttl n)) r)"

section \<open>The stores of a process, in memory and in Redis\<close>

datatype 'v kv_op = Get string | Set string 'v seconds | Update string 'v | Delete string
  | Get_and_delete string | Set_if_absent string 'v seconds

datatype set_op = Add string string seconds | Remove string string | Members string | Delete_set string

text \<open>An operation on the store of a prefix.\<close>

datatype 'v store_op = On_kv string "'v kv_op" | On_set string set_op | Increment string string seconds

datatype 'v store_answer = Value "'v option" | Flag bool | Done | Elems "string set" | Count int

datatype store_kind = Kv_store | Set_store | Counter_store

record 'v memory_stores =
  ms_kv :: "string \<Rightarrow> 'v kv"
  ms_set :: "string \<Rightarrow> set_store"
  ms_counter :: "string \<Rightarrow> counter_store"

definition memory_stores_new :: "'v memory_stores" where
  "memory_stores_new = \<lparr>ms_kv = (\<lambda>_. kv_empty), ms_set = (\<lambda>_. ss_empty), ms_counter = (\<lambda>_. counter_empty)\<rparr>"

fun memory_kv_op :: "seconds \<Rightarrow> 'v kv_op \<Rightarrow> 'v kv \<Rightarrow> 'v store_answer \<times> 'v kv" where
  "memory_kv_op t (Get k) m = apfst Value (kv_get t k m)"
| "memory_kv_op t (Set k v n) m = (Done, kv_set t k v n m)"
| "memory_kv_op t (Update k v) m = apfst Flag (kv_update t k v m)"
| "memory_kv_op t (Delete k) m = (Done, kv_delete k m)"
| "memory_kv_op t (Get_and_delete k) m = apfst Value (kv_get_and_delete t k m)"
| "memory_kv_op t (Set_if_absent k v n) m = apfst Flag (kv_set_if_absent t k v n m)"

fun memory_set_op :: "seconds \<Rightarrow> set_op \<Rightarrow> set_store \<Rightarrow> 'v store_answer \<times> set_store" where
  "memory_set_op t (Add k x n) m = (Done, ss_add t k x n m)"
| "memory_set_op t (Remove k x) m = (Done, ss_remove t k x m)"
| "memory_set_op t (Members k) m = apfst (Elems \<circ> set) (ss_members t k m)"
| "memory_set_op t (Delete_set k) m = (Done, ss_delete k m)"

fun memory_op :: "seconds \<Rightarrow> 'v store_op \<Rightarrow> 'v memory_stores \<Rightarrow> 'v store_answer \<times> 'v memory_stores" where
  "memory_op t (On_kv ns op) ms =
     apsnd (\<lambda>m. ms\<lparr>ms_kv := (ms_kv ms)(ns := m)\<rparr>) (memory_kv_op t op (ms_kv ms ns))"
| "memory_op t (On_set ns op) ms =
     apsnd (\<lambda>m. ms\<lparr>ms_set := (ms_set ms)(ns := m)\<rparr>) (memory_set_op t op (ms_set ms ns))"
| "memory_op t (Increment ns k n) ms =
     map_prod (Count \<circ> int) (\<lambda>m. ms\<lparr>ms_counter := (ms_counter ms)(ns := m)\<rparr>) (counter_increment t k n (ms_counter ms ns))"

abbreviation ok_answer :: "('a \<Rightarrow> 'v store_answer) \<Rightarrow> (redis_failure + 'a) \<times> 'r \<Rightarrow> (redis_failure + 'v store_answer) \<times> 'r" where
  "ok_answer f \<equiv> apfst (map_sum id f)"

fun redis_op ::
  "'r redis \<Rightarrow> ('v \<Rightarrow> string) \<Rightarrow> (string \<Rightarrow> 'v option) \<Rightarrow> seconds \<Rightarrow> 'v store_op \<Rightarrow> 'r \<Rightarrow>
   (redis_failure + 'v store_answer) \<times> 'r" where
  "redis_op call enc dec t (On_kv ns (Get k)) r = ok_answer Value (redis_get call dec ns t k r)"
| "redis_op call enc dec t (On_kv ns (Set k v n)) r = ok_answer (\<lambda>_. Done) (redis_set call enc ns t k v n r)"
| "redis_op call enc dec t (On_kv ns (Update k v)) r = ok_answer Flag (redis_update call enc ns t k v r)"
| "redis_op call enc dec t (On_kv ns (Delete k)) r = ok_answer (\<lambda>_. Done) (redis_delete call ns t k r)"
| "redis_op call enc dec t (On_kv ns (Get_and_delete k)) r = ok_answer Value (redis_getAndDelete call dec ns t k r)"
| "redis_op call enc dec t (On_kv ns (Set_if_absent k v n)) r = ok_answer Flag (redis_setIfAbsent call enc ns t k v n r)"
| "redis_op call enc dec t (On_set ns (Add k x n)) r = ok_answer (\<lambda>_. Done) (redis_add call ns t k x n r)"
| "redis_op call enc dec t (On_set ns (Remove k x)) r = ok_answer (\<lambda>_. Done) (redis_remove call ns t k x r)"
| "redis_op call enc dec t (On_set ns (Members k)) r = ok_answer (Elems \<circ> set) (redis_members call ns t k r)"
| "redis_op call enc dec t (On_set ns (Delete_set k)) r = ok_answer (\<lambda>_. Done) (redis_delete call ns t k r)"
| "redis_op call enc dec t (Increment ns k n) r = apfst (Inr \<circ> Count) (redis_increment call ns t k n r)"

text \<open>Operations name a store of their kind and a lifetime of at least a second.\<close>

fun op_ok :: "(string \<rightharpoonup> store_kind) \<Rightarrow> 'v store_op \<Rightarrow> bool" where
  "op_ok stores (On_kv ns op) = (stores ns = Some Kv_store \<and>
     (case op of Set _ _ n \<Rightarrow> 1 \<le> n | Set_if_absent _ _ n \<Rightarrow> 1 \<le> n | _ \<Rightarrow> True))"
| "op_ok stores (On_set ns op) = (stores ns = Some Set_store \<and> (case op of Add _ _ n \<Rightarrow> 1 \<le> n | _ \<Rightarrow> True))"
| "op_ok stores (Increment ns k n) = (stores ns = Some Counter_store \<and> 1 \<le> n)"

text \<open>No prefix leads into the keys of another.\<close>

definition separate :: "(string \<rightharpoonup> store_kind) \<Rightarrow> bool" where
  "separate stores \<longleftrightarrow> (\<forall>a\<in>dom stores. \<forall>b\<in>dom stores. \<forall>k l. store_key a k = store_key b l \<longrightarrow> a = b)"

section \<open>What a key holds and what the memory store holds for it\<close>

definition kv_slot :: "(string \<Rightarrow> 'v option) \<Rightarrow> (redis_value \<times> seconds option) option \<Rightarrow> ('v \<times> seconds) option \<Rightarrow> bool" where
  "kv_slot dec x y = (case x of None \<Rightarrow> y = None
     | Some (Text s, Some e) \<Rightarrow> y = map_option (\<lambda>v. (v, e)) (dec s) \<and> dec s \<noteq> None | _ \<Rightarrow> False)"

definition ss_view :: "seconds \<Rightarrow> set_store \<Rightarrow> string \<Rightarrow> (string list \<times> seconds) option" where
  "ss_view t m k = (case sets m k of None \<Rightarrow> None
     | Some e \<Rightarrow> if expires_at e \<le> t then None else Some (ent_value e, expires_at e))"

definition set_slot :: "(redis_value \<times> seconds option) option \<Rightarrow> (string list \<times> seconds) option \<Rightarrow> bool" where
  "set_slot x y = (case x of None \<Rightarrow> (case y of None \<Rightarrow> True | Some (ys, _) \<Rightarrow> ys = [])
     | Some (Elements xs, Some e) \<Rightarrow> xs \<noteq> [] \<and> distinct xs \<and>
         (\<exists>ys. y = Some (ys, e) \<and> distinct ys \<and> set ys = set xs)
     | _ \<Rightarrow> False)"

definition counter_slot :: "(redis_value \<times> seconds option) option \<Rightarrow> (nat \<times> seconds) option \<Rightarrow> bool" where
  "counter_slot x y = (case x of None \<Rightarrow> y = None
     | Some (Integer n, Some e) \<Rightarrow> (\<exists>c. n = int c \<and> y = Some (c, e)) | _ \<Rightarrow> False)"

definition slots ::
  "(string \<rightharpoonup> store_kind) \<Rightarrow> (string \<Rightarrow> 'v option) \<Rightarrow> seconds \<Rightarrow> 'v memory_stores \<Rightarrow> redis_keys \<Rightarrow> bool" where
  "slots stores dec t ms m \<longleftrightarrow> (\<forall>ns k.
     (stores ns = Some Kv_store \<longrightarrow> kv_slot dec (m (store_key ns k)) (kv_view t (ms_kv ms ns) k)) \<and>
     (stores ns = Some Set_store \<longrightarrow> set_slot (m (store_key ns k)) (ss_view t (ms_set ms ns) k)) \<and>
     (stores ns = Some Counter_store \<longrightarrow> counter_slot (m (store_key ns k)) (counter_view t (ms_counter ms ns) k)))"

section \<open>One command\<close>

lemma aged_upd [simp]: "aged t (m(k := x)) =
    (aged t m)(k := (case x of None \<Rightarrow> None | Some y \<Rightarrow> if lives t y then Some y else None))"
  by (auto simp: aged_def fun_eq_iff)

lemma aged_live: "aged t m = m \<Longrightarrow> m k = Some y \<Longrightarrow> lives t y"
  by (metis (mono_tags, lifting) aged_def option.distinct(1) option.simps(5))

lemma redis_documentedD:
  assumes "redis_documented call content"
  shows "same_reply (fst (call t c r)) (fst (redis_doc t c (content t r)))"
    and "content t (snd (call t c r)) = aged t (snd (redis_doc t c (content t r)))"
    and "t \<le> t' \<Longrightarrow> content t' r = aged t' (content t r)"
    and "aged t (content t r) = content t r"
  using assms unfolding redis_documented_def by (blast, blast, blast, metis order_refl)

lemma same_reply_simps [simp]: "same_reply a Null = (a = Null)" "same_reply a OK = (a = OK)"
  "same_reply a (Bulk s) = (a = Bulk s)" "same_reply a (Number n) = (a = Number n)"
  "same_reply a Error_reply = (a = Error_reply)" "same_reply a (Bulks xs) = (\<exists>ys. a = Bulks ys \<and> set ys = set xs)"
  by (auto simp: same_reply_def split: redis_reply.splits)

text \<open>A command whose documented effect is on one key.\<close>

lemma call_one_key:
  assumes "redis_documented call content" "snd (redis_doc t c (content t r)) = (content t r)(k := y)"
    "\<And>z. y = Some z \<Longrightarrow> lives t z"
  shows "content t (snd (call t c r)) = (content t r)(k := y)"
  using assms(3) by (simp add: redis_documentedD(2,4) [OF assms(1)] assms(2) split: option.split)

section \<open>One operation\<close>

lemma store_key_inj [simp]: "store_key ns k = store_key ns l \<longleftrightarrow> k = l"
  by (simp add: store_key_def)

lemma separateD: "separate stores \<Longrightarrow> stores a = Some x \<Longrightarrow> stores b = Some y \<Longrightarrow>
    store_key a k = store_key b l \<longleftrightarrow> a = b \<and> k = l"
  by (cases "a = b") (simp, fastforce simp: separate_def)

lemma slots_kv:
  assumes "slots stores dec t ms m" "separate stores" "stores ns = Some Kv_store"
    and "kv_view t s' = (kv_view t (ms_kv ms ns))(k := x)" "kv_slot dec y x"
  shows "slots stores dec t (ms\<lparr>ms_kv := (ms_kv ms)(ns := s')\<rparr>) (m(store_key ns k := y))"
  using assms(1,3-5) separateD [OF assms(2)] by (auto simp: slots_def)

lemma slots_set:
  assumes "slots stores dec t ms m" "separate stores" "stores ns = Some Set_store"
    and "ss_view t s' = (ss_view t (ms_set ms ns))(k := x)" "set_slot y x"
  shows "slots stores dec t (ms\<lparr>ms_set := (ms_set ms)(ns := s')\<rparr>) (m(store_key ns k := y))"
  using assms(1,3-5) separateD [OF assms(2)] by (auto simp: slots_def)

lemma slots_counter:
  assumes "slots stores dec t ms m" "separate stores" "stores ns = Some Counter_store"
    and "counter_view t s' = (counter_view t (ms_counter ms ns))(k := x)" "counter_slot y x"
  shows "slots stores dec t (ms\<lparr>ms_counter := (ms_counter ms)(ns := s')\<rparr>) (m(store_key ns k := y))"
  using assms(1,3-5) separateD [OF assms(2)] by (auto simp: slots_def)

lemma ss_elems_view: "ss_elems t m k = (case ss_view t m k of None \<Rightarrow> [] | Some (xs, _) \<Rightarrow> xs)"
  by (auto simp: ss_elems_def ss_view_def split: option.split)

lemma ss_view_sweep: "ss_view t (m\<lparr>sets := sweep f t\<rparr>) = ss_view t (m\<lparr>sets := f\<rparr>)"
  by (auto simp: ss_view_def sweep_def fun_eq_iff split: option.splits)

lemma ss_view_ops:
  "0 < n \<Longrightarrow> ss_view t (ss_add t k x n m) = (ss_view t m)(k \<mapsto> (js_set_add x (ss_elems t m k), t + n))"
  "ss_view t (ss_remove t k x m) = (ss_view t m)(k := map_option (apfst (remove1 x)) (ss_view t m k))"
  "ss_view t (snd (ss_members t k m)) = ss_view t m"
  "ss_view t (ss_delete k m) = (ss_view t m)(k := None)"
proof -
  show "0 < n \<Longrightarrow> ss_view t (ss_add t k x n m) = (ss_view t m)(k \<mapsto> (js_set_add x (ss_elems t m k), t + n))"
    by (auto simp: ss_add_def Let_def ss_view_sweep ss_live_def split: option.splits)
      (auto simp: ss_view_def ss_elems_def fun_eq_iff)
qed (auto simp: ss_remove_def ss_members_def ss_delete_def ss_live_def ss_view_def fun_eq_iff split: option.splits)

lemma kv_slot_iff: "kv_slot dec x y \<longleftrightarrow>
    x = None \<and> y = None \<or> (\<exists>s e v. x = Some (Text s, Some e) \<and> dec s = Some v \<and> y = Some (v, e))"
  by (auto simp: kv_slot_def split: option.splits redis_value.splits)

lemma kv_op_agrees:
  assumes doc: "redis_documented call content" and inv: "\<And>v. dec (enc v) = Some v"
    and ok: "op_ok stores (On_kv ns op)" "separate stores" and slots: "slots stores dec t ms (content t r)"
  shows "fst (redis_op call enc dec t (On_kv ns op) r) = Inr (fst (memory_op t (On_kv ns op) ms)) \<and>
    slots stores dec t (snd (memory_op t (On_kv ns op) ms)) (content t (snd (redis_op call enc dec t (On_kv ns op) r)))"
proof -
  have kind: "stores ns = Some Kv_store" using ok by simp
  have slot: "content t r (store_key ns k) = None \<and> kv_view t (ms_kv ms ns) k = None \<or>
      (\<exists>s e v. content t r (store_key ns k) = Some (Text s, Some e) \<and> dec s = Some v \<and>
        kv_view t (ms_kv ms ns) k = Some (v, e))" for k
    using slots kind by (simp add: slots_def kv_slot_iff)
  have live: "\<forall>y. content t r (store_key ns k) = Some y \<longrightarrow> lives t y" for k
    using aged_live [OF redis_documentedD(4) [OF doc]] by blast
  note change = slots_kv [OF slots ok(2) kind]
  note reply = redis_documentedD(1) [OF doc, of t _ r]
  note answers = kv_slot_def parsed_def finished_def said_ok_def inv apfst_def map_prod_def case_prod_beta
  show ?thesis
  proof (cases op)
    case (Get k)
    have c: "content t (snd (call t (GET (store_key ns k)) r)) = (content t r)(store_key ns k := content t r (store_key ns k))"
      by (rule call_one_key [OF doc]) (use slot [of k] live [of k] in \<open>auto simp: lives_def\<close>)
    show ?thesis
      using slot [of k] reply [of "GET (store_key ns k)"] 
        change [of "snd (kv_get t k (ms_kv ms ns))" k "kv_view t (ms_kv ms ns) k" "content t r (store_key ns k)"]
      by (auto simp: Get redis_get_def c mem.views mem.results answers)
  next
    case (Set k v n)
    have n: "1 \<le> n" using ok(1) Set by simp
    have ttl: "redis_ttl n = n" using n by (simp add: redis_ttl_def)
    have c: "content t (snd (call t (SET_EX (store_key ns k) (enc v) n) r)) = (content t r)(store_key ns k := Some (Text (enc v), Some (t + n)))"
      by (rule call_one_key [OF doc]) (use slot [of k] live [of k] n in \<open>auto simp: lives_def\<close>)
    show ?thesis
      using slot [of k] reply [of "SET_EX (store_key ns k) (enc v) n"] n
        change [of "kv_set t k v n (ms_kv ms ns)" k "Some (v, t + n)" "Some (Text (enc v), Some (t + n))"]
      by (auto simp: Set redis_set_def ttl c mem.views mem.results answers)
  next
    case (Update k v)
    have c: "content t (snd (call t (SET_KEEPTTL_XX (store_key ns k) (enc v)) r)) = (content t r)(store_key ns k := map_option (\<lambda>(_, e). (Text (enc v), e)) (content t r (store_key ns k)))"
      by (rule call_one_key [OF doc]) (use slot [of k] live [of k] in \<open>auto simp: lives_def\<close>)
    show ?thesis
      using slot [of k] reply [of "SET_KEEPTTL_XX (store_key ns k) (enc v)"] 
        change [of "snd (kv_update t k v (ms_kv ms ns))" k "map_option (\<lambda>(_, e). (v, e)) (kv_view t (ms_kv ms ns) k)" "map_option (\<lambda>(_, e). (Text (enc v), e)) (content t r (store_key ns k))"]
      by (auto simp: Update redis_update_def c mem.views mem.results answers)
  next
    case (Delete k)
    have c: "content t (snd (call t (DEL (store_key ns k)) r)) = (content t r)(store_key ns k := None)"
      by (rule call_one_key [OF doc]) (use slot [of k] live [of k] in \<open>auto simp: lives_def\<close>)
    show ?thesis
      using slot [of k] reply [of "DEL (store_key ns k)"] 
        change [of "kv_delete k (ms_kv ms ns)" k "None" "None"]
      by (auto simp: Delete redis_delete_def c mem.views mem.results answers)
  next
    case (Get_and_delete k)
    have c: "content t (snd (call t (GETDEL (store_key ns k)) r)) = (content t r)(store_key ns k := None)"
      by (rule call_one_key [OF doc]) (use slot [of k] live [of k] in \<open>auto simp: lives_def\<close>)
    show ?thesis
      using slot [of k] reply [of "GETDEL (store_key ns k)"] 
        change [of "snd (kv_get_and_delete t k (ms_kv ms ns))" k "None" "None"]
      by (auto simp: Get_and_delete redis_getAndDelete_def c mem.views mem.results answers)
  next
    case (Set_if_absent k v n)
    have n: "1 \<le> n" using ok(1) Set_if_absent by simp
    have ttl: "redis_ttl n = n" using n by (simp add: redis_ttl_def)
    have c: "content t (snd (call t (SET_EX_NX (store_key ns k) (enc v) n) r)) = (content t r)(store_key ns k := (case content t r (store_key ns k) of None \<Rightarrow> Some (Text (enc v), Some (t + n)) | Some z \<Rightarrow> Some z))"
      by (rule call_one_key [OF doc]) (use slot [of k] live [of k] n in \<open>auto simp: lives_def\<close>)
    show ?thesis
      using slot [of k] reply [of "SET_EX_NX (store_key ns k) (enc v) n"] n
        change [of "snd (kv_set_if_absent t k v n (ms_kv ms ns))" k "(case kv_view t (ms_kv ms ns) k of None \<Rightarrow> Some (v, t + n) | Some z \<Rightarrow> Some z)" "(case content t r (store_key ns k) of None \<Rightarrow> Some (Text (enc v), Some (t + n)) | Some z \<Rightarrow> Some z)"]
      by (auto simp: Set_if_absent redis_setIfAbsent_def ttl c mem.views mem.results answers fun_upd_idem)
  qed
qed

text \<open>A MULTI block of two commands on one key.\<close>

lemma multi_one_key:
  assumes "redis_documented call content"
    and "redis_doc t a (content t r) = (x, (content t r)(k := y))"
    and "redis_doc t b ((content t r)(k := y)) = (x', (content t r)(k := y'))"
    and "\<And>z. y = Some z \<Longrightarrow> lives t z" "\<And>z. y' = Some z \<Longrightarrow> lives t z"
  shows "content t (snd (multi call t a b r)) = (content t r)(k := y')"
    "same_reply (fst (fst (multi call t a b r))) x"
proof -
  have first: "content t (snd (call t a r)) = (content t r)(k := y)"
    by (rule call_one_key [OF assms(1)]) (simp_all add: assms(2,4))
  have "content t (snd (call t b (snd (call t a r)))) = (content t (snd (call t a r)))(k := y')"
    by (rule call_one_key [OF assms(1)]) (simp_all add: first assms(3,5))
  then show "content t (snd (multi call t a b r)) = (content t r)(k := y')"
    by (simp add: multi_def case_prod_beta first)
  show "same_reply (fst (fst (multi call t a b r))) x"
    using redis_documentedD(1) [OF assms(1), of t a r] by (simp add: multi_def case_prod_beta assms(2))
qed

lemma set_slot_iff: "set_slot x y \<longleftrightarrow>
    x = None \<and> (y = None \<or> (\<exists>e. y = Some ([], e))) \<or>
    (\<exists>xs e ys. x = Some (Elements xs, Some e) \<and> y = Some (ys, e) \<and> xs \<noteq> [] \<and> distinct xs \<and> distinct ys \<and> set ys = set xs)"
  by (auto simp: set_slot_def split: option.splits redis_value.splits)

lemma counter_slot_iff: "counter_slot x y \<longleftrightarrow>
    x = None \<and> y = None \<or> (\<exists>c e. x = Some (Integer (int c), Some e) \<and> y = Some (c, e))"
  by (auto simp: counter_slot_def split: option.splits redis_value.splits)

lemma increment_agrees:
  assumes doc: "redis_documented call content"
    and ok: "op_ok stores (Increment ns k n)" "separate stores" and slots: "slots stores dec t ms (content t r)"
  shows "fst (redis_op call enc dec t (Increment ns k n) r) = Inr (fst (memory_op t (Increment ns k n) ms)) \<and>
    slots stores dec t (snd (memory_op t (Increment ns k n) ms))
      (content t (snd (redis_op call enc dec t (Increment ns k n) r)))"
proof -
  have kind: "stores ns = Some Counter_store" and n: "1 \<le> n" "redis_ttl n = n"
    using ok by (simp_all add: redis_ttl_def)
  let ?key = "store_key ns k"
  let ?view = "counter_view t (ms_counter ms ns)"
  have slot: "content t r ?key = None \<and> ?view k = None \<or>
      (\<exists>c e. content t r ?key = Some (Integer (int c), Some e) \<and> ?view k = Some (c, e))"
    using slots kind by (simp add: slots_def counter_slot_iff)
  have live: "\<forall>y. content t r ?key = Some y \<longrightarrow> lives t y"
    using aged_live [OF redis_documentedD(4) [OF doc]] by blast
  have until: "\<forall>c e. ?view k = Some (c, e) \<longrightarrow> t < e" using mem_counter.count_bound by blast
  define y where "y = (case ?view k of None \<Rightarrow> Some (Integer 1, Some (t + n)) | Some (c, e) \<Rightarrow> Some (Integer (int c + 1), Some e))"
  define m where "m = (case ?view k of None \<Rightarrow> Some (Integer 1, None) | Some (c, e) \<Rightarrow> Some (Integer (int c + 1), Some e))"
  note run = multi_one_key [OF doc, where a = "INCR ?key" and b = "EXPIRE_NX ?key n" and k = ?key and y = m and y' = y
      and r = r and t = t and x = "Number (case ?view k of None \<Rightarrow> 1 | Some (c, e) \<Rightarrow> int c + 1)"
      and x' = "Number (case ?view k of None \<Rightarrow> 1 | Some (c, e) \<Rightarrow> 0)"]
  have "content t (snd (multi call t (INCR ?key) (EXPIRE_NX ?key n) r)) = (content t r)(?key := y)"
    "same_reply (fst (fst (multi call t (INCR ?key) (EXPIRE_NX ?key n) r)))
      (Number (case ?view k of None \<Rightarrow> 1 | Some (c, e) \<Rightarrow> int c + 1))"
    by (rule run; use slot live n in \<open>auto simp: y_def m_def lives_def expire_def\<close>)+
  then show ?thesis
    using slots_counter [OF slots ok(2) kind, of "snd (counter_increment t k n (ms_counter ms ns))" k
        "Some (case ?view k of None \<Rightarrow> (1, t + n) | Some (c, e) \<Rightarrow> (c + 1, e))" y] slot n until
    by (auto simp: redis_increment_def y_def apfst_def map_prod_def case_prod_beta mem_counter.incr_result
        mem_counter.incr_count counter_slot_iff)
qed

lemma set_add_distinct: "distinct xs \<Longrightarrow> distinct (js_set_add x xs)" "set (js_set_add x xs) = insert x (set xs)"
  by (auto simp: js_set_add_def)

lemma add_agrees:
  assumes doc: "redis_documented call content"
    and ok: "op_ok stores (On_set ns (Add k x n))" "separate stores" and slots: "slots stores dec t ms (content t r)"
  shows "fst (redis_op call enc dec t (On_set ns (Add k x n)) r) = Inr (fst (memory_op t (On_set ns (Add k x n)) ms)) \<and>
    slots stores dec t (snd (memory_op t (On_set ns (Add k x n)) ms))
      (content t (snd (redis_op call enc dec t (On_set ns (Add k x n)) r)))"
proof -
  have kind: "stores ns = Some Set_store" and n: "1 \<le> n" "redis_ttl n = n"
    using ok by (simp_all add: redis_ttl_def)
  let ?key = "store_key ns k"
  let ?view = "ss_view t (ms_set ms ns)"
  have slot: "content t r ?key = None \<and> (?view k = None \<or> (\<exists>e. ?view k = Some ([], e))) \<or>
      (\<exists>xs e ys. content t r ?key = Some (Elements xs, Some e) \<and> ?view k = Some (ys, e) \<and> xs \<noteq> [] \<and>
        distinct xs \<and> distinct ys \<and> set ys = set xs)"
    using slots kind by (simp add: slots_def set_slot_iff)
  have live: "\<forall>y. content t r ?key = Some y \<longrightarrow> lives t y"
    using aged_live [OF redis_documentedD(4) [OF doc]] by blast
  define xs where "xs = js_set_add x (case content t r ?key of Some (Elements xs, _) \<Rightarrow> xs | _ \<Rightarrow> [])"
  define m where "m = Some (Elements xs, case content t r ?key of Some (_, e) \<Rightarrow> e | _ \<Rightarrow> None)"
  define y where "y = Some (Elements xs, Some (t + n))"
  have "content t (snd (multi call t (SADD ?key x) (EXPIRE ?key n) r)) = (content t r)(?key := y)"
    by (rule multi_one_key(1) [OF doc, where y = m
        and x = "Number (if x \<in> set (case content t r ?key of Some (Elements xs, _) \<Rightarrow> xs | _ \<Rightarrow> []) then 0 else 1)"
        and x' = "Number 1"])
      (use slot live n in \<open>auto simp: y_def m_def xs_def js_set_add_def lives_def expire_def fun_upd_idem\<close>)
  then show ?thesis
    using slots_set [OF slots ok(2) kind, of "ss_add t k x n (ms_set ms ns)" k
        "Some (js_set_add x (ss_elems t (ms_set ms ns) k), t + n)" y] slot n
    by (auto simp: redis_add_def y_def xs_def apfst_def map_prod_def case_prod_beta ss_view_ops ss_elems_view
        set_slot_iff set_add_distinct) (simp_all add: js_set_add_def)
qed

lemma remove1_filter: "distinct xs \<Longrightarrow> remove1 x xs = filter (\<lambda>y. y \<noteq> x) xs"
  by (simp add: distinct_remove1_removeAll removeAll_filter_not_eq) (rule filter_cong; auto)

lemma set_op_agrees:
  assumes doc: "redis_documented call content"
    and ok: "op_ok stores (On_set ns op)" "separate stores" and slots: "slots stores dec t ms (content t r)"
  shows "fst (redis_op call enc dec t (On_set ns op) r) = Inr (fst (memory_op t (On_set ns op) ms)) \<and>
    slots stores dec t (snd (memory_op t (On_set ns op) ms)) (content t (snd (redis_op call enc dec t (On_set ns op) r)))"
proof -
  have kind: "stores ns = Some Set_store" using ok by simp
  have slot: "content t r (store_key ns k) = None \<and>
      (ss_view t (ms_set ms ns) k = None \<or> (\<exists>e. ss_view t (ms_set ms ns) k = Some ([], e))) \<or>
      (\<exists>xs e ys. content t r (store_key ns k) = Some (Elements xs, Some e) \<and>
        ss_view t (ms_set ms ns) k = Some (ys, e) \<and> xs \<noteq> [] \<and> distinct xs \<and> distinct ys \<and> set ys = set xs)" for k
    using slots kind by (simp add: slots_def set_slot_iff)
  have live: "\<forall>y. content t r (store_key ns k) = Some y \<longrightarrow> lives t y" for k
    using aged_live [OF redis_documentedD(4) [OF doc]] by blast
  note change = slots_set [OF slots ok(2) kind]
  note reply = redis_documentedD(1) [OF doc, of t _ r]
  note answers = finished_def apfst_def map_prod_def case_prod_beta ss_view_ops ss_elems_view mem_set.mems_result
  show ?thesis
  proof (cases op)
    case (Add k x n)
    show ?thesis unfolding Add by (rule add_agrees) (use assms Add in auto)
  next
    case (Remove k x)
    let ?y = "case content t r (store_key ns k) of Some (Elements xs, e) \<Rightarrow>
        if filter (\<lambda>y. y \<noteq> x) xs = [] then None else Some (Elements (filter (\<lambda>y. y \<noteq> x) xs), e) | _ \<Rightarrow> None"
    have c: "content t (snd (call t (SREM (store_key ns k) x) r)) = (content t r)(store_key ns k := ?y)"
      by (rule call_one_key [OF doc]) (use slot [of k] live [of k] in \<open>auto simp: lives_def split: if_splits\<close>)
    have "set_slot ?y (map_option (apfst (remove1 x)) (ss_view t (ms_set ms ns) k))"
      using slot [of k] by (auto simp: set_slot_def remove1_filter filter_empty_conv)
    then show ?thesis
      using slot [of k] reply [of "SREM (store_key ns k) x"]
        change [of "ss_remove t k x (ms_set ms ns)" k "map_option (apfst (remove1 x)) (ss_view t (ms_set ms ns) k)" ?y]
      by (auto simp: Remove redis_remove_def c answers)
  next
    case (Members k)
    have c: "content t (snd (call t (SMEMBERS (store_key ns k)) r)) = (content t r)(store_key ns k := content t r (store_key ns k))"
      by (rule call_one_key [OF doc]) (use live [of k] in auto)
    show ?thesis
      using slot [of k] reply [of "SMEMBERS (store_key ns k)"]
        change [of "snd (ss_members t k (ms_set ms ns))" k "ss_view t (ms_set ms ns) k" "content t r (store_key ns k)"]
      by (auto simp: Members redis_members_def c answers set_slot_iff)
  next
    case (Delete_set k)
    have c: "content t (snd (call t (DEL (store_key ns k)) r)) = (content t r)(store_key ns k := None)"
      by (rule call_one_key [OF doc]) auto
    show ?thesis
      using reply [of "DEL (store_key ns k)"] change [of "ss_delete k (ms_set ms ns)" k None None]
      by (auto simp: Delete_set redis_delete_def c answers set_slot_iff)
  qed
qed

section \<open>Runs of operations\<close>

lemma slot_ages:
  "kv_slot dec x y \<Longrightarrow> kv_slot dec (case x of None \<Rightarrow> None | Some z \<Rightarrow> if lives t z then Some z else None)
     (case y of None \<Rightarrow> None | Some (v, e) \<Rightarrow> if t < e then Some (v, e) else None)"
  "set_slot x y' \<Longrightarrow> set_slot (case x of None \<Rightarrow> None | Some z \<Rightarrow> if lives t z then Some z else None)
     (case y' of None \<Rightarrow> None | Some (v, e) \<Rightarrow> if t < e then Some (v, e) else None)"
  "counter_slot x y'' \<Longrightarrow> counter_slot (case x of None \<Rightarrow> None | Some z \<Rightarrow> if lives t z then Some z else None)
     (case y'' of None \<Rightarrow> None | Some (v, e) \<Rightarrow> if t < e then Some (v, e) else None)"
  by (auto simp: kv_slot_iff set_slot_iff counter_slot_iff lives_def)

lemma slots_age:
  assumes "slots stores dec t ms m" "t \<le> t'"
  shows "slots stores dec t' ms (aged t' m)"
proof -
  have kv: "kv_view t' s k = (case kv_view t s k of None \<Rightarrow> None | Some (v, e) \<Rightarrow> if t' < e then Some (v, e) else None)"
    for s :: "'a kv" and k by (rule mem.view_ages [OF assms(2)])
  have ss: "ss_view t' s k = (case ss_view t s k of None \<Rightarrow> None | Some (v, e) \<Rightarrow> if t' < e then Some (v, e) else None)"
    for s k using assms(2) by (auto simp: ss_view_def split: option.splits)
  have counter: "counter_view t' s k =
      (case counter_view t s k of None \<Rightarrow> None | Some (v, e) \<Rightarrow> if t' < e then Some (v, e) else None)"
    for s k by (rule mem_counter.count_ages [OF assms(2)])
  show ?thesis
    using assms(1) unfolding slots_def kv ss counter aged_def by (simp add: slot_ages)
qed

lemma op_agrees:
  assumes "redis_documented call content" "\<And>v. dec (enc v) = Some v" "op_ok stores op" "separate stores"
    "slots stores dec t ms (content t r)"
  shows "fst (redis_op call enc dec t op r) = Inr (fst (memory_op t op ms))"
    "slots stores dec t (snd (memory_op t op ms)) (content t (snd (redis_op call enc dec t op r)))"
  using kv_op_agrees [OF assms(1,2) _ assms(4,5)] set_op_agrees [OF assms(1) _ assms(4,5), of _ _ enc]
    increment_agrees [OF assms(1) _ assms(4,5), of _ _ _ enc] assms(3)
  by (cases op; blast)+

fun memory_run :: "(seconds \<times> 'v store_op) list \<Rightarrow> 'v memory_stores \<Rightarrow> 'v store_answer list \<times> 'v memory_stores" where
  "memory_run [] ms = ([], ms)"
| "memory_run ((t, op) # ops) ms =
     (let (a, ms1) = memory_op t op ms; (as, ms2) = memory_run ops ms1 in (a # as, ms2))"

fun redis_run ::
  "'r redis \<Rightarrow> ('v \<Rightarrow> string) \<Rightarrow> (string \<Rightarrow> 'v option) \<Rightarrow> (seconds \<times> 'v store_op) list \<Rightarrow> 'r \<Rightarrow>
   (redis_failure + 'v store_answer) list \<times> 'r" where
  "redis_run call enc dec [] r = ([], r)"
| "redis_run call enc dec ((t, op) # ops) r =
     (let (a, r1) = redis_op call enc dec t op r; (as, r2) = redis_run call enc dec ops r1 in (a # as, r2))"

lemma run_agrees:
  assumes "redis_documented call content" "\<And>v. dec (enc v) = Some v" "separate stores"
    and "\<forall>(t, op)\<in>set ops. op_ok stores op" "sorted (map fst ops)" "\<forall>(t, op)\<in>set ops. start \<le> t"
    "slots stores dec start ms (content start r)"
  shows "fst (redis_run call enc dec ops r) = map Inr (fst (memory_run ops ms))"
  using assms(4-)
proof (induction ops arbitrary: start ms r)
  case (Cons p ops)
  obtain t op where p: "p = (t, op)" by fastforce
  have "slots stores dec t ms (content t r)"
    using slots_age [of stores dec start ms "content start r" t] Cons.prems(3,4) redis_documentedD(3) [OF assms(1), of start t r]
    by (simp add: p)
  note agree = op_agrees [OF assms(1,2) _ assms(3) this, of op]
  have "fst (redis_run call enc dec ops (snd (redis_op call enc dec t op r))) =
      map Inr (fst (memory_run ops (snd (memory_op t op ms))))"
    by (rule Cons.IH [of t]) (use Cons.prems agree(2) p in auto)
  then show ?case using agree(1) Cons.prems(1) by (simp add: p case_prod_beta)
qed simp

section \<open>createAuthStores and createStoreFactory\<close>

definition auth_stores :: "string \<rightharpoonup> store_kind" where
  "auth_stores = map_of [(''sso:sess'', Kv_store), (''sso:sid'', Kv_store), (''sso:authreq'', Kv_store),
     (''sso:code'', Kv_store), (''sso:rt'', Kv_store), (''sso:rtfamily'', Set_store), (''sso:csrf'', Kv_store),
     (''sso:mfa'', Kv_store), (''sso:sidrt'', Set_store), (''sso:ratelimit'', Counter_store)]"

text \<open>The stores of a service's BFF (packages/web-core/src/start.ts), under its client id.\<close>

definition web_stores :: "string \<Rightarrow> string \<rightharpoonup> store_kind" where
  "web_stores client = map_of [(client @ '':sess'', Kv_store), (client @ '':sid'', Set_store),
     (client @ '':pre'', Kv_store), (client @ '':lock'', Kv_store), (client @ '':ratelimit'', Counter_store)]"

lemma prefix_apart:
  "CHR '':'' \<notin> set x \<Longrightarrow> CHR '':'' \<notin> set y \<Longrightarrow> x @ CHR '':'' # k = y @ CHR '':'' # l \<Longrightarrow> x = y"
proof (induction x arbitrary: y)
  case Nil
  then show ?case by (cases y) auto
next
  case (Cons c x)
  then show ?case by (cases y) auto
qed

text \<open>Prefixes that name a process and a store of it lead to different keys, whatever the keys contain.\<close>

lemma separateI:
  assumes "\<And>a. a \<in> dom stores \<Longrightarrow> \<exists>x. a = p @ '':'' @ x \<and> CHR '':'' \<notin> set x"
  shows "separate stores"
  unfolding separate_def
proof (intro ballI allI impI)
  fix a b k l
  assume "a \<in> dom stores" "b \<in> dom stores" and eq: "store_key a k = store_key b l"
  then obtain x y where "a = p @ '':'' @ x" "CHR '':'' \<notin> set x" "b = p @ '':'' @ y" "CHR '':'' \<notin> set y"
    using assms by blast
  then show "a = b" using eq prefix_apart [of x y k l] by (simp add: store_key_def)
qed

lemma auth_stores_separate: "separate auth_stores"
  by (rule separateI [of _ "''sso''"]) (auto simp: auth_stores_def domIff split: if_splits)

lemma web_stores_separate: "separate (web_stores client)"
  by (rule separateI [of _ client]) (auto simp: web_stores_def domIff split: if_splits)


definition seed_redis :: "redis_keys redis" where "seed_redis t c m = redis_doc t c (aged t m)"

lemma aged_aged: "t \<le> t' \<Longrightarrow> aged t' (aged t m) = aged t' m"
  by (auto simp: aged_def lives_def fun_eq_iff split: option.splits)

lemma seed_redis_documented: "redis_documented seed_redis aged"
  by (auto simp: redis_documented_def seed_redis_def aged_aged same_reply_def split: redis_reply.split)


end
