(* ===== verification/Spa.thy ===== *)
theory Spa
  imports WebCore
begin

text \<open>
  packages/shared/src/spa.ts and views.ts, packages/web-core/src/views/pages.ts: how a server hands out
  the single-page application, and the few pages it writes itself. A built application is one
  index.html whose inline scripts the Content-Security-Policy allows by their hashes; the scanner that
  finds them is the global match of a regular expression, modelled as the loop over its matches. The
  escaping of the \<open>html\<close> template tag is the framework's (\<open>esc\<close>). Texts are the bytes
  sent.
\<close>

section \<open>Inline scripts\<close>

fun has_src :: "string \<Rightarrow> bool" where
  "has_src [] = False"
| "has_src (c # t) = ((js_space c \<and> prefix ''src='' t) \<or> has_src t)"

text \<open>
  A match of the pattern at the start of a text: the attributes run to the first closing bracket, the
  body, as short as possible, to the first end tag. With it comes the text after the match.
\<close>

definition script_at :: "string \<Rightarrow> (string \<times> string \<times> string) option" where
  "script_at t =
     (if \<not> prefix ''<script'' t then None
      else (case dropWhile (\<lambda>c. c \<noteq> CHR ''>'') (drop 7 t) of
        [] \<Rightarrow> None
      | _ # r \<Rightarrow> (case index_of ''</script>'' r of
          None \<Rightarrow> None
        | Some i \<Rightarrow> Some (takeWhile (\<lambda>c. c \<noteq> CHR ''>'') (drop 7 t), take i r, drop (i + 9) r))))"

fun next_script :: "string \<Rightarrow> (string \<times> string \<times> string) option" where
  "next_script [] = None"
| "next_script (c # t) = (case script_at (c # t) of Some m \<Rightarrow> Some m | None \<Rightarrow> next_script t)"

text \<open>A keyword or a hash of the policy stands between apostrophes.\<close>

definition quoted :: "string \<Rightarrow> string" where "quoted s = CHR 0x27 # s @ [CHR 0x27]"

definition script_hash :: "(bytes \<Rightarrow> bytes) \<Rightarrow> string \<Rightarrow> string" where
  "script_hash sha body = quoted (''sha256-'' @ b64_encode (sha (bytes_of_string body)))"

definition allowed_by_hash :: "string \<Rightarrow> string \<Rightarrow> bool" where
  "allowed_by_hash attrs body = (\<not> (has_src attrs \<or> js_trim body = []))"

text \<open>The loop over the matches; a document it never ends on would have no value.\<close>

partial_function (option) script_loop ::
  "(bytes \<Rightarrow> bytes) \<Rightarrow> string \<Rightarrow> string list \<Rightarrow> string list option" where
  "script_loop sha html hashes =
     (case next_script html of
        None \<Rightarrow> Some hashes
      | Some (attrs, body, rest) \<Rightarrow>
          script_loop sha rest (if allowed_by_hash attrs body then hashes @ [script_hash sha body] else hashes))"

definition inlineScriptHashes :: "(bytes \<Rightarrow> bytes) \<Rightarrow> string \<Rightarrow> string list option" where
  "inlineScriptHashes sha html = script_loop sha html []"

section \<open>How the application is handed out\<close>

datatype spa_options = Spa_static string | Spa_proxy string | Spa_none

record spa_csp =
  script_src :: "string list"
  connect_src :: "string list"

definition spaOptionsFromEnv :: "string option \<Rightarrow> string option \<Rightarrow> spa_options" where
  "spaOptionsFromEnv spa_dir spa_dev_server_url =
     (case spa_dir of
        Some d \<Rightarrow> Spa_static d
      | None \<Rightarrow> (case spa_dev_server_url of Some u \<Rightarrow> Spa_proxy u | None \<Rightarrow> Spa_none))"

text \<open>
  The origin of a URL, up to the normalisation of the host and of a default port; the policy of a
  built application needs its index.html, and the scanner to end on it. \<open>None\<close> is the exception at start.
\<close>

definition url_host :: "string \<Rightarrow> string" where
  "url_host u = rev (takeWhile (\<lambda>c. c \<noteq> CHR ''@'') (rev (url_authority u)))"

definition url_origin :: "string \<Rightarrow> string" where
  "url_origin u = url_scheme u @ ''://'' @ url_host u"

definition ws_origin :: "string \<Rightarrow> string" where
  "ws_origin u = (if url_scheme u = ''https'' then ''wss'' else ''ws'') @ ''://'' @ url_host u"

definition spaCsp ::
  "(bytes \<Rightarrow> bytes) \<Rightarrow> (string \<Rightarrow> string option) \<Rightarrow> spa_options \<Rightarrow> spa_csp option" where
  "spaCsp sha read_file spa =
     (case spa of
        Spa_static dir \<Rightarrow>
          Option.bind (read_file (dir @ ''/index.html'')) (\<lambda>html.
            map_option (\<lambda>hs. \<lparr>script_src = quoted ''self'' # hs, connect_src = [quoted ''self'']\<rparr>)
              (inlineScriptHashes sha html))
      | Spa_proxy url \<Rightarrow> Some \<lparr>script_src = [quoted ''self'', quoted ''unsafe-inline''],
          connect_src = [quoted ''self'', ws_origin url, url_origin url]\<rparr>
      | Spa_none \<Rightarrow> Some \<lparr>script_src = [quoted ''self''], connect_src = [quoted ''self'']\<rparr>)"

section \<open>The scanner finds every script\<close>

text \<open>A document as a browser reads it: texts without a script, each followed by a script element.\<close>

definition script_element :: "string \<Rightarrow> string \<Rightarrow> string" where
  "script_element attrs body = ''<script'' @ attrs @ ''>'' @ body @ ''</script>''"

fun document :: "(string \<times> string \<times> string) list \<Rightarrow> string \<Rightarrow> string" where
  "document [] rest = rest"
| "document ((before, attrs, body) # bs) rest = before @ script_element attrs body @ document bs rest"

definition block_ok :: "string \<times> string \<times> string \<Rightarrow> bool" where
  "block_ok b = (case b of (before, attrs, body) \<Rightarrow>
     \<not> sublist ''<script'' before \<and> CHR ''>'' \<notin> set attrs \<and> \<not> sublist ''</script>'' body)"

text \<open>The hashes of the elements that hold a script of their own.\<close>

definition document_hashes :: "(bytes \<Rightarrow> bytes) \<Rightarrow> (string \<times> string \<times> string) list \<Rightarrow> string list" where
  "document_hashes sha bs =
     [script_hash sha body. (before, attrs, body) \<leftarrow> bs, allowed_by_hash attrs body]"

lemma index_of_take: "index_of p s = Some i \<Longrightarrow> p \<noteq> [] \<Longrightarrow> \<not> sublist p (take i s)"
proof (induction p s arbitrary: i rule: index_of.induct)
  case (1 p s)
  show ?case
  proof (cases "prefix p s")
    case True
    then show ?thesis using "1.prems" by (simp add: index_of.simps [of p s])
  next
    case False
    then obtain c cs j where s: "s = c # cs" "index_of p cs = Some j" "i = Suc j"
      using "1.prems"(1) by (auto simp: index_of.simps [of p s] split: list.splits)
    have "\<not> sublist p (take j cs)" by (rule "1.IH" [OF False s(1,2) "1.prems"(2)])
    moreover have "\<not> prefix p (take i s)"
      using False take_is_prefix [of i s] prefix_order.trans by blast
    ultimately show ?thesis by (simp add: s(1,3) sublist_Cons_right)
  qed
qed

lemma script_at_Some:
  assumes "script_at t = Some (attrs, body, rest)"
  shows "t = script_element attrs body @ rest \<and> block_ok ([], attrs, body)"
proof -
  obtain v where t: "t = ''<script'' @ v" using assms by (auto simp: script_at_def prefix_def split: if_splits)
  obtain c r i where r: "dropWhile (\<lambda>c. c \<noteq> CHR ''>'') v = c # r" "index_of ''</script>'' r = Some i"
      "attrs = takeWhile (\<lambda>c. c \<noteq> CHR ''>'') v" "body = take i r" "rest = drop (i + 9) r"
    using assms by (auto simp: t script_at_def split: list.splits option.splits)
  have "c = CHR ''>''" using hd_dropWhile [of "\<lambda>c. c \<noteq> CHR ''>''" v] r(1) by auto
  then have v: "v = attrs @ ''>'' @ r"
    using takeWhile_dropWhile_id [of "\<lambda>c. c \<noteq> CHR ''>''" v] r(1,3) by simp
  have "r = body @ ''</script>'' @ rest"
    using index_of_Some_split [OF r(2)] by (simp add: r(4,5) numeral_eq_Suc)
  moreover have "\<not> sublist ''</script>'' body" using index_of_take [OF r(2)] by (simp add: r(4))
  moreover have "CHR ''>'' \<notin> set attrs" using r(3) by (auto dest: set_takeWhileD)
  ultimately show ?thesis by (simp add: t v script_element_def block_ok_def)
qed

text \<open>When an opening tag has no end, none after it has one.\<close>

lemma script_at_None:
  assumes "script_at (''<script'' @ v) = None"
  shows "v = x @ ''>'' @ y \<Longrightarrow> \<not> sublist ''</script>'' y"
proof -
  assume v: "v = x @ ''>'' @ y"
  obtain c r where r: "dropWhile (\<lambda>c. c \<noteq> CHR ''>'') v = c # r"
    by (cases "dropWhile (\<lambda>c. c \<noteq> CHR ''>'') v") (auto simp: v dropWhile_eq_Nil_conv)
  then have "index_of ''</script>'' r = None"
    using assms by (simp add: script_at_def split: option.splits)
  then have none: "\<not> sublist ''</script>'' r" by (simp add: index_of_None_iff)
  have "suffix y r"
  proof (cases "CHR ''>'' \<in> set x")
    case True
    then obtain d w where "dropWhile (\<lambda>c. c \<noteq> CHR ''>'') x = d # w"
      by (cases "dropWhile (\<lambda>c. c \<noteq> CHR ''>'') x") (auto simp: dropWhile_eq_Nil_conv)
    then have "r = w @ ''>'' @ y" using r True by (auto simp: v dropWhile_append1)
    then show ?thesis by (simp add: suffix_def)
  next
    case False
    then have "dropWhile (\<lambda>c. c \<noteq> CHR ''>'') v = CHR ''>'' # y"
      by (subst v, subst dropWhile_append2) auto
    then show ?thesis using r by simp
  qed
  then show ?thesis using none by (meson suffix_imp_sublist sublist_order.order.trans)
qed

lemma next_script_Some:
  "next_script html = Some (attrs, body, rest) \<Longrightarrow>
   \<exists>before. html = before @ script_element attrs body @ rest \<and> block_ok (before, attrs, body)"
proof (induction html rule: next_script.induct)
  case (2 c t)
  show ?case
  proof (cases "script_at (c # t)")
    case None
    with "2" obtain b where b: "t = b @ script_element attrs body @ rest" "block_ok (b, attrs, body)" by auto
    have "\<not> prefix ''<script'' (c # b)"
    proof
      assume "prefix ''<script'' (c # b)"
      then obtain z where z: "c # b = ''<script'' @ z" by (auto simp: prefix_def)
      then have "c # t = ''<script'' @ (z @ ''<script'' @ attrs) @ ''>'' @ body @ ''</script>'' @ rest"
        by (simp add: b(1) script_element_def)
      with None have "\<not> sublist ''</script>'' (body @ ''</script>'' @ rest)"
        by (metis script_at_None)
      then show False by (metis sublist_appendI)
    qed
    then have "block_ok (c # b, attrs, body)"
      using b(2) by (simp add: block_ok_def sublist_Cons_right)
    then show ?thesis using b(1) by (intro exI [of _ "c # b"]) simp
  next
    case (Some m)
    with "2" have "script_at (c # t) = Some (attrs, body, rest)" by simp
    from script_at_Some [OF this] show ?thesis by (intro exI [of _ "[]"]) simp
  qed
qed simp

lemma next_script_shorter:
  assumes "next_script html = Some (attrs, body, rest)"
  shows "length rest < length html"
  using next_script_Some [OF assms] by (auto simp: script_element_def)

lemma loop_scans:
  "\<exists>bs rest. html = document bs rest \<and> list_all block_ok bs \<and> next_script rest = None \<and>
     script_loop sha html hashes = Some (hashes @ document_hashes sha bs)"
proof (induction html arbitrary: hashes rule: measure_induct_rule [of length])
  case (less html)
  show ?case
  proof (cases "next_script html")
    case None
    then show ?thesis
      by (intro exI [of _ "[]"] exI [of _ html])
         (simp add: script_loop.simps [of sha html] document_hashes_def)
  next
    case (Some m)
    obtain attrs body more where m: "m = (attrs, body, more)" by (cases m)
    note found = Some [unfolded m]
    obtain before where before: "html = before @ script_element attrs body @ more" "block_ok (before, attrs, body)"
      using next_script_Some [OF found] by blast
    let ?hashes = "if allowed_by_hash attrs body then hashes @ [script_hash sha body] else hashes"
    obtain bs rest where rest: "more = document bs rest" "list_all block_ok bs" "next_script rest = None"
        "script_loop sha more ?hashes = Some (?hashes @ document_hashes sha bs)"
      using less.IH [OF next_script_shorter [OF found], of ?hashes] by blast
    have "script_loop sha html hashes = Some (hashes @ document_hashes sha ((before, attrs, body) # bs))"
      using rest(4) by (simp add: script_loop.simps [of sha html] found document_hashes_def)
    then show ?thesis
      using before rest
      by (intro exI [of _ "(before, attrs, body) # bs"] exI [of _ rest]) simp
  qed
qed


section \<open>views.ts and pages.ts\<close>

definition unlines :: "string list \<Rightarrow> string" where "unlines ls = join_with [CHR 0x0A] ls"

definition tag_attr :: "string \<Rightarrow> string \<Rightarrow> string" where
  "tag_attr name v = name @ ''='' @ dquote @ v @ dquote"

definition STYLE :: string where
  "STYLE = unlines [[],
     ''  body { font-family: system-ui, sans-serif; margin: 3rem auto; padding: 0 1rem; color: #222; }'',
     ''  h1 { font-size: 1.25rem; }'',
     ''  .muted { color: #666; font-size: 0.9rem; }'', []]"

definition PAGES_STYLE :: string where
  "PAGES_STYLE = unlines [[],
     ''  body { font-family: system-ui, sans-serif; max-width: 40rem; margin: 3rem auto; padding: 0 1rem; color: #222; }'',
     ''  h1 { font-size: 1.25rem; }'',
     ''  .muted { color: #666; font-size: 0.9rem; }'', []]"

text \<open>The link text, in UTF-8.\<close>

definition back_to_top :: string where
  "back_to_top = map (char_of :: nat \<Rightarrow> char)
     [0xE3, 0x83, 0x88, 0xE3, 0x83, 0x83, 0xE3, 0x83, 0x97, 0xE3, 0x81, 0xB8, 0xE6, 0x88, 0xBB, 0xE3, 0x82, 0x8B]"

definition home_link :: string where
  "home_link = ''<p><a '' @ tag_attr ''href'' ''/'' @ ''>'' @ back_to_top @ ''</a></p>''"

definition muted :: "string \<Rightarrow> string" where
  "muted text = ''<p '' @ tag_attr ''class'' ''muted'' @ ''>'' @ text @ ''</p>''"

definition html_head :: "string list" where
  "html_head =
     [''<!doctype html>'',
      ''    <html '' @ tag_attr ''lang'' ''ja'' @ ''>'',
      ''      <head>'',
      ''        <meta '' @ tag_attr ''charset'' ''utf-8'' @ '' />'',
      ''        <meta '' @ tag_attr ''name'' ''viewport'' @ '' '' @
        tag_attr ''content'' ''width=device-width, initial-scale=1'' @ '' />'']"

record minimal_error_page =
  mp_title :: string
  mp_message :: string
  mp_title_suffix :: "string option"
  mp_footer :: "string option"
  mp_home_link :: bool
  mp_max_width :: "string option"

definition minimalErrorPage :: "(string \<Rightarrow> string) \<Rightarrow> minimal_error_page \<Rightarrow> string" where
  "minimalErrorPage esc page =
     (let width = (case mp_max_width page of Some w \<Rightarrow> w | None \<Rightarrow> ''28rem'');
          title = (case mp_title_suffix page of None \<Rightarrow> mp_title page
                   | Some t \<Rightarrow> mp_title page @ '' | '' @ t)
      in unlines (html_head @
        [''        <title>'', ''          '' @ esc title, ''        </title>'', ''        <style>'',
         ''          '' @ STYLE @ '' body {'', ''            max-width: '' @ width @ '';'', ''          }'',
         ''        </style>'', ''      </head>'', ''      <body>'',
         ''        <h1>'' @ esc (mp_title page) @ ''</h1>'',
         ''        <p>'' @ esc (mp_message page) @ ''</p>'',
         ''        '' @ (case mp_footer page of None \<Rightarrow> [] | Some t \<Rightarrow> muted (esc t)),
         ''        '' @ (if mp_home_link page then home_link else []),
         ''      </body>'', ''    </html>'']))"

record page_labels =
  pl_service_name :: string
  pl_tenant_slug :: string

definition errorPage :: "(string \<Rightarrow> string) \<Rightarrow> page_labels \<Rightarrow> string \<Rightarrow> string \<Rightarrow> string" where
  "errorPage esc labels title message = unlines (html_head @
     [''        <title>'' @ esc title @ '' | '' @ esc (pl_tenant_slug labels) @ '' / '' @
        esc (pl_service_name labels) @ ''</title>'',
      ''        <style>'', ''          '' @ PAGES_STYLE, ''        </style>'', ''      </head>'', ''      <body>'',
      ''        <h1>'' @ esc title @ ''</h1>'', ''        <p>'' @ esc message @ ''</p>'',
      ''        '' @ muted (esc (pl_service_name labels) @ '' / '' @ esc (pl_tenant_slug labels)),
      ''        '' @ home_link, ''      </body>'', ''    </html>''])"

subsection \<open>No markup but the page's own\<close>

text \<open>A text in which every opening bracket is followed, within the text, by the start of another tag
  than a script.\<close>

fun other_tag :: "string \<Rightarrow> bool" where
  "other_tag [] = False"
| "other_tag (d # u) = (d \<noteq> CHR ''s'' \<or> (u \<noteq> [] \<and> hd u \<noteq> CHR ''c''))"

fun calm :: "string \<Rightarrow> bool" where
  "calm [] = True"
| "calm (c # t) = ((c = CHR ''<'' \<longrightarrow> other_tag t) \<and> calm t)"

lemma other_tag_append: "other_tag t \<Longrightarrow> other_tag (t @ u)"
  by (cases t) auto

named_theorems calm_texts

lemma calm_append [intro]: "calm a \<Longrightarrow> calm b \<Longrightarrow> calm (a @ b)"
  by (induction a) (auto simp: other_tag_append)

lemma calm_plain [calm_texts]: "CHR ''<'' \<notin> set t \<Longrightarrow> calm t"
  by (induction t) auto

lemma calm_unlines: "\<forall>l\<in>set ls. calm l \<Longrightarrow> calm (unlines ls)"
proof (induction ls)
  case (Cons l ls)
  then show ?case by (cases ls) (auto simp: unlines_def)
qed (simp add: unlines_def)

lemma calm_script: "calm t \<Longrightarrow> \<not> sublist ''<script'' t"
  by (induction t) (auto simp: sublist_Cons_right prefix_def)

lemma calm_pages [calm_texts]:
  "calm STYLE" "calm PAGES_STYLE" "calm home_link" "list_all calm html_head"
  by code_simp+

lemma calm_muted: "calm t \<Longrightarrow> calm (muted t)"
proof -
  assume t: "calm t"
  have "calm (''<p '' @ tag_attr ''class'' ''muted'' @ ''>'')" "calm ''</p>''" by code_simp+
  with t have "calm ((''<p '' @ tag_attr ''class'' ''muted'' @ ''>'') @ t @ ''</p>'')" by blast
  then show ?thesis by (simp add: muted_def)
qed

text \<open>
  C40: The pages the servers write themselves carry no script, whatever they are made to show: the title,
  the message, the footer, the service and the tenant label (which for an unknown host is the first
  label of the request's Host header) reach the page only through the template's escaping, so no text
  of a request can open a script element there.
\<close>

theorem server_pages_hold_no_script:
  assumes "\<And>t. CHR ''<'' \<notin> set (esc t)"
    and "\<And>w. mp_max_width page = Some w \<Longrightarrow> CHR ''<'' \<notin> set w"
  shows "\<not> sublist ''<script'' (errorPage esc labels title message) \<and>
    \<not> sublist ''<script'' (minimalErrorPage esc page)"
proof -
  note plain = calm_plain [OF assms(1)]
  have head: "\<forall>l\<in>set html_head. calm l" using calm_pages(4) by (simp add: list_all_iff)
  have "calm (errorPage esc labels title message)"
    unfolding errorPage_def
    by (rule calm_unlines) (auto simp: head plain calm_pages intro!: calm_append calm_muted)
  moreover have "calm (minimalErrorPage esc page)"
    unfolding minimalErrorPage_def Let_def
    by (rule calm_unlines)
       (auto simp: head plain calm_pages calm_plain assms(2) intro!: calm_append calm_muted split: option.split)
  ultimately show ?thesis by (simp add: calm_script)
qed

definition fx_escape :: "string \<Rightarrow> string" where
  "fx_escape t = concat (map (\<lambda>c. if c = CHR ''<'' then ''&lt;'' else if c = CHR ''&'' then ''&amp;'' else [c]) t)"

theorem server_pages_hold_no_script_witness:
  "\<not> sublist ''<script'' (errorPage fx_escape \<lparr>pl_service_name = ''CRM'', pl_tenant_slug = ''<script>''\<rparr> ''t'' ''m'') \<and>
   \<not> sublist ''<script'' (minimalErrorPage fx_escape \<lparr>mp_title = ''<script>'', mp_message = ''m'',
      mp_title_suffix = None, mp_footer = Some ''f'', mp_home_link = True, mp_max_width = Some ''40rem''\<rparr>)"
  by (rule server_pages_hold_no_script) (auto simp: fx_escape_def split: if_splits)

end
