(* ===== verification/WebApp.thy ===== *)
theory WebApp
  imports Spa AuthApp
begin

text \<open>
  packages/web-core/src/app.ts as one application: the order of its middlewares and routes, from the
  health check to the pages of the single-page application. A HEAD request is routed as GET and a
  pattern ending in a star also takes the path before it, as the framework documents. The answer keeps
  what the code decides: the body, the cookies in order and the last Cache-Control it sets. \<open>st_file\<close> is
  the file the static middleware finds for a path, and the body limit's own answer is \<open>Too_large\<close>.
\<close>

section \<open>Requests, answers and the pages\<close>

record web_request =
  wq_host :: "string option"
  wq_api :: api_request
  wq_query :: "string \<Rightarrow> string option"
  wq_cookies :: "string \<Rightarrow> string option"
  wq_form :: "string \<Rightarrow> string option"
  wq_accept :: "string option"
  wq_size :: nat
  wq_ip :: string

datatype web_body =
  Auth_page reply page_labels | Web_json json nat | Api_body api_reply | File string
| Page_html string | Dev_answer nat "string option" "json option" | Unknown_host_page page_labels
| Too_large | Server_error

record web_answer =
  wa_body :: web_body
  wa_cookies :: "cookie_op list"
  wa_cache :: string

record spa_site =
  st_options :: spa_options
  st_index :: string
  st_file :: "string \<Rightarrow> string option"

definition wq_path :: "web_request \<Rightarrow> string" where "wq_path rq = aq_path (wq_api rq)"

definition is_get :: "web_request \<Rightarrow> bool" where "is_get rq = (aq_method (wq_api rq) \<in> {''GET'', ''HEAD''})"

definition is_post :: "web_request \<Rightarrow> bool" where "is_post rq = (aq_method (wq_api rq) = ''POST'')"

definition under :: "string \<Rightarrow> string \<Rightarrow> bool" where "under p path = (path = p \<or> prefix (p @ ''/'') path)"

definition web_answer_of :: "web_body \<Rightarrow> web_answer" where
  "web_answer_of b = \<lparr>wa_body = b, wa_cookies = [], wa_cache = ''no-store''\<rparr>"

text \<open>The labels of a page for a request that has no tenant come from the Host header.\<close>

definition hostLabels :: "string option \<Rightarrow> client_config option \<Rightarrow> page_labels" where
  "hostLabels host client =
     (case client of
        Some c \<Rightarrow> \<lparr>pl_service_name = sv_name c, pl_tenant_slug = cl_tenant_slug c\<rparr>
      | None \<Rightarrow> \<lparr>pl_service_name = ''Sandbox'',
          pl_tenant_slug = hd (split_on CHR ''.'' (case host of None \<Rightarrow> [] | Some h \<Rightarrow> h))\<rparr>)"

definition SPA_EMPTY :: string where
  "SPA_EMPTY = ''<!doctype html><html '' @ tag_attr ''lang'' ''ja'' @
     ''><head><title>SPA</title></head><body></body></html>''"

definition mountSpaAssets :: "spa_site \<Rightarrow> web_request \<Rightarrow> web_answer option" where
  "mountSpaAssets site rq =
     (case st_options site of
        Spa_static _ \<Rightarrow>
          if under ''/assets'' (wq_path rq)
          then map_option (\<lambda>f. \<lparr>wa_body = File f, wa_cookies = [],
            wa_cache = ''public, max-age=31536000, immutable''\<rparr>) (st_file site (wq_path rq))
          else None
      | _ \<Rightarrow> None)"

definition mountSpa ::
  "('n, 'z) bff_env_scheme \<Rightarrow> spa_site \<Rightarrow> web_request \<Rightarrow> ('n, web_body option) bff_m" where
  "mountSpa env site rq =
     (case st_options site of
        Spa_static _ \<Rightarrow> State_Monad.return
          (case st_file site (wq_path rq) of
             Some f \<Rightarrow> Some (File f)
           | None \<Rightarrow> if is_get rq then Some (Page_html (st_index site)) else None)
      | Spa_proxy url \<Rightarrow>
          if \<not> is_get rq then State_Monad.return None
          else do {
            r \<leftarrow> fetch env \<lparr>rq_method = ''GET'',
              rq_url = resolve_url (wq_path rq @ aq_search (wq_api rq)) url,
              rq_headers = [(''accept'', case wq_accept rq of Some a \<Rightarrow> a | None \<Rightarrow> ''*/*'')], rq_body = None\<rparr>;
            State_Monad.return (Some (case r of None \<Rightarrow> Server_error
              | Some a \<Rightarrow> Dev_answer (rs_status a) (rs_content_type a) (rs_json a)))
          }
      | Spa_none \<Rightarrow> State_Monad.return (if is_get rq then Some (Page_html SPA_EMPTY) else None))"

section \<open>The policy of every answer\<close>

definition content_security_policy :: "spa_csp \<Rightarrow> (string \<times> string list) list" where
  "content_security_policy csp =
     [(''default-src'', [quoted ''self'']), (''script-src'', script_src csp), (''connect-src'', connect_src csp),
      (''style-src'', [quoted ''self'', quoted ''unsafe-inline'']), (''img-src'', [quoted ''self'', ''data:'']),
      (''frame-ancestors'', [quoted ''none'']), (''form-action'', [quoted ''self'']), (''base-uri'', [quoted ''self''])]"

text \<open>A built application runs its own inline scripts and nothing else that is inline.\<close>

lemma static_policy:
  assumes "spaCsp sha read_file (Spa_static dir) = Some csp" "read_file (dir @ ''/index.html'') = Some html"
  shows "\<exists>bs rest. html = document bs rest \<and> list_all block_ok bs \<and> next_script rest = None \<and>
    map_of (content_security_policy csp) ''script-src'' = Some (quoted ''self'' # document_hashes sha bs)"
proof -
  obtain bs rest where scan: "html = document bs rest" "list_all block_ok bs" "next_script rest = None"
      "script_loop sha html [] = Some (document_hashes sha bs)"
    using loop_scans [of html sha "[]"] by auto
  have "script_src csp = quoted ''self'' # document_hashes sha bs"
    using assms scan(4) by (auto simp: spaCsp_def inlineScriptHashes_def)
  then show ?thesis
    using scan(1-3) by (intro exI [of _ bs] exI [of _ rest]) (simp add: content_security_policy_def)
qed

section \<open>The session endpoint\<close>

definition session_json :: "session_response \<Rightarrow> json" where
  "session_json r = JObj
     ([(''service'', JObj [(''clientId'', JStr (sr_client_id r)), (''name'', JStr (sr_service_name r))]),
       (''tenant'', JObj [(''slug'', JStr (sr_tenant_slug r))]),
       (''urls'', JObj [(''login'', JStr ''/auth/login''), (''logout'', JStr ''/auth/logout''),
          (''globalLogout'', JStr (fst (sr_global_logout r) @ ''?'' @
             url_search_params (snd (sr_global_logout r))))])] @
      (case (sr_user r, sr_csrf r) of
         (Some u, Some csrf) \<Rightarrow>
           [(''authenticated'', JBool True),
            (''user'', JObj [(''id'', JStr (su_id u)), (''email'', nullable (su_email u)),
               (''name'', nullable (su_name u))]),
            (''csrfToken'', JStr csrf)]
       | _ \<Rightarrow> [(''authenticated'', JBool False)]))"

section \<open>The routes\<close>

text \<open>The limiter of a group of routes: whether the request may pass.\<close>

definition limiter_passes :: "string \<Rightarrow> nat \<Rightarrow> web_request \<Rightarrow> ('n, bool) bff_m" where
  "limiter_passes name now_ms rq = State (\<lambda>s.
     let (ok, m) = rateLimit name AUTH_ROUTE_LIMIT AUTH_ROUTE_WINDOW_SECONDS now_ms (wq_ip rq) (rate_counters s)
     in (ok, s\<lparr>rate_counters := m\<rparr>))"

definition BODY_LIMIT_AUTH :: nat where "BODY_LIMIT_AUTH = 16 * 1024"
definition BODY_LIMIT_API :: nat where "BODY_LIMIT_API = 64 * 1024"

definition callback_query_of :: "web_request \<Rightarrow> callback_query" where
  "callback_query_of rq =
     \<lparr>cq_state = wq_query rq ''state'', cq_iss = wq_query rq ''iss'', cq_error = wq_query rq ''error'',
      cq_error_description = wq_query rq ''error_description'', cq_code = wq_query rq ''code''\<rparr>"

definition oidcRoutes ::
  "('n, 'z) bff_env_scheme \<Rightarrow> client_config \<Rightarrow> tenant_session option \<Rightarrow> web_request \<Rightarrow>
   ('n, bff_reply option) bff_m" where
  "oidcRoutes env client session rq =
     (if is_get rq \<and> wq_path rq = ''/auth/login'' then do {
        r \<leftarrow> auth_login env client (wq_query rq ''return_to''); State_Monad.return (Some r) }
      else if is_get rq \<and> wq_path rq = ''/auth/callback'' then do {
        r \<leftarrow> auth_callback env client (wq_cookies rq (preAuthCookieName env))
          (wq_cookies rq (sessionCookieName env)) (callback_query_of rq);
        State_Monad.return (Some r) }
      else if is_post rq \<and> wq_path rq = ''/auth/logout'' then do {
        r \<leftarrow> auth_logout env client session (wq_form rq ''csrf''); State_Monad.return (Some r) }
      else State_Monad.return None)"

text \<open>The service's own routes: the session endpoint, the proxy and the pages.\<close>

definition service_routes ::
  "('n, 'z) bff_env_scheme \<Rightarrow> spa_site \<Rightarrow> client_config \<Rightarrow> tenant_session option \<Rightarrow> web_request \<Rightarrow>
   ('n, web_answer) bff_m" where
  "service_routes env site client session rq =
     (if is_get rq \<and> wq_path rq = ''/session''
      then State_Monad.return (web_answer_of (Web_json (session_json (session_response env client session)) 200))
      else if under ''/api'' (wq_path rq) then
        (if wq_size rq > BODY_LIMIT_API then State_Monad.return (web_answer_of Too_large)
         else do {
           r \<leftarrow> api_proxy env client session (wq_api rq);
           State_Monad.return (web_answer_of (if r = Api_threw then Server_error else Api_body r))
         })
      else do {
        page \<leftarrow> mountSpa env site rq;
        State_Monad.return (web_answer_of (case page of Some b \<Rightarrow> b
          | None \<Rightarrow> Web_json (JObj [(''error'', JStr ''not_found'')]) 404))
      })"

definition tenant_routes ::
  "('n, 'z) bff_env_scheme \<Rightarrow> spa_site \<Rightarrow> nat \<Rightarrow> web_request \<Rightarrow> tenant_context \<Rightarrow> ('n, web_answer) bff_m" where
  "tenant_routes env site now_ms rq ctx = do {
     passed \<leftarrow> (if under ''/auth'' (wq_path rq) then limiter_passes ''auth'' now_ms rq else State_Monad.return True);
     if \<not> passed
     then State_Monad.return (web_answer_of (Auth_page (Plain 429) (hostLabels (wq_host rq) (Some (tx_client ctx)))))
     else if under ''/auth'' (wq_path rq) \<and> wq_size rq > BODY_LIMIT_AUTH
     then State_Monad.return (web_answer_of Too_large)
     else do {
       r \<leftarrow> oidcRoutes env (tx_client ctx) (tx_session ctx) rq;
       case r of
         Some (page, cookies) \<Rightarrow> State_Monad.return
           ((web_answer_of (Auth_page page (hostLabels (wq_host rq) (Some (tx_client ctx)))))\<lparr>wa_cookies := cookies\<rparr>)
       | None \<Rightarrow> service_routes env site (tx_client ctx) (tx_session ctx) rq
     }
   }"

text \<open>Back-Channel Logout, in front of the tenant: other methods than POST only pass its limiter.\<close>

definition backchannelRoutes ::
  "('n, 'z) bff_env_scheme \<Rightarrow> nat \<Rightarrow> web_request \<Rightarrow> ('n, web_answer option) bff_m" where
  "backchannelRoutes env now_ms rq =
     (if wq_path rq \<noteq> ''/auth/backchannel-logout'' then State_Monad.return None
      else do {
        passed \<leftarrow> limiter_passes ''backchannel'' now_ms rq;
        if \<not> passed
        then State_Monad.return (Some (web_answer_of (Auth_page (Plain 429) (hostLabels (wq_host rq) None))))
        else if wq_size rq > BODY_LIMIT_AUTH then State_Monad.return (Some (web_answer_of Too_large))
        else if \<not> is_post rq then State_Monad.return None
        else do {
          r \<leftarrow> backchannel_logout env (wq_form rq ''logout_token'');
          State_Monad.return (Some (web_answer_of (Auth_page r (hostLabels (wq_host rq) None))))
        }
      })"

definition createWebCoreApp ::
  "('n, 'z) bff_env_scheme \<Rightarrow> spa_site \<Rightarrow> nat \<Rightarrow> web_request \<Rightarrow> ('n, web_answer) bff_m" where
  "createWebCoreApp env site now_ms rq =
     (if is_get rq \<and> wq_path rq = ''/healthz''
      then State_Monad.return (web_answer_of (Web_json (JObj [(''status'', JStr ''ok'')]) 200))
      else (case mountSpaAssets site rq of
        Some a \<Rightarrow> State_Monad.return a
      | None \<Rightarrow> do {
          early \<leftarrow> backchannelRoutes env now_ms rq;
          case early of
            Some a \<Rightarrow> State_Monad.return a
          | None \<Rightarrow> do {
              context \<leftarrow> tenantContext env (wq_host rq) (wq_cookies rq (sessionCookieName env));
              case context of
                None \<Rightarrow> State_Monad.return (web_answer_of (Unknown_host_page (hostLabels (wq_host rq) None)))
              | Some c \<Rightarrow> do {
                  a \<leftarrow> tenant_routes env site now_ms rq c;
                  State_Monad.return (a\<lparr>wa_cookies :=
                    (if tx_clear_cookie c then [clearSessionCookie env] else []) @ wa_cookies a\<rparr>)
                }
            }
        }))"

section \<open>The shape of a run\<close>

named_theorems path_cases

lemma under_simps [path_cases]:
  "\<not> under ''/auth'' ''/session''" "\<not> under ''/api'' ''/session''" "\<not> under ''/assets'' ''/session''"
  "under ''/auth'' ''/auth/login''" "under ''/auth'' ''/auth/callback''" "under ''/auth'' ''/auth/logout''"
  by (simp_all add: under_def)

lemma api_path [path_cases]:
  assumes "under ''/api'' p"
  shows "\<not> under ''/auth'' p" "\<not> under ''/assets'' p" "p \<noteq> ''/session''" "p \<noteq> ''/healthz''"
    "p \<noteq> ''/auth/backchannel-logout''" "p \<noteq> ''/auth/login''" "p \<noteq> ''/auth/callback''" "p \<noteq> ''/auth/logout''"
  using assms by (auto simp: under_def prefix_def)

lemma assets_skipped: "\<not> under ''/assets'' (wq_path rq) \<Longrightarrow> mountSpaAssets site rq = None"
  by (simp add: mountSpaAssets_def split: spa_options.split)

lemma backchannel_skipped:
  "wq_path rq \<noteq> ''/auth/backchannel-logout'' \<Longrightarrow> backchannelRoutes env now_ms rq = State_Monad.return None"
  by (simp add: backchannelRoutes_def)

text \<open>What reaches the service's routes of a tenant.\<close>

lemma service_run:
  assumes "resolveClient env (wq_host rq) = Some client"
    and "\<not> under ''/auth'' (wq_path rq)" "\<not> under ''/assets'' (wq_path rq)"
    and "wq_path rq \<noteq> ''/healthz''" "wq_path rq \<noteq> ''/auth/backchannel-logout''"
    and "run_state (load_and_touch client (wq_cookies rq (sessionCookieName env))) s = (session, s1)"
    and "run_state (service_routes env site client session rq) s1 = (a, s2)"
  shows "run_state (createWebCoreApp env site now_ms rq) s =
    (a\<lparr>wa_cookies := (if session = None \<and> wq_cookies rq (sessionCookieName env) \<noteq> None
        then [clearSessionCookie env] else []) @ wa_cookies a\<rparr>, s2)"
proof -
  have "oidcRoutes env client session rq = State_Monad.return None"
    using assms(2) by (auto simp: oidcRoutes_def under_def)
  then show ?thesis
    using assms
    by (simp add: createWebCoreApp_def assets_skipped backchannel_skipped tenantContext_def tenant_routes_def)
qed

end
