(* ===== verification/SpaClient.thy ===== *)
theory SpaClient
  imports WebApp Wire
begin

text \<open>
  packages/web-ui/src/lib/api.ts and the contract of /session (packages/api-contract/src/web): the calls
  the single-page application makes to its backend-for-frontend. The browser's \<open>fetch\<close> is an
  argument over the state \<open>'n\<close> of the world behind it, \<open>JSON.stringify\<close> is part of the request
  (its body is the value sent). A promise that rejects is an \<open>Inl\<close>.
\<close>

section \<open>The contract of /session\<close>

record session_urls =
  ul_login :: string
  ul_logout :: string
  ul_global_logout :: string

record spa_session =
  ps_client_id :: string
  ps_service_name :: string
  ps_tenant_slug :: string
  ps_urls :: session_urls
  ps_user :: "(session_user \<times> string) option"

definition text_field :: "string \<Rightarrow> json \<Rightarrow> string option" where
  "text_field k j = json_string (json_field k j)"

definition idSchema :: "string \<Rightarrow> json \<Rightarrow> string option" where
  "idSchema k j = (case text_field k j of Some s \<Rightarrow> if short_id s then Some s else None | None \<Rightarrow> None)"

definition userSchema :: "json \<Rightarrow> session_user option" where
  "userSchema j =
     (case (idSchema ''id'' j, nullable_string (json_field ''email'' j), nullable_string (json_field ''name'' j)) of
        (Some i, Some e, Some n) \<Rightarrow> Some \<lparr>su_id = i, su_email = e, su_name = n\<rparr> | _ \<Rightarrow> None)"

definition urlsSchema :: "json \<Rightarrow> session_urls option" where
  "urlsSchema j =
     (case (text_field ''login'' j, text_field ''logout'' j, text_field ''globalLogout'' j) of
        (Some a, Some b, Some c) \<Rightarrow> Some \<lparr>ul_login = a, ul_logout = b, ul_global_logout = c\<rparr> | _ \<Rightarrow> None)"

definition sessionBaseSchema :: "json \<Rightarrow> spa_session option" where
  "sessionBaseSchema j = do {
     service \<leftarrow> json_field ''service'' j;
     tenant \<leftarrow> json_field ''tenant'' j;
     urls_json \<leftarrow> json_field ''urls'' j;
     cid \<leftarrow> text_field ''clientId'' service;
     name \<leftarrow> text_field ''name'' service;
     slug \<leftarrow> text_field ''slug'' tenant;
     urls \<leftarrow> urlsSchema urls_json;
     Some \<lparr>ps_client_id = cid, ps_service_name = name, ps_tenant_slug = slug, ps_urls = urls, ps_user = None\<rparr>
   }"

definition sessionResponseSchema :: "json \<Rightarrow> spa_session option" where
  "sessionResponseSchema j = do {
     base \<leftarrow> sessionBaseSchema j;
     case json_field ''authenticated'' j of
       Some (JBool False) \<Rightarrow> Some base
     | Some (JBool True) \<Rightarrow> do {
         user_json \<leftarrow> json_field ''user'' j;
         user \<leftarrow> userSchema user_json;
         csrf \<leftarrow> text_field ''csrfToken'' j;
         Some (base\<lparr>ps_user := Some (user, csrf)\<rparr>)
       }
     | _ \<Rightarrow> None
   }"

section \<open>api.ts\<close>

datatype api_error = Api_error nat string | Contract_broken | Network_down

record browser_request =
  br_method :: string
  br_path :: string
  br_headers :: "(string \<times> string) list"
  br_json :: "json option"

record browser_response =
  bs_status :: nat
  bs_json :: "json option"

record 'n spa_state =
  csrfToken :: "string option"
  spa_location :: "string option"
  spa_net :: 'n

type_synonym 'n browser_fetch = "browser_request \<Rightarrow> 'n \<Rightarrow> browser_response option \<times> 'n"
type_synonym ('n, 'a) spa_m = "('n spa_state, ('a, api_error) result) state"

definition response_ok :: "browser_response \<Rightarrow> bool" where
  "response_ok r = (200 \<le> bs_status r \<and> bs_status r < 300)"

definition spa_fetch :: "'n browser_fetch \<Rightarrow> browser_request \<Rightarrow> ('n spa_state, browser_response option) state" where
  "spa_fetch do_fetch rq = State (\<lambda>s. let (r, n) = do_fetch rq (spa_net s) in (r, s\<lparr>spa_net := n\<rparr>))"

definition loadSession_spa :: "'n browser_fetch \<Rightarrow> ('n, spa_session) spa_m" where
  "loadSession_spa do_fetch = do {
     answer \<leftarrow> spa_fetch do_fetch \<lparr>br_method = ''GET'', br_path = ''/session'',
       br_headers = [(''accept'', ''application/json'')], br_json = None\<rparr>;
     case answer of
       None \<Rightarrow> State_Monad.return (Inl Network_down)
     | Some r \<Rightarrow>
         if \<not> response_ok r then State_Monad.return (Inl (Api_error (bs_status r) ''session_unavailable''))
         else (case Option.bind (bs_json r) sessionResponseSchema of
           None \<Rightarrow> State_Monad.return (Inl Contract_broken)
         | Some session \<Rightarrow> do {
             _ \<leftarrow> modifies (csrfToken_update (\<lambda>_. map_option snd (ps_user session)));
             State_Monad.return (Inr session)
           })
   }"

definition redirectToLogin :: "string \<Rightarrow> ('n, 'a) spa_m" where
  "redirectToLogin return_to = do {
     _ \<leftarrow> modifies (spa_location_update (\<lambda>_. Some (''/auth/login?return_to='' @ encode_uri return_to)));
     State_Monad.return (Inl (Api_error 401 ''redirecting_to_login''))
   }"

record api_init =
  ai_method :: "string option"
  ai_json :: "json option"

definition init_method :: "api_init \<Rightarrow> string" where
  "init_method init = (case ai_method init of None \<Rightarrow> ''GET'' | Some m \<Rightarrow> m)"

definition send_request :: "string option \<Rightarrow> string \<Rightarrow> api_init \<Rightarrow> browser_request" where
  "send_request csrf path init =
     \<lparr>br_method = init_method init, br_path = ''/api'' @ path,
      br_headers = [(''accept'', ''application/json'')] @
        (if ai_json init \<noteq> None then [(''content-type'', ''application/json'')] else []) @
        (case csrf of Some c \<Rightarrow> if init_method init \<noteq> ''GET'' then [(''x-csrf-token'', c)] else [] | None \<Rightarrow> []),
      br_json = ai_json init\<rparr>"

text \<open>\<open>pathname\<close> is the path of the page the call is made from.\<close>

definition send :: "'n browser_fetch \<Rightarrow> string \<Rightarrow> string \<Rightarrow> api_init \<Rightarrow> ('n, browser_response) spa_m" where
  "send do_fetch pathname path init = do {
     csrf \<leftarrow> reads csrfToken;
     answer \<leftarrow> spa_fetch do_fetch (send_request csrf path init);
     case answer of
       None \<Rightarrow> State_Monad.return (Inl Network_down)
     | Some r \<Rightarrow>
         if bs_status r = 401 then redirectToLogin pathname
         else if \<not> response_ok r then State_Monad.return (Inl (Api_error (bs_status r)
           (case Option.bind (bs_json r) errorResponseSchema of Some code \<Rightarrow> code | None \<Rightarrow> ''request_failed'')))
         else State_Monad.return (Inr r)
   }"

definition api ::
  "'n browser_fetch \<Rightarrow> string \<Rightarrow> (json \<Rightarrow> 'a option) \<Rightarrow> string \<Rightarrow> api_init \<Rightarrow> ('n, 'a) spa_m" where
  "api do_fetch pathname schema path init = do {
     sent \<leftarrow> send do_fetch pathname path init;
     State_Monad.return (case sent of
         Inl e \<Rightarrow> Inl e
       | Inr r \<Rightarrow> (case Option.bind (bs_json r) schema of None \<Rightarrow> Inl Contract_broken | Some v \<Rightarrow> Inr v))
   }"

definition apiVoid :: "'n browser_fetch \<Rightarrow> string \<Rightarrow> string \<Rightarrow> api_init \<Rightarrow> ('n, unit) spa_m" where
  "apiVoid do_fetch pathname path init = do {
     sent \<leftarrow> send do_fetch pathname path init;
     State_Monad.return (case sent of Inl e \<Rightarrow> Inl e | Inr _ \<Rightarrow> Inr ())
   }"

section \<open>The browser in front of the backend-for-frontend\<close>

text \<open>
  A request of the page, with the host it is on and its cookies; the first value of a query parameter
  is the one the server reads.
\<close>

record page_context =
  pg_host :: string
  pg_ip :: string
  pg_cookies :: "string \<Rightarrow> string option"

definition query_of :: "string \<Rightarrow> string \<Rightarrow> string option" where
  "query_of search = map_of (form_decode (drop 1 search))"

definition sent_by_page :: "(json \<Rightarrow> string) \<Rightarrow> page_context \<Rightarrow> browser_request \<Rightarrow> web_request" where
  "sent_by_page stringify pg rq =
     (let path = takeWhile (\<lambda>c. c \<noteq> CHR ''?'') (br_path rq);
          search = dropWhile (\<lambda>c. c \<noteq> CHR ''?'') (br_path rq);
          body = (case br_json rq of None \<Rightarrow> [] | Some j \<Rightarrow> stringify j)
      in \<lparr>wq_host = Some (pg_host pg),
          wq_api = \<lparr>aq_method = br_method rq, aq_path = path, aq_search = search,
            aq_csrf = map_of (br_headers rq) ''x-csrf-token'',
            aq_content_type = map_of (br_headers rq) ''content-type'', aq_text = body\<rparr>,
          wq_query = query_of search, wq_cookies = pg_cookies pg, wq_form = (\<lambda>_. None),
          wq_accept = map_of (br_headers rq) ''accept'', wq_size = length body, wq_ip = pg_ip pg\<rparr>)"

definition error_json :: "string \<Rightarrow> json" where "error_json code = JObj [(''error'', JStr code)]"

definition reply_status :: "reply \<Rightarrow> nat" where
  "reply_status r = (case r of Redirect _ \<Rightarrow> 302 | Redirect_with _ _ \<Rightarrow> 302 | Page _ n \<Rightarrow> n | Plain n \<Rightarrow> n)"

definition api_response :: "api_reply \<Rightarrow> browser_response" where
  "api_response r =
     (case r of
        Api_json code n \<Rightarrow> \<lparr>bs_status = n, bs_json = Some (error_json code)\<rparr>
      | Api_forward n _ j \<Rightarrow> \<lparr>bs_status = n, bs_json = j\<rparr>
      | Api_threw \<Rightarrow> \<lparr>bs_status = 500, bs_json = Some (error_json ''server_error'')\<rparr>)"

definition body_response :: "web_body \<Rightarrow> browser_response" where
  "body_response b =
     (case b of
        Auth_page r _ \<Rightarrow> \<lparr>bs_status = reply_status r, bs_json = None\<rparr>
      | Web_json j n \<Rightarrow> \<lparr>bs_status = n, bs_json = Some j\<rparr>
      | Api_body r \<Rightarrow> api_response r
      | Dev_answer n _ j \<Rightarrow> \<lparr>bs_status = n, bs_json = j\<rparr>
      | File _ \<Rightarrow> \<lparr>bs_status = 200, bs_json = None\<rparr>
      | Page_html _ \<Rightarrow> \<lparr>bs_status = 200, bs_json = None\<rparr>
      | Unknown_host_page _ \<Rightarrow> \<lparr>bs_status = 400, bs_json = None\<rparr>
      | Too_large \<Rightarrow> \<lparr>bs_status = 413, bs_json = None\<rparr>
      | Server_error \<Rightarrow> api_response Api_threw)"

definition page_fetch ::
  "('n, 'z) bff_env_scheme \<Rightarrow> spa_site \<Rightarrow> nat \<Rightarrow> (json \<Rightarrow> string) \<Rightarrow> page_context \<Rightarrow> 'n bff_state browser_fetch" where
  "page_fetch env site now_ms stringify pg rq s =
     (let (a, s') = run_state (createWebCoreApp env site now_ms (sent_by_page stringify pg rq)) s
      in (Some (body_response (wa_body a)), s'))"

section \<open>A session stays the one it was\<close>

lemma idle_positive: "idle_seconds tenant_expiry > 0"
  by (simp add: tenant_expiry_def SESSION_IDLE_SECONDS_def)

text \<open>Loading the session of a cookie twice in a row gives the same session.\<close>

lemma request_repeats:
  assumes inv: "tenant_inv s" and run: "run_state (load_and_touch client cookie) s = (Some y, s1)"
  shows "tenant_inv s1 \<and> bnow s1 = bnow s \<and> fst (run_state (load_and_touch client cookie) s1) = Some y"
proof -
  let ?s = "snd (run_state (loadSession client cookie) s)"
  obtain x where x: "fst (run_state (loadSession client cookie) s) = Some x"
    using run by (auto simp: load_and_touch_def case_prod_beta split: option.splits)
  obtain i where i: "cookie = Some i" "i \<noteq> []" "session_live s (named client i) = Some x"
    using x by (cases cookie) (auto split: if_splits)
  have clock: "bnow ?s = bnow s" by (simp add: load_session_frame)
  have val: "kv_value (bnow s) (tenant_sessions ?s) (named client i) = Some x"
    using live_stored [OF i(3)] load_keeps_views [OF x] by simp
  have alive: "\<not> isExpired tenant_expiry x (bnow s)"
    using i(3) by (auto simp: session_live_def split: option.splits if_splits)
  have inv0: "tenant_inv ?s" by (rule tenant_inv_load [OF inv])
  have key: "named client i = key_of x"
    using tenant_invD [OF inv0, of "named client i" x] val
    by (auto simp: session_ok_def kv_value_def clock)
  have touched: "run_state (touchSession x) ?s = (y, s1)"
    using run x by (simp add: load_and_touch_def case_prod_beta prod_eq_iff)
  have inv1: "tenant_inv s1" using tenant_inv_request [OF inv, of client cookie] run by simp
  have live: "session_live s1 (named client i) = Some y \<and> bnow s1 = bnow s \<and> \<not> shouldTouch y (bnow s)"
  proof (cases "shouldTouch x (bnow s)")
    case False
    then have "y = x" "s1 = ?s" using touched clock by (auto simp: touchSession_def)
    then show ?thesis using val alive False by (simp add: session_live_def clock)
  next
    case True
    let ?m = "snd (kv_get (bnow s) (key_of x) (tenant_sessions ?s))"
    have y: "y = x\<lparr>last_seen_at := bnow s\<rparr>"
      and s1: "s1 = ?s\<lparr>tenant_sessions := kv_set (bnow s) (key_of x) y
        (created_at x + SESSION_ABSOLUTE_SECONDS - bnow s) ?m\<rparr>"
      using touched True val key
      by (auto simp: touchSession_def run_bff_store save_run case_prod_beta clock)
    have "absolute_seconds tenant_expiry = SESSION_ABSOLUTE_SECONDS" by (simp add: tenant_expiry_def)
    then have left: "created_at x + SESSION_ABSOLUTE_SECONDS - bnow s > 0"
      using alive by (simp add: isExpired_def remainingTtl_def)
    have "\<not> isExpired tenant_expiry y (bnow s)"
      using alive idle_positive by (simp add: y isExpired_def remainingTtl_def not_le)
    moreover have "kv_value (bnow s) (tenant_sessions s1) (key_of x) = Some y"
      using left by (simp add: s1 kv_value_def mem.set_view)
    ultimately show ?thesis
      by (simp add: session_live_def s1 clock key) (simp add: y shouldTouch_def TOUCH_INTERVAL_SECONDS_def)
  qed
  then have "fst (run_state (loadSession client cookie) s1) = Some y" using i(1,2) by simp
  moreover have "bnow (snd (run_state (loadSession client cookie) s1)) = bnow s"
    using live by (simp add: load_session_frame)
  ultimately have "fst (run_state (load_and_touch client cookie) s1) = Some y"
    using live by (simp add: load_and_touch_def case_prod_beta touchSession_def)
  then show ?thesis using inv1 live by simp
qed

section \<open>What the page learns is what the server stores\<close>

definition session_base :: "('n, 'z) bff_env_scheme \<Rightarrow> client_config \<Rightarrow> spa_session" where
  "session_base env client =
     \<lparr>ps_client_id = sv_client_id client, ps_service_name = sv_name client,
      ps_tenant_slug = cl_tenant_slug client,
      ps_urls = \<lparr>ul_login = ''/auth/login'', ul_logout = ''/auth/logout'',
        ul_global_logout = resolve_url ''/logout'' (provider_issuer env) @ ''?'' @
          url_search_params [(''client_id'', sv_client_id client), (''tenant'', cl_tenant_slug client)]\<rparr>,
      ps_user = None\<rparr>"

definition session_seen :: "('n, 'z) bff_env_scheme \<Rightarrow> client_config \<Rightarrow> tenant_session option \<Rightarrow> spa_session" where
  "session_seen env client session = (session_base env client)
     \<lparr>ps_user := map_option (\<lambda>x. (\<lparr>su_id = tn_user x, su_email = tn_email x, su_name = tn_name x\<rparr>, tn_csrf x)) session\<rparr>"

lemma field_simps_json [simp]:
  "json_field k (JObj ((k, v) # fs)) = Some v"
  "k \<noteq> l \<Longrightarrow> json_field k (JObj ((l, v) # fs)) = json_field k (JObj fs)"
  "nullable_string (Some (nullable w)) = Some w"
  "json_string (Some (JStr t)) = Some t"
  by (simp_all add: json_field_def nullable_string_def nullable_def json_string_def split: option.split)

lemma session_parsed:
  "sessionResponseSchema (session_json (session_response env client session)) =
     (if \<forall>x. session = Some x \<longrightarrow> short_id (tn_user x) then Some (session_seen env client session) else None)"
proof (cases session)
  case None
  then show ?thesis
    by (simp add: session_json_def session_response_def sessionResponseSchema_def sessionBaseSchema_def
        urlsSchema_def text_field_def session_seen_def session_base_def)
next
  case (Some x)
  then show ?thesis
    by (simp add: session_json_def session_response_def sessionResponseSchema_def sessionBaseSchema_def
        urlsSchema_def userSchema_def idSchema_def text_field_def session_seen_def session_base_def)
qed

lemma session_fetched:
  assumes "resolveClient env (Some (pg_host pg)) = Some client"
    and "run_state (load_and_touch client (pg_cookies pg (sessionCookieName env))) s = (session, s1)"
  shows "page_fetch env site now_ms stringify pg
      \<lparr>br_method = ''GET'', br_path = ''/session'', br_headers = hs, br_json = None\<rparr> s =
    (Some \<lparr>bs_status = 200, bs_json = Some (session_json (session_response env client session))\<rparr>, s1)"
proof -
  let ?rq = "sent_by_page stringify pg
    \<lparr>br_method = ''GET'', br_path = ''/session'', br_headers = hs, br_json = None\<rparr>"
  have rq: "wq_host ?rq = Some (pg_host pg)" "wq_path ?rq = ''/session''" "is_get ?rq"
      "wq_cookies ?rq = pg_cookies pg"
    by (simp_all add: sent_by_page_def wq_path_def is_get_def)
  have "run_state (service_routes env site client session ?rq) s1 =
    (web_answer_of (Web_json (session_json (session_response env client session)) 200), s1)"
    by (simp add: service_routes_def rq)
  from service_run [of env ?rq client s session s1 site _ s1 now_ms, OF _ _ _ _ _ _ this] show ?thesis
    using assms
    by (simp add: page_fetch_def rq path_cases web_answer_of_def body_response_def)
qed

lemma session_loaded:
  assumes "resolveClient env (Some (pg_host pg)) = Some client"
    and "run_state (load_and_touch client (pg_cookies pg (sessionCookieName env))) (spa_net S) = (session, s1)"
    and "run_state (loadSession_spa (page_fetch env site now_ms stringify pg)) S = (Inr ps, S1)"
  shows "ps = session_seen env client session \<and> csrfToken S1 = map_option tn_csrf session \<and> spa_net S1 = s1"
  using assms(3) session_fetched [OF assms(1,2)]
  by (cases session) (auto simp: loadSession_spa_def spa_fetch_def session_parsed response_ok_def run_modifies
      session_seen_def case_prod_beta split: if_splits)

section \<open>A call of the page reaches the API\<close>

definition forwarded :: "(http_response \<times> tenant_session, api_access_error) result option \<Rightarrow> browser_response" where
  "forwarded r =
     (case r of
        None \<Rightarrow> api_response Api_threw
      | Some (Inl Session_gone) \<Rightarrow> api_response (Api_json ''unauthenticated'' 401)
      | Some (Inl (Provider_unavailable _)) \<Rightarrow> api_response (Api_json ''temporarily_unavailable'' 503)
      | Some (Inr (a, _)) \<Rightarrow> \<lparr>bs_status = rs_status a, bs_json = rs_json a\<rparr>)"

definition forwarded_request :: "(json \<Rightarrow> string) \<Rightarrow> client_config \<Rightarrow> string \<Rightarrow> api_init \<Rightarrow> http_request" where
  "forwarded_request stringify client path init =
     (let body = (if init_method init \<in> set SAFE_METHODS then None else map_option stringify (ai_json init))
      in \<lparr>rq_method = init_method init, rq_url = resolve_url path (sv_api_base_url client),
          rq_headers = (if body = None then [] else [(''content-type'', ''application/json'')]), rq_body = body\<rparr>)"

lemma proxied_run:
  fixes init :: api_init and x :: tenant_session and pg
  assumes "prefix ''/'' path" "\<And>j. ai_json init = Some j \<Longrightarrow> length (stringify j) \<le> BODY_LIMIT_API"
  defines "rq \<equiv> sent_by_page stringify pg (send_request (Some (tn_csrf x)) path init)"
  shows "run_state (service_routes env site client (Some x) rq) s =
    (let (r, s') = run_state (apiFetch env client x (forwarded_request stringify client path init)) s
     in (web_answer_of (case r of None \<Rightarrow> Server_error
        | Some (Inl Session_gone) \<Rightarrow> Api_body (Api_json ''unauthenticated'' 401)
        | Some (Inl (Provider_unavailable _)) \<Rightarrow> Api_body (Api_json ''temporarily_unavailable'' 503)
        | Some (Inr (a, _)) \<Rightarrow> Api_body (Api_forward (rs_status a) (rs_content_type a) (rs_json a))), s'))"
proof -
  obtain p where p: "path = CHR ''/'' # p" using assms(1) by (auto simp: prefix_def)
  have api: "under ''/api'' (wq_path rq)"
    by (simp add: rq_def sent_by_page_def send_request_def Let_def wq_path_def under_def p)
  have size: "\<not> wq_size rq > BODY_LIMIT_API"
    using assms(2) by (auto simp: rq_def sent_by_page_def send_request_def Let_def split: option.split)
  have url: "upstream_url client (wq_api rq) = resolve_url path (sv_api_base_url client)"
    by (simp add: upstream_url_def rq_def sent_by_page_def send_request_def Let_def API_PREFIX_def p)
  have fields: "aq_method (wq_api rq) = init_method init"
      "aq_csrf (wq_api rq) = (if init_method init \<noteq> ''GET'' then Some (tn_csrf x) else None)"
      "aq_content_type (wq_api rq) = (if ai_json init \<noteq> None then Some ''application/json'' else None)"
      "\<And>j. ai_json init = Some j \<Longrightarrow> aq_text (wq_api rq) = stringify j"
    by (simp_all add: rq_def sent_by_page_def send_request_def Let_def)
  have init: "upstream_init client (wq_api rq) = Some (forwarded_request stringify client path init)"
    by (cases "ai_json init")
       (simp_all add: upstream_init_def url fields forwarded_request_def Let_def)
  have csrf: "\<not> (aq_method (wq_api rq) \<notin> set SAFE_METHODS \<and>
      (case aq_csrf (wq_api rq) of None \<Rightarrow> True | Some c \<Rightarrow> \<not> timingSafeEqualString c (tn_csrf x)))"
    by (simp add: fields SAFE_METHODS_def timingSafeEqualString_def)
  have proxy: "run_state (api_proxy env client (Some x) (wq_api rq)) s =
      (let (r, s') = run_state (apiFetch env client x (forwarded_request stringify client path init)) s
       in (case r of None \<Rightarrow> Api_threw | Some (Inl Session_gone) \<Rightarrow> Api_json ''unauthenticated'' 401
           | Some (Inl (Provider_unavailable _)) \<Rightarrow> Api_json ''temporarily_unavailable'' 503
           | Some (Inr (a, _)) \<Rightarrow> Api_forward (rs_status a) (rs_content_type a) (rs_json a), s'))"
    unfolding api_proxy_def option.case(2) if_not_P [OF csrf] init
    by (simp add: case_prod_beta)
  show ?thesis
    using api size proxy
    by (auto simp: service_routes_def path_cases Let_def case_prod_beta
        split: option.splits sum.splits api_access_error.splits)
qed

text \<open>
  C25: What the page loads lets it write: once \<open>loadSession\<close> has told the page it is logged in, the
  next call it makes through \<open>api\<close>, of any method and with or without a JSON body within the limit, is
  not refused by the backend-for-frontend (no 401 without a session, no CSRF mismatch, no unsupported
  media type): it is forwarded to the service's API in the session of the user the page was told of,
  with the body it sent, and the page gets that call's answer.
\<close>

theorem page_calls_reach_the_api:
  assumes "tenant_reach (spa_net S)" "resolveClient env (Some (pg_host pg)) = Some client"
    and "run_state (loadSession_spa (page_fetch env site now_ms stringify pg)) S = (Inr ps, S1)"
    and "ps_user ps = Some (user, csrf)"
    and "prefix ''/'' path" "\<And>j. ai_json init = Some j \<Longrightarrow> length (stringify j) \<le> BODY_LIMIT_API"
  shows "\<exists>x s1. tn_user x = su_id user \<and> key_of x = named client (the (pg_cookies pg (sessionCookieName env))) \<and>
    page_fetch env site later_ms stringify pg (send_request (csrfToken S1) path init) (spa_net S1) =
      (let (r, s2) = run_state (apiFetch env client x (forwarded_request stringify client path init)) s1
       in (Some (forwarded r), s2))"
proof -
  let ?cookie = "pg_cookies pg (sessionCookieName env)"
  let ?rq = "sent_by_page stringify pg (send_request (csrfToken S1) path init)"
  obtain session s1 where loaded: "run_state (load_and_touch client ?cookie) (spa_net S) = (session, s1)"
    by (cases "run_state (load_and_touch client ?cookie) (spa_net S)") simp
  note seen = session_loaded [OF assms(2) loaded assms(3)]
  then obtain x where x: "session = Some x" "csrfToken S1 = Some (tn_csrf x)" "tn_user x = su_id user"
    using assms(4) by (auto simp: session_seen_def)
  have inv: "tenant_inv (spa_net S)" by (rule reach_inv [OF assms(1)])
  have again: "fst (run_state (load_and_touch client ?cookie) s1) = Some x"
    using request_repeats [OF inv loaded [unfolded x(1)]] by simp
  define s2 where "s2 = snd (run_state (load_and_touch client ?cookie) s1)"
  have reload: "run_state (load_and_touch client ?cookie) s1 = (Some x, s2)"
    using again by (simp add: s2_def prod_eq_iff)
  have key: "key_of x = named client (the ?cookie)"
    using request_result [OF inv, of client ?cookie x] loaded x(1) by auto
  have rq: "under ''/api'' (wq_path ?rq)" "wq_host ?rq = Some (pg_host pg)" "wq_cookies ?rq = pg_cookies pg"
    using assms(5) by (auto simp: sent_by_page_def send_request_def wq_path_def under_def prefix_def Let_def)
  obtain r s3 where call: "run_state (apiFetch env client x (forwarded_request stringify client path init)) s2 = (r, s3)"
    by (cases "run_state (apiFetch env client x (forwarded_request stringify client path init)) s2") simp
  define reply where "reply = (case r of None \<Rightarrow> Server_error
      | Some (Inl Session_gone) \<Rightarrow> Api_body (Api_json ''unauthenticated'' 401)
      | Some (Inl (Provider_unavailable _)) \<Rightarrow> Api_body (Api_json ''temporarily_unavailable'' 503)
      | Some (Inr (a, _)) \<Rightarrow> Api_body (Api_forward (rs_status a) (rs_content_type a) (rs_json a)))"
  have served: "run_state (service_routes env site client (Some x) ?rq) s2 = (web_answer_of reply, s3)"
    unfolding x(2) reply_def by (subst proxied_run) (auto simp: assms(5,6) call)
  have "run_state (createWebCoreApp env site later_ms ?rq) s1 = (web_answer_of reply, s3)"
    using service_run [of env ?rq client s1 "Some x" s2 site "web_answer_of reply" s3 later_ms]
      assms(2) reload served rq(2,3) api_path [OF rq(1)] by (simp add: web_answer_of_def)
  moreover have "body_response reply = forwarded r"
    by (auto simp: reply_def body_response_def api_response_def forwarded_def
        split: option.split sum.split api_access_error.split)
  ultimately have "page_fetch env site later_ms stringify pg (send_request (csrfToken S1) path init) (spa_net S1) =
      (Some (forwarded r), s3)"
    using seen by (simp add: page_fetch_def web_answer_of_def)
  then show ?thesis using x(3) key call by (intro exI [of _ x] exI [of _ s2]) simp
qed

section \<open>The login returns to the page\<close>

definition navigate :: "page_context \<Rightarrow> string \<Rightarrow> web_request" where
  "navigate pg url = sent_by_page (\<lambda>_. []) pg
     \<lparr>br_method = ''GET'', br_path = url, br_headers = [(''accept'', ''text/html'')], br_json = None\<rparr>"

lemma unreserved_plain:
  "uri_unreserved c \<Longrightarrow> c \<noteq> CHR ''%'' \<and> c \<noteq> CHR ''+'' \<and> c \<noteq> CHR ''&''"
proof -
  have "\<not> uri_unreserved CHR ''%''" "\<not> uri_unreserved CHR ''+''" "\<not> uri_unreserved CHR ''&''" by code_simp+
  then show "uri_unreserved c \<Longrightarrow> c \<noteq> CHR ''%'' \<and> c \<noteq> CHR ''+'' \<and> c \<noteq> CHR ''&''" by auto
qed

lemma percent_decode_uri: "percent_decode (encode_uri s) = s"
proof (induction s)
  case (Cons c s)
  then show ?case
    using unreserved_plain [of c]
    by (auto simp: encode_uri_def percent_decode_plain percent_decode_byte)
qed (simp add: encode_uri_def)

lemma hex_digit_no_amp: "n < 16 \<Longrightarrow> hex_digit n \<noteq> CHR ''&''"
proof -
  have "list_all (\<lambda>n. hex_digit n \<noteq> CHR ''&'') [0..<16]" by code_simp
  then show "n < 16 \<Longrightarrow> hex_digit n \<noteq> CHR ''&''" by (simp add: list_all_iff)
qed

lemma encode_uri_no_amp: "CHR ''&'' \<notin> set (encode_uri s)"
proof (induction s)
  case (Cons c s)
  have "of_char c div 16 < (16 :: nat)" by (simp add: less_mult_imp_div_less)
  then have "CHR ''&'' \<notin> set (percent_byte c)"
    using hex_digit_no_amp [of "of_char c div 16"] hex_digit_no_amp [of "of_char c mod 16"]
    by (auto simp: percent_byte_def)
  then show ?case using Cons unreserved_plain [of c] by (auto simp: encode_uri_def)
qed (simp add: encode_uri_def)

lemma query_return_to: "query_of (''?return_to='' @ encode_uri p) ''return_to'' = Some p"
proof -
  have split: "split_on CHR ''&'' (''return_to='' @ encode_uri p) = [''return_to='' @ encode_uri p]"
    using encode_uri_no_amp by (intro split_on_no_sep) auto
  have "index_of ''='' (''return_to'' @ ''='' @ encode_uri p) = Some (length ''return_to'')"
    by (rule index_of_skip) simp
  then have "form_pair (''return_to='' @ encode_uri p) = (percent_decode ''return_to'', p)"
    by (simp add: form_pair_def percent_decode_uri)
  moreover have "percent_decode ''return_to'' = ''return_to''" by code_simp
  ultimately show ?thesis by (simp add: query_of_def form_decode_def split [simplified])
qed

lemma keeps_request: "keeps beyond_sessions (load_and_touch client cookie)"
  unfolding load_and_touch_def touchSession_def saveSession_def Let_def
  by (auto intro!: keeps_bind keeps_bff_store keeps_load_session split: option.split)
     (auto simp: beyond_sessions_def)

lemma request_frame:
  assumes "run_state (load_and_touch client cookie) s = (session, s1)"
  shows "bnow s1 = bnow s" "discovered s1 = discovered s" "rate_counters s1 = rate_counters s"
proof -
  have same: "beyond_sessions s1 = beyond_sessions s"
    using keeps_run [OF keeps_request, of client cookie s] assms by simp
  show "bnow s1 = bnow s" "discovered s1 = discovered s"
    by (rule beyond_sessions_fields [OF same])+
  show "rate_counters s1 = rate_counters s"
    using arg_cong [OF same, of rate_counters] by (simp add: beyond_sessions_def)
qed

lemma login_run:
  assumes "discovered s = Some doc"
  shows "\<exists>i p s'. run_state (auth_login env client return_to) s =
      ((Redirect_with (di_authorization doc) (authorization_params env client p), [writePreAuthCookie env i]), s') \<and>
    pa_return_to p = sanitizeReturnTo return_to \<and> bnow s' = bnow s \<and>
    kv_value (bnow s) (pre_auths s') (preAuthKey client i) = Some p"
proof -
  let ?i = "randomToken (b_random env (bdraws s) 32)"
  show ?thesis
    using assms
    by (intro exI [of _ ?i])
       (simp add: auth_login_def getDiscovery_def run_bff_store run_bff_token Let_def kv_value_def mem.set_view
         PRE_AUTH_TTL_SECONDS_def)
qed


definition fx_browser :: page_context where
  "fx_browser = \<lparr>pg_host = ''acme.crm'', pg_ip = ''ip'', pg_cookies = (\<lambda>_. Some (randomToken [0]))\<rparr>"

definition fx_spa :: spa_site where
  "fx_spa = \<lparr>st_options = Spa_none, st_index = [], st_file = (\<lambda>_. None)\<rparr>"

definition fx_opened :: "nat bff_state spa_state" where
  "fx_opened = \<lparr>csrfToken = None, spa_location = None, spa_net = fx_later\<rparr>"


lemma session_load_run:
  assumes "resolveClient env (Some (pg_host pg)) = Some client"
    and "run_state (load_and_touch client (pg_cookies pg (sessionCookieName env))) (spa_net S) = (session, s1)"
    and "\<forall>x. session = Some x \<longrightarrow> short_id (tn_user x)"
  shows "run_state (loadSession_spa (page_fetch env site now_ms stringify pg)) S =
    (Inr (session_seen env client session), S\<lparr>spa_net := s1, csrfToken := map_option tn_csrf session\<rparr>)"
  using assms(3) session_fetched [OF assms(1,2)]
  by (cases session)
     (simp_all add: loadSession_spa_def spa_fetch_def session_parsed response_ok_def session_seen_def)

theorem page_calls_reach_the_api_witness:
  "\<exists>(S1 :: nat bff_state spa_state) x s1. page_fetch fx_renewing fx_spa 0 (\<lambda>_. ''{}'') fx_browser (send_request (csrfToken S1) ''/v1/posts''
        \<lparr>ai_method = Some ''POST'', ai_json = Some (JObj [])\<rparr>) (spa_net S1) =
      (let (r, s2) = run_state (apiFetch fx_renewing fx_tenant_client x (forwarded_request (\<lambda>_. ''{}'')
          fx_tenant_client ''/v1/posts'' \<lparr>ai_method = Some ''POST'', ai_json = Some (JObj [])\<rparr>)) s1
       in (Some (forwarded r), s2)) \<and>
     csrfToken S1 = Some (tn_csrf (fst fx_created))"
proof -
  let ?x = "(fst fx_created)\<lparr>last_seen_at := 60\<rparr>"
  obtain s1 where loaded: "run_state (load_and_touch fx_tenant_client (Some (randomToken [0]))) fx_later = (Some ?x, s1)"
    using fx_cookie by (cases "run_state (load_and_touch fx_tenant_client (Some (randomToken [0]))) fx_later") auto
  have "tn_user (fst fx_created) = ns_user fx_new_session"
    by (simp add: fx_created_def createSession_def Let_def run_bff_store run_bff_token)
  then have "short_id (tn_user ?x)" by (simp add: fx_new_session_def short_id_def)
  moreover have resolve: "resolveClient fx_renewing (Some (pg_host fx_browser)) = Some fx_tenant_client"
    by (simp add: fx_renewing_def fx_bff_def)
  moreover have "run_state (load_and_touch fx_tenant_client (pg_cookies fx_browser (sessionCookieName fx_renewing)))
      (spa_net fx_opened) = (Some ?x, s1)"
    using loaded by (simp add: fx_browser_def fx_opened_def)
  ultimately have run: "run_state (loadSession_spa (page_fetch fx_renewing fx_spa 0 (\<lambda>_. ''{}'') fx_browser)) fx_opened =
      (Inr (session_seen fx_renewing fx_tenant_client (Some ?x)),
       fx_opened\<lparr>spa_net := s1, csrfToken := Some (tn_csrf ?x)\<rparr>)"
    by (subst session_load_run) auto
  have "tenant_reach (spa_net fx_opened)" using fx_later_reach by (simp add: fx_opened_def)
  from page_calls_reach_the_api [OF this resolve run, where path = "''/v1/posts''" and
      init = "\<lparr>ai_method = Some ''POST'', ai_json = Some (JObj [])\<rparr>" and later_ms = 0]
  obtain x s2 where "page_fetch fx_renewing fx_spa 0 (\<lambda>_. ''{}'') fx_browser
        (send_request (csrfToken (fx_opened\<lparr>spa_net := s1, csrfToken := Some (tn_csrf ?x)\<rparr>)) ''/v1/posts''
          \<lparr>ai_method = Some ''POST'', ai_json = Some (JObj [])\<rparr>)
        (spa_net (fx_opened\<lparr>spa_net := s1, csrfToken := Some (tn_csrf ?x)\<rparr>)) =
      (let (r, s3) = run_state (apiFetch fx_renewing fx_tenant_client x (forwarded_request (\<lambda>_. ''{}'')
          fx_tenant_client ''/v1/posts'' \<lparr>ai_method = Some ''POST'', ai_json = Some (JObj [])\<rparr>)) s2
       in (Some (forwarded r), s3))"
    by (auto simp: session_seen_def BODY_LIMIT_API_def)
  then show ?thesis
    by (intro exI [of _ "fx_opened\<lparr>spa_net := s1, csrfToken := Some (tn_csrf ?x)\<rparr>"] exI [of _ x] exI [of _ s2]) simp
qed

end
