(* ===== verification/Contracts.thy ===== *)
theory Contracts
  imports SpaClient CrmApi CmsApi
begin

text \<open>
  packages/api-contract/src: the response schemas the single-page applications check every answer with,
  against the JSON the routes of the APIs write. A schema is a partial function from JSON, as
  \<open>schema.parse\<close> is; the contract of a type is the locale \<open>codec\<close>: what is written is read back as it
  was. It is interpreted for the values of each schema, and from it follow the arrays and the bodies.
\<close>

section \<open>The interface: a type written and read back\<close>

fun arrayOf :: "(json \<Rightarrow> 'a option) \<Rightarrow> json \<Rightarrow> 'a list option" where
  "arrayOf schema (JArr js) = all_parsed schema js"
| "arrayOf schema _ = None"

definition fieldOf :: "string \<Rightarrow> (json \<Rightarrow> 'a option) \<Rightarrow> json \<Rightarrow> 'a option" where
  "fieldOf k schema j = Option.bind (json_field k j) schema"

locale codec =
  fixes encode :: "'a \<Rightarrow> json" and decode :: "json \<Rightarrow> 'a option" and ok :: "'a \<Rightarrow> bool"
  assumes decode_encode: "ok x \<Longrightarrow> decode (encode x) = Some x"
begin

lemma decode_list: "list_all ok xs \<Longrightarrow> all_parsed decode (map encode xs) = Some xs"
  by (induction xs) (simp_all add: decode_encode)

lemma decode_array: "list_all ok xs \<Longrightarrow> arrayOf decode (JArr (map encode xs)) = Some xs"
  by (simp add: decode_list)

lemma decode_field: "json_field k j = Some (encode x) \<Longrightarrow> ok x \<Longrightarrow> fieldOf k decode j = Some x"
  by (simp add: fieldOf_def decode_encode)

lemma decode_array_field:
  "json_field k j = Some (JArr (map encode xs)) \<Longrightarrow> list_all ok xs \<Longrightarrow> fieldOf k (arrayOf decode) j = Some xs"
  by (simp add: fieldOf_def decode_list)

end

section \<open>Common schemas\<close>

definition string_between :: "nat \<Rightarrow> nat \<Rightarrow> json \<Rightarrow> string option" where
  "string_between lo hi j =
     (case j of JStr s \<Rightarrow> if lo \<le> length s \<and> length s \<le> hi then Some s else None | _ \<Rightarrow> None)"

definition roleNameSchema :: "json \<Rightarrow> string option" where "roleNameSchema = string_between 1 32"
definition permissionNameSchema :: "json \<Rightarrow> string option" where "permissionNameSchema = string_between 1 64"

definition role_name :: "string \<Rightarrow> bool" where "role_name s = (1 \<le> length s \<and> length s \<le> 32)"

definition bool_schema :: "json \<Rightarrow> bool option" where
  "bool_schema j = (case j of JBool b \<Rightarrow> Some b | _ \<Rightarrow> None)"

interpretation role_names: codec JStr roleNameSchema role_name
  by unfold_locales (simp add: roleNameSchema_def string_between_def role_name_def)

interpretation permission_names: codec JStr permissionNameSchema short_id
  by unfold_locales (simp add: permissionNameSchema_def string_between_def short_id_def)

interpretation bools: codec JBool bool_schema "\<lambda>_. True"
  by unfold_locales (simp add: bool_schema_def)

section \<open>The CRM\<close>

definition end_user_json_of :: "end_user_json \<Rightarrow> json" where
  "end_user_json_of x = JObj
     [(''id'', JStr (ej_id x)), (''name'', JStr (ej_name x)), (''email'', JStr (ej_email x)),
      (''phone'', JStr (ej_phone x)), (''note'', JStr (ej_note x)), (''masked'', JBool (ej_masked x))]"

definition endUserSchema :: "json \<Rightarrow> end_user_json option" where
  "endUserSchema j = do {
     i \<leftarrow> idSchema ''id'' j;
     name \<leftarrow> text_field ''name'' j;
     email \<leftarrow> text_field ''email'' j;
     phone \<leftarrow> text_field ''phone'' j;
     note \<leftarrow> text_field ''note'' j;
     masked \<leftarrow> fieldOf ''masked'' bool_schema j;
     Some \<lparr>ej_id = i, ej_name = name, ej_email = email, ej_phone = phone, ej_note = note, ej_masked = masked\<rparr>
   }"

definition end_user_ok :: "end_user_json \<Rightarrow> bool" where "end_user_ok x = short_id (ej_id x)"

lemmas reading = fieldOf_def text_field_def idSchema_def

interpretation end_users: codec end_user_json_of endUserSchema end_user_ok
  by unfold_locales (simp add: end_user_json_of_def endUserSchema_def end_user_ok_def reading bool_schema_def)

definition endUsersResponseSchema :: "json \<Rightarrow> (end_user_json list \<times> bool) option" where
  "endUsersResponseSchema j = do {
     us \<leftarrow> fieldOf ''end_users'' (arrayOf endUserSchema) j;
     masked \<leftarrow> fieldOf ''masked'' bool_schema j;
     Some (us, masked)
   }"

definition endUserResponseSchema :: "json \<Rightarrow> end_user_json option" where
  "endUserResponseSchema = fieldOf ''end_user'' endUserSchema"

text \<open>The bodies as the routes write them, and the schema the screens read a request's answer with.\<close>

definition end_user_body_json :: "end_user_body \<Rightarrow> json" where
  "end_user_body_json b =
     (case b of
        End_users_body us masked \<Rightarrow>
          JObj [(''end_users'', JArr (map end_user_json_of us)), (''masked'', JBool masked)]
      | End_user_body u \<Rightarrow> JObj [(''end_user'', end_user_json_of u)])"

definition end_user_contract :: "end_user_request \<Rightarrow> json \<Rightarrow> end_user_body option" where
  "end_user_contract rq j =
     (case rq of
        List_end_users \<Rightarrow> map_option (\<lambda>(us, m). End_users_body us m) (endUsersResponseSchema j)
      | _ \<Rightarrow> map_option End_user_body (endUserResponseSchema j))"

section \<open>The CMS\<close>

definition post_json_of :: "post_json \<Rightarrow> json" where
  "post_json_of x = JObj
     [(''id'', JStr (pj_id x)), (''title'', JStr (pj_title x)), (''body'', JStr (pj_body x)),
      (''author_id'', JStr (pj_author x)), (''created_at'', JStr (pj_created_at x)),
      (''updated_at'', JStr (pj_updated_at x))]"

definition postSchema :: "json \<Rightarrow> post_json option" where
  "postSchema j = do {
     i \<leftarrow> idSchema ''id'' j;
     title \<leftarrow> text_field ''title'' j;
     body \<leftarrow> text_field ''body'' j;
     author \<leftarrow> idSchema ''author_id'' j;
     created \<leftarrow> text_field ''created_at'' j;
     updated \<leftarrow> text_field ''updated_at'' j;
     Some \<lparr>pj_id = i, pj_title = title, pj_body = body, pj_author = author, pj_created_at = created,
       pj_updated_at = updated\<rparr>
   }"

definition post_ok :: "post_json \<Rightarrow> bool" where "post_ok x = (short_id (pj_id x) \<and> short_id (pj_author x))"

interpretation posts: codec post_json_of postSchema post_ok
  by unfold_locales (simp add: post_json_of_def postSchema_def post_ok_def reading)

definition postsResponseSchema :: "json \<Rightarrow> post_json list option" where
  "postsResponseSchema = fieldOf ''posts'' (arrayOf postSchema)"

definition postResponseSchema :: "json \<Rightarrow> post_json option" where
  "postResponseSchema = fieldOf ''post'' postSchema"

definition post_body_json :: "post_body \<Rightarrow> json" where
  "post_body_json b =
     (case b of Posts_body ps \<Rightarrow> JObj [(''posts'', JArr (map post_json_of ps))]
      | Post_body p \<Rightarrow> JObj [(''post'', post_json_of p)])"

definition post_contract :: "post_request \<Rightarrow> json \<Rightarrow> post_body option" where
  "post_contract rq j =
     (case rq of List_posts \<Rightarrow> map_option Posts_body (postsResponseSchema j)
      | _ \<Rightarrow> map_option Post_body (postResponseSchema j))"

section \<open>The APIs keep their contracts\<close>

text \<open>An answer as it is sent: the status and the JSON of the body.\<close>

definition api_wire :: "('b \<Rightarrow> json) \<Rightarrow> 'b api_answer \<Rightarrow> nat \<times> json option" where
  "api_wire write a =
     (case a of
        Refused n code \<Rightarrow> (n, Some (error_json code))
      | Unauthorized _ code \<Rightarrow> (401, Some (error_json code))
      | Answer n b \<Rightarrow> (n, Some (write b))
      | No_body n \<Rightarrow> (n, None)
      | Failed \<Rightarrow> (500, Some (error_json ''server_error'')))"

lemma error_read [simp]: "errorResponseSchema (error_json code) = Some code"
  by (simp add: errorResponseSchema_def error_json_def optional_field_def json_field_def json_string_def)

text \<open>What a page makes of an answer: the code of an error, or the value of the schema it passes.\<close>

definition read_answer :: "(json \<Rightarrow> 'b option) \<Rightarrow> nat \<times> json option \<Rightarrow> ('b option, string) result option" where
  "read_answer schema w =
     (if 200 \<le> fst w \<and> fst w < 300
      then (case snd w of None \<Rightarrow> Some (Inr None) | Some j \<Rightarrow> map_option (\<lambda>b. Inr (Some b)) (schema j))
      else map_option Inl (Option.bind (snd w) errorResponseSchema))"

definition meets_contract :: "('b \<Rightarrow> json) \<Rightarrow> (json \<Rightarrow> 'b option) \<Rightarrow> 'b api_answer \<Rightarrow> bool" where
  "meets_contract write schema a \<longleftrightarrow>
     read_answer schema (api_wire write a) = Some (case a of
        Refused _ code \<Rightarrow> Inl code | Unauthorized _ code \<Rightarrow> Inl code | Answer _ b \<Rightarrow> Inr (Some b)
      | No_body _ \<Rightarrow> Inr None | Failed \<Rightarrow> Inl ''server_error'')"

lemma meets_simps [simp]:
  "meets_contract write schema (Refused n code) \<longleftrightarrow> \<not> (200 \<le> n \<and> n < 300)"
  "meets_contract write schema (Unauthorized h code)"
  "200 \<le> n \<Longrightarrow> n < 300 \<Longrightarrow> meets_contract write schema (Answer n b) \<longleftrightarrow> schema (write b) = Some b"
  "meets_contract write schema (No_body n) \<longleftrightarrow> 200 \<le> n \<and> n < 300"
  "meets_contract write schema Failed"
  by (auto simp: meets_contract_def read_answer_def api_wire_def)

lemma context_error_meets: "meets_contract write schema (respond_context_error e)"
  by (auto simp: respond_context_error_def unauthorized_def forbidden_def
      split: tenant_context_error.split access_token_error.split)

definition rows_ok :: "('r \<Rightarrow> bool) \<Rightarrow> (string \<times> 'r) list \<Rightarrow> bool" where
  "rows_ok valid db = list_all (\<lambda>(k, r). valid r) db"

lemma rows_ok_update:
  "rows_ok valid db \<Longrightarrow> valid r \<Longrightarrow> rows_ok valid (AList.update k r db)"
  and rows_ok_delete: "rows_ok valid db \<Longrightarrow> rows_ok valid (AList.delete k db)"
proof -
  have "set (AList.update k r db) \<subseteq> insert (k, r) (set db)" by (induction db) auto
  moreover have "set (AList.delete k db) \<subseteq> set db" by (auto simp: AList.delete_eq)
  ultimately show "rows_ok valid db \<Longrightarrow> valid r \<Longrightarrow> rows_ok valid (AList.update k r db)"
    "rows_ok valid db \<Longrightarrow> rows_ok valid (AList.delete k db)"
    unfolding rows_ok_def list_all_iff by auto
qed

lemmas rows_ok_steps = rows_ok_update rows_ok_delete

abbreviation end_user_ids :: "end_user_db \<Rightarrow> bool" where
  "end_user_ids \<equiv> rows_ok (\<lambda>u. short_id (eu_id u))"

lemma view_short: "end_user_ok (end_user_to_json (presentEndUser u b)) \<longleftrightarrow> short_id (eu_id u)"
  by (simp add: end_user_ok_def end_user_to_json_def presentEndUser_def maskEndUser_def end_user.defs)

lemma end_user_rows_short:
  assumes "end_user_ids db"
  shows "list_all (\<lambda>u. short_id (eu_id u)) (eu_list t db)" "eu_find t i db = Some u \<Longrightarrow> short_id (eu_id u)"
  using assms
  by (auto simp: rows_ok_def eu_list_def eu_find_def list_all_iff dest!: map_of_SomeD
      split: option.splits if_splits)

lemma patched_id [simp]: "eu_id (eu_patched p u) = eu_id u"
  by (simp add: eu_patched_def)

lemma end_users_read:
  "end_user_ok x \<Longrightarrow> endUserResponseSchema (JObj [(''end_user'', end_user_json_of x)]) = Some x"
  "list_all end_user_ok xs \<Longrightarrow> endUsersResponseSchema
     (JObj [(''end_users'', JArr (map end_user_json_of xs)), (''masked'', JBool m)]) = Some (xs, m)"
  unfolding endUserResponseSchema_def endUsersResponseSchema_def
  by (simp_all add: end_users.decode_field end_users.decode_array_field bools.decode_field)

lemma end_user_routes_meet:
  assumes ids: "end_user_ids db" "short_id fresh"
    and run: "run_state (end_user_routes is_email fresh rq ctx) db = (a, db')"
  shows "meets_contract end_user_body_json (end_user_contract rq) a \<and> end_user_ids db'"
proof (cases rq)
  case List_end_users
  have "list_all end_user_ok (map (\<lambda>u. end_user_to_json (presentEndUser u b)) (eu_list t db))" for t b
    using end_user_rows_short(1) [OF ids(1), of t] by (auto simp: list_all_iff view_short)
  from end_users_read(2) [OF this] show ?thesis
    using run ids List_end_users
    by (auto simp: end_user_routes_def requirePermission_def forbidden_def listEndUsers_def
        end_user_body_json_def end_user_contract_def comp_def split: if_splits)
next
  case (Get_end_user i)
  then show ?thesis
    using run ids end_user_rows_short(2) [OF ids(1)]
    by (auto simp: end_user_routes_def requirePermission_def forbidden_def getEndUser_def view_answer_def
        notFoundResponse_def end_user_body_json_def end_user_contract_def end_users_read view_short
        split: if_splits option.splits)
next
  case (Post_end_user body)
  then show ?thesis
    using run ids
    by (auto simp: end_user_routes_def requirePermission_def forbidden_def validated_def invalidJson_def
        createEndUser_def eu_create_def eu_row_def end_user_body_json_def end_user_contract_def end_users_read
        view_short rows_ok_steps split: if_splits option.splits)
next
  case (Patch_end_user i body)
  then show ?thesis
    using run ids end_user_rows_short(2) [OF ids(1)]
    by (auto simp: end_user_routes_def requirePermission_def forbidden_def validated_def invalidJson_def
        updateEndUser_def eu_update_def view_answer_def notFoundResponse_def end_user_body_json_def
        end_user_contract_def end_users_read view_short rows_ok_steps split: if_splits option.splits)
next
  case (Delete_end_user i)
  then show ?thesis
    using run ids
    by (auto simp: end_user_routes_def requirePermission_def forbidden_def deleteEndUser_def eu_remove_def
        notFoundResponse_def rows_ok_steps split: if_splits option.splits)
qed

text \<open>
  Every answer of the CRM's API is one its screens can read. Whatever the request, an answer with a
  2xx status passes the response schema the screen checks it with and gives back exactly the rows and
  flags the route answered; any other answer, from the token checks to a thrown error, passes the
  error schema with the route's code. The identifiers stay within the bounds the schemas ask for.
\<close>

theorem crm_answers_meet_contract:
  assumes "end_user_ids db" "short_id fresh"
    and "crm_app env is_email fresh host authorization rq (s, db) = (a, s', db')"
  shows "meets_contract end_user_body_json (end_user_contract rq) a \<and> end_user_ids db'"
  using assms end_user_routes_meet [OF assms(1,2)]
  by (auto simp: crm_app_def context_error_meets split: prod.splits sum.splits)

text \<open>The same for posts, whose author is the user of the request's token.\<close>

abbreviation post_ids :: "post_db \<Rightarrow> bool" where
  "post_ids \<equiv> rows_ok (\<lambda>p. post_ok (post_to_json p))"

lemma post_rows_short:
  assumes "post_ids db"
  shows "list_all post_ok (map post_to_json (post_list t db))"
    "post_find t i db = Some p \<Longrightarrow> post_ok (post_to_json p)"
  using assms
  by (auto simp: rows_ok_def post_list_def post_find_def list_all_iff dest!: map_of_SomeD
      split: option.splits if_splits)

lemma posts_read:
  "post_ok x \<Longrightarrow> postResponseSchema (JObj [(''post'', post_json_of x)]) = Some x"
  "list_all post_ok xs \<Longrightarrow> postsResponseSchema (JObj [(''posts'', JArr (map post_json_of xs))]) = Some xs"
  unfolding postResponseSchema_def postsResponseSchema_def
  by (simp_all add: posts.decode_field posts.decode_array_field)

lemma post_ok_rows [simp]:
  "post_ok (post_to_json (post_patched p q)) \<longleftrightarrow> post_ok (post_to_json q)"
  "post_ok (post_to_json (post_row t i x)) \<longleftrightarrow> short_id i \<and> short_id (fst x)"
  by (simp_all add: post_ok_def post_to_json_def)

text \<open>
  Every answer of the CMS's routes is one its screens can read: a 2xx answer passes the response
  schema the screen checks it with and gives back exactly the posts the route answered, any other
  answer passes the error schema with the route's code, and the rows stay readable, for every user
  whose identifier is within the bounds of the schemas.
\<close>

theorem cms_answers_meet_contract:
  assumes ids: "post_ids db" "short_id fresh" "short_id (tc_user ctx)"
    and run: "run_state (post_routes fresh rq ctx) db = (a, db')"
  shows "meets_contract post_body_json (post_contract rq) a \<and> post_ids db'"
proof (cases rq)
  case List_posts
  from posts_read(2) [OF post_rows_short(1) [OF ids(1)]] show ?thesis
    using run ids List_posts
    by (auto simp: post_routes_def requirePermission_def forbidden_def listPosts_def
        post_body_json_def post_contract_def split: if_splits)
next
  case (Get_post i)
  then show ?thesis
    using run ids post_rows_short(2) [OF ids(1)]
    by (auto simp: post_routes_def requirePermission_def forbidden_def getPost_def post_answer_def
        notFoundResponse_def post_body_json_def post_contract_def posts_read split: if_splits option.splits)
next
  case (Post_post body)
  then show ?thesis
    using run ids
    by (auto simp: post_routes_def requirePermission_def forbidden_def validated_def invalidJson_def
        createPost_def post_create_def post_body_json_def post_contract_def posts_read rows_ok_steps
        split: if_splits option.splits)
next
  case (Patch_post i body)
  then show ?thesis
    using run ids post_rows_short(2) [OF ids(1)]
    by (auto simp: post_routes_def requirePermission_def forbidden_def validated_def invalidJson_def
        updatePost_def post_update_def post_answer_def notFoundResponse_def post_body_json_def
        post_contract_def posts_read rows_ok_steps split: if_splits option.splits)
next
  case (Delete_post i)
  then show ?thesis
    using run ids
    by (auto simp: post_routes_def requirePermission_def forbidden_def deletePost_def post_remove_def
        notFoundResponse_def rows_ok_steps split: if_splits option.splits)
qed

section \<open>Members and /v1/me\<close>

definition status_json :: "member_status \<Rightarrow> json" where
  "status_json st = JStr (case st of Member_active \<Rightarrow> ''active'' | Member_disabled \<Rightarrow> ''disabled'')"

definition memberStatusSchema :: "json \<Rightarrow> member_status option" where
  "memberStatusSchema j =
     (if j = JStr ''active'' then Some Member_active
      else if j = JStr ''disabled'' then Some Member_disabled else None)"

interpretation statuses: codec status_json memberStatusSchema "\<lambda>_. True"
  by unfold_locales (simp add: status_json_def memberStatusSchema_def split: member_status.split)

definition member_json_of :: "member_json \<Rightarrow> json" where
  "member_json_of m = JObj
     [(''user_id'', JStr (mj_user m)), (''email'', nullable (mj_email m)), (''name'', nullable (mj_name m)),
      (''role'', JStr (mj_role m)), (''status'', status_json (mj_status m))]"

definition memberSchema :: "json \<Rightarrow> member_json option" where
  "memberSchema j = do {
     user \<leftarrow> idSchema ''user_id'' j;
     email \<leftarrow> nullable_string (json_field ''email'' j);
     name \<leftarrow> nullable_string (json_field ''name'' j);
     role \<leftarrow> fieldOf ''role'' roleNameSchema j;
     status \<leftarrow> fieldOf ''status'' memberStatusSchema j;
     Some \<lparr>mj_user = user, mj_email = email, mj_name = name, mj_role = role, mj_status = status\<rparr>
   }"

definition member_row_ok :: "member_json \<Rightarrow> bool" where
  "member_row_ok m = (short_id (mj_user m) \<and> role_name (mj_role m))"

interpretation members: codec member_json_of memberSchema member_row_ok
  by unfold_locales
    (simp add: member_json_of_def memberSchema_def member_row_ok_def reading statuses.decode_encode
      role_names.decode_encode)

definition effect_json :: "permission_effect \<Rightarrow> json" where
  "effect_json e = JStr (case e of Allow \<Rightarrow> ''allow'' | Deny \<Rightarrow> ''deny'')"

definition effectSchema :: "json \<Rightarrow> permission_effect option" where
  "effectSchema j = (if j = JStr ''allow'' then Some Allow else if j = JStr ''deny'' then Some Deny else None)"

definition override_json_of :: "permission_override \<Rightarrow> json" where
  "override_json_of x = JObj [(''permission'', JStr (po_permission x)), (''effect'', effect_json (po_effect x))]"

definition permissionOverrideSchema :: "json \<Rightarrow> permission_override option" where
  "permissionOverrideSchema j = do {
     p \<leftarrow> fieldOf ''permission'' permissionNameSchema j;
     e \<leftarrow> fieldOf ''effect'' effectSchema j;
     Some \<lparr>po_permission = p, po_effect = e\<rparr>
   }"

definition override_ok :: "permission_override \<Rightarrow> bool" where "override_ok x = short_id (po_permission x)"

interpretation overrides: codec override_json_of permissionOverrideSchema override_ok
  by unfold_locales
    (simp add: override_json_of_def permissionOverrideSchema_def override_ok_def reading effect_json_def
      effectSchema_def permission_names.decode_encode split: permission_effect.split)

definition meResponseSchema :: "json \<Rightarrow> me_json option" where
  "meResponseSchema j = do {
     user \<leftarrow> fieldOf ''user'' (\<lambda>u. do {
       i \<leftarrow> idSchema ''id'' u; e \<leftarrow> nullable_string (json_field ''email'' u);
       n \<leftarrow> nullable_string (json_field ''name'' u); Some (i, e, n) }) j;
     tenant \<leftarrow> fieldOf ''tenant'' (\<lambda>t. do { i \<leftarrow> idSchema ''id'' t; s \<leftarrow> text_field ''slug'' t; Some (i, s) }) j;
     role \<leftarrow> fieldOf ''role'' roleNameSchema j;
     permissions \<leftarrow> fieldOf ''permissions'' (arrayOf permissionNameSchema) j;
     service \<leftarrow> fieldOf ''service'' (\<lambda>s. do {
       c \<leftarrow> text_field ''clientId'' s; rs \<leftarrow> fieldOf ''roles'' (arrayOf roleNameSchema) s;
       ps \<leftarrow> fieldOf ''permissions'' (arrayOf permissionNameSchema) s; Some (c, rs, ps) }) j;
     Some \<lparr>me_user = user, me_tenant = tenant, me_role = role, me_permissions = permissions, me_service = service\<rparr>
   }"

definition me_json_of :: "me_json \<Rightarrow> json" where
  "me_json_of m =
     (case (me_user m, me_tenant m, me_service m) of ((i, e, n), (t, slug), (c, rs, ps)) \<Rightarrow> JObj
       [(''user'', JObj [(''id'', JStr i), (''email'', nullable e), (''name'', nullable n)]),
        (''tenant'', JObj [(''id'', JStr t), (''slug'', JStr slug)]),
        (''role'', JStr (me_role m)), (''permissions'', JArr (map JStr (me_permissions m))),
        (''service'', JObj [(''clientId'', JStr c), (''roles'', JArr (map JStr rs)),
           (''permissions'', JArr (map JStr ps))])])"

definition me_ok :: "me_json \<Rightarrow> bool" where
  "me_ok m = (short_id (fst (me_user m)) \<and> short_id (fst (me_tenant m)) \<and> role_name (me_role m) \<and>
     list_all short_id (me_permissions m) \<and> list_all role_name (fst (snd (me_service m))) \<and>
     list_all short_id (snd (snd (me_service m))))"

interpretation mes: codec me_json_of meResponseSchema me_ok
proof
  fix m :: me_json
  assume ok: "me_ok m"
  obtain i e n where user: "me_user m = (i, e, n)" by (cases "me_user m")
  obtain t slug where tenant: "me_tenant m = (t, slug)" by (cases "me_tenant m")
  obtain c rs ps where service: "me_service m = (c, rs, ps)" by (cases "me_service m")
  show "meResponseSchema (me_json_of m) = Some m"
    using ok
    by (simp add: me_json_of_def meResponseSchema_def me_ok_def user tenant service reading
        role_names.decode_encode role_names.decode_list permission_names.decode_list)
qed

definition member_body_json :: "member_body \<Rightarrow> json" where
  "member_body_json b =
     (case b of
        Me_body m \<Rightarrow> me_json_of m
      | Members_body ms \<Rightarrow> JObj [(''members'', JArr (map member_json_of ms))]
      | Detail_body m ovs ps \<Rightarrow> JObj [(''member'', member_json_of m),
          (''overrides'', JArr (map override_json_of ovs)), (''permissions'', JArr (map JStr ps))]
      | Invited_body m linked \<Rightarrow> JObj [(''member'', member_json_of m), (''linked'', JBool linked)]
      | Member_body m \<Rightarrow> JObj [(''member'', member_json_of m)]
      | Overrides_body ovs ps \<Rightarrow>
          JObj [(''overrides'', JArr (map override_json_of ovs)), (''permissions'', JArr (map JStr ps))])"

definition membersResponseSchema :: "json \<Rightarrow> member_json list option" where
  "membersResponseSchema = fieldOf ''members'' (arrayOf memberSchema)"

definition permissionOverridesResponseSchema :: "json \<Rightarrow> (permission_override list \<times> string list) option" where
  "permissionOverridesResponseSchema j = do {
     ovs \<leftarrow> fieldOf ''overrides'' (arrayOf permissionOverrideSchema) j;
     ps \<leftarrow> fieldOf ''permissions'' (arrayOf permissionNameSchema) j;
     Some (ovs, ps)
   }"

definition memberResponseSchema :: "json \<Rightarrow> member_json option" where
  "memberResponseSchema = fieldOf ''member'' memberSchema"

definition memberDetailResponseSchema ::
  "json \<Rightarrow> (member_json \<times> permission_override list \<times> string list) option" where
  "memberDetailResponseSchema j = do {
     m \<leftarrow> fieldOf ''member'' memberSchema j;
     (ovs, ps) \<leftarrow> permissionOverridesResponseSchema j;
     Some (m, ovs, ps)
   }"

definition inviteMemberResponseSchema :: "json \<Rightarrow> (member_json \<times> bool) option" where
  "inviteMemberResponseSchema j = do {
     m \<leftarrow> fieldOf ''member'' memberSchema j;
     linked \<leftarrow> fieldOf ''linked'' bool_schema j;
     Some (m, linked)
   }"

definition member_contract :: "member_request \<Rightarrow> json \<Rightarrow> member_body option" where
  "member_contract rq j =
     (case rq of
        Get_me \<Rightarrow> map_option Me_body (meResponseSchema j)
      | Get_members \<Rightarrow> map_option Members_body (membersResponseSchema j)
      | Get_member _ \<Rightarrow> map_option (\<lambda>(m, ovs, ps). Detail_body m ovs ps) (memberDetailResponseSchema j)
      | Post_member _ \<Rightarrow> map_option (\<lambda>(m, linked). Invited_body m linked) (inviteMemberResponseSchema j)
      | Patch_member _ _ \<Rightarrow> map_option Member_body (memberResponseSchema j)
      | Put_permissions _ _ \<Rightarrow>
          map_option (\<lambda>(ovs, ps). Overrides_body ovs ps) (permissionOverridesResponseSchema j)
      | Delete_member _ \<Rightarrow> None)"

definition member_body_ok :: "member_body \<Rightarrow> bool" where
  "member_body_ok b =
     (case b of
        Me_body m \<Rightarrow> me_ok m
      | Members_body ms \<Rightarrow> list_all member_row_ok ms
      | Detail_body m ovs ps \<Rightarrow> member_row_ok m \<and> list_all override_ok ovs \<and> list_all short_id ps
      | Invited_body m _ \<Rightarrow> member_row_ok m
      | Member_body m \<Rightarrow> member_row_ok m
      | Overrides_body ovs ps \<Rightarrow> list_all override_ok ovs \<and> list_all short_id ps)"

lemma overrides_read:
  "list_all override_ok ovs \<Longrightarrow> list_all short_id ps \<Longrightarrow>
   json_field ''overrides'' j = Some (JArr (map override_json_of ovs)) \<Longrightarrow>
   json_field ''permissions'' j = Some (JArr (map JStr ps)) \<Longrightarrow>
   permissionOverridesResponseSchema j = Some (ovs, ps)"
  by (simp add: permissionOverridesResponseSchema_def overrides.decode_array_field
      permission_names.decode_array_field)

lemma refusal_meets [simp]:
  "meets_contract write schema (respondError e)" "meets_contract write schema forbidden"
  "meets_contract write schema notFoundResponse" "meets_contract write schema invalidJson"
  by (auto simp: respondError_def notFoundResponse_def forbidden_def invalidJson_def
      split: member_error.split auth_admin_error.split)

lemma member_bodies_read:
  "me_ok m \<Longrightarrow> member_contract Get_me (member_body_json (Me_body m)) = Some (Me_body m)"
  "list_all member_row_ok ms \<Longrightarrow> member_contract Get_members (member_body_json (Members_body ms)) = Some (Members_body ms)"
  "member_row_ok r \<Longrightarrow> list_all override_ok ovs \<Longrightarrow> list_all short_id ps \<Longrightarrow>
     member_contract (Get_member u) (member_body_json (Detail_body r ovs ps)) = Some (Detail_body r ovs ps)"
  "member_row_ok r \<Longrightarrow> member_contract (Post_member bd) (member_body_json (Invited_body r l)) = Some (Invited_body r l)"
  "member_row_ok r \<Longrightarrow> member_contract (Patch_member u bd) (member_body_json (Member_body r)) = Some (Member_body r)"
  "list_all override_ok ovs \<Longrightarrow> list_all short_id ps \<Longrightarrow>
     member_contract (Put_permissions u bd) (member_body_json (Overrides_body ovs ps)) = Some (Overrides_body ovs ps)"
  by (simp_all add: member_contract_def member_body_json_def mes.decode_encode membersResponseSchema_def
      memberDetailResponseSchema_def inviteMemberResponseSchema_def memberResponseSchema_def
      members.decode_field members.decode_array_field bools.decode_field overrides_read)

text \<open>
  C23: Every answer of the member routes and of /v1/me is one the screens can read: a 2xx answer whose
  identifiers and names are within the bounds of the contract passes the response schema of its route
  and gives back exactly what the route answered; every error, from a missing permission to an
  unavailable authorization server, passes the error schema with its code.
\<close>

theorem member_answers_meet_contract:
  assumes run: "run_state (member_routes env is_email rq ctx) s = (a, s')"
    and ok: "\<And>n b. a = Answer n b \<Longrightarrow> member_body_ok b"
  shows "meets_contract member_body_json (member_contract rq) a"
  using run ok
  by (cases rq)
     (auto simp: member_routes_def requirePermission_def validated_def answer_result_def case_prod_beta
       member_body_ok_def member_bodies_read split: if_splits option.splits sum.splits)

section \<open>Witnesses\<close>

theorem crm_answers_meet_contract_witness:
  "\<exists>a s' db'. crm_app (fx_api_env\<lparr>api_definition := CRM\<rparr>) (\<lambda>_. True) ''e9'' ''h'' None List_end_users
      (fx_crm_state, fx_end_users ''a@x.io'') = (a, s', db') \<and>
     meets_contract end_user_body_json (end_user_contract List_end_users) a \<and> end_user_ids db'"
proof -
  have ids: "end_user_ids (fx_end_users ''a@x.io'')"
    by (simp add: rows_ok_def fx_end_users_def end_user_db_new_def fx_end_user_def short_id_def)
  have "short_id ''e9''" by (simp add: short_id_def)
  from crm_answers_meet_contract [OF ids this] show ?thesis by (metis prod_cases3)
qed

theorem cms_answers_meet_contract_witness:
  "\<exists>a db'. run_state (post_routes ''p9'' List_posts fx_editor) fx_posts = (a, db') \<and>
     meets_contract post_body_json (post_contract List_posts) a \<and> post_ids db'"
proof -
  have ids: "post_ids fx_posts" "short_id (tc_user fx_editor)" "short_id ''p9''" by code_simp+
  from cms_answers_meet_contract [OF ids(1,3,2)] show ?thesis by (metis prod.exhaust)
qed

theorem member_answers_meet_contract_witness:
  "meets_contract member_body_json (member_contract Get_me)
     (Answer 200 (Me_body (me_response fx_api_env (fx_crm_context ''owner''))))"
proof (rule member_answers_meet_contract)
  show "run_state (member_routes fx_api_env (\<lambda>_. True) Get_me (fx_crm_context ''owner'')) fx_api_state =
      (Answer 200 (Me_body (me_response fx_api_env (fx_crm_context ''owner''))), fx_api_state)"
    by (simp add: member_routes_def)
  have "me_ok (me_response fx_api_env (fx_crm_context ''owner''))" by code_simp
  then show "\<And>n b. Answer 200 (Me_body (me_response fx_api_env (fx_crm_context ''owner''))) = Answer n b \<Longrightarrow>
      member_body_ok b"
    by (auto simp: member_body_ok_def)
qed

end
