(* ===== verification/Screens.thy ===== *)
theory Screens
  imports Contracts
begin

text \<open>
  What the screens of the services decide and send (packages/web-ui, apps/crm-web, apps/cms-web), without
  their layout: the shell that loads the session, the calls of each screen, the action that runs one and
  keeps its error, the permission editor and the forms. A form is the values it opens with, what the user
  makes of them, and the request of its submission; texts shown are kept as the message they stand for.
\<close>

section \<open>lib/api.ts, lib/shell.ts, lib/use-action.ts\<close>

datatype shown_error =
  Shown_forbidden | Shown_not_found | Shown_invalid | Shown_not_contracted | Shown_cannot_remove_self
| Shown_temporary | Shown_code string | Shown_unknown

definition describeError :: "api_error \<Rightarrow> shown_error" where
  "describeError e =
     (case e of
        Api_error _ code \<Rightarrow>
          if code = ''forbidden'' then Shown_forbidden
          else if code = ''not_found'' then Shown_not_found
          else if code = ''invalid_request'' then Shown_invalid
          else if code = ''not_contracted'' then Shown_not_contracted
          else if code = ''cannot_remove_self'' then Shown_cannot_remove_self
          else if code = ''temporarily_unavailable'' then Shown_temporary
          else Shown_code code
      | _ \<Rightarrow> Shown_unknown)"

definition get_init :: api_init where "get_init = \<lparr>ai_method = None, ai_json = None\<rparr>"

definition loadMe :: "'n browser_fetch \<Rightarrow> string \<Rightarrow> ('n, me_json) spa_m" where
  "loadMe do_fetch pathname = api do_fetch pathname meResponseSchema ''/v1/me'' get_init"

text \<open>\<open>logged_out\<close> is the value of that parameter in the address of the page.\<close>

definition loadShell ::
  "'n browser_fetch \<Rightarrow> string \<Rightarrow> string option \<Rightarrow> ('n, spa_session \<times> me_json option) spa_m" where
  "loadShell do_fetch pathname logged_out = do {
     loaded \<leftarrow> loadSession_spa do_fetch;
     case loaded of
       Inl e \<Rightarrow> State_Monad.return (Inl e)
     | Inr session \<Rightarrow>
         if ps_user session = None
         then (if logged_out = Some ''1'' then State_Monad.return (Inr (session, None)) else redirectToLogin pathname)
         else do {
           me \<leftarrow> loadMe do_fetch pathname;
           State_Monad.return (case me of Inl e \<Rightarrow> Inl e | Inr m \<Rightarrow> Inr (session, Some m))
         }
   }"

record action_state =
  ac_error :: "shown_error option"
  ac_pending :: bool

text \<open>\<open>run\<close> of \<open>useAction\<close>: the call, then the reload of the screen's data.\<close>

definition run_action ::
  "('n, 'a) spa_m \<Rightarrow> ('n, unit) spa_m \<Rightarrow> 'n spa_state \<times> action_state \<Rightarrow> bool \<times> 'n spa_state \<times> action_state" where
  "run_action action revalidate = (\<lambda>(s, st).
     let started = st\<lparr>ac_error := None, ac_pending := True\<rparr>;
         failed = (\<lambda>e s'. (False, s', started\<lparr>ac_error := Some (describeError e), ac_pending := False\<rparr>))
     in case run_state action s of
          (Inl e, s1) \<Rightarrow> failed e s1
        | (Inr _, s1) \<Rightarrow> (case run_state revalidate s1 of
            (Inl e, s2) \<Rightarrow> failed e s2
          | (Inr _, s2) \<Rightarrow> (True, s2, started\<lparr>ac_pending := False\<rparr>)))"

lemma action_ends:
  "run_action action revalidate (s, st) = (ok, s', st') \<Longrightarrow>
   \<not> ac_pending st' \<and> (ok \<longleftrightarrow> ac_error st' = None)"
  by (auto simp: run_action_def Let_def split: prod.splits sum.splits)

section \<open>The calls of the screens\<close>

definition json_init :: "string \<Rightarrow> json \<Rightarrow> api_init" where
  "json_init m j = \<lparr>ai_method = Some m, ai_json = Some j\<rparr>"

definition delete_init :: api_init where "delete_init = \<lparr>ai_method = Some ''DELETE'', ai_json = None\<rparr>"

text \<open>members.api.ts\<close>

definition loadMembers where "loadMembers f p = api f p membersResponseSchema ''/v1/members'' get_init"

definition loadMemberDetail where
  "loadMemberDetail f p user = api f p memberDetailResponseSchema (''/v1/members/'' @ user) get_init"

definition invite_json :: "string \<Rightarrow> string \<Rightarrow> string option \<Rightarrow> json" where
  "invite_json email role name = JObj ([(''email'', JStr email), (''role'', JStr role)] @
     (case name of Some n \<Rightarrow> [(''name'', JStr n)] | None \<Rightarrow> []))"

definition inviteMember_call where
  "inviteMember_call f p body = api f p inviteMemberResponseSchema ''/v1/members'' (json_init ''POST'' body)"

definition changeMemberRole_call where
  "changeMemberRole_call f p user role = api f p memberResponseSchema (''/v1/members/'' @ user)
     (json_init ''PATCH'' (JObj [(''role'', JStr role)]))"

definition overrides_json :: "permission_override list \<Rightarrow> json" where
  "overrides_json ovs = JObj [(''overrides'', JArr (map override_json_of ovs))]"

definition replaceMemberOverrides_call where
  "replaceMemberOverrides_call f p user ovs = api f p permissionOverridesResponseSchema
     (''/v1/members/'' @ user @ ''/permissions'') (json_init ''PUT'' (overrides_json ovs))"

definition removeMember_call where
  "removeMember_call f p user = apiVoid f p (''/v1/members/'' @ user) delete_init"

text \<open>end-users.api.ts and posts.api.ts; a patch carries the fields it has.\<close>

definition end_user_input_json :: "end_user_input \<Rightarrow> json" where
  "end_user_input_json x = JObj
     [(''name'', JStr (ei_name x)), (''email'', JStr (ei_email x)), (''phone'', JStr (ei_phone x)),
      (''note'', JStr (ei_note x))]"

definition loadEndUsers where "loadEndUsers f p = api f p endUsersResponseSchema ''/v1/end-users'' get_init"

definition createEndUser_call where
  "createEndUser_call f p x = api f p endUserResponseSchema ''/v1/end-users''
     (json_init ''POST'' (end_user_input_json x))"

definition updateEndUser_call where
  "updateEndUser_call f p i x = api f p endUserResponseSchema (''/v1/end-users/'' @ i)
     (json_init ''PATCH'' (end_user_input_json x))"

definition deleteEndUser_call where "deleteEndUser_call f p i = apiVoid f p (''/v1/end-users/'' @ i) delete_init"

definition post_input_json :: "post_input \<Rightarrow> json" where
  "post_input_json x = JObj [(''title'', JStr (pi_title x)), (''body'', JStr (pi_body x))]"

definition loadPosts where "loadPosts f p = api f p postsResponseSchema ''/v1/posts'' get_init"

definition createPost_call where
  "createPost_call f p x = api f p postResponseSchema ''/v1/posts'' (json_init ''POST'' (post_input_json x))"

definition updatePost_call where
  "updatePost_call f p i x = api f p postResponseSchema (''/v1/posts/'' @ i) (json_init ''PATCH'' (post_input_json x))"

definition deletePost_call where "deletePost_call f p i = apiVoid f p (''/v1/posts/'' @ i) delete_init"

section \<open>permission-editor.tsx\<close>

datatype effect_choice = Inherit | Chosen permission_effect

text \<open>
  A JavaScript Map is the list of its entries in the order of their first insertion; setting a key
  that is there replaces its value in place.
\<close>

definition initial_effects :: "permission_override list \<Rightarrow> (string \<times> permission_effect) list" where
  "initial_effects ovs = fold (\<lambda>x. AList.update (po_permission x) (po_effect x)) ovs []"

definition opened_effects :: "string list \<Rightarrow> permission_override list \<Rightarrow> (string \<times> effect_choice) list" where
  "opened_effects available ovs = fold (\<lambda>p. AList.update p
     (case map_of (initial_effects ovs) p of Some e \<Rightarrow> Chosen e | None \<Rightarrow> Inherit)) available []"

definition choose_effect :: "string \<Rightarrow> effect_choice \<Rightarrow> (string \<times> effect_choice) list \<Rightarrow> (string \<times> effect_choice) list" where
  "choose_effect p e effects = AList.update p e effects"

definition saved_overrides :: "(string \<times> effect_choice) list \<Rightarrow> permission_override list" where
  "saved_overrides effects =
     [\<lparr>po_permission = p, po_effect = e\<rparr>. (p, c) \<leftarrow> effects, e \<leftarrow> (case c of Inherit \<Rightarrow> [] | Chosen e \<Rightarrow> [e])]"

lemma initial_effects_distinct: "distinct (map fst (initial_effects ovs))"
proof -
  have "distinct (map fst (fold (\<lambda>x. AList.update (po_permission x) (po_effect x)) ovs es))"
    if "distinct (map fst es)" for es
    using that by (induction ovs arbitrary: es) (simp_all add: AList.distinct_update)
  then show ?thesis by (simp add: initial_effects_def)
qed

lemma initial_effects_lookup:
  assumes "distinct (map po_permission ovs)"
  shows "map_of (initial_effects ovs) p = Some e \<longleftrightarrow> \<lparr>po_permission = p, po_effect = e\<rparr> \<in> set ovs"
proof -
  have "map_of (fold (\<lambda>x. AList.update (po_permission x) (po_effect x)) ovs es) p =
      (case map_of (map (\<lambda>x. (po_permission x, po_effect x)) ovs) p of Some e \<Rightarrow> Some e | None \<Rightarrow> map_of es p)" for es
    using assms
  proof (induction ovs arbitrary: es)
    case (Cons x xs)
    then have "p = po_permission x \<Longrightarrow> map_of (map (\<lambda>x. (po_permission x, po_effect x)) xs) p = None"
      by (auto simp: map_of_eq_None_iff)
    then show ?case using Cons by (auto simp: update_conv' split: option.split)
  qed simp
  then have "map_of (initial_effects ovs) p = map_of (map (\<lambda>x. (po_permission x, po_effect x)) ovs) p"
    by (simp add: initial_effects_def split: option.split)
  also have "\<dots> = Some e \<longleftrightarrow> (p, e) \<in> set (map (\<lambda>x. (po_permission x, po_effect x)) ovs)"
    using assms by (intro map_of_eq_Some_iff) (simp add: comp_def)
  also have "\<dots> \<longleftrightarrow> \<lparr>po_permission = p, po_effect = e\<rparr> \<in> set ovs"
  proof -
    have eta: "\<lparr>po_permission = po_permission x, po_effect = po_effect x\<rparr> = x" for x :: permission_override by simp
    show ?thesis by (auto simp: eta intro!: rev_image_eqI)
  qed
  finally show ?thesis .
qed

lemma opened_effects_facts:
  "distinct (map fst (opened_effects available ovs))"
  "map_of (opened_effects available ovs) p =
     (if p \<in> set available
      then Some (case map_of (initial_effects ovs) p of Some e \<Rightarrow> Chosen e | None \<Rightarrow> Inherit) else None)"
proof -
  let ?e = "\<lambda>p. case map_of (initial_effects ovs) p of Some e \<Rightarrow> Chosen e | None \<Rightarrow> Inherit"
  have "distinct (map fst (fold (\<lambda>p. AList.update p (?e p)) ps es))" if "distinct (map fst es)" for ps es
    using that by (induction ps arbitrary: es) (simp_all add: AList.distinct_update)
  then show "distinct (map fst (opened_effects available ovs))" by (simp add: opened_effects_def)
  have "map_of (fold (\<lambda>p. AList.update p (?e p)) ps es) q = (if q \<in> set ps then Some (?e q) else map_of es q)" for ps es q
    by (induction ps arbitrary: es) (auto simp: update_conv')
  then show "map_of (opened_effects available ovs) p = (if p \<in> set available then Some (?e p) else None)"
    by (simp add: opened_effects_def)
qed

lemma saved_lookup:
  assumes "distinct (map fst effects)"
  shows "\<lparr>po_permission = p, po_effect = e\<rparr> \<in> set (saved_overrides effects) \<longleftrightarrow> map_of effects p = Some (Chosen e)"
    "distinct (map po_permission (saved_overrides effects))"
proof -
  have "\<lparr>po_permission = p, po_effect = e\<rparr> \<in> set (saved_overrides effects) \<longleftrightarrow> (p, Chosen e) \<in> set effects"
    by (auto simp: saved_overrides_def split: effect_choice.splits)
  then show "\<lparr>po_permission = p, po_effect = e\<rparr> \<in> set (saved_overrides effects) \<longleftrightarrow> map_of effects p = Some (Chosen e)"
    using assms by simp
  have keys: "set (map po_permission (saved_overrides es)) \<subseteq> fst ` set es" for es
    by (force simp: saved_overrides_def split: effect_choice.splits)
  show "distinct (map po_permission (saved_overrides effects))"
    using assms
  proof (induction effects)
    case (Cons x es)
    have split: "saved_overrides (x # es) = saved_overrides [x] @ saved_overrides es"
      by (simp add: saved_overrides_def)
    have "distinct (map po_permission (saved_overrides [x]))"
      by (cases x; cases "snd x") (simp_all add: saved_overrides_def)
    moreover have "set (map po_permission (saved_overrides [x])) \<inter> set (map po_permission (saved_overrides es)) = {}"
    proof -
      have "set (map po_permission (saved_overrides [x])) \<subseteq> {fst x}" using keys [of "[x]"] by simp
      moreover have "fst x \<notin> fst ` set es" using Cons.prems by simp
      ultimately show ?thesis using keys [of es] by blast
    qed
    ultimately show ?case using Cons by (simp add: split distinct_append)
  qed (simp add: saved_overrides_def)
qed

lemma override_lookup:
  "allowed ovs p \<longleftrightarrow> \<lparr>po_permission = p, po_effect = Allow\<rparr> \<in> set ovs"
  "denied ovs p \<longleftrightarrow> \<lparr>po_permission = p, po_effect = Deny\<rparr> \<in> set ovs"
  unfolding allowed_def denied_def list_ex_iff
  by (metis permission_override.cases permission_override.select_convs)+

lemma chosen_effective:
  assumes "distinct (map fst effects)" "fst ` set effects \<subseteq> set (allPermissions sd)"
  shows "q \<in> resolvePermissions sd role (saved_overrides effects) \<longleftrightarrow>
    (case map_of effects q of Some (Chosen e) \<Rightarrow> e = Allow | _ \<Rightarrow> q \<in> role_permissions sd role)"
proof -
  have "map_of effects q = Some c \<Longrightarrow> isPermission sd q" for c
    using assms(2) by (auto simp: isPermission_def dest!: map_of_SomeD)
  then show ?thesis
    by (auto simp: mem_resolvePermissions override_lookup saved_lookup(1) [OF assms(1)]
        split: option.splits effect_choice.splits) (metis permission_effect.exhaust)+
qed

text \<open>
  C26: The permission editor shows and saves what is in force. Opened on a member's overrides and saved
  unchanged, it leaves every effective permission as it was; after a choice for one permission, that
  permission is granted, refused or as the role has it, as chosen, and no other changes. It never sends
  the same permission twice, which the PostgreSQL store would fail on.
\<close>

theorem permission_editor_is_exact:
  assumes "distinct (map po_permission ovs)" "role_permissions sd role \<subseteq> set (allPermissions sd)"
    and "p \<in> set (allPermissions sd)"
  defines "opened \<equiv> opened_effects (allPermissions sd) ovs"
  shows "resolvePermissions sd role (saved_overrides opened) = resolvePermissions sd role ovs \<and>
    resolvePermissions sd role (saved_overrides (choose_effect p c opened)) =
      {q. if q = p then (case c of Inherit \<Rightarrow> p \<in> role_permissions sd role | Chosen e \<Rightarrow> e = Allow)
          else q \<in> resolvePermissions sd role ovs} \<and>
    distinct (map po_permission (saved_overrides (choose_effect p c opened)))"
proof -
  have keys: "distinct (map fst opened)" "fst ` set opened \<subseteq> set (allPermissions sd)"
  proof -
    show "distinct (map fst opened)" by (simp add: opened_def opened_effects_facts)
    show "fst ` set opened \<subseteq> set (allPermissions sd)"
      using opened_effects_facts(2) [of "allPermissions sd" ovs]
      by (metis (no_types, lifting) opened_def map_of_eq_None_iff option.distinct(1) subsetI)
  qed
  have look: "map_of opened q = (if q \<in> set (allPermissions sd)
      then Some (case map_of (initial_effects ovs) q of Some e \<Rightarrow> Chosen e | None \<Rightarrow> Inherit) else None)" for q
    by (simp add: opened_def opened_effects_facts)
  have same: "q \<in> resolvePermissions sd role (saved_overrides opened) \<longleftrightarrow> q \<in> resolvePermissions sd role ovs" for q
  proof (cases "map_of (initial_effects ovs) q")
    case None
    then have "\<not> allowed ovs q" "\<not> denied ovs q"
      by (simp_all add: override_lookup initial_effects_lookup [OF assms(1), symmetric])
    then have "q \<in> resolvePermissions sd role ovs \<longleftrightarrow> q \<in> role_permissions sd role"
      by (simp add: mem_resolvePermissions)
    then show ?thesis by (simp add: chosen_effective [OF keys] look None)
  next
    case (Some e)
    then have at: "\<lparr>po_permission = q, po_effect = f\<rparr> \<in> set ovs \<longleftrightarrow> f = e" for f
      using Some by (auto simp: initial_effects_lookup [OF assms(1), symmetric])
    show ?thesis
    proof -
      have "q \<in> resolvePermissions sd role ovs \<longleftrightarrow> e = Allow \<and> q \<in> set (allPermissions sd) \<or>
          e = Allow \<and> q \<in> role_permissions sd role"
        by (cases e) (auto simp: mem_resolvePermissions override_lookup at isPermission_def)
      then show ?thesis using assms(2) by (auto simp: chosen_effective [OF keys] look Some)
    qed
  qed
  let ?after = "choose_effect p c opened"
  have after: "distinct (map fst ?after)" "fst ` set ?after \<subseteq> set (allPermissions sd)"
      "map_of ?after q = (if q = p then Some c else map_of opened q)" for q
  proof -
    show "distinct (map fst ?after)" using keys by (simp add: choose_effect_def AList.distinct_update)
    have "fst ` set ?after = insert p (fst ` set opened)" by (simp add: choose_effect_def dom_update)
    then show "fst ` set ?after \<subseteq> set (allPermissions sd)" using keys assms(3) by simp
    show "map_of ?after q = (if q = p then Some c else map_of opened q)" by (simp add: choose_effect_def update_conv')
  qed
  have "q \<in> resolvePermissions sd role (saved_overrides ?after) \<longleftrightarrow>
      (if q = p then (case c of Inherit \<Rightarrow> p \<in> role_permissions sd role | Chosen e \<Rightarrow> e = Allow)
       else q \<in> resolvePermissions sd role ovs)" for q
    using same [of q]
    by (auto simp: chosen_effective [OF after(1,2)] chosen_effective [OF keys] after(3)
        split: effect_choice.split)
  then show ?thesis using same saved_lookup(2) [OF after(1)] by blast
qed

section \<open>The forms and the pages around them\<close>

text \<open>
  end-user-form.tsx, end-users.route.tsx, post-form.tsx, posts.route.tsx. \<open>values\<close> are the texts in
  the fields when the form is submitted; the resolver is the schema of the contract, and only a form it
  accepts is sent. The page keeps the row it edits until the write has succeeded.
\<close>

record 'r form_page =
  fp_editing :: "'r option"
  fp_action :: action_state

definition after_submit ::
  "'r form_page \<Rightarrow> bool \<times> 'n spa_state \<times> action_state \<Rightarrow> bool option \<times> 'n spa_state \<times> 'r form_page" where
  "after_submit pg = (\<lambda>(ok, s, st).
     (Some ok, s, pg\<lparr>fp_editing := (if ok then None else fp_editing pg), fp_action := st\<rparr>))"

definition end_user_defaults :: "end_user_json option \<Rightarrow> end_user_input" where
  "end_user_defaults editing =
     (case editing of
        None \<Rightarrow> \<lparr>ei_name = [], ei_email = [], ei_phone = [], ei_note = []\<rparr>
      | Some u \<Rightarrow> \<lparr>ei_name = ej_name u, ei_email = ej_email u, ei_phone = ej_phone u, ei_note = ej_note u\<rparr>)"

definition submit_end_user where
  "submit_end_user is_email f p revalidate values = (\<lambda>(s, pg).
     (case endUserInputSchema is_email (end_user_input_json values) of
        None \<Rightarrow> (None, s, pg)
      | Some x \<Rightarrow> after_submit pg (run_action
          (case fp_editing pg of None \<Rightarrow> createEndUser_call f p x | Some u \<Rightarrow> updateEndUser_call f p (ej_id u) x)
          revalidate (s, fp_action pg))))"

definition post_defaults :: "post_json option \<Rightarrow> post_input" where
  "post_defaults editing =
     (case editing of None \<Rightarrow> \<lparr>pi_title = [], pi_body = []\<rparr> | Some q \<Rightarrow> \<lparr>pi_title = pj_title q, pi_body = pj_body q\<rparr>)"

definition submit_post where
  "submit_post f p revalidate values = (\<lambda>(s, pg).
     (case postInputSchema (post_input_json values) of
        None \<Rightarrow> (None, s, pg)
      | Some x \<Rightarrow> after_submit pg (run_action
          (case fp_editing pg of None \<Rightarrow> createPost_call f p x | Some q \<Rightarrow> updatePost_call f p (pj_id q) x)
          revalidate (s, fp_action pg))))"

text \<open>A write that was not accepted leaves the row under edit and says why.\<close>

lemma refused_form_stays_open:
  "after_submit pg (run_action action revalidate (s, fp_action pg)) = (Some False, s', pg') \<Longrightarrow>
   fp_editing pg' = fp_editing pg \<and> ac_error (fp_action pg') \<noteq> None"
  by (auto simp: after_submit_def split: prod.splits dest!: action_ends)

text \<open>
  invite-member-form.tsx: the role starts as the last one of the service's vocabulary, and an empty name is
  left out. members-page.tsx: the member whose permissions are open.
\<close>

definition inviteMemberInputSchema :: "(string \<Rightarrow> bool) \<Rightarrow> json \<Rightarrow> (string \<times> string option \<times> string) option" where
  "inviteMemberInputSchema is_email j = do {
     e \<leftarrow> emailSchema is_email (json_field ''email'' j);
     n \<leftarrow> optional_field personNameSchema ''name'' j;
     r \<leftarrow> Option.bind (json_field ''role'' j) roleNameSchema;
     Some (e, n, r)
   }"

definition invite_default_role :: "string list \<Rightarrow> string" where
  "invite_default_role roles = (if roles = [] then [] else last roles)"

definition submit_invite where
  "submit_invite is_email f p revalidate email name role = (\<lambda>(s, st).
     (case inviteMemberInputSchema is_email (invite_json email role (if name = [] then None else Some name)) of
        None \<Rightarrow> (None, s, st)
      | Some (e, n, r) \<Rightarrow> apfst Some (run_action
          (inviteMember_call f p (invite_json e r (if n = Some [] then None else n))) revalidate (s, st))))"

record members_page =
  mp_selected :: "(member_json \<times> permission_override list \<times> string list) option"
  mp_detail_error :: "shown_error option"
  mp_action :: action_state

definition open_member where
  "open_member f p user = (\<lambda>(s, pg).
     (case run_state (loadMemberDetail f p user) s of
        (Inl e, s') \<Rightarrow> (s', pg\<lparr>mp_detail_error := Some (describeError e)\<rparr>)
      | (Inr d, s') \<Rightarrow> (s', pg\<lparr>mp_detail_error := None, mp_selected := Some d\<rparr>)))"

definition save_overrides where
  "save_overrides f p revalidate effects = (\<lambda>(s, pg).
     (case mp_selected pg of
        None \<Rightarrow> (s, pg)
      | Some (m, _) \<Rightarrow>
         (case run_action (replaceMemberOverrides_call f p (mj_user m) (saved_overrides effects)) revalidate
            (s, mp_action pg) of
            (ok, s', st) \<Rightarrow> (s', pg\<lparr>mp_selected := (if ok then None else mp_selected pg), mp_action := st\<rparr>))))"

section \<open>What a form stores\<close>

lemma js_trim_idem [simp]: "js_trim (js_trim s) = js_trim s"
proof -
  let ?t = "dropWhile js_space s"
  let ?r = "rev (dropWhile js_space (rev ?t))"
  have "dropWhile js_space ?r = ?r"
  proof (cases "?r = []")
    case False
    have "?t = ?r @ rev (takeWhile js_space (rev ?t))"
      by (metis rev_append rev_rev_ident takeWhile_dropWhile_id)
    then have "hd ?r = hd ?t" "?t \<noteq> []" using False by (metis hd_append2, metis append_is_Nil_conv)
    then have "\<not> js_space (hd ?r)" using hd_dropWhile [of js_space s] by simp
    then show ?thesis by (metis False dropWhile.simps(2) list.collapse)
  next
    case True
    show ?thesis by (simp only: True dropWhile.simps)
  qed
  then show ?thesis by (simp add: js_trim_def dropWhile_idem)
qed

lemma trimmed_again: "trimmed_text lo hi j = Some v \<Longrightarrow> trimmed_text lo hi (JStr v) = Some v"
  by (auto simp: trimmed_text_def json_string_def Let_def split: option.splits json.splits if_splits Option.bind_splits)

lemma accepted_form_is_a_patch:
  assumes "endUserInputSchema is_email j = Some x"
  shows "endUserPatchSchema is_email (end_user_input_json x) =
    Some \<lparr>ep_name = Some (ei_name x), ep_email = Some (ei_email x), ep_phone = Some (ei_phone x), ep_note = Some (ei_note x)\<rparr>"
proof -
  obtain n p where "trimmed_text 1 100 n = Some (ei_name x)" "trimmed_text 1 32 p = Some (ei_phone x)"
      and e: "is_email (ei_email x)" "length (ei_email x) \<le> 254" "length (ei_note x) \<le> 1000"
    using assms by (auto simp: endUserInputSchema_def emailSchema_def note_field_def split: Option.bind_splits option.splits if_splits)
  then show ?thesis
    by (simp add: endUserPatchSchema_def end_user_input_json_def optional_field_def json_field_def emailSchema_def
        note_field_def json_string_def trimmed_again)
qed

text \<open>
  C27: A form that the page accepts is accepted by the API too, and stores what it shows. Saving an
  edited end user, from a page that checked the fields with the contract's schema, cannot be refused as
  invalid: the row becomes the four values of the form, spaces around name and phone removed, every other
  row stays, and the answer is that row as the reader may see it.
\<close>

theorem accepted_form_is_stored:
  assumes "keyed eu_id db" "eu_find (tc_tenant ctx) i db = Some u" "''end_users:update'' \<in> tc_permissions ctx"
    and "endUserInputSchema is_email (end_user_input_json values) = Some x"
  shows "ei_name x = js_trim (ei_name values) \<and> ei_email x = ei_email values \<and>
    ei_phone x = js_trim (ei_phone values) \<and> ei_note x = ei_note values \<and>
    run_state (end_user_routes is_email k (Patch_end_user i (Some (end_user_input_json x))) ctx) db =
      (Answer 200 (End_user_body (shown_row ctx (eu_row (tc_tenant ctx) i x))),
       AList.update i (eu_row (tc_tenant ctx) i x) db)"
proof -
  have fields: "ei_name x = js_trim (ei_name values) \<and> ei_email x = ei_email values \<and>
      ei_phone x = js_trim (ei_phone values) \<and> ei_note x = ei_note values"
    using assms(4)
    by (auto simp: endUserInputSchema_def end_user_input_json_def json_field_def emailSchema_def note_field_def
        json_string_def trimmed_text_def Let_def split: if_splits)
  have "eu_id u = i" "eu_tenant u = tc_tenant ctx"
    using assms(1,2) by (auto simp: eu_find_def keyed_def split: option.splits if_splits dest!: map_of_SomeD)
  then have row: "eu_patched \<lparr>ep_name = Some (ei_name x), ep_email = Some (ei_email x), ep_phone = Some (ei_phone x),
      ep_note = Some (ei_note x)\<rparr> u = eu_row (tc_tenant ctx) i x"
    by (cases u) (simp add: eu_patched_def eu_row_def)
  have "run_state (end_user_routes is_email k (Patch_end_user i (Some (end_user_input_json x))) ctx) db =
      (Answer 200 (End_user_body (shown_row ctx (eu_row (tc_tenant ctx) i x))),
       AList.update i (eu_row (tc_tenant ctx) i x) db)"
    using assms(2,3)
    by (simp add: end_user_routes_def requirePermission_def validated_def accepted_form_is_a_patch [OF assms(4)]
        updateEndUser_def eu_update_def row view_answer_def shown_row_def)
  with fields show ?thesis by blast
qed

text \<open>
  The form of a reader without \<open>end_users:unmask\<close> opens on the masked values and sends all four of them:
  whoever changes only the name replaces the stored phone number by its masked form, which the schema takes.
\<close>

lemma masked_phone_plain: "js_trim (mask_phone p) = mask_phone p"
proof -
  have last: "rev (mask_phone p) = rev (last4 (phone_digits p)) @ ''-****-***''" by (simp add: mask_phone_def)
  have "\<not> js_space c" if "c \<in> set (last4 (phone_digits p))" for c
    using that by (auto simp: last4_def phone_digits_def char_between_def js_space_def dest!: in_set_dropD)
  then have "dropWhile js_space (rev (mask_phone p)) = rev (mask_phone p)"
    unfolding last by (cases "rev (last4 (phone_digits p))") (auto simp: js_space_def)
  moreover have "dropWhile js_space (mask_phone p) = mask_phone p" by (simp add: mask_phone_def js_space_def)
  ultimately show ?thesis by (simp add: js_trim_def)
qed

lemma masked_edit_loses_phone:
  assumes "\<not> can_unmask ctx"
    and "values = (end_user_defaults (Some (shown_row ctx u)))\<lparr>ei_name := n, ei_email := e\<rparr>"
    and "endUserInputSchema is_email (end_user_input_json values) = Some x"
  shows "ei_phone x = mask_phone (eu_phone u)"
proof -
  have "ei_phone x = js_trim (ei_phone values)"
    using assms(3)
    by (auto simp: endUserInputSchema_def end_user_input_json_def json_field_def emailSchema_def note_field_def
        json_string_def trimmed_text_def Let_def split: if_splits)
  then show ?thesis
    using assms(1)
    by (simp add: assms(2) end_user_defaults_def shown_row_def end_user_to_json_def presentEndUser_def
        maskEndUser_def end_user.extend_def end_user_view.fields_def masked_phone_plain)
qed

section \<open>Witnesses\<close>

theorem accepted_form_is_stored_witness:
  "\<exists>x. endUserInputSchema (\<lambda>_. True) (end_user_input_json
      \<lparr>ei_name = '' Bob '', ei_email = ''b@x.io'', ei_phone = ''090-1'', ei_note = []\<rparr>) = Some x \<and> ei_name x = ''Bob'' \<and>
    snd (run_state (end_user_routes (\<lambda>_. True) ''k'' (Patch_end_user ''e1'' (Some (end_user_input_json x)))
      (fx_crm_context ''admin'')) (fx_end_users ''a@x.io'')) =
      AList.update ''e1'' (eu_row ''t1'' ''e1'' x) (fx_end_users ''a@x.io'')"
proof -
  let ?v = "\<lparr>ei_name = '' Bob '', ei_email = ''b@x.io'', ei_phone = ''090-1'', ei_note = []\<rparr>"
  let ?x = "\<lparr>ei_name = ''Bob'', ei_email = ''b@x.io'', ei_phone = ''090-1'', ei_note = []\<rparr>"
  have valid: "endUserInputSchema (\<lambda>_. True) (end_user_input_json ?v) = Some ?x"
    by (simp add: endUserInputSchema_def end_user_input_json_def json_field_def emailSchema_def note_field_def
        json_string_def trimmed_text_def Let_def js_trim_def js_space_def)
  have found: "eu_find ''t1'' ''e1'' (fx_end_users ''a@x.io'') = Some (fx_end_user ''e1'' ''t1'' ''a@x.io'')"
    by (simp add: eu_find_def fx_end_users_def end_user_db_new_def fx_end_user_def)
  have perm: "''end_users:update'' \<in> tc_permissions (fx_crm_context ''admin'')" "tc_tenant (fx_crm_context ''admin'') = ''t1''"
    by (simp_all add: fx_crm_context_def mem_resolvePermissions role_permissions_def CRM_def CRM_PERMISSIONS_def denied_def)
  show ?thesis
    using accepted_form_is_stored [OF fx_end_users_keyed _ perm(1) valid, of "''e1''" "''a@x.io''" "fx_end_user ''e1'' ''t1'' ''a@x.io''" "''k''"]
      found perm(2) valid by auto
qed

theorem permission_editor_is_exact_witness:
  "saved_overrides (choose_effect ''end_users:read'' (Chosen Deny) (opened_effects (allPermissions CRM) [])) =
     [\<lparr>po_permission = ''end_users:read'', po_effect = Deny\<rparr>] \<and>
   ''end_users:read'' \<in> resolvePermissions CRM ''admin'' [] \<and>
   ''end_users:read'' \<notin> resolvePermissions CRM ''admin'' (saved_overrides
     (choose_effect ''end_users:read'' (Chosen Deny) (opened_effects (allPermissions CRM) [])))"
proof -
  have vocabulary: "role_permissions CRM ''admin'' \<subseteq> set (allPermissions CRM)" "''end_users:read'' \<in> set (allPermissions CRM)"
    by (auto simp: role_permissions_def allPermissions_def CRM_def CRM_PERMISSIONS_def MEMBER_PERMISSIONS_def)
  have "''end_users:read'' \<in> resolvePermissions CRM ''admin'' []"
    by (simp add: mem_resolvePermissions role_permissions_def CRM_def CRM_PERMISSIONS_def denied_def)
  moreover have "saved_overrides (choose_effect ''end_users:read'' (Chosen Deny) (opened_effects (allPermissions CRM) [])) =
     [\<lparr>po_permission = ''end_users:read'', po_effect = Deny\<rparr>]"
    by (simp add: saved_overrides_def choose_effect_def opened_effects_def initial_effects_def allPermissions_def
        CRM_def CRM_PERMISSIONS_def MEMBER_PERMISSIONS_def)
  ultimately show ?thesis
    using permission_editor_is_exact [of "[]" CRM "''admin''" "''end_users:read''" "Chosen Deny", OF _ vocabulary] by auto
qed

end
