(* ===== verification/AuthScreens.thy ===== *)
theory AuthScreens
  imports Screens Wire
begin

text \<open>
  The screens of the authorization server (apps/auth-web) and the answers they read: the JSON the routes
  under \<open>/api\<close> write (apps/auth-api), the schemas of packages/api-contract/src/auth that check it, the
  loaders of the screens, and the HTML forms they post. The browser is the network with its cookies.
\<close>

section \<open>The answers as JSON\<close>

definition opt_field :: "string \<Rightarrow> json option \<Rightarrow> (string \<times> json) list" where
  "opt_field k v = (case v of None \<Rightarrow> [] | Some j \<Rightarrow> [(k, j)])"

definition session_json_of :: "session_json \<Rightarrow> json" where
  "session_json_of x = JObj
     [(''id'', JStr (sj_id x)), (''ip'', JStr (sj_ip x)), (''user_agent'', JStr (sj_user_agent x)),
      (''created_at'', JNum (sj_created_at x)), (''last_seen_at'', JNum (sj_last_seen_at x)),
      (''current'', JBool (sj_current x)),
      (''services'', JArr (map (\<lambda>(c, n, slug, tenant). JObj [(''client_id'', JStr c), (''name'', JStr n),
         (''tenant_slug'', JStr slug), (''tenant_name'', JStr tenant)]) (sj_services x)))]"

definition mfa_method_json :: "mfa_method \<times> seconds \<Rightarrow> json" where
  "mfa_method_json m = JObj [(''method'', JStr ''totp''), (''enrolled_at'', JNum (snd m))]"

definition portal_tenant_json :: "string \<times> string \<times> (string \<times> string \<times> string) list \<Rightarrow> json" where
  "portal_tenant_json t = (case t of (slug, name, services) \<Rightarrow> JObj
     [(''slug'', JStr slug), (''name'', JStr name),
      (''services'', JArr (map (\<lambda>(n, c, url). JObj [(''name'', JStr n), (''clientId'', JStr c), (''loginUrl'', JStr url)])
         services))])"

definition return_to_json :: "string \<times> string \<Rightarrow> json" where
  "return_to_json r = JObj [(''label'', JStr (fst r)), (''href'', JStr (snd r))]"

definition login_context_json :: "string \<Rightarrow> string \<Rightarrow> json option \<Rightarrow> json" where
  "login_context_json rid csrf m = JObj ([(''rid'', JStr rid), (''csrfToken'', JStr csrf)] @ opt_field ''errorMessage'' m)"

definition login_redirect_json :: "string \<Rightarrow> json" where
  "login_redirect_json p = JObj [(''redirectTo'', JStr p)]"

definition challenge_json :: "string \<Rightarrow> json option \<Rightarrow> json" where
  "challenge_json csrf m = JObj ([(''csrfToken'', JStr csrf), (''method'', JStr ''totp'')] @ opt_field ''errorMessage'' m)"

definition setup_json :: "setup_body \<Rightarrow> json" where
  "setup_json x = JObj ([(''csrfToken'', JStr (sb_csrf x)), (''method'', JStr ''totp''),
     (''account'', JStr (tv_account (sb_view x))), (''secret'', JStr (tv_secret (sb_view x))),
     (''otpauthUri'', JStr (tv_uri (sb_view x))), (''expiresAt'', JNum (tv_expires_at (sb_view x)))] @
     opt_field ''errorMessage'' (sb_message x))"

definition logout_json :: "bool \<Rightarrow> string option \<Rightarrow> (string \<times> string) option \<Rightarrow> json" where
  "logout_json signed_in csrf target = JObj ([(''authenticated'', JBool signed_in)] @
     opt_field ''csrfToken'' (map_option JStr csrf) @ opt_field ''returnTo'' (map_option return_to_json target))"

definition sessions_json :: "session_json list \<Rightarrow> (mfa_method \<times> seconds) list \<Rightarrow> string \<Rightarrow> json" where
  "sessions_json xs ms csrf = JObj [(''sessions'', JArr (map session_json_of xs)),
     (''mfa_methods'', JArr (map mfa_method_json ms)), (''csrfToken'', JStr csrf)]"

definition portal_json :: "string \<Rightarrow> (string \<times> string \<times> (string \<times> string \<times> string) list) list \<Rightarrow> json" where
  "portal_json email ts = JObj [(''email'', JStr email), (''tenants'', JArr (map portal_tenant_json ts))]"

definition screen_body :: "auth_body \<Rightarrow> json option" where
  "screen_body b =
     (case b of
        Login_context rid csrf m \<Rightarrow> Some (login_context_json rid csrf m)
      | Login_redirect p \<Rightarrow> Some (login_redirect_json p)
      | Challenge_context csrf m \<Rightarrow> Some (challenge_json csrf m)
      | Setup_context x \<Rightarrow> Some (setup_json x)
      | Logout_context signed_in csrf target \<Rightarrow> Some (logout_json signed_in csrf target)
      | Sessions_context xs ms csrf \<Rightarrow> Some (sessions_json xs ms csrf)
      | Portal_context email ts \<Rightarrow> Some (portal_json email ts)
      | _ \<Rightarrow> None)"

lemmas screen_json_defs = screen_body_def login_context_json_def login_redirect_json_def challenge_json_def
  setup_json_def logout_json_def sessions_json_def portal_json_def

text \<open>An expired request also says so in words; \<open>EXPIRED_MESSAGE\<close> stands for them.\<close>

definition EXPIRED_MESSAGE :: string where "EXPIRED_MESSAGE = ''expired''"

definition screen_response :: "auth_answer \<Rightarrow> browser_response" where
  "screen_response a = \<lparr>bs_status = wire_status a,
     bs_json = (case a of
         Body _ b \<Rightarrow> (case screen_body b of Some j \<Rightarrow> Some j | None \<Rightarrow> wire_body a)
       | Failure _ code \<Rightarrow> Some (JObj ([(''error'', JStr code)] @
           (if code = ''expired_request'' then [(''message'', JStr EXPIRED_MESSAGE)] else [])))
       | _ \<Rightarrow> wire_body a)\<rparr>"

section \<open>packages/api-contract/src/auth\<close>

definition optional_text :: "string \<Rightarrow> json \<Rightarrow> json option option" where
  "optional_text k j = map_option (map_option JStr) (optional_field (\<lambda>v. json_string (Some v)) k j)"

definition number_field :: "string \<Rightarrow> json \<Rightarrow> int option" where
  "number_field k j = (case json_field k j of Some (JNum n) \<Rightarrow> Some n | _ \<Rightarrow> None)"

definition method_totp :: "json \<Rightarrow> unit option" where
  "method_totp j = (if text_field ''method'' j = Some ''totp'' then Some () else None)"

definition loginContextResponseSchema :: "json \<Rightarrow> auth_body option" where
  "loginContextResponseSchema j = do {
     rid \<leftarrow> text_field ''rid'' j; csrf \<leftarrow> text_field ''csrfToken'' j; m \<leftarrow> optional_text ''errorMessage'' j;
     Some (Login_context rid csrf m)
   }"

definition loginRedirectResponseSchema :: "json \<Rightarrow> auth_body option" where
  "loginRedirectResponseSchema j = map_option Login_redirect (text_field ''redirectTo'' j)"

definition loginApiResponseSchema :: "json \<Rightarrow> auth_body option" where
  "loginApiResponseSchema j =
     (case loginRedirectResponseSchema j of None \<Rightarrow> loginContextResponseSchema j | r \<Rightarrow> r)"

definition loginChallengeResponseSchema :: "json \<Rightarrow> auth_body option" where
  "loginChallengeResponseSchema j = do {
     csrf \<leftarrow> text_field ''csrfToken'' j; _ \<leftarrow> method_totp j; m \<leftarrow> optional_text ''errorMessage'' j;
     Some (Challenge_context csrf m)
   }"

definition mfaSetupResponseSchema :: "json \<Rightarrow> auth_body option" where
  "mfaSetupResponseSchema j = do {
     csrf \<leftarrow> text_field ''csrfToken'' j; _ \<leftarrow> method_totp j; account \<leftarrow> text_field ''account'' j;
     secret \<leftarrow> text_field ''secret'' j; uri \<leftarrow> text_field ''otpauthUri'' j; expires \<leftarrow> number_field ''expiresAt'' j;
     m \<leftarrow> optional_text ''errorMessage'' j;
     Some (Setup_context \<lparr>sb_csrf = csrf,
       sb_view = \<lparr>tv_account = account, tv_secret = secret, tv_uri = uri, tv_expires_at = expires\<rparr>, sb_message = m\<rparr>)
   }"

definition portalServiceSchema :: "json \<Rightarrow> (string \<times> string \<times> string) option" where
  "portalServiceSchema j = do {
     n \<leftarrow> text_field ''name'' j; c \<leftarrow> text_field ''clientId'' j; url \<leftarrow> text_field ''loginUrl'' j; Some (n, c, url) }"

definition portalTenantSchema :: "json \<Rightarrow> (string \<times> string \<times> (string \<times> string \<times> string) list) option" where
  "portalTenantSchema j = do {
     slug \<leftarrow> text_field ''slug'' j; name \<leftarrow> text_field ''name'' j;
     services \<leftarrow> fieldOf ''services'' (arrayOf portalServiceSchema) j; Some (slug, name, services) }"

definition portalResponseSchema :: "json \<Rightarrow> auth_body option" where
  "portalResponseSchema j = do {
     email \<leftarrow> text_field ''email'' j; ts \<leftarrow> fieldOf ''tenants'' (arrayOf portalTenantSchema) j;
     Some (Portal_context email ts) }"

definition logoutReturnToSchema :: "json \<Rightarrow> (string \<times> string) option" where
  "logoutReturnToSchema j = do { l \<leftarrow> text_field ''label'' j; h \<leftarrow> text_field ''href'' j; Some (l, h) }"

definition logoutResponseSchema :: "json \<Rightarrow> auth_body option" where
  "logoutResponseSchema j = do {
     signed_in \<leftarrow> fieldOf ''authenticated'' bool_schema j;
     csrf \<leftarrow> optional_field (\<lambda>v. json_string (Some v)) ''csrfToken'' j;
     target \<leftarrow> optional_field logoutReturnToSchema ''returnTo'' j;
     Some (Logout_context signed_in csrf target)
   }"

definition sessionServiceSchema :: "json \<Rightarrow> (string \<times> string \<times> string \<times> string) option" where
  "sessionServiceSchema j = do {
     c \<leftarrow> text_field ''client_id'' j; n \<leftarrow> text_field ''name'' j; slug \<leftarrow> text_field ''tenant_slug'' j;
     tenant \<leftarrow> text_field ''tenant_name'' j; Some (c, n, slug, tenant) }"

definition sessionSchema :: "json \<Rightarrow> session_json option" where
  "sessionSchema j = do {
     i \<leftarrow> idSchema ''id'' j; ip \<leftarrow> text_field ''ip'' j; agent \<leftarrow> text_field ''user_agent'' j;
     created \<leftarrow> number_field ''created_at'' j; seen \<leftarrow> number_field ''last_seen_at'' j;
     here \<leftarrow> fieldOf ''current'' bool_schema j; services \<leftarrow> fieldOf ''services'' (arrayOf sessionServiceSchema) j;
     Some \<lparr>sj_id = i, sj_ip = ip, sj_user_agent = agent, sj_created_at = created, sj_last_seen_at = seen,
       sj_current = here, sj_services = services\<rparr>
   }"

definition mfaMethodSchema :: "json \<Rightarrow> (mfa_method \<times> seconds) option" where
  "mfaMethodSchema j = do { _ \<leftarrow> method_totp j; t \<leftarrow> number_field ''enrolled_at'' j; Some (Totp, t) }"

definition sessionsResponseSchema :: "json \<Rightarrow> auth_body option" where
  "sessionsResponseSchema j = do {
     xs \<leftarrow> fieldOf ''sessions'' (arrayOf sessionSchema) j; ms \<leftarrow> fieldOf ''mfa_methods'' (arrayOf mfaMethodSchema) j;
     csrf \<leftarrow> text_field ''csrfToken'' j; Some (Sessions_context xs ms csrf) }"

section \<open>Every answer is read back\<close>

interpretation sso_services: codec "\<lambda>(c, n, slug, tenant). JObj [(''client_id'', JStr c), (''name'', JStr n),
    (''tenant_slug'', JStr slug), (''tenant_name'', JStr tenant)]" sessionServiceSchema "\<lambda>_. True"
  by unfold_locales (auto simp: sessionServiceSchema_def reading)

interpretation sso_rows: codec session_json_of sessionSchema "\<lambda>x. short_id (sj_id x)"
proof
  fix x :: session_json
  assume "short_id (sj_id x)"
  then show "sessionSchema (session_json_of x) = Some x"
    using sso_services.decode_list [of "sj_services x"]
    by (simp add: sessionSchema_def session_json_of_def reading number_field_def bool_schema_def list_all_iff)
qed

interpretation second_factors: codec mfa_method_json mfaMethodSchema "\<lambda>_. True"
proof
  fix m :: "mfa_method \<times> seconds"
  have "fst m = Totp" by (cases "fst m") simp
  then show "mfaMethodSchema (mfa_method_json m) = Some m"
    by (cases m) (simp add: mfaMethodSchema_def mfa_method_json_def method_totp_def number_field_def reading)
qed

interpretation portal_services: codec "\<lambda>(n, c, url). JObj [(''name'', JStr n), (''clientId'', JStr c), (''loginUrl'', JStr url)]"
    portalServiceSchema "\<lambda>_. True"
  by unfold_locales (auto simp: portalServiceSchema_def reading)

interpretation portal_tenants: codec portal_tenant_json portalTenantSchema "\<lambda>_. True"
proof
  fix t :: "string \<times> string \<times> (string \<times> string \<times> string) list"
  obtain slug name services where t: "t = (slug, name, services)" by (cases t)
  show "portalTenantSchema (portal_tenant_json t) = Some t"
    using portal_services.decode_list [of services]
    by (simp add: t portalTenantSchema_def portal_tenant_json_def reading list_all_iff)
qed

interpretation return_targets: codec return_to_json logoutReturnToSchema "\<lambda>_. True"
  by unfold_locales (simp add: logoutReturnToSchema_def return_to_json_def reading)

text \<open>A message is a text, unless the address named an inherited property.\<close>

definition plain_message :: "json option \<Rightarrow> bool" where
  "plain_message m = (case m of None \<Rightarrow> True | Some (JStr _) \<Rightarrow> True | Some _ \<Rightarrow> False)"

lemma optional_text_read:
  "json_field k j = m \<Longrightarrow> optional_text k j = (if plain_message m then Some m else None)"
  by (cases m) (auto simp: optional_text_def optional_field_def plain_message_def json_string_def split: json.split)

lemma message_plain: "plain_message (errorMessageOf e) \<longleftrightarrow> e \<noteq> Some ''__proto__''"
  by (cases e) (auto simp: errorMessageOf_def plain_message_def ERROR_KINDS_def)

lemma no_field [simp]: "json_field k (JObj []) = None" "json_string None = None"
  by (simp_all add: json_field_def json_string_def)

lemma screens_read:
  "\<exists>j. screen_body (Login_context rid csrf m) = Some j \<and>
     loginApiResponseSchema j = (if plain_message m then Some (Login_context rid csrf m) else None)"
  "\<exists>j. screen_body (Login_redirect p) = Some j \<and> loginApiResponseSchema j = Some (Login_redirect p)"
  "\<exists>j. screen_body (Challenge_context csrf m) = Some j \<and>
     loginChallengeResponseSchema j = (if plain_message m then Some (Challenge_context csrf m) else None)"
  "\<exists>j. screen_body (Setup_context x) = Some j \<and>
     mfaSetupResponseSchema j = (if plain_message (sb_message x) then Some (Setup_context x) else None)"
  "\<exists>j. screen_body (Logout_context signed_in csrf' target) = Some j \<and>
     logoutResponseSchema j = Some (Logout_context signed_in csrf' target)"
  "list_all (\<lambda>y. short_id (sj_id y)) xs \<Longrightarrow> \<exists>j. screen_body (Sessions_context xs ms csrf) = Some j \<and>
     sessionsResponseSchema j = Some (Sessions_context xs ms csrf)"
  "\<exists>j. screen_body (Portal_context email ts) = Some j \<and> portalResponseSchema j = Some (Portal_context email ts)"
proof -
  show "\<exists>j. screen_body (Login_context rid csrf m) = Some j \<and>
     loginApiResponseSchema j = (if plain_message m then Some (Login_context rid csrf m) else None)"
    by (cases m) (auto simp: screen_json_defs loginApiResponseSchema_def loginRedirectResponseSchema_def
        loginContextResponseSchema_def reading optional_text_read opt_field_def)
  show "\<exists>j. screen_body (Login_redirect p) = Some j \<and> loginApiResponseSchema j = Some (Login_redirect p)"
    by (simp add: screen_json_defs loginApiResponseSchema_def loginRedirectResponseSchema_def reading)
  show "\<exists>j. screen_body (Challenge_context csrf m) = Some j \<and>
     loginChallengeResponseSchema j = (if plain_message m then Some (Challenge_context csrf m) else None)"
    by (cases m) (auto simp: screen_json_defs loginChallengeResponseSchema_def method_totp_def reading
        optional_text_read opt_field_def)
  show "\<exists>j. screen_body (Setup_context x) = Some j \<and>
     mfaSetupResponseSchema j = (if plain_message (sb_message x) then Some (Setup_context x) else None)"
    by (cases "sb_message x") (auto simp: screen_json_defs mfaSetupResponseSchema_def method_totp_def reading
        optional_text_read opt_field_def number_field_def)
  show "\<exists>j. screen_body (Logout_context signed_in csrf' target) = Some j \<and>
     logoutResponseSchema j = Some (Logout_context signed_in csrf' target)"
    by (cases csrf'; cases target) (simp_all add: screen_json_defs logoutResponseSchema_def reading opt_field_def
        optional_field_def bool_schema_def return_targets.decode_encode)
  show "\<exists>j. screen_body (Sessions_context xs ms csrf) = Some j \<and>
      sessionsResponseSchema j = Some (Sessions_context xs ms csrf)" if "list_all (\<lambda>y. short_id (sj_id y)) xs"
    using sso_rows.decode_list [OF that] second_factors.decode_list [of ms]
    by (simp add: screen_json_defs sessionsResponseSchema_def reading list_all_iff)
  show "\<exists>j. screen_body (Portal_context email ts) = Some j \<and> portalResponseSchema j = Some (Portal_context email ts)"
    using portal_tenants.decode_list [of ts]
    by (simp add: screen_json_defs portalResponseSchema_def reading list_all_iff)
qed

section \<open>apps/auth-web/app/lib/api.ts\<close>

text \<open>
  What a loader ends with: its data, an error of the API with its message, an answer outside the contract,
  or a redirect that it throws.
\<close>

datatype page_error = Page_error nat string string | Page_contract_broken | Page_network_down | Page_redirect string

type_synonym ('n, 'a) page_m = "('n, ('a, page_error) result) state"

definition error_message_of :: "json \<Rightarrow> string" where
  "error_message_of j = (case text_field ''message'' j of Some m \<Rightarrow> m | None \<Rightarrow> [])"

definition read_page :: "(json \<Rightarrow> 'a option) \<Rightarrow> browser_response \<Rightarrow> ('a, page_error) result" where
  "read_page schema r =
     (if \<not> response_ok r then Inl (case Option.bind (bs_json r) errorResponseSchema of
          Some code \<Rightarrow> Page_error (bs_status r) code (error_message_of (the (bs_json r)))
        | None \<Rightarrow> Page_error (bs_status r) ''request_failed'' [])
      else (case Option.bind (bs_json r) schema of Some v \<Rightarrow> Inr v | None \<Rightarrow> Inl Page_contract_broken))"

definition getJson :: "'n browser_fetch \<Rightarrow> (json \<Rightarrow> 'a option) \<Rightarrow> string \<Rightarrow> ('n, 'a) page_m" where
  "getJson f schema path = do {
     answer \<leftarrow> State (f \<lparr>br_method = ''GET'', br_path = path, br_headers = [(''accept'', ''application/json'')],
       br_json = None\<rparr>);
     State_Monad.return (case answer of None \<Rightarrow> Inl Page_network_down | Some r \<Rightarrow> read_page schema r)
   }"

text \<open>\<open>source\<close> is \<open>searchParams.get\<close> of the page's address; the picked parameters are a \<open>URLSearchParams\<close>.\<close>

definition pickQuery :: "(string \<Rightarrow> string option) \<Rightarrow> string list \<Rightarrow> (string \<times> string) list" where
  "pickQuery source keys = fold (\<lambda>k ps. case source k of None \<Rightarrow> ps | Some v \<Rightarrow> AList.update k v ps) keys []"

datatype 'a loaded = Loaded_form 'a | Loaded_expired string

definition loadOrExpired :: "('n, 'a) page_m \<Rightarrow> ('n, 'a loaded) page_m" where
  "loadOrExpired load = do {
     r \<leftarrow> load;
     State_Monad.return (case r of
         Inr v \<Rightarrow> Inr (Loaded_form v)
       | Inl (Page_error n code m) \<Rightarrow>
           if code = ''expired_request'' then Inr (Loaded_expired m) else Inl (Page_error n code m)
       | Inl e \<Rightarrow> Inl e)
   }"

definition loadOrLogin :: "('n, 'a) page_m \<Rightarrow> ('n, 'a) page_m" where
  "loadOrLogin load = do {
     r \<leftarrow> load;
     State_Monad.return (case r of
         Inl (Page_error n code m) \<Rightarrow> if n = 401 then Inl (Page_redirect ''/login'') else Inl (Page_error n code m)
       | _ \<Rightarrow> r)
   }"

section \<open>The loaders of the screens\<close>

text \<open>\<open>search\<close> is the query part of the page's address, with its question mark.\<close>

definition api_address :: "string \<Rightarrow> (string \<times> string) list \<Rightarrow> string" where
  "api_address path params = path @ ''?'' @ url_search_params params"

definition login_loader :: "'n browser_fetch \<Rightarrow> string \<Rightarrow> ('n, auth_body loaded) page_m" where
  "login_loader f search = loadOrExpired (do {
     r \<leftarrow> getJson f loginApiResponseSchema (api_address ''/api/login'' (pickQuery (query_of search) [''rid'', ''error'']));
     State_Monad.return (case r of Inr (Login_redirect p) \<Rightarrow> Inl (Page_redirect p) | _ \<Rightarrow> r)
   })"

definition shown_mid :: "(string \<times> string) list \<Rightarrow> string" where
  "shown_mid params = (case map_of params ''mid'' of Some m \<Rightarrow> m | None \<Rightarrow> [])"

definition code_loader ::
  "(json \<Rightarrow> auth_body option) \<Rightarrow> string \<Rightarrow> 'n browser_fetch \<Rightarrow> string \<Rightarrow> ('n, (string \<times> auth_body) loaded) page_m" where
  "code_loader schema path f search =
     (let params = pickQuery (query_of search) [''mid'', ''error'']
      in loadOrExpired (do {
        r \<leftarrow> getJson f schema (api_address path params);
        State_Monad.return (map_sum id (Pair (shown_mid params)) r)
      }))"

definition challenge_loader :: "'n browser_fetch \<Rightarrow> string \<Rightarrow> ('n, (string \<times> auth_body) loaded) page_m" where
  "challenge_loader = code_loader loginChallengeResponseSchema ''/api/login/challenge''"

definition mfa_setup_loader :: "'n browser_fetch \<Rightarrow> string \<Rightarrow> ('n, (string \<times> auth_body) loaded) page_m" where
  "mfa_setup_loader = code_loader mfaSetupResponseSchema ''/api/login/mfa-setup''"

definition logout_loader :: "'n browser_fetch \<Rightarrow> string \<Rightarrow> ('n, auth_body) page_m" where
  "logout_loader f search = getJson f logoutResponseSchema
     (api_address ''/api/logout'' (pickQuery (query_of search) [''client_id'', ''tenant'']))"

definition security_loader :: "'n browser_fetch \<Rightarrow> ('n, auth_body) page_m" where
  "security_loader f = loadOrLogin (getJson f sessionsResponseSchema ''/api/sessions'')"

definition portal_loader :: "'n browser_fetch \<Rightarrow> ('n, auth_body) page_m" where
  "portal_loader f = loadOrLogin (getJson f portalResponseSchema ''/api/portal'')"

section \<open>The forms\<close>

text \<open>The fields a submitted form sends, in the order of the page; the first two are hidden.\<close>

definition login_fields :: "string \<Rightarrow> string \<Rightarrow> string \<Rightarrow> string \<Rightarrow> (string \<times> string) list" where
  "login_fields rid csrf username password =
     [(''rid'', rid), (''csrf'', csrf), (''username'', username), (''password'', password)]"

definition code_fields :: "string \<Rightarrow> string \<Rightarrow> string \<Rightarrow> (string \<times> string) list" where
  "code_fields mid csrf code = [(''mid'', mid), (''csrf'', csrf), (''code'', code)]"

definition logout_fields :: "string \<Rightarrow> string option \<Rightarrow> (string \<times> string) list" where
  "logout_fields search csrf =
     [(''csrf'', case csrf of Some c \<Rightarrow> c | None \<Rightarrow> [])] @
     (case query_of search ''client_id'' of Some c \<Rightarrow> [(''client_id'', c)] | None \<Rightarrow> []) @
     (case query_of search ''tenant'' of Some t \<Rightarrow> [(''tenant'', t)] | None \<Rightarrow> [])"

definition revoke_fields :: "string \<Rightarrow> session_json \<Rightarrow> (string \<times> string) list" where
  "revoke_fields csrf x = [(''csrf'', csrf), (''session_id'', sj_id x)]"

text \<open>The sessions that have a revocation form: all but the one of this browser.\<close>

definition revocable :: "session_json list \<Rightarrow> session_json list" where
  "revocable xs = filter (\<lambda>x. \<not> sj_current x) xs"

section \<open>mfa-setup.route.tsx\<close>

text \<open>
  The countdown of the registration screen. When it reaches zero the screen asks once for a new secret; the
  form can be sent while the countdown is positive. \<open>now_ms\<close> is the browser's clock.
\<close>

definition remainingSeconds :: "int \<Rightarrow> int \<Rightarrow> int" where
  "remainingSeconds expires now_ms = max 0 (expires - now_ms div 1000)"

record setup_page =
  se_mid :: string
  se_setup :: setup_body
  se_seconds :: int
  se_renew_error :: "string option"

definition setup_opened :: "string \<Rightarrow> setup_body \<Rightarrow> int \<Rightarrow> setup_page" where
  "setup_opened mid b now_ms = \<lparr>se_mid = mid, se_setup = b,
     se_seconds = remainingSeconds (tv_expires_at (sb_view b)) now_ms, se_renew_error = None\<rparr>"

definition setup_tick :: "int \<Rightarrow> setup_page \<Rightarrow> setup_page" where
  "setup_tick now_ms pg = pg\<lparr>se_seconds := remainingSeconds (tv_expires_at (sb_view (se_setup pg))) now_ms\<rparr>"

definition setup_renew :: "'n browser_fetch \<Rightarrow> int \<Rightarrow> setup_page \<Rightarrow> ('n, setup_page) state" where
  "setup_renew f now_ms pg = do {
     r \<leftarrow> getJson f mfaSetupResponseSchema (''/api/login/mfa-setup?mid='' @ encode_uri (se_mid pg) @ ''&renew=1'');
     State_Monad.return (case r of
         Inr (Setup_context b) \<Rightarrow> setup_tick now_ms (pg\<lparr>se_setup := b\<rparr>)
       | Inl (Page_error _ _ m) \<Rightarrow> pg\<lparr>se_renew_error := Some m\<rparr>
       | _ \<Rightarrow> pg\<lparr>se_renew_error := Some ''error''\<rparr>)
   }"

text \<open>The effect runs at first and when the number of seconds has changed, not at every tick.\<close>

definition setup_effect :: "'n browser_fetch \<Rightarrow> int \<Rightarrow> int option \<Rightarrow> setup_page \<Rightarrow> ('n, setup_page) state" where
  "setup_effect f now_ms before pg =
     (if before \<noteq> Some (se_seconds pg) \<and> se_seconds pg \<le> 0 then setup_renew f now_ms pg else State_Monad.return pg)"

definition setup_submittable :: "setup_page \<Rightarrow> bool" where "setup_submittable pg = (se_seconds pg \<noteq> 0)"

section \<open>The browser on the authorization server\<close>

text \<open>The network and the cookies of one browser; an answer's cookies are kept before the next request.\<close>

record 'c auth_browser =
  ab_net :: "'c auth_net"
  ab_jar :: form

definition kept_cookies :: "auth_cookie list \<Rightarrow> form \<Rightarrow> form" where
  "kept_cookies cs jar = fold (\<lambda>c jar. case c of Write_cookie n v _ \<Rightarrow> jar(n \<mapsto> v) | Clear_cookie n _ _ \<Rightarrow> jar(n := None)) cs jar"

definition answer_cookies :: "site_answer \<Rightarrow> auth_cookie list" where
  "answer_cookies a = (case a of Route r \<Rightarrow> snd r | _ \<Rightarrow> [])"

definition browse ::
  "('c, 'z) auth_env_scheme \<Rightarrow> auth_site \<Rightarrow> site_request \<Rightarrow> 'c auth_browser \<Rightarrow> site_answer \<times> 'c auth_browser" where
  "browse env site q b =
     (let (a, n) = auth_app env site (q\<lparr>sq_cookies := ab_jar b\<rparr>) (ab_net b)
      in (a, \<lparr>ab_net = n, ab_jar = kept_cookies (answer_cookies a) (ab_jar b)\<rparr>))"

definition page_request :: "request_environment \<Rightarrow> string \<Rightarrow> string \<Rightarrow> string option \<Rightarrow> site_request" where
  "page_request e verb address body =
     \<lparr>sq_method = verb, sq_path = takeWhile (\<lambda>c. c \<noteq> CHR ''?'') address,
      sq_query = query_of (dropWhile (\<lambda>c. c \<noteq> CHR ''?'') address), sq_authorization = None, sq_cookies = (\<lambda>_. None),
      sq_env = e, sq_body = body\<rparr>"

definition site_response :: "site_answer \<Rightarrow> browser_response" where
  "site_response a =
     (case a of
        Route r \<Rightarrow> screen_response (fst r)
      | Screen _ \<Rightarrow> \<lparr>bs_status = 200, bs_json = None\<rparr>
      | Too_many_requests _ \<Rightarrow> \<lparr>bs_status = 429, bs_json = Some (error_json ''too_many_requests'')\<rparr>)"

definition auth_fetch ::
  "('c, 'z) auth_env_scheme \<Rightarrow> auth_site \<Rightarrow> request_environment \<Rightarrow> 'c auth_browser browser_fetch" where
  "auth_fetch env site e rq b =
     (let (a, b') = browse env site (page_request e (br_method rq) (br_path rq) None) b in (Some (site_response a), b'))"

definition form_post ::
  "('c, 'z) auth_env_scheme \<Rightarrow> auth_site \<Rightarrow> request_environment \<Rightarrow> string \<Rightarrow> (string \<times> string) list \<Rightarrow>
   'c auth_browser \<Rightarrow> site_answer \<times> 'c auth_browser" where
  "form_post env site e path inputs = browse env site (page_request e ''POST'' path (Some (url_search_params inputs)))"

lemma picked: "map_of (pickQuery source keys) k = (if k \<in> set keys then source k else None)"
proof -
  have "map_of (fold (\<lambda>k ps. case source k of None \<Rightarrow> ps | Some v \<Rightarrow> AList.update k v ps) keys ps) k =
      (if k \<in> set keys \<and> source k \<noteq> None then source k else map_of ps k)" for ps
    by (induction keys arbitrary: ps) (auto simp: update_conv' split: option.split)
  then show ?thesis by (simp add: pickQuery_def)
qed

lemma address_query:
  assumes "CHR ''?'' \<notin> set path"
  shows "takeWhile (\<lambda>c. c \<noteq> CHR ''?'') (api_address path ps) = path"
    "query_of (dropWhile (\<lambda>c. c \<noteq> CHR ''?'') (api_address path ps)) = map_of ps"
proof -
  have "takeWhile (\<lambda>c. c \<noteq> CHR ''?'') path = path" "dropWhile (\<lambda>c. c \<noteq> CHR ''?'') path = []"
    using assms by auto
  then show "takeWhile (\<lambda>c. c \<noteq> CHR ''?'') (api_address path ps) = path"
    "query_of (dropWhile (\<lambda>c. c \<noteq> CHR ''?'') (api_address path ps)) = map_of ps"
    by (simp_all add: api_address_def query_of_def takeWhile_append dropWhile_append)
qed

section \<open>From the login screen to the password check\<close>

lemma kv_get_live: "kv_value t m k = Some v \<Longrightarrow> kv_get t k m = (Some v, m)"
  by (auto simp: kv_value_def kv_view_def kv_get_def kv_live_def split: option.splits if_splits)

lemma csrf_issued:
  assumes "run_state (issue_csrf env secure body) s = (reply, s1)"
  shows "\<exists>c csrf. reply = (Body 200 (body csrf), [write_csrf secure c]) \<and>
    kv_value (now s1) (csrf_tokens s1) (keyOf env c) = Some csrf \<and>
    now s1 = now s \<and> authz_requests s1 = authz_requests s"
  using assms
  by (auto simp: issue_csrf_def issueCsrfToken_def random_token_def run_random run_on_store CSRF_TOKEN_TTL_SECONDS_def)

lemma login_form_served:
  assumes "run_state (api_login_route env secure hx rp err) s = ((Body 200 (Login_context rid csrf m), cs), s1)"
  shows "rid = (case rp of None \<Rightarrow> [] | Some r \<Rightarrow> r) \<and> m = errorMessageOf err \<and>
    (\<exists>c. cs = [write_csrf secure c] \<and> kv_value (now s1) (csrf_tokens s1) (keyOf env c) = Some csrf) \<and>
    (rid \<noteq> [] \<longrightarrow> kv_value (now s1) (authz_requests s1) (keyOf env rid) \<noteq> None)"
proof -
  let ?rid = "case rp of None \<Rightarrow> [] | Some r \<Rightarrow> r"
  let ?body = "\<lambda>csrf. Login_context ?rid csrf (errorMessageOf err)"
  obtain s0 where run: "run_state (issue_csrf env secure ?body) s0 = ((Body 200 (Login_context rid csrf m), cs), s1)"
      and pending: "?rid \<noteq> [] \<longrightarrow> kv_value (now s0) (authz_requests s0) (keyOf env ?rid) \<noteq> None"
  proof (cases "?rid = []")
    case True
    then show thesis
      using assms that by (auto simp: api_login_route_def Let_def case_prod_beta split: if_splits)
  next
    case False
    then show thesis
      using assms that
      by (auto simp: api_login_route_def Let_def case_prod_beta loadPendingAuthorization_def run_on_store split: if_splits)
  qed
  from csrf_issued [OF run] pending show ?thesis by auto
qed

definition login_answer :: "string \<Rightarrow> (login_outcome, cognito_auth_error) result \<Rightarrow> string" where
  "login_answer rid r =
     (case r of Inl e \<Rightarrow> withQuery ''/login'' [(''error'', Some (auth_error_kind e)), (''rid'', Some rid)]
      | Inr x \<Rightarrow> login_next x)"

lemma served_form_logs_in:
  assumes "kv_value (now s) (csrf_tokens s) (keyOf env c) = Some csrf" "hx_csrf hx = Some c" "csrf \<noteq> []"
    and "rid \<noteq> [] \<longrightarrow> kv_value (now s) (authz_requests s) (keyOf env rid) \<noteq> None"
    and "bounded 256 (Some u) = Some u" "bounded 256 (Some p) = Some p"
  shows "run_state (login_route env hx (form_of (login_fields rid csrf u p))) s =
    (let (r, s') = run_state (login env \<lparr>cr_username = u, cr_password = p\<rparr> (hx_env hx) rid) s
     in ((Go 303 (login_answer rid r), []), s'))"
proof -
  let ?lf = "\<lparr>lf_rid = rid, lf_csrf = csrf, lf_username = u, lf_password = p\<rparr>"
  have parsed: "loginFormSchema (form_of (login_fields rid csrf u p)) = Some ?lf"
    using assms(3,5,6) by (simp add: loginFormSchema_def form_of_def login_fields_def min1_def)
  have checked: "run_state (verifyCsrfToken env (hx_csrf hx) (Some csrf)) s = (True, s)"
    by (simp add: verifyCsrfToken_def assms(2) run_on_store kv_get_live [OF assms(1)] timingSafeEqualString_iff)
  have "run_state (loadPendingAuthorization env rid) s = (kv_value (now s) (authz_requests s) (keyOf env rid), s)" if "rid \<noteq> []"
    using assms(4) that by (auto simp: loadPendingAuthorization_def run_on_store kv_get_live)
  then show ?thesis
    using assms(4)
    by (auto simp: login_route_def parsed rejectInvalidCsrf_def checked case_prod_beta login_answer_def split: sum.split)
qed

definition login_request :: "request_environment \<Rightarrow> string \<Rightarrow> site_request" where
  "login_request e search = page_request e ''GET''
     (api_address ''/api/login'' (pickQuery (query_of search) [''rid'', ''error''])) None"

lemma login_request_answered:
  assumes "browse env site (login_request e search) b = (a, b')"
  obtains k where "a = Too_many_requests k"
  | reply hx where "a = Route reply" "ab_jar b' = kept_cookies (snd reply) (ab_jar b)"
      "run_state (api_login_route env (sx_secure site) hx (query_of search ''rid'') (query_of search ''error''))
        (an_state (ab_net b)) = (reply, an_state (ab_net b'))"
proof -
  let ?q = "login_request e search\<lparr>sq_cookies := ab_jar b\<rparr>"
  have path: "sq_method ?q = ''GET''" "sq_path ?q = ''/api/login''"
      "sq_query ?q ''rid'' = query_of search ''rid''" "sq_query ?q ''error'' = query_of search ''error''"
    by (simp_all add: login_request_def page_request_def address_query picked)
  have route: "auth_routes env site ?q = do { r \<leftarrow> api_login_route env (sx_secure site) (http_of site ?q)
      (query_of search ''rid'') (query_of search ''error''); State_Monad.return (Route r) }"
    using path by (simp add: auth_routes_def routes_of_def get_routes_def Let_def)
  show thesis
  proof (cases "fst (pass_limiters (an_wall (ab_net b)) ?q (limiters_of site ?q) (an_counters (ab_net b)))")
    case False
    then show thesis using assms that(1) by (auto simp: browse_def auth_app_def case_prod_beta Let_def)
  next
    case True
    let ?run = "run_state (api_login_route env (sx_secure site) (http_of site ?q) (query_of search ''rid'')
      (query_of search ''error'')) (an_state (ab_net b))"
    have "a = Route (fst ?run)" "ab_jar b' = kept_cookies (snd (fst ?run)) (ab_jar b)" "an_state (ab_net b') = snd ?run"
      using assms True by (auto simp: browse_def auth_app_def case_prod_beta Let_def route answer_cookies_def)
    then show thesis by (intro that(2) [of "fst ?run" "http_of site ?q"]) simp_all
  qed
qed

text \<open>What the loader makes of the answer.\<close>

definition login_loaded :: "site_answer \<Rightarrow> (auth_body loaded, page_error) result" where
  "login_loaded a =
     (case a of
        Route (Body _ (Login_redirect p), _) \<Rightarrow> Inl (Page_redirect p)
      | Route (Body _ (Login_context rid csrf m), _) \<Rightarrow>
          if plain_message m then Inr (Loaded_form (Login_context rid csrf m)) else Inl Page_contract_broken
      | Route (Failure _ _, _) \<Rightarrow> Inr (Loaded_expired EXPIRED_MESSAGE)
      | _ \<Rightarrow> Inl (Page_error 429 ''too_many_requests'' []))"

lemma login_answers:
  assumes "run_state (api_login_route env secure hx rp err) s = (reply, s')"
  obtains "reply = (Failure 400 ''expired_request'', [])" | "reply = (Body 200 (Login_redirect ''/''), [])"
  | rid csrf m cs where "reply = (Body 200 (Login_context rid csrf m), cs)"
  using assms
  by (auto simp: api_login_route_def issue_csrf_def Let_def case_prod_beta split: if_splits)

lemma login_loader_run:
  "run_state (login_loader (auth_fetch env site e) search) b =
     (let (a, b') = browse env site (login_request e search) b in (login_loaded a, b'))"
proof -
  obtain a b' where step: "browse env site (login_request e search) b = (a, b')" by (cases "browse env site (login_request e search) b")
  let ?p = "\<lparr>br_method = ''GET'', br_path = api_address ''/api/login'' (pickQuery (query_of search) [''rid'', ''error'']),
    br_headers = [(''accept'', ''application/json'')], br_json = None\<rparr>"
  have fetched: "auth_fetch env site e ?p b = (Some (site_response a), b')"
    using step by (simp add: auth_fetch_def login_request_def)
  have got: "run_state (getJson (auth_fetch env site e) loginApiResponseSchema (br_path ?p)) b =
      (read_page loginApiResponseSchema (site_response a), b')"
    by (simp add: getJson_def fetched)
  let ?r = "read_page loginApiResponseSchema (site_response a)"
  have run: "run_state (login_loader (auth_fetch env site e) search) b =
      (case (case ?r of Inr (Login_redirect p) \<Rightarrow> Inl (Page_redirect p) | _ \<Rightarrow> ?r) of
         Inr v \<Rightarrow> Inr (Loaded_form v)
       | Inl (Page_error n code m) \<Rightarrow> if code = ''expired_request'' then Inr (Loaded_expired m) else Inl (Page_error n code m)
       | Inl x \<Rightarrow> Inl x, b')"
    using got by (simp add: login_loader_def loadOrExpired_def)
  show ?thesis
    using step
  proof (cases rule: login_request_answered)
    case (1 k)
    then show ?thesis
      by (simp add: run step read_page_def login_loaded_def site_response_def response_ok_def error_json_def errorResponseSchema_def
          optional_field_def error_message_of_def text_field_def)
  next
    case (2 reply hx)
    from 2(3) show ?thesis
    proof (cases rule: login_answers)
      case 1
      then show ?thesis
        by (simp add: run step read_page_def 2(1) login_loaded_def site_response_def screen_response_def wire_status_def response_ok_def
            errorResponseSchema_def optional_field_def error_message_of_def text_field_def)
    next
      case r: 2
      obtain j where "screen_body (Login_redirect ''/'') = Some j" "loginApiResponseSchema j = Some (Login_redirect ''/'')"
        using screens_read(2) by blast
      then show ?thesis
        by (simp add: run step read_page_def 2(1) r login_loaded_def site_response_def screen_response_def wire_status_def response_ok_def)
    next
      case (3 rid csrf m cs)
      obtain j where "screen_body (Login_context rid csrf m) = Some j"
          "loginApiResponseSchema j = (if plain_message m then Some (Login_context rid csrf m) else None)"
        using screens_read(1) by blast
      then show ?thesis
        by (simp add: run step read_page_def 2(1) 3 login_loaded_def site_response_def screen_response_def wire_status_def response_ok_def)
    qed
  qed
qed

lemma login_loaded_form:
  assumes "run_state (login_loader (auth_fetch env site e) search) b = (Inr (Loaded_form (Login_context rid csrf m)), b1)"
  obtains cs hx where "ab_jar b1 = kept_cookies cs (ab_jar b)"
    "run_state (api_login_route env (sx_secure site) hx (query_of search ''rid'') (query_of search ''error''))
      (an_state (ab_net b)) = ((Body 200 (Login_context rid csrf m), cs), an_state (ab_net b1))"
proof -
  obtain a where step: "browse env site (login_request e search) b = (a, b1)" and
      loaded: "login_loaded a = Inr (Loaded_form (Login_context rid csrf m))"
    using assms by (auto simp: login_loader_run case_prod_beta prod_eq_iff)
  from step show thesis
  proof (cases rule: login_request_answered)
    case (1 k)
    then show ?thesis using loaded by (simp add: login_loaded_def)
  next
    case (2 reply hx)
    from 2(3) show ?thesis
    proof (cases rule: login_answers)
      case (3 rid' csrf' m' cs)
      then show ?thesis using loaded 2 that [of cs hx] by (simp add: login_loaded_def split: if_splits)
    qed (use loaded 2 in \<open>simp_all add: login_loaded_def\<close>)
  qed
qed

lemma login_error_address:
  "query_of (dropWhile (\<lambda>c. c \<noteq> CHR ''?'') (login_answer rid (Inl err))) ''rid'' = min1 (Some rid)"
proof -
  have kind: "auth_error_kind err \<noteq> []" by (cases err) (simp_all add: auth_error_kind_def)
  have "login_answer rid (Inl err) =
      api_address ''/login'' ((''error'', auth_error_kind err) # (if rid = [] then [] else [(''rid'', rid)]))"
    using kind by (simp add: login_answer_def withQuery_def api_address_def map_filter_simps Let_def)
  then show ?thesis by (simp add: address_query min1_def)
qed


text \<open>
  The one address that breaks the login screen. The screen fails on an answer outside the contract
  exactly when the server would show its form and the \<open>error\<close> parameter of the address is
  \<open>__proto__\<close>: the server then writes an object where the contract has a text.
\<close>

theorem login_page_breaks_iff:
  "fst (run_state (login_loader (auth_fetch env site e) search) b) = Inl Page_contract_broken \<longleftrightarrow>
     query_of search ''error'' = Some ''__proto__'' \<and>
     (\<exists>rid csrf m cs. fst (browse env site (login_request e search) b) = Route (Body 200 (Login_context rid csrf m), cs))"
proof -
  obtain a b1 where step: "browse env site (login_request e search) b = (a, b1)" by (cases "browse env site (login_request e search) b")
  have "fst (run_state (login_loader (auth_fetch env site e) search) b) = login_loaded a"
    by (simp add: login_loader_run step)
  from step show ?thesis
  proof (cases rule: login_request_answered)
    case (1 k)
    then show ?thesis by (simp add: login_loader_run step login_loaded_def)
  next
    case (2 reply hx)
    from 2(3) show ?thesis
    proof (cases rule: login_answers)
      case (3 rid csrf m cs)
      then have "m = errorMessageOf (query_of search ''error'')" using login_form_served 2(3) by blast
      then show ?thesis by (simp add: login_loader_run step 2(1) 3 login_loaded_def message_plain)
    qed (simp_all add: login_loader_run step 2(1) login_loaded_def)
  qed
qed

text \<open>
  The registration screen: with clocks that agree, its form can be sent exactly while the server still
  takes codes for the shown secret. A browser whose clock is ahead by the life of a secret never gets to
  send it: every secret it is given has expired on arrival, and the screen asks for a new one only once.
\<close>

lemma setup_form_in_time:
  assumes "tv_expires_at (sb_view b) = issued + TOTP_SETUP_TTL_SECONDS"
  shows "setup_submittable (setup_opened mid b now_ms) \<longleftrightarrow> \<not> issued + TOTP_SETUP_TTL_SECONDS \<le> now_ms div 1000"
  by (auto simp: setup_submittable_def setup_opened_def remainingSeconds_def assms max_def)

lemma setup_clock_ahead:
  assumes "tv_expires_at (sb_view b) \<le> now_ms div 1000"
  shows "\<not> setup_submittable (setup_opened mid b now_ms)"
    "run_state (setup_effect f later (Some (se_seconds (setup_opened mid b now_ms))) (setup_opened mid b now_ms)) s =
      (setup_opened mid b now_ms, s)"
  using assms by (simp_all add: setup_submittable_def setup_opened_def remainingSeconds_def setup_effect_def)

section \<open>Witnesses\<close>

definition fx_visitor :: "unit auth_browser" where
  "fx_visitor = \<lparr>ab_net = \<lparr>an_state = fx_state, an_counters = counter_empty, an_wall = 1010000\<rparr>, ab_jar = (\<lambda>_. None)\<rparr>"


definition fx_visitor_env :: request_environment where
  "fx_visitor_env = \<lparr>env_ip = ''1.1.1.1'', env_user_agent = []\<rparr>"

lemma fx_admitted:
  assumes "sq_method q = ''GET''" "sq_path q = ''/api/login''"
  shows "fst (pass_limiters 1010000 q (limiters_of fx_site q) counter_empty)"
proof -
  have "limiters_of fx_site q =
      [on_any ''/api/login'' ''login'' RATE_LIMIT_LOGIN, on_any ''/api/login/*'' ''login'' RATE_LIMIT_LOGIN]"
    using assms by (simp add: limiters_of_def auth_limiters_def on_any_def fx_site_def wildcard_match_def)
  then show ?thesis
    by (simp add: rateLimit_def on_any_def RATE_LIMIT_LOGIN_def counter_increment_def counter_empty_def Let_def
        limit_subject_def SWEEP_EVERY_def)
qed

lemma fx_login_shown:
  "\<exists>csrf b1. run_state (login_loader (auth_fetch fx_env fx_site fx_visitor_env) []) fx_visitor =
     (Inr (Loaded_form (Login_context [] csrf None)), b1) \<and> csrf \<noteq> []"
proof -
  let ?q = "login_request fx_visitor_env []\<lparr>sq_cookies := ab_jar fx_visitor\<rparr>"
  have none: "query_of [] = (\<lambda>_. None)" by (simp add: query_of_def form_decode_def fun_eq_iff)
  have q: "sq_method ?q = ''GET''" "sq_path ?q = ''/api/login''" "sq_query ?q ''rid'' = None" "sq_query ?q ''error'' = None"
      "hx_sso (http_of fx_site ?q) = None"
    by (simp_all add: login_request_def page_request_def address_query picked none http_of_def fx_visitor_def)
  have csrf: "randomToken (random_bytes fx_env 1 TOKEN_BYTES) \<noteq> []" by code_simp
  obtain c s1 where "run_state (api_login_route fx_env True (http_of fx_site ?q) None None) fx_state =
      ((Body 200 (Login_context [] (randomToken (random_bytes fx_env 1 TOKEN_BYTES)) None), c), s1)"
    by (simp add: api_login_route_def Let_def loadSsoSession_def q issue_csrf_def issueCsrfToken_def random_token_def
        run_random run_on_store errorMessageOf_def fx_state_def)
  then have "run_state (auth_routes fx_env fx_site ?q) fx_state =
      (Route (Body 200 (Login_context [] (randomToken (random_bytes fx_env 1 TOKEN_BYTES)) None), c), s1)"
    using q by (simp add: auth_routes_def routes_of_def get_routes_def Let_def) (simp add: fx_site_def)
  moreover have "fst (pass_limiters (an_wall (ab_net fx_visitor)) ?q (limiters_of fx_site ?q) (an_counters (ab_net fx_visitor)))"
    using fx_admitted [OF q(1,2)] by (simp add: fx_visitor_def)
  ultimately have "\<exists>b1. browse fx_env fx_site (login_request fx_visitor_env []) fx_visitor =
      (Route (Body 200 (Login_context [] (randomToken (random_bytes fx_env 1 TOKEN_BYTES)) None), c), b1)"
    by (simp add: browse_def auth_app_def Let_def case_prod_beta fx_visitor_def)
  then show ?thesis
    using csrf by (auto simp: login_loader_run login_loaded_def plain_message_def)
qed


end
