(* ===== verification/Config.thy ===== *)
theory Config
  imports AuthScreens MockCognito CognitoSdk RedisStore
begin

text \<open>
  The configuration of the processes: packages/shared/src/env.ts and the config.ts of the authorization
  server, of the services' web servers and of their APIs, as functions of the environment variables, and
  what main.ts of the authorization server makes of its configuration. A configuration is refused with the
  names of the variables at fault. What zod leaves to the platform (numbers, URLs, JSON, e-mail addresses)
  are parameters.
\<close>

section \<open>env.ts\<close>

type_synonym env_vars = "string \<Rightarrow> string option"

record env_tools =
  et_number :: "string \<Rightarrow> int option"
  et_is_url :: "string \<Rightarrow> bool"
  et_is_email :: "string \<Rightarrow> bool"
  et_json :: "string \<Rightarrow> json option"

text \<open>\<open>parseEnv\<close>: the names of the fields that fail, in the order of the schema; \<open>et_number\<close> is \<open>Number\<close> on an integer.\<close>

definition parseEnv :: "(string \<times> bool) list \<Rightarrow> 'a \<Rightarrow> ('a, string list) result" where
  "parseEnv checks cfg =
     (let failed = map fst (filter (\<lambda>c. \<not> snd c) checks) in if failed = [] then Inr cfg else Inl failed)"

definition required :: "(string \<Rightarrow> bool) \<Rightarrow> string option \<Rightarrow> bool" where
  "required ok v = (case v of None \<Rightarrow> False | Some s \<Rightarrow> ok s)"

definition if_given :: "(string \<Rightarrow> bool) \<Rightarrow> string option \<Rightarrow> bool" where
  "if_given ok v = (case v of None \<Rightarrow> True | Some s \<Rightarrow> ok s)"

definition nonempty :: "string \<Rightarrow> bool" where "nonempty s = (s \<noteq> [])"

definition given :: "string option \<Rightarrow> string" where "given v = (case v of None \<Rightarrow> [] | Some s \<Rightarrow> s)"

definition port_number :: "env_tools \<Rightarrow> string option \<Rightarrow> int option" where
  "port_number tools v =
     Option.bind v (\<lambda>s. case et_number tools s of Some n \<Rightarrow> if n > 0 then Some n else None | None \<Rightarrow> None)"

definition jsonArrayEnv :: "env_tools \<Rightarrow> (json \<Rightarrow> 'a option) \<Rightarrow> string \<Rightarrow> 'a list option" where
  "jsonArrayEnv tools item s = Option.bind (et_json tools s) (arrayOf item)"

definition clientSecretEnv :: "string \<Rightarrow> bool" where "clientSecretEnv s = (43 \<le> length s)"

section \<open>The configuration of the authorization server\<close>

definition filled_field :: "string \<Rightarrow> json \<Rightarrow> string option" where
  "filled_field k j = Option.bind (text_field k j) (\<lambda>s. if s = [] then None else Some s)"

definition mockCognitoUserSchema :: "env_tools \<Rightarrow> json \<Rightarrow> mock_user option" where
  "mockCognitoUserSchema tools j = do {
     username \<leftarrow> filled_field ''username'' j;
     password \<leftarrow> filled_field ''password'' j;
     sub \<leftarrow> filled_field ''sub'' j;
     email \<leftarrow> Option.bind (text_field ''email'' j) (\<lambda>s. if et_is_email tools s then Some s else None);
     name \<leftarrow> optional_field (\<lambda>v. json_string (Some v)) ''name'' j;
     totp \<leftarrow> optional_field (\<lambda>v. Option.bind (json_string (Some v)) (\<lambda>s.
       if s \<noteq> [] \<and> list_all (\<lambda>c. is_upper c \<or> char_between CHR ''2'' CHR ''7'' c) s then Some s else None)) ''totpSecret'' j;
     Some \<lparr>mu_username = username, mu_password = password, mu_sub = sub, mu_email = email, mu_name = name,
       mu_totp_secret = totp\<rparr>
   }"

datatype cognito_choice = Cognito_mock "mock_user list" | Cognito_sdk sdk_config

record auth_config =
  af_port :: int
  af_issuer :: string
  af_database_url :: string
  af_key_id :: string
  af_key :: string
  af_signing_key :: "string option"
  af_redis_url :: "string option"
  af_spa_dir :: "string option"
  af_spa_dev :: "string option"
  af_cognito :: cognito_choice

definition cookieSecure :: "auth_config \<Rightarrow> bool" where
  "cookieSecure c = prefix ''https://'' (af_issuer c)"

text \<open>The adapter is the mock unless one is named.\<close>

definition adapter_name :: "env_vars \<Rightarrow> string" where
  "adapter_name e = (case e ''COGNITO_ADAPTER'' of None \<Rightarrow> ''mock'' | Some a \<Rightarrow> a)"

definition mock_users_env :: "env_tools \<Rightarrow> env_vars \<Rightarrow> mock_user list option" where
  "mock_users_env tools e =
     (case e ''MOCK_COGNITO_USERS'' of None \<Rightarrow> Some [] | Some s \<Rightarrow> jsonArrayEnv tools (mockCognitoUserSchema tools) s)"

definition cognito_checks :: "env_tools \<Rightarrow> env_vars \<Rightarrow> (string \<times> bool) list" where
  "cognito_checks tools e =
     (if adapter_name e = ''mock'' then [(''MOCK_COGNITO_USERS'', mock_users_env tools e \<noteq> None)]
      else if adapter_name e = ''sdk'' then map (\<lambda>k. (k, required nonempty (e k)))
        [''COGNITO_REGION'', ''COGNITO_USER_POOL_ID'', ''COGNITO_CLIENT_ID'', ''COGNITO_CLIENT_SECRET'']
      else [(''COGNITO_ADAPTER'', False)])"

definition cognito_of_env :: "env_tools \<Rightarrow> env_vars \<Rightarrow> cognito_choice" where
  "cognito_of_env tools e =
     (if adapter_name e = ''sdk''
      then Cognito_sdk \<lparr>sf_region = given (e ''COGNITO_REGION''), sf_pool = given (e ''COGNITO_USER_POOL_ID''),
        sf_client = given (e ''COGNITO_CLIENT_ID''), sf_secret = given (e ''COGNITO_CLIENT_SECRET'')\<rparr>
      else Cognito_mock (case mock_users_env tools e of None \<Rightarrow> [] | Some us \<Rightarrow> us))"

definition auth_checks :: "env_tools \<Rightarrow> env_vars \<Rightarrow> (string \<times> bool) list" where
  "auth_checks tools e =
     [(''PORT'', if_given (\<lambda>s. port_number tools (Some s) \<noteq> None) (e ''PORT'')),
      (''ISSUER'', required (et_is_url tools) (e ''ISSUER'')),
      (''DATABASE_URL'', required nonempty (e ''DATABASE_URL'')),
      (''TOKEN_ENCRYPTION_KEY_ID'', required nonempty (e ''TOKEN_ENCRYPTION_KEY_ID'')),
      (''TOKEN_ENCRYPTION_KEY'', required nonempty (e ''TOKEN_ENCRYPTION_KEY'')),
      (''REDIS_URL'', if_given (et_is_url tools) (e ''REDIS_URL'')),
      (''SPA_DIR'', if_given nonempty (e ''SPA_DIR'')),
      (''SPA_DEV_SERVER_URL'', if_given (et_is_url tools) (e ''SPA_DEV_SERVER_URL''))] @ cognito_checks tools e"

definition auth_config_of :: "env_tools \<Rightarrow> env_vars \<Rightarrow> auth_config" where
  "auth_config_of tools e =
     \<lparr>af_port = (case port_number tools (e ''PORT'') of None \<Rightarrow> 3000 | Some n \<Rightarrow> n), af_issuer = given (e ''ISSUER''),
      af_database_url = given (e ''DATABASE_URL''), af_key_id = given (e ''TOKEN_ENCRYPTION_KEY_ID''),
      af_key = given (e ''TOKEN_ENCRYPTION_KEY''), af_signing_key = e ''SIGNING_KEY_PEM'',
      af_redis_url = e ''REDIS_URL'', af_spa_dir = e ''SPA_DIR'', af_spa_dev = e ''SPA_DEV_SERVER_URL'',
      af_cognito = cognito_of_env tools e\<rparr>"

text \<open>What a configuration published over https lacks.\<close>

definition auth_https_checks :: "auth_config \<Rightarrow> (string \<times> bool) list" where
  "auth_https_checks c =
     (if \<not> cookieSecure c then []
      else [(''SIGNING_KEY_PEM'', af_signing_key c \<noteq> None), (''REDIS_URL'', af_redis_url c \<noteq> None),
        (''COGNITO_ADAPTER'', case af_cognito c of Cognito_sdk _ \<Rightarrow> True | Cognito_mock _ \<Rightarrow> False),
        (''SPA_DIR'', af_spa_dir c \<noteq> None)])"

definition loadConfig :: "env_tools \<Rightarrow> env_vars \<Rightarrow> (auth_config, string list) result" where
  "loadConfig tools e =
     (case parseEnv (auth_checks tools e) (auth_config_of tools e) of
        Inl names \<Rightarrow> Inl names | Inr c \<Rightarrow> parseEnv (auth_https_checks c) c)"

section \<open>main.ts of the authorization server\<close>

text \<open>
  The process that starts: its keys (\<open>None\<close> is a signing key made at start and lost with the process), the
  Cognito adapter, where its volatile state is kept (\<open>None\<close> is its own memory) and its screens.
\<close>

record auth_process =
  ap_issuer :: string
  ap_encryption_key :: encryption_key
  ap_signing_pem :: "string option"
  ap_cognito :: cognito_choice
  ap_redis :: "string option"
  ap_secure :: bool
  ap_spa :: spa_options

datatype start_error = Bad_configuration "string list" | Bad_encryption_key

definition start_auth :: "env_tools \<Rightarrow> env_vars \<Rightarrow> (auth_process, start_error) result" where
  "start_auth tools e =
     (case loadConfig tools e of
        Inl names \<Rightarrow> Inl (Bad_configuration names)
      | Inr c \<Rightarrow>
          (case parseEncryptionKey (af_key_id c) (af_key c) of
             Inl _ \<Rightarrow> Inl Bad_encryption_key
           | Inr key \<Rightarrow> Inr \<lparr>ap_issuer = af_issuer c, ap_encryption_key = key, ap_signing_pem = af_signing_key c,
               ap_cognito = af_cognito c, ap_redis = af_redis_url c, ap_secure = cookieSecure c,
               ap_spa = spaOptionsFromEnv (af_spa_dir c) (af_spa_dev c)\<rparr>))"

section \<open>The configuration of a service's web server and of its API\<close>

definition public_scheme :: "env_vars \<Rightarrow> string" where
  "public_scheme e = (case e ''PUBLIC_SCHEME'' of None \<Rightarrow> ''http'' | Some s \<Rightarrow> s)"

definition web_checks :: "env_tools \<Rightarrow> env_vars \<Rightarrow> (string \<times> bool) list" where
  "web_checks tools e =
     [(''PORT'', port_number tools (e ''PORT'') \<noteq> None),
      (''PUBLIC_SCHEME'', public_scheme e \<in> {''http'', ''https''}),
      (''ISSUER'', required (et_is_url tools) (e ''ISSUER'')),
      (''AUTH_BACKCHANNEL_URL'', if_given (et_is_url tools) (e ''AUTH_BACKCHANNEL_URL'')),
      (''REDIS_URL'', if_given (et_is_url tools) (e ''REDIS_URL'')),
      (''CLIENT_ID'', required valid_slug (e ''CLIENT_ID'')),
      (''CLIENT_SECRET'', required clientSecretEnv (e ''CLIENT_SECRET'')),
      (''SERVICE_NAME'', required nonempty (e ''SERVICE_NAME'')),
      (''BASE_HOST'', required nonempty (e ''BASE_HOST'')),
      (''API_BASE_URL'', required (et_is_url tools) (e ''API_BASE_URL'')),
      (''SPA_DIR'', if_given nonempty (e ''SPA_DIR'')),
      (''SPA_DEV_SERVER_URL'', if_given (et_is_url tools) (e ''SPA_DEV_SERVER_URL''))]"

definition web_config_of :: "env_vars \<Rightarrow> web_core_config" where
  "web_config_of e =
     \<lparr>wc_public_scheme = public_scheme e, wc_issuer = given (e ''ISSUER''), wc_redis_url = e ''REDIS_URL'',
      wc_base_host = to_lower (given (e ''BASE_HOST'')), wc_spa_dir = e ''SPA_DIR'',
      wc_service = \<lparr>sv_client_id = given (e ''CLIENT_ID''), sv_secret = given (e ''CLIENT_SECRET''),
        sv_scopes = DEFAULT_SCOPES, sv_api_base_url = given (e ''API_BASE_URL''), sv_name = given (e ''SERVICE_NAME'')\<rparr>\<rparr>"

definition loadWebCoreConfig :: "env_tools \<Rightarrow> env_vars \<Rightarrow> (web_core_config, string list) result" where
  "loadWebCoreConfig tools e =
     (case parseEnv (web_checks tools e) (web_config_of e) of
        Inl names \<Rightarrow> Inl names
      | Inr c \<Rightarrow> if https_issues c = [] then Inr c else Inl (map fst (https_issues c)))"

record api_core_config =
  acf_port :: int
  acf_api_base_url :: string
  acf_issuer :: string
  acf_backchannel :: "string option"
  acf_database_url :: string
  acf_client_id :: string
  acf_client_secret :: string

definition api_checks :: "env_tools \<Rightarrow> env_vars \<Rightarrow> (string \<times> bool) list" where
  "api_checks tools e =
     [(''PORT'', port_number tools (e ''PORT'') \<noteq> None),
      (''API_BASE_URL'', required (et_is_url tools) (e ''API_BASE_URL'')),
      (''ISSUER'', required (et_is_url tools) (e ''ISSUER'')),
      (''AUTH_BACKCHANNEL_URL'', if_given (et_is_url tools) (e ''AUTH_BACKCHANNEL_URL'')),
      (''DATABASE_URL'', required nonempty (e ''DATABASE_URL'')),
      (''CLIENT_ID'', required valid_slug (e ''CLIENT_ID'')),
      (''CLIENT_SECRET'', required clientSecretEnv (e ''CLIENT_SECRET''))]"

definition loadApiCoreConfig :: "env_tools \<Rightarrow> env_vars \<Rightarrow> (api_core_config, string list) result" where
  "loadApiCoreConfig tools e = parseEnv (api_checks tools e)
     \<lparr>acf_port = (case port_number tools (e ''PORT'') of None \<Rightarrow> 0 | Some n \<Rightarrow> n),
      acf_api_base_url = given (e ''API_BASE_URL''), acf_issuer = given (e ''ISSUER''),
      acf_backchannel = e ''AUTH_BACKCHANNEL_URL'', acf_database_url = given (e ''DATABASE_URL''),
      acf_client_id = given (e ''CLIENT_ID''), acf_client_secret = given (e ''CLIENT_SECRET'')\<rparr>"

text \<open>Where \<open>startApiCore\<close> reaches the authorization server: its keys and its administration API.\<close>

definition auth_base :: "api_core_config \<Rightarrow> string" where
  "auth_base c = (case acf_backchannel c of None \<Rightarrow> acf_issuer c | Some u \<Rightarrow> u)"

section \<open>A published process runs on production values\<close>

lemma parseEnv_ok: "parseEnv checks c = Inr d \<longleftrightarrow> d = c \<and> list_all snd checks"
  by (auto simp: parseEnv_def Let_def filter_empty_conv list_all_iff)

lemma required_given: "required ok v \<Longrightarrow> ok (given v)"
  by (simp add: required_def given_def split: option.splits)

text \<open>
  C30: A process published over https never starts on development defaults. The authorization server sets
  the Secure attribute and the \<open>__Host-\<close> prefix exactly when its issuer begins with \<open>https://\<close>, and then
  it runs with a signing key and a Redis server it was given, with the real Cognito client and all of its
  credentials, with the built screens and a 32-byte encryption key. A service's web server on the https
  scheme has a Redis server, an issuer and an API over https and built screens; on either scheme its
  client name is a valid label and its secret has at least 43 characters.
\<close>

theorem published_on_production_values:
  assumes "start_auth tools e = Inr p" "loadWebCoreConfig web_tools web_e = Inr w"
  shows "(ap_secure p \<longleftrightarrow> prefix ''https://'' (ap_issuer p)) \<and> length (key_bytes (ap_encryption_key p)) = 32 \<and>
    (ap_secure p \<longrightarrow> ap_signing_pem p \<noteq> None \<and> ap_redis p \<noteq> None \<and> (\<exists>dir. ap_spa p = Spa_static dir \<and> dir \<noteq> []) \<and>
      (\<exists>c. ap_cognito p = Cognito_sdk c \<and> sf_region c \<noteq> [] \<and> sf_pool c \<noteq> [] \<and> sf_client c \<noteq> [] \<and> sf_secret c \<noteq> [])) \<and>
    (wc_cookie_secure w \<longrightarrow> wc_redis_url w \<noteq> None \<and> prefix ''https://'' (wc_issuer w) \<and>
      prefix ''https://'' (sv_api_base_url (wc_service w)) \<and> wc_spa_dir w \<noteq> None) \<and>
    valid_slug (sv_client_id (wc_service w)) \<and> 43 \<le> length (sv_secret (wc_service w))"
proof -
  obtain c key where c: "loadConfig tools e = Inr c" and key: "parseEncryptionKey (af_key_id c) (af_key c) = Inr key"
      and p: "ap_issuer p = af_issuer c" "ap_encryption_key p = key" "ap_signing_pem p = af_signing_key c"
        "ap_cognito p = af_cognito c" "ap_redis p = af_redis_url c" "ap_secure p = cookieSecure c"
        "ap_spa p = spaOptionsFromEnv (af_spa_dir c) (af_spa_dev c)"
    using assms(1) by (auto simp: start_auth_def split: sum.splits)
  have parsed: "c = auth_config_of tools e" "list_all snd (auth_checks tools e)" "list_all snd (auth_https_checks c)"
    using c by (auto simp: loadConfig_def parseEnv_ok split: sum.splits)
  have size: "length (key_bytes key) = 32"
    using key by (auto simp: parseEncryptionKey_def KEY_BYTES_def Let_def split: if_splits)
  have issuer: "cookieSecure c \<longleftrightarrow> prefix ''https://'' (af_issuer c)" by (simp add: cookieSecure_def)
  have secure: "af_signing_key c \<noteq> None \<and> af_redis_url c \<noteq> None \<and> (\<exists>dir. ap_spa p = Spa_static dir \<and> dir \<noteq> []) \<and>
      (\<exists>x. af_cognito c = Cognito_sdk x \<and> sf_region x \<noteq> [] \<and> sf_pool x \<noteq> [] \<and> sf_client x \<noteq> [] \<and> sf_secret x \<noteq> [])"
    if "cookieSecure c"
  proof -
    from that parsed(3) have given: "af_signing_key c \<noteq> None" "af_redis_url c \<noteq> None" "af_spa_dir c \<noteq> None"
        and sdk: "\<exists>x. af_cognito c = Cognito_sdk x"
      by (auto simp: auth_https_checks_def split: cognito_choice.splits)
    from sdk have name: "adapter_name e = ''sdk''"
      by (auto simp: parsed(1) auth_config_of_def cognito_of_env_def split: if_splits)
    from given(3) parsed(2) have "\<exists>dir. ap_spa p = Spa_static dir \<and> dir \<noteq> []"
      by (auto simp: p(7) parsed(1) auth_config_of_def auth_checks_def if_given_def nonempty_def spaOptionsFromEnv_def)
    with given sdk parsed(2) name show ?thesis
      by (auto simp: parsed(1) auth_config_of_def cognito_of_env_def auth_checks_def cognito_checks_def nonempty_def
          dest!: required_given)
  qed
  have web: "w = web_config_of web_e" "list_all snd (web_checks web_tools web_e)" "https_issues w = []"
    using assms(2) by (auto simp: loadWebCoreConfig_def parseEnv_ok split: sum.splits if_splits)
  have "wc_cookie_secure w \<longrightarrow> wc_redis_url w \<noteq> None \<and> prefix ''https://'' (wc_issuer w) \<and>
      prefix ''https://'' (sv_api_base_url (wc_service w)) \<and> wc_spa_dir w \<noteq> None"
    using web(3) by (auto simp: https_issues_def split: if_splits)
  moreover have "valid_slug (sv_client_id (wc_service w))" "43 \<le> length (sv_secret (wc_service w))"
    using web(2) by (auto simp: web(1) web_config_of_def web_checks_def clientSecretEnv_def dest!: required_given)
  ultimately show ?thesis using issuer secure size by (simp add: p)
qed

text \<open>The scheme is compared as it is written: an issuer that begins with \<open>HTTPS://\<close> counts as not published over https.\<close>

lemma scheme_case_matters:
  "\<not> cookieSecure (c\<lparr>af_issuer := ''HTTPS://auth.jp''\<rparr>)" "auth_https_checks (c\<lparr>af_issuer := ''HTTPS://auth.jp''\<rparr>) = []"
  by (simp_all add: cookieSecure_def auth_https_checks_def)

definition fx_tools :: env_tools where
  "fx_tools = \<lparr>et_number = (\<lambda>s. Some 3000), et_is_url = (\<lambda>_. True), et_is_email = (\<lambda>_. True), et_json = (\<lambda>_. None)\<rparr>"

definition fx_auth_vars :: env_vars where
  "fx_auth_vars = map_of [(''ISSUER'', ''https://auth.jp''), (''DATABASE_URL'', ''postgres://db''),
     (''TOKEN_ENCRYPTION_KEY_ID'', ''k1''), (''TOKEN_ENCRYPTION_KEY'', replicate 43 CHR ''A''),
     (''SIGNING_KEY_PEM'', ''pem''), (''REDIS_URL'', ''redis://r''), (''SPA_DIR'', ''build''),
     (''COGNITO_ADAPTER'', ''sdk''), (''COGNITO_REGION'', ''r''), (''COGNITO_USER_POOL_ID'', ''p''),
     (''COGNITO_CLIENT_ID'', ''c''), (''COGNITO_CLIENT_SECRET'', ''s'')]"

definition fx_web_vars :: env_vars where
  "fx_web_vars = map_of [(''PORT'', ''3000''), (''PUBLIC_SCHEME'', ''https''), (''ISSUER'', ''https://auth.jp''),
     (''REDIS_URL'', ''redis://r''), (''CLIENT_ID'', ''crm''), (''CLIENT_SECRET'', replicate 43 CHR ''s''),
     (''SERVICE_NAME'', ''CRM''), (''BASE_HOST'', ''crm.jp''), (''API_BASE_URL'', ''https://api.crm.jp''), (''SPA_DIR'', ''build'')]"

theorem published_on_production_values_witness:
  "\<exists>p w. start_auth fx_tools fx_auth_vars = Inr p \<and> loadWebCoreConfig fx_tools fx_web_vars = Inr w \<and>
     ap_secure p \<and> ap_redis p \<noteq> None \<and> 43 \<le> length (sv_secret (wc_service w))"
proof -
  have "case start_auth fx_tools fx_auth_vars of Inr p \<Rightarrow> ap_secure p | Inl _ \<Rightarrow> False" by code_simp
  then obtain p where p: "start_auth fx_tools fx_auth_vars = Inr p" "ap_secure p" by (auto split: sum.splits)
  have "case loadWebCoreConfig fx_tools fx_web_vars of Inr w \<Rightarrow> True | Inl _ \<Rightarrow> False" by code_simp
  then obtain w where w: "loadWebCoreConfig fx_tools fx_web_vars = Inr w" by (auto split: sum.splits)
  show ?thesis using published_on_production_values [OF p(1) w] p w by blast
qed

end
