(* ===== verification/AuthSite.thy ===== *)
theory AuthSite
  imports WebApp
begin

text \<open>
  apps/auth-api/src/interface/http/app.ts as one application around the limiters and routes of AuthApp: the
  policy of its answers, the assets in front of everything, the limit of a body, and the screens for every
  GET no route takes. The file that the static middleware finds and the development server are arguments.
\<close>

section \<open>Requests and answers\<close>

record full_request = site_request +
  fq_size :: nat
  fq_search :: string
  fq_accept :: "string option"

datatype auth_page_body =
  Auth_answer site_answer | Auth_file string | Auth_html string | Auth_dev http_response
| Auth_health | Auth_too_large | Auth_not_found | Auth_failed

record auth_page_answer =
  aa_body :: auth_page_body
  aa_cache :: string

definition uncached :: "auth_page_body \<Rightarrow> auth_page_answer" where
  "uncached b = \<lparr>aa_body = b, aa_cache = ''no-store''\<rparr>"

text \<open>The policy has no form-action: the answer to the login form redirects to the services.\<close>

definition auth_security_policy :: "spa_csp \<Rightarrow> (string \<times> string list) list" where
  "auth_security_policy csp =
     [(''default-src'', [quoted ''self'']), (''script-src'', script_src csp), (''connect-src'', connect_src csp),
      (''style-src'', [quoted ''self'', quoted ''unsafe-inline'']), (''img-src'', [quoted ''self'', ''data:'']),
      (''frame-ancestors'', [quoted ''none''])]"

definition AUTH_BODY_LIMIT :: nat where "AUTH_BODY_LIMIT = 16 * 1024"

definition full_get :: "('z) full_request_scheme \<Rightarrow> bool" where
  "full_get rq = (sq_method rq \<in> {''GET'', ''HEAD''})"

section \<open>The application\<close>

definition auth_assets :: "spa_site \<Rightarrow> full_request \<Rightarrow> auth_page_answer option" where
  "auth_assets pages rq =
     (case st_options pages of
        Spa_static _ \<Rightarrow>
          if under ''/assets'' (sq_path rq)
          then map_option (\<lambda>f. \<lparr>aa_body = Auth_file f, aa_cache = ''public, max-age=31536000, immutable''\<rparr>)
            (st_file pages (sq_path rq))
          else None
      | _ \<Rightarrow> None)"

definition auth_screens :: "spa_site \<Rightarrow> (string \<Rightarrow> string \<Rightarrow> http_response option) \<Rightarrow> full_request \<Rightarrow> auth_page_body" where
  "auth_screens pages dev rq =
     (case st_options pages of
        Spa_static _ \<Rightarrow>
          (case st_file pages (sq_path rq) of
             Some f \<Rightarrow> Auth_file f
           | None \<Rightarrow> if full_get rq then Auth_html (st_index pages) else Auth_not_found)
      | Spa_proxy url \<Rightarrow>
          if \<not> full_get rq then Auth_not_found
          else (case dev (resolve_url (sq_path rq @ fq_search rq) url)
              (case fq_accept rq of Some a \<Rightarrow> a | None \<Rightarrow> ''*/*'') of
            None \<Rightarrow> Auth_failed
          | Some r \<Rightarrow> Auth_dev r)
      | Spa_none \<Rightarrow> if full_get rq then Auth_html SPA_EMPTY else Auth_not_found)"

text \<open>HEAD takes the routes of GET.\<close>

definition routed :: "full_request \<Rightarrow> site_request" where
  "routed rq = site_request.truncate (if sq_method rq = ''HEAD'' then rq\<lparr>sq_method := ''GET''\<rparr> else rq)"

definition createAuthApp ::
  "('c, 'z) auth_env_scheme \<Rightarrow> auth_site \<Rightarrow> spa_site \<Rightarrow> (string \<Rightarrow> string \<Rightarrow> http_response option) \<Rightarrow>
   full_request \<Rightarrow> 'c auth_net \<Rightarrow> auth_page_answer \<times> 'c auth_net" where
  "createAuthApp env site pages dev rq n =
     (case auth_assets pages rq of
        Some a \<Rightarrow> (a, n)
      | None \<Rightarrow>
          if fq_size rq > AUTH_BODY_LIMIT then (uncached Auth_too_large, n)
          else if sq_path rq = ''/healthz'' \<and> full_get rq then (uncached Auth_health, n)
          else (let (a, n') = auth_app env site (routed rq) n in
            (case a of
               Too_many_requests _ \<Rightarrow> uncached (Auth_answer a)
             | _ \<Rightarrow>
                 if map_of (routes_of env site (routed rq)) (sq_path rq) = None then uncached (auth_screens pages dev rq)
                 else \<lparr>aa_body = Auth_answer a,
                   aa_cache = (if sq_path rq = ''/jwks'' then ''public, max-age=300'' else ''no-store'')\<rparr>, n')))"

section \<open>What may be cached\<close>

lemma jwks_answer:
  assumes "map_of (routes_of env site q) ''/jwks'' \<noteq> None" "auth_app env site q n = (a, n')" "sq_path q = ''/jwks''"
    and "\<And>k. a \<noteq> Too_many_requests k"
  shows "a = Route (Body 200 (Document (toJwks [sx_public_jwk site])), []) \<and> an_state n' = an_state n"
proof -
  have get: "sq_method q = ''GET''"
    using assms(1) by (auto simp: routes_of_def AuthApp.post_routes_def delete_routes_def Let_def split: if_splits)
  then have "run_state (auth_routes env site q) (an_state n) =
      (Route (Body 200 (Document (toJwks [sx_public_jwk site])), []), an_state n)"
    using assms(3) by (simp add: auth_routes_def routes_of_def get_routes_def Let_def)
  then show ?thesis
    using assms(2,4) by (auto simp: auth_app_def case_prod_beta Let_def split: if_splits)
qed

text \<open>
  Only public material may be cached: an answer with another Cache-Control than no-store is a built asset or
  the public keys; it sets no cookie, and serving it leaves the sessions and stores of the server as they were.
\<close>

lemma only_public_answers_cached:
  assumes "createAuthApp env site pages dev rq n = (a, n')" "aa_cache a \<noteq> ''no-store''"
  shows "((\<exists>f. aa_body a = Auth_file f \<and> under ''/assets'' (sq_path rq)) \<or>
      aa_body a = Auth_answer (Route (Body 200 (Document (toJwks [sx_public_jwk site])), []))) \<and>
    an_state n' = an_state n"
proof (cases "auth_assets pages rq")
  case (Some x)
  then show ?thesis using assms by (auto simp: createAuthApp_def auth_assets_def split: spa_options.splits if_splits)
next
  case None
  obtain b m where step: "auth_app env site (routed rq) n = (b, m)" by (cases "auth_app env site (routed rq) n")
  from assms None step have b: "n' = m" "sq_path rq = ''/jwks''" "\<And>k. b \<noteq> Too_many_requests k" "aa_body a = Auth_answer b"
      "map_of (routes_of env site (routed rq)) (sq_path rq) \<noteq> None"
    by (auto simp: createAuthApp_def uncached_def Let_def split: if_splits site_answer.splits)
  have "sq_path (routed rq) = ''/jwks''" using b(2) by (simp add: routed_def site_request.defs)
  then show ?thesis using jwks_answer [OF _ step] b by simp
qed

end
