(* ===== verification/Spec2Isabelle.thy ===== *)
theory Spec2Isabelle
  imports Jwks Tokens Totp Login Logout MockCognito RefreshRace WebCore CrmApi CmsApi Handshake PgSession PgRows CognitoSdk RedisStore Config AuthSite
begin

text \<open>
  A verification development of multi-domain-sandbox: an OpenID Connect authorization server
  (apps/auth-api), the backends-for-frontend of its services (packages/web-core and
  packages/oidc-client, one process per service, one host name per tenant), the services' APIs
  (packages/api-core with apps/crm-api and apps/cms-api), the wire formats between them
  (packages/api-contract), the single-page applications in the browser (apps/*-web, packages/web-ui) and
  the library all of them use (packages/shared).

  How the program works. A browser opens \<open>tenant.service\<close>; the BFF finds the OIDC client of that host
  name, sends the browser to the authorization server with PKCE, state and nonce, exchanges the code
  it gets back for tokens and keeps them in a tenant session under a cookie. The authorization server
  authenticates with Cognito (password, then a TOTP code), keeps an SSO session, issues one-shot
  codes and families of one-shot refresh tokens, and tells services by signed logout tokens when a
  session ends. An API server verifies the access token, resolves the tenant from the host name, the
  member from its own tables and the permissions from role and overrides.

  Theories and code.
  \<^item> Prelude, Bytes: results, JavaScript strings, state-passing operations and their frames
    (\<open>keeps\<close>), byte buffers, base64url.
  \<^item> KvStore, SharedText, Crypto, Jwks, Totp: packages/shared/src. The stores with a time to live and
    their locale \<open>ttl_store\<close>; redirect templates, return_to, cookies, secrets, PKCE, rate limit;
    encryption at rest; JWT and the JWKS cache; base32 and TOTP.
  \<^item> Identity, AuthState, Fixture: apps/auth-api/src/domain, the memory repositories of
    apps/auth-api/src/infrastructure, the ports and helpers; a concrete installation for witnesses.
  \<^item> Session, Authorize, Tokens, Login, Logout, MockCognito: apps/auth-api/src/application/usecases and
    the mock Cognito adapter (locale \<open>second_factor\<close>).
  \<^item> AuthHttp, AuthApp, AuthSite: apps/auth-api/src/interface/http, handlers, limiters and routes, and the
    application around them with its policy, assets and screens.
  \<^item> OidcClient, ApiClient, RefreshRace, TenantSessions, BffRoutes: packages/oidc-client/src.
    RefreshRace runs the requests of one session as interleaved steps.
  \<^item> WebCore, Spa, WebApp: packages/web-core/src with packages/shared/src/spa.ts and views.ts: host
    resolution, the proxy, \<open>/session\<close>; the delivery of an application with the hashes of its inline scripts
    and its Content-Security-Policy, and the pages servers write; the whole application of a service.
  \<^item> ApiContext, ApiMembers, TenantRows, CrmApi, CmsApi: packages/api-core/src and the two services;
    locales \<open>member_repository\<close> and \<open>tenant_rows\<close> for their repositories.
  \<^item> Pg, PgIdentity, PgSession, PgMembers, PgRows: the PostgreSQL repositories of the three databases, their
    SQL over lists of rows (locales \<open>member_repositories\<close>, \<open>stamped_table\<close>, \<open>row_stores\<close>), each against the memory
    repository it stands beside. RedisStore: the Redis stores against the memory stores. CognitoSdk: the
    adapter of the real Cognito, a second interpretation of \<open>second_factor\<close>.
  \<^item> SpaClient, Contracts, Screens: packages/web-ui/src/lib, packages/api-contract/src and the screens of the
    services: the calls of a page through the BFF, every answer of the APIs read back by its schema (locale
    \<open>codec\<close>), forms and the permission editor. AuthScreens: apps/auth-web, its loaders and forms against
    the routes of the authorization server, in a browser that keeps cookies.
  \<^item> Config: the configuration of every process and the start of the authorization server.
  \<^item> Wire, Handshake and this theory: the servers connected over HTTP, and the properties that span them.

  How state and operations correspond. A class with private fields is a record and its methods are
  functions from the record to result and record; a use case that receives \<open>deps\<close> is a value of the
  \<open>state\<close> type over \<open>auth_state\<close> (or the BFF's, or the API server's) with the read-only part of
  \<open>deps\<close> in an environment record. \<open>Result\<close> is the sum type, a thrown error is a value of an error type
  or of the outcome it ends in, \<open>undefined\<close> is \<open>None\<close>. A JavaScript \<open>Map\<close> is a partial map, or an
  association list where its order is read. Names are the source's, with a suffix or prefix where HOL
  uses the name.

  What is a parameter. SHA-256, HMAC, AES-GCM, RSA, jose, random bytes and ulid, the HTTP transport, the
  host part of URL parsing, zod's e-mail pattern, Cognito (the AWS client, its SRP helper), the Redis
  server, the router's wildcards, HTML escaping, files, JSON text and the browser's fetch are functions in
  the environments or arguments; what the proofs need of them is a named hypothesis (\<open>redis_documented\<close>,
  \<open>documented\<close> of CognitoSdk and others), and each such hypothesis is met by concrete functions in a witness.

  Decisions. The clock is constant during one operation and advances between operations.
  \<open>Promise.all\<close> makes its calls in list order, except in RefreshRace where every await is a step.
  Strings are character lists (one byte per character where bytes matter). Seconds are unbounded
  integers; the 32-bit accumulator of base32 and the 31-bit truncation of TOTP are words. Where the
  code loops until a lock is free the model takes the number of polls from the code's deadline, so no
  definition needs fuel beyond what the source bounds; the script scanner is a \<open>partial_function\<close>, and that
  it ends on every document is a theorem. An SQL statement is the list operation it denotes: the order of a
  SELECT without ORDER BY is left open, a refused constraint changes nothing, row level security filters by
  the tenant of the transaction, and a connection that fails is not modelled. HEAD is routed as GET.

  Groups of lemmas. Store laws (\<open>kv_views\<close>) give one-shot and expiry facts; frame lemmas (\<open>keeps\<close>) show what
  a use case leaves alone; invariants of reachable states (Tokens, TenantSessions, Login) carry the
  properties of families, sessions and attempts; refinement lemmas tie each repository to its
  contract; round trips connect encoders and decoders; interpretations of \<open>codec\<close> give the contract of every
  answer; the last group replays a request of one server, or of a page, as the use case of the other.

  Not modelled. The layout of the React screens, which buttons a permission shows and the components they
  are made of; opening ports and connections, the wiring of the APIs beyond their addresses; response
  headers other than cookies and the policy; page texts, which are kept as the kind they are written for;
  provisioning, Terraform, seed data, smoke and browser scripts, the checker of import layers, test support
  and log output: input and output without a decision a claim rests on.
\<close>

section \<open>Servers over HTTP\<close>


definition fx_logout_options :: sign_options where
  "fx_logout_options = logout_token_options fx_env 1010 ''j1'' ''crm'' ''s1''"


text \<open>
  C22: An API server that administers its members over HTTP gets exactly what the authorization server's use
  cases return: an invitation the administration API accepts yields the invited user, a removal its outcome,
  each of the three errors of the use cases arrives as the error of the same name, and the authorization
  server is left in the state of the use case.
\<close>

theorem administration_over_http:
  assumes "admin_wired c aenv site caller {invitation_body tenant email name, removal_body tenant user}"
    and "knows_client aenv (identity (an_state n)) (hc_client_id c) (hc_secret c) oc"
    and "quota_left ''admin'' caller n"
    and "clean_invitation site tenant email name" "short_id user"
    and "case fst (run_state (inviteServiceMember aenv oc tenant email name) (an_state n)) of
      Inl _ \<Rightarrow> True | Inr u \<Rightarrow> short_id (user_id u)"
  shows "admin_view (run_state (http_invite c tenant email name) n) =
      apfst Some (admin_outcome invited_of (run_state (inviteServiceMember aenv oc tenant email name) (an_state n))) \<and>
    admin_view (run_state (http_revoke c tenant user) n) =
      admin_outcome id (run_state (revokeServiceMember aenv oc tenant user) (an_state n))"
proof
  have "short_id (user_id u)" if "fst (run_state (inviteServiceMember aenv oc tenant email name) (an_state n)) = Inr u" for u
    using assms(6) that by simp
  from invite_call [OF assms(1) _ assms(2-4) this]
  show "admin_view (run_state (http_invite c tenant email name) n) =
      apfst Some (admin_outcome invited_of (run_state (inviteServiceMember aenv oc tenant email name) (an_state n)))"
    by (simp add: admin_view_def admin_outcome_def)
  have "short_id tenant" using assms(4) by (simp add: clean_invitation_def)
  then show "admin_view (run_state (http_revoke c tenant user) n) =
      admin_outcome id (run_state (revokeServiceMember aenv oc tenant user) (an_state n))"
    using revoke_call [OF assms(1) _ assms(2,3) _ assms(5)] by (simp add: admin_view_def admin_outcome_def)
qed

definition fx_invitation :: json where "fx_invitation = invitation_body ''t1'' ''a@acme.jp'' None"

definition fx_removal :: json where "fx_removal = removal_body ''t1'' ''u1''"

definition fx_admin_site :: auth_site where
  "fx_admin_site = fx_site\<lparr>sx_parse := (\<lambda>t. if t = ''1'' then Some fx_invitation else Some fx_removal)\<rparr>"

definition fx_admin_http :: "unit auth_net admin_client" where
  "fx_admin_http = fx_admin_client (\<lambda>j. if j = fx_invitation then ''1'' else ''2'') fx_admin_site"

theorem administration_over_http_witness:
  "admin_view (run_state (http_invite fx_admin_http ''t1'' ''a@acme.jp'' None) fx_net) =
      apfst Some (admin_outcome invited_of
        (run_state (inviteServiceMember fx_env fx_wire_oc ''t1'' ''a@acme.jp'' None) fx_wire_auth)) \<and>
   admin_view (run_state (http_revoke fx_admin_http ''t1'' ''u1'') fx_net) =
      admin_outcome id (run_state (revokeServiceMember fx_env fx_wire_oc ''t1'' ''u1'') fx_wire_auth)"
proof -
  have "admin_wired fx_admin_http fx_env fx_admin_site fx_caller {fx_invitation, fx_removal}"
    by (simp add: admin_wired_def fx_admin_http_def fx_admin_client_def fx_admin_site_def fx_site_def
        routes_by_wildcard_def)
  moreover have "clean_invitation fx_admin_site ''t1'' ''a@acme.jp'' None"
    by (simp add: clean_invitation_def fx_admin_site_def fx_site_def short_id_def)
  moreover have "fst (run_state (inviteServiceMember fx_env fx_wire_oc ''t1'' ''a@acme.jp'' None) fx_wire_auth) =
      Inr fx_user"
    by code_simp
  ultimately show ?thesis
    using administration_over_http [of fx_admin_http fx_env fx_admin_site fx_caller "''t1''" "''a@acme.jp''" None
        "''u1''" fx_net fx_wire_oc] fx_knows fx_quota(2)
    by (simp add: fx_invitation_def fx_removal_def fx_admin_http_def fx_admin_client_def short_id_def fx_user_def
        fx_net_def)
qed

section \<open>Login and logout across the servers\<close>


definition fx_id_options :: sign_options where
  "fx_id_options = id_token_options fx_env 1010 (grant_token_input fx_wire_oc fx_grant fx_user fx_tenant)"

definition fx_login_start :: pre_auth_state where
  "fx_login_start = \<lparr>pa_state = ''st'', pa_nonce = ''n'', pa_code_verifier = replicate 43 CHR ''a'',
     pa_return_to = ''/home''\<rparr>"




end
